(* ===== verification/Prelude.thy ===== *)
theory Prelude
  imports Main "HOL-Library.Multiset" "HOL-Library.Sublist"
begin

text \<open>
  The shared vocabulary of the development: the collections of simplification rules, JavaScript
  objects and insertion-ordered maps as association lists, and the stable sort of
  \<^verbatim>\<open>Array.prototype.sort\<close> over a comparator.
\<close>

named_theorems obj_simps \<open>look-ups in insertion-ordered objects\<close>
named_theorems text_simps \<open>splitting, joining and encoding of strings\<close>
named_theorems num_simps \<open>numbers and their decimal text\<close>

section \<open>Insertion-ordered maps\<close>

text \<open>
  A JavaScript \<^verbatim>\<open>Map\<close> is an association list with distinct keys in insertion order:
  \<^verbatim>\<open>set\<close> overwrites in place or appends, \<^verbatim>\<open>delete\<close> removes, \<^verbatim>\<open>get\<close> is \<open>map_of\<close>.
\<close>

type_synonym ('k, 'v) omap = "('k \<times> 'v) list"

fun omap_set :: "'k \<Rightarrow> 'v \<Rightarrow> ('k, 'v) omap \<Rightarrow> ('k, 'v) omap" where
  "omap_set k v [] = [(k, v)]"
| "omap_set k v ((k', v') # m) =
     (if k = k' then (k, v) # m else (k', v') # omap_set k v m)"

definition omap_delete :: "'k \<Rightarrow> ('k, 'v) omap \<Rightarrow> ('k, 'v) omap" where
  "omap_delete k m = filter (\<lambda>(k', _). k' \<noteq> k) m"

definition keys :: "('k, 'v) omap \<Rightarrow> 'k list" where
  "keys m = map fst m"

lemma map_of_omap_set [obj_simps]: "map_of (omap_set k v m) = (map_of m)(k \<mapsto> v)"
  by (induction k v m rule: omap_set.induct) auto

lemma set_keys_omap_set [obj_simps]: "set (keys (omap_set k v m)) = insert k (set (keys m))"
  by (induction k v m rule: omap_set.induct) (auto simp: keys_def)

lemma distinct_omap_set [obj_simps]:
  "distinct (keys m) \<Longrightarrow> distinct (keys (omap_set k v m))"
proof (induction k v m rule: omap_set.induct)
  case (2 k v k' v' m)
  then show ?case using set_keys_omap_set [of k v m] by (auto simp: keys_def)
qed (simp add: keys_def)

lemma map_of_omap_delete [obj_simps]: "map_of (omap_delete k m) = (map_of m)(k := None)"
  by (induction m) (auto simp: omap_delete_def)

lemma distinct_omap_delete [obj_simps]:
  "distinct (keys m) \<Longrightarrow> distinct (keys (omap_delete k m))"
  by (induction m) (auto simp: omap_delete_def keys_def)

lemma map_of_None_keys [obj_simps]: "map_of m k = None \<longleftrightarrow> k \<notin> set (keys m)"
  by (simp add: keys_def map_of_eq_None_iff)

lemma keys_dom: "set (keys m) = dom (map_of m)"
  by (simp add: keys_def dom_map_of_conv_image_fst)

text \<open>Two maps with the same number of keys agree when one is contained in the other.\<close>

lemma map_of_eq_by_length:
  assumes da: "distinct (keys a)" and db: "distinct (keys b)"
    and len: "length a = length b"
    and sub: "\<And>k. k \<in> set (keys a) \<Longrightarrow> map_of a k = map_of b k"
  shows "map_of a = map_of b"
proof -
  have "set (keys a) \<subseteq> set (keys b)"
    using sub by (metis map_of_None_keys subsetI)
  moreover have "card (set (keys a)) = card (set (keys b))"
    using distinct_card [OF da] distinct_card [OF db] len by (simp add: keys_def)
  ultimately have same: "set (keys a) = set (keys b)"
    by (simp add: card_subset_eq)
  show ?thesis
  proof
    fix k
    show "map_of a k = map_of b k"
      using sub [of k] same by (metis map_of_None_keys)
  qed
qed

lemma map_of_eq_length:
  assumes "distinct (keys a)" and "distinct (keys b)" and "map_of a = map_of b"
  shows "length a = length b"
proof -
  have "set (keys a) = set (keys b)" using assms(3) by (simp add: keys_dom)
  then show ?thesis
    using distinct_card [OF assms(1)] distinct_card [OF assms(2)] by (simp add: keys_def)
qed

section \<open>Sorting with a comparator\<close>

text \<open>
  \<^verbatim>\<open>Array.prototype.sort\<close> is stable: for a consistent comparator its result is the
  one an insertion sort gives that puts an element before the first one it does not follow.
\<close>

fun insert_by :: "('a \<Rightarrow> 'a \<Rightarrow> bool) \<Rightarrow> 'a \<Rightarrow> 'a list \<Rightarrow> 'a list" where
  "insert_by le x [] = [x]"
| "insert_by le x (y # ys) = (if le x y then x # y # ys else y # insert_by le x ys)"

fun sort_by :: "('a \<Rightarrow> 'a \<Rightarrow> bool) \<Rightarrow> 'a list \<Rightarrow> 'a list" where
  "sort_by le [] = []"
| "sort_by le (x # xs) = insert_by le x (sort_by le xs)"

lemma mset_insert_by: "mset (insert_by le x xs) = add_mset x (mset xs)" for x :: 'a
  by (induction xs) auto

lemma mset_sort_by [simp]: "mset (sort_by le xs) = mset xs"
  by (induction xs) (auto simp: mset_insert_by)

lemma set_sort_by [simp]: "set (sort_by le xs) = set xs"
  by (metis mset_sort_by set_mset_mset)

lemma length_sort_by [simp]: "length (sort_by le xs) = length xs"
  by (metis mset_sort_by size_mset)

lemma set_insert_by [simp]: "set (insert_by le x xs) = insert x (set xs)"
  by (induction xs) auto

lemma sorted_insert_by:
  assumes total: "\<And>a b. le a b \<or> le b a" and trans: "\<And>a b c. le a b \<Longrightarrow> le b c \<Longrightarrow> le a c"
    and "sorted_wrt le xs"
  shows "sorted_wrt le (insert_by le x xs)"
  using assms(3)
proof (induction xs)
  case (Cons y ys)
  then show ?case using total [of x y] trans by auto
qed simp

lemma sorted_sort_by:
  assumes "\<And>a b. le a b \<or> le b a" and "\<And>a b c. le a b \<Longrightarrow> le b c \<Longrightarrow> le a c"
  shows "sorted_wrt le (sort_by le xs)"
  using assms by (induction xs) (auto intro!: sorted_insert_by)

lemma sum_list_sort_by [simp]:
  "sum_list (map f (sort_by le xs)) = sum_list (map f xs)" for f :: "'a \<Rightarrow> int"
  by (metis mset_map mset_sort_by sum_mset_sum_list)

end
