(* ===== verification/Js_Text.thy ===== *)
theory Js_Text
  imports Prelude
begin

text \<open>
  JavaScript strings, as the bytes of their UTF-8 encoding (\<open>string\<close> is a list of 8-bit
  characters): splitting and joining, trimming, the length in UTF-16 code units, the percent
  encodings of \<^verbatim>\<open>encodeURIComponent\<close> and of
  \<^verbatim>\<open>application/x-www-form-urlencoded\<close>, and \<^verbatim>\<open>URLSearchParams\<close>.
  Everything here is the language's and the platform's standard library as the sources use it.
\<close>

section \<open>Splitting and joining\<close>

abbreviation starts_with :: "string \<Rightarrow> string \<Rightarrow> bool" where
  "starts_with p s \<equiv> prefix p s"

text \<open>\<^verbatim>\<open>s.indexOf(c)\<close> with the two slices around it; \<open>None\<close> is \<^verbatim>\<open>-1\<close>.\<close>

fun split_first :: "char \<Rightarrow> string \<Rightarrow> (string \<times> string) option" where
  "split_first c [] = None"
| "split_first c (x # xs) =
     (if x = c then Some ([], xs)
      else case split_first c xs of None \<Rightarrow> None | Some (a, b) \<Rightarrow> Some (x # a, b))"

text \<open>\<^verbatim>\<open>s.split(c)\<close> for a one-character separator.\<close>

fun split_on :: "char \<Rightarrow> string \<Rightarrow> string list" where
  "split_on c [] = [[]]"
| "split_on c (x # xs) =
     (if x = c then [] # split_on c xs
      else case split_on c xs of [] \<Rightarrow> [[x]] | w # ws \<Rightarrow> (x # w) # ws)"

fun join :: "string \<Rightarrow> string list \<Rightarrow> string" where
  "join sep [] = []"
| "join sep [w] = w"
| "join sep (w # ws) = w @ sep @ join sep ws"

lemma split_first_append [text_simps]:
  "c \<notin> set a \<Longrightarrow> split_first c (a @ c # b) = Some (a, b)"
  by (induction a) auto

lemma split_first_None [text_simps]: "split_first c s = None \<longleftrightarrow> c \<notin> set s"
  by (induction s) (auto split: option.splits)

lemma split_first_Some:
  "split_first c s = Some (a, b) \<longleftrightarrow> s = a @ c # b \<and> c \<notin> set a"
proof
  assume "split_first c s = Some (a, b)"
  then show "s = a @ c # b \<and> c \<notin> set a"
    by (induction s arbitrary: a) (auto split: if_splits option.splits)
qed (simp add: split_first_append)

lemma split_on_nonempty [simp]: "split_on c s \<noteq> []"
  by (induction s) (auto split: list.splits)

lemma split_on_no_sep [text_simps]: "c \<notin> set s \<Longrightarrow> split_on c s = [s]"
  by (induction s) auto

lemma split_on_append [text_simps]:
  "c \<notin> set a \<Longrightarrow> split_on c (a @ c # b) = a # split_on c b"
  by (induction a) auto

lemma split_on_join [text_simps]:
  "ws \<noteq> [] \<Longrightarrow> (\<And>w. w \<in> set ws \<Longrightarrow> c \<notin> set w) \<Longrightarrow> split_on c (join [c] ws) = ws"
proof (induction "[c]" ws rule: join.induct)
  case (3 w v ws)
  then show ?case by (auto simp: split_on_append)
qed (auto simp: split_on_no_sep)

lemma split_on_pieces: "w \<in> set (split_on c s) \<Longrightarrow> c \<notin> set w \<and> set w \<subseteq> set s"
proof (induction s arbitrary: w)
  case (Cons x s)
  then show ?case by (cases "split_on c s") (fastforce split: if_splits)+
qed simp

lemma set_join: "set (join sep ws) \<subseteq> set sep \<union> (\<Union>w \<in> set ws. set w)"
  by (induction sep ws rule: join.induct) auto

lemma join_eq_Nil [simp]: "sep \<noteq> [] \<Longrightarrow> join sep ws = [] \<longleftrightarrow> ws = [] \<or> ws = [[]]"
  by (induction sep ws rule: join.induct) auto

lemma join_snoc: "ws \<noteq> [] \<Longrightarrow> join sep (ws @ [w]) = join sep ws @ sep @ w"
proof (induction ws)
  case (Cons v ws)
  then show ?case by (cases ws) simp_all
qed simp

section \<open>Length, trimming and case\<close>

text \<open>
  \<^verbatim>\<open>s.length\<close> counts UTF-16 code units: a continuation byte adds none, the lead
  byte of a four-byte sequence stands for a surrogate pair.
\<close>

definition units_of_byte :: "char \<Rightarrow> nat" where
  "units_of_byte c =
     (let n = of_char c :: nat in if 128 \<le> n \<and> n < 192 then 0 else if 240 \<le> n then 2 else 1)"

definition js_length :: "string \<Rightarrow> nat" where
  "js_length s = sum_list (map units_of_byte s)"

definition is_ascii :: "string \<Rightarrow> bool" where
  "is_ascii s \<longleftrightarrow> (\<forall>c \<in> set s. (of_char c :: nat) < 128)"

lemma js_length_ascii [text_simps]: "is_ascii s \<Longrightarrow> js_length s = length s"
  by (induction s) (auto simp: js_length_def is_ascii_def units_of_byte_def Let_def)

lemma js_length_append: "js_length (a @ b) = js_length a + js_length b"
  by (simp add: js_length_def)

text \<open>The UTF-8 bytes of a list of code points.\<close>

definition utf8_char :: "nat \<Rightarrow> string" where
  "utf8_char n =
     (if n < 128 then [char_of n]
      else if n < 2048 then [char_of (192 + n div 64), char_of (128 + n mod 64)]
      else if n < 65536 then
        [char_of (224 + n div 4096), char_of (128 + n div 64 mod 64), char_of (128 + n mod 64)]
      else
        [char_of (240 + n div 262144), char_of (128 + n div 4096 mod 64),
         char_of (128 + n div 64 mod 64), char_of (128 + n mod 64)])"

definition cps :: "nat list \<Rightarrow> string" where
  "cps ns = concat (map utf8_char ns)"

text \<open>The white space \<^verbatim>\<open>trim\<close> strips: the ECMAScript WhiteSpace and LineTerminator code points.\<close>

definition whitespace :: "string list" where
  "whitespace = map utf8_char
     ([9, 10, 11, 12, 13, 32, 160, 5760] @ [8192..<8203] @ [8232, 8233, 8239, 8287, 12288, 65279])"

fun strip_one :: "string list \<Rightarrow> string \<Rightarrow> string option" where
  "strip_one [] s = None"
| "strip_one (w # ws) s = (if prefix w s then Some (drop (length w) s) else strip_one ws s)"

fun strip_start_fuel :: "nat \<Rightarrow> string list \<Rightarrow> string \<Rightarrow> string" where
  "strip_start_fuel 0 ws s = s"
| "strip_start_fuel (Suc n) ws s =
     (case strip_one ws s of None \<Rightarrow> s | Some t \<Rightarrow> strip_start_fuel n ws t)"

definition strip_start :: "string list \<Rightarrow> string \<Rightarrow> string" where
  "strip_start ws s = strip_start_fuel (length s) ws s"

definition js_trim :: "string \<Rightarrow> string" where
  "js_trim s = rev (strip_start (map rev whitespace) (rev (strip_start whitespace s)))"

text \<open>Case mapping on ASCII letters.\<close>

definition lower_char :: "char \<Rightarrow> char" where
  "lower_char c = (let n = of_char c :: nat in if 65 \<le> n \<and> n \<le> 90 then char_of (n + 32) else c)"

definition upper_char :: "char \<Rightarrow> char" where
  "upper_char c = (let n = of_char c :: nat in if 97 \<le> n \<and> n \<le> 122 then char_of (n - 32) else c)"

definition ascii_lower :: "string \<Rightarrow> string" where "ascii_lower s = map lower_char s"
definition ascii_upper :: "string \<Rightarrow> string" where "ascii_upper s = map upper_char s"

definition is_digit :: "char \<Rightarrow> bool" where
  "is_digit c = (let n = of_char c :: nat in 48 \<le> n \<and> n \<le> 57)"

definition is_lower :: "char \<Rightarrow> bool" where
  "is_lower c = (let n = of_char c :: nat in 97 \<le> n \<and> n \<le> 122)"

definition is_upper :: "char \<Rightarrow> bool" where
  "is_upper c = (let n = of_char c :: nat in 65 \<le> n \<and> n \<le> 90)"

definition is_alnum :: "char \<Rightarrow> bool" where
  "is_alnum c = (is_lower c \<or> is_upper c \<or> is_digit c)"

section \<open>Percent encoding\<close>

definition hex_digit :: "nat \<Rightarrow> char" where
  "hex_digit n = ''0123456789ABCDEF'' ! n"

definition hex_table :: "(char \<times> nat) list" where
  "hex_table = [
     (CHR ''0'', 0), (CHR ''1'', 1), (CHR ''2'', 2), (CHR ''3'', 3), (CHR ''4'', 4), (CHR ''5'', 5), (CHR ''6'', 6), (CHR ''7'', 7), (CHR ''8'', 8),
     (CHR ''9'', 9), (CHR ''A'', 10), (CHR ''B'', 11), (CHR ''C'', 12), (CHR ''D'', 13), (CHR ''E'', 14), (CHR ''F'', 15),
     (CHR ''a'', 10), (CHR ''b'', 11), (CHR ''c'', 12), (CHR ''d'', 13), (CHR ''e'', 14), (CHR ''f'', 15)]"

definition hex_val :: "char \<Rightarrow> nat option" where
  "hex_val c = map_of hex_table c"

definition percent :: "char \<Rightarrow> string" where
  "percent c = [CHR ''%'', hex_digit (of_char c div 16), hex_digit (of_char c mod 16)]"

lemma hex_val_digits: "list_all (\<lambda>n. hex_val (hex_digit n) = Some n) [0..<16]"
  by (simp add: upt_rec hex_val_def hex_digit_def hex_table_def)

lemma hex_val_digit [text_simps]: "n < 16 \<Longrightarrow> hex_val (hex_digit n) = Some n"
  using hex_val_digits by (simp add: list_all_iff)

lemma of_char_div_16 [simp]: "(of_char c :: nat) div 16 < 16"
proof -
  have "(of_char c :: nat) < 256" by simp
  then show ?thesis by (simp add: less_mult_imp_div_less)
qed

lemma hex_pair [text_simps]:
  "char_of ((of_char c :: nat) div 16 * 16 + of_char c mod 16) = (c :: char)"
  by (simp add: div_mult_mod_eq)

lemma hex_digit_in: "n < 16 \<Longrightarrow> hex_digit n \<in> set ''0123456789ABCDEF''"
  unfolding hex_digit_def by (rule nth_mem) simp

text \<open>An escape holds a percent sign and upper-case hexadecimal digits only.\<close>

lemma percent_set: "set (percent c) \<subseteq> set ''%0123456789ABCDEF''"
  using hex_digit_in [of "of_char c div 16"] hex_digit_in [of "of_char c mod 16"]
  by (auto simp: percent_def)

lemma percent_avoids [text_simps]:
  "x \<notin> set ''%0123456789ABCDEF'' \<Longrightarrow> x \<notin> set (percent c)"
  using percent_set by blast

text \<open>Decoding of \<^verbatim>\<open>%XX\<close>; a percent sign not followed by two hexadecimal digits stays.\<close>

fun percent_decode :: "string \<Rightarrow> string" where
  "percent_decode (p # h # l # s) =
     (if p = CHR ''%'' then
        (case (hex_val h, hex_val l) of
           (Some a, Some b) \<Rightarrow> char_of (a * 16 + b) # percent_decode s
         | _ \<Rightarrow> p # percent_decode (h # l # s))
      else p # percent_decode (h # l # s))"
| "percent_decode s = s"

lemma percent_decode_percent [text_simps]: "percent_decode (percent c @ s) = c # percent_decode s"
  by (simp add: percent_def hex_val_digit hex_pair)

lemma percent_decode_plain [text_simps]: "c \<noteq> CHR ''%'' \<Longrightarrow> percent_decode (c # s) = c # percent_decode s"
  by (cases s; cases "tl s") auto

section \<open>Form encoding and URLSearchParams\<close>

definition form_safe :: "char \<Rightarrow> bool" where
  "form_safe c = (is_alnum c \<or> c \<in> {CHR ''*'', CHR ''-'', CHR ''.'', CHR ''_''})"

definition form_char :: "char \<Rightarrow> string" where
  "form_char c =
     (if c = CHR '' '' then ''+'' else if form_safe c then [c] else percent c)"

definition form_encode :: "string \<Rightarrow> string" where
  "form_encode s = concat (map form_char s)"

definition plus_to_space :: "string \<Rightarrow> string" where
  "plus_to_space s = map (\<lambda>c. if c = CHR ''+'' then CHR '' '' else c) s"

definition form_decode :: "string \<Rightarrow> string" where
  "form_decode s = percent_decode (plus_to_space s)"

type_synonym params = "(string \<times> string) list"

definition params_to_string :: "params \<Rightarrow> string" where
  "params_to_string ps = join ''&'' (map (\<lambda>(k, v). form_encode k @ ''='' @ form_encode v) ps)"

definition parse_pair :: "string \<Rightarrow> string \<times> string" where
  "parse_pair s =
     (case split_first (CHR ''='') s of
        None \<Rightarrow> (form_decode s, [])
      | Some (k, v) \<Rightarrow> (form_decode k, form_decode v))"

text \<open>\<^verbatim>\<open>new URLSearchParams(s)\<close> drops one leading question mark and skips empty pieces.\<close>

definition parse_params :: "string \<Rightarrow> params" where
  "parse_params s =
     map parse_pair (filter (\<lambda>w. w \<noteq> [])
       (split_on (CHR ''&'') (if prefix ''?'' s then tl s else s)))"

definition params_get :: "string \<Rightarrow> params \<Rightarrow> string option" where
  "params_get k ps = map_of ps k"

definition params_get_all :: "string \<Rightarrow> params \<Rightarrow> string list" where
  "params_get_all k ps = map snd (filter (\<lambda>(k', _). k' = k) ps)"

definition params_append :: "string \<Rightarrow> string \<Rightarrow> params \<Rightarrow> params" where
  "params_append k v ps = ps @ [(k, v)]"

text \<open>\<^verbatim>\<open>set\<close> overwrites the first pair of that name and deletes the others, or appends.\<close>

fun params_set :: "string \<Rightarrow> string \<Rightarrow> params \<Rightarrow> params" where
  "params_set k v [] = [(k, v)]"
| "params_set k v ((k', v') # ps) =
     (if k' = k then (k, v) # filter (\<lambda>(k'', _). k'' \<noteq> k) ps else (k', v') # params_set k v ps)"

lemma form_safe_avoids:
  "form_safe c \<Longrightarrow> c \<notin> {CHR ''&'', CHR ''='', CHR ''?'', CHR ''%'', CHR ''+'', CHR ''#''}"
  by (auto simp: form_safe_def is_alnum_def is_lower_def is_upper_def is_digit_def)

lemma form_char_set:
  assumes "x \<in> {CHR ''&'', CHR ''='', CHR ''?'', CHR ''#''}"
  shows "x \<notin> set (form_char c)"
proof (cases "form_safe c")
  case True
  then show ?thesis using assms form_safe_avoids [OF True] by (auto simp: form_char_def)
next
  case False
  have "x \<notin> set (percent c)" using assms by (intro percent_avoids) auto
  with False assms show ?thesis by (auto simp: form_char_def)
qed

lemma form_encode_set [text_simps]:
  "CHR ''&'' \<notin> set (form_encode s)" "CHR ''='' \<notin> set (form_encode s)" "CHR ''?'' \<notin> set (form_encode s)"
  "CHR ''#'' \<notin> set (form_encode s)"
  using form_char_set by (auto simp: form_encode_def)

lemma plus_to_space_percent: "plus_to_space (percent c) = percent c"
proof -
  have "CHR ''+'' \<notin> set (percent c)" by (rule percent_avoids) simp
  then show ?thesis unfolding plus_to_space_def by (intro map_idI) auto
qed

lemma form_decode_char: "form_decode (form_char c @ s) = c # form_decode s"
proof -
  have *: "plus_to_space (a @ b) = plus_to_space a @ plus_to_space b" for a b
    by (simp add: plus_to_space_def)
  show ?thesis
  proof (cases "c = CHR '' '' \<or> form_safe c")
    case True
    then have "c \<noteq> CHR ''%'' \<and> c \<noteq> CHR ''+''"
      using form_safe_avoids by auto
    with True show ?thesis
      by (auto simp: form_char_def form_decode_def plus_to_space_def percent_decode_plain)
  next
    case False
    then show ?thesis
      by (simp add: form_char_def form_decode_def * plus_to_space_percent percent_decode_percent)
  qed
qed

lemma form_decode_encode [text_simps]: "form_decode (form_encode s) = s"
proof (induction s)
  case (Cons c s)
  then show ?case by (simp add: form_encode_def form_decode_char)
qed (simp add: form_encode_def form_decode_def plus_to_space_def)

lemma parse_pair_encode:
  "parse_pair (form_encode k @ CHR ''='' # form_encode v) = (k, v)"
  by (simp add: parse_pair_def split_first_append form_encode_set form_decode_encode)

lemma params_no_question: "CHR ''?'' \<notin> set (params_to_string ps)"
proof
  assume "CHR ''?'' \<in> set (params_to_string ps)"
  then have "CHR ''?'' \<in> set ''&'' \<union> (\<Union>w \<in> set (map (\<lambda>(k, v). form_encode k @ ''='' @ form_encode v) ps). set w)"
    using set_join unfolding params_to_string_def by blast
  then show False by (auto simp: form_encode_set)
qed

lemma parse_params_to_string [text_simps]: "parse_params (params_to_string ps) = ps"
proof (cases "ps = []")
  case True
  then show ?thesis by (simp add: parse_params_def params_to_string_def)
next
  case False
  let ?ws = "map (\<lambda>(k, v). form_encode k @ ''='' @ form_encode v) ps"
  have "\<not> prefix ''?'' (params_to_string ps)"
    using params_no_question [of ps] by (cases "params_to_string ps") auto
  moreover have "split_on (CHR ''&'') (params_to_string ps) = ?ws"
    unfolding params_to_string_def using False
    by (intro split_on_join) (auto simp: form_encode_set)
  moreover have "filter (\<lambda>w. w \<noteq> []) ?ws = ?ws"
    by (auto simp: filter_id_conv)
  moreover have "map parse_pair ?ws = ps"
    by (intro map_idI [where xs = ps, folded o_def] | simp add: o_def case_prod_unfold parse_pair_encode)+
  ultimately show ?thesis by (simp add: parse_params_def del: filter.simps list.map)
qed

lemma params_to_string_empty [simp]: "params_to_string ps = [] \<longleftrightarrow> ps = []"
  by (metis parse_params_to_string join.simps(1) list.simps(8) params_to_string_def)

section \<open>encodeURIComponent\<close>

definition uri_safe :: "char \<Rightarrow> bool" where
  "uri_safe c = (is_alnum c \<or> c \<in> set ''-_.!~*()'' \<or> c = CHR 0x27)"

definition encode_uri_component :: "string \<Rightarrow> string" where
  "encode_uri_component s = concat (map (\<lambda>c. if uri_safe c then [c] else percent c) s)"

text \<open>
  \<^verbatim>\<open>decodeURIComponent\<close> throws on a percent sign without two hexadecimal digits and
  on escapes that are not UTF-8.
\<close>

fun uri_unescape :: "string \<Rightarrow> string option" where
  "uri_unescape [] = Some []"
| "uri_unescape (c # s) =
     (if c = CHR ''%'' then
        (case s of
           h # l # t \<Rightarrow>
             (case (hex_val h, hex_val l) of
                (Some a, Some b) \<Rightarrow> map_option (\<lambda>r. char_of (a * 16 + b) # r) (uri_unescape t)
              | _ \<Rightarrow> None)
         | _ \<Rightarrow> None)
      else map_option (\<lambda>r. c # r) (uri_unescape s))"

definition cont_byte :: "nat \<Rightarrow> bool" where "cont_byte n \<longleftrightarrow> 128 \<le> n \<and> n < 192"

fun utf8_ok :: "nat list \<Rightarrow> bool" where
  "utf8_ok [] = True"
| "utf8_ok (a # s) =
     (if a < 128 then utf8_ok s
      else if 194 \<le> a \<and> a < 224 then (case s of b # t \<Rightarrow> cont_byte b \<and> utf8_ok t | _ \<Rightarrow> False)
      else if 224 \<le> a \<and> a < 240 then
        (case s of
           b # c # t \<Rightarrow>
             cont_byte b \<and> cont_byte c \<and> (a = 224 \<longrightarrow> 160 \<le> b) \<and> (a = 237 \<longrightarrow> b < 160) \<and> utf8_ok t
         | _ \<Rightarrow> False)
      else if 240 \<le> a \<and> a < 245 then
        (case s of
           b # c # d # t \<Rightarrow>
             cont_byte b \<and> cont_byte c \<and> cont_byte d \<and> (a = 240 \<longrightarrow> 144 \<le> b) \<and> (a = 244 \<longrightarrow> b < 144)
               \<and> utf8_ok t
         | _ \<Rightarrow> False)
      else False)"

definition well_formed :: "string \<Rightarrow> bool" where
  "well_formed s \<longleftrightarrow> utf8_ok (map of_char s)"

definition decode_uri_component :: "string \<Rightarrow> string option" where
  "decode_uri_component s =
     (case uri_unescape s of None \<Rightarrow> None | Some t \<Rightarrow> if well_formed t then Some t else None)"

lemma uri_unescape_percent: "uri_unescape (percent c @ s) = map_option (\<lambda>r. c # r) (uri_unescape s)"
  by (simp add: percent_def hex_val_digit hex_pair)

lemma uri_unescape_encode [text_simps]: "uri_unescape (encode_uri_component s) = Some s"
proof (induction s)
  case (Cons c s)
  have "uri_safe c \<Longrightarrow> c \<noteq> CHR ''%''"
    by (auto simp: uri_safe_def is_alnum_def is_lower_def is_upper_def is_digit_def)
  with Cons show ?case
    by (auto simp: encode_uri_component_def uri_unescape_percent)
qed (simp add: encode_uri_component_def)

lemma decode_encode_uri [text_simps]:
  "well_formed s \<Longrightarrow> decode_uri_component (encode_uri_component s) = Some s"
  by (simp add: decode_uri_component_def uri_unescape_encode)

lemma encode_uri_set [text_simps]:
  assumes "x \<in> {CHR '';'', CHR ''='', CHR '' '', CHR ''&''}"
  shows "x \<notin> set (encode_uri_component s)"
proof -
  have "\<not> uri_safe x"
    using assms by (auto simp: uri_safe_def is_alnum_def is_lower_def is_upper_def is_digit_def)
  moreover have "x \<notin> set (percent c)" for c
    using assms by (intro percent_avoids) auto
  ultimately show ?thesis by (auto simp: encode_uri_component_def)
qed

lemma encode_uri_Nil [simp]: "encode_uri_component s = [] \<longleftrightarrow> s = []"
  by (cases s) (auto simp: encode_uri_component_def percent_def)

lemma utf8_ok_ascii: "\<forall>n \<in> set ns. n < 128 \<Longrightarrow> utf8_ok ns"
  by (induction ns) auto

lemma well_formed_ascii [text_simps]: "is_ascii s \<Longrightarrow> well_formed s"
  by (simp add: well_formed_def is_ascii_def utf8_ok_ascii)

end
