(* ===== verification/Js_Number.thy ===== *)
theory Js_Number
  imports Js_Text Complex_Main
begin

text \<open>
  JavaScript numbers. A finite Number is a rational; \<open>dbl\<close> is the rounding of IEEE 754
  binary64 (to nearest, ties to even) without its exponent bounds, applied wherever the source
  computes a quotient or a product that need not be representable. Counters are integers:
  \<open>dbl_of_int\<close> shows that the rounding is the identity up to \<open>2 ^ 53\<close> in absolute value, the
  range in which the model's integer arithmetic is that of the code.
  The texts of numbers are \<^verbatim>\<open>String(n)\<close>, \<^verbatim>\<open>toFixed\<close>, \<^verbatim>\<open>Math.round\<close> and
  \<^verbatim>\<open>toLocaleString('en-US')\<close>.
\<close>

section \<open>Rounding\<close>

definition round_half_even :: "rat \<Rightarrow> int" where
  "round_half_even x =
     (let n = \<lfloor>x\<rfloor>; d = x - of_int n in
      if d < 1 / 2 then n else if 1 / 2 < d then n + 1 else if even n then n else n + 1)"

lemma round_half_even_bounds: "\<lfloor>x\<rfloor> \<le> round_half_even x \<and> round_half_even x \<le> \<lfloor>x\<rfloor> + 1"
  by (simp add: round_half_even_def Let_def)

lemma round_half_even_mono:
  assumes "x \<le> y" shows "round_half_even x \<le> round_half_even y"
proof (cases "\<lfloor>x\<rfloor> = \<lfloor>y\<rfloor>")
  case True
  with assms show ?thesis by (auto simp: round_half_even_def Let_def)
next
  case False
  with floor_mono [OF assms] have "\<lfloor>x\<rfloor> + 1 \<le> \<lfloor>y\<rfloor>" by simp
  then show ?thesis
    using round_half_even_bounds [of x] round_half_even_bounds [of y] by linarith
qed

lemma round_half_even_of_int [simp]: "round_half_even (of_int n) = n"
  by (simp add: round_half_even_def)

text \<open>The power of two at or below a positive rational: its binary exponent.\<close>

definition pow2 :: "int \<Rightarrow> rat" where
  "pow2 e = (if 0 \<le> e then 2 ^ nat e else 1 / 2 ^ nat (- e))"

lemma pow2_pos [simp]: "0 < pow2 e"
  by (simp add: pow2_def)

lemma pow2_powi: "pow2 e = 2 powi e"
  by (auto simp: pow2_def power_int_def field_simps)

lemma pow2_add: "pow2 (a + b) = pow2 a * pow2 b"
  by (simp add: pow2_powi power_int_add)

lemma pow2_mono: "a \<le> b \<Longrightarrow> pow2 a \<le> pow2 b"
  by (simp add: pow2_powi power_int_increasing)

lemma pow2_less: "a < b \<Longrightarrow> 2 * pow2 a \<le> pow2 b"
  using pow2_mono [of "a + 1" b] by (simp add: pow2_add) (simp add: pow2_def)

fun bit_count :: "int \<Rightarrow> int" where
  "bit_count p = (if p \<le> 0 then 0 else 1 + bit_count (p div 2))"

declare bit_count.simps [simp del]

definition ilog2 :: "rat \<Rightarrow> int" where
  "ilog2 x =
     (let (p, q) = quotient_of x; e = bit_count p - bit_count q in
      if pow2 e \<le> x then e else e - 1)"

lemma bit_count_nonneg: "0 \<le> bit_count p"
  by (induction p rule: bit_count.induct) (simp add: bit_count.simps)

lemma bit_count_pow2:
  "0 < p \<Longrightarrow> pow2 (bit_count p - 1) \<le> of_int p \<and> of_int p < pow2 (bit_count p)"
proof (induction p rule: bit_count.induct)
  case (1 p)
  let ?h = "p div 2"
  have bc: "bit_count p = 1 + bit_count ?h" using "1.prems" by (simp add: bit_count.simps [of p])
  have h: "2 * ?h \<le> p \<and> p < 2 * (?h + 1)" by presburger
  then have "(of_int (2 * ?h) :: rat) \<le> of_int p" and "(of_int p :: rat) < of_int (2 * (?h + 1))"
    by (simp_all only: of_int_le_iff of_int_less_iff)
  then have hr: "2 * of_int ?h \<le> (of_int p :: rat)" "(of_int p :: rat) < 2 * (of_int ?h + 1)"
    by simp_all
  have two: "pow2 (1 + e) = 2 * pow2 e" for e by (simp add: pow2_add) (simp add: pow2_def)
  show ?case
  proof (cases "0 < ?h")
    case True
    then have IH: "pow2 (bit_count ?h - 1) \<le> of_int ?h" "of_int ?h < pow2 (bit_count ?h)"
      using "1.IH" "1.prems" by auto
    have pos: "0 < bit_count ?h" using True bit_count_nonneg [of "?h div 2"] by (simp add: bit_count.simps [of ?h])
    have lo: "pow2 (bit_count p - 1) \<le> of_int p"
      using IH(1) hr(1) two [of "bit_count ?h - 1"] by (simp add: bc)
    have "?h + 1 \<le> 2 ^ nat (bit_count ?h)"
    proof -
      have "(of_int ?h :: rat) < of_int (2 ^ nat (bit_count ?h))" using IH(2) pos by (simp add: pow2_def)
      then show ?thesis by (simp only: of_int_less_iff)
    qed
    then have "(of_int (?h + 1) :: rat) \<le> of_int (2 ^ nat (bit_count ?h))" by (simp only: of_int_le_iff)
    then have "of_int ?h + 1 \<le> pow2 (bit_count ?h)" using pos by (simp add: pow2_def)
    with hr(2) lo show ?thesis by (simp add: bc two)
  next
    case False
    with "1.prems" have "p = 1" by presburger
    then show ?thesis by (simp add: bit_count.simps pow2_def)
  qed
qed

lemma ilog2_bounds:
  assumes "0 < x" shows "pow2 (ilog2 x) \<le> x" and "x < pow2 (ilog2 x + 1)"
proof -
  obtain p q where pq: "quotient_of x = (p, q)" by (cases "quotient_of x")
  have x: "x = of_int p / of_int q" using pq quotient_of_div by blast
  have q: "0 < q" using pq quotient_of_denom_pos by blast
  with assms x have p: "0 < p" by (simp add: zero_less_divide_iff)
  let ?e = "bit_count p - bit_count q"
  note P = bit_count_pow2 [OF p, THEN conjunct1] bit_count_pow2 [OF p, THEN conjunct2]
    and Q = bit_count_pow2 [OF q, THEN conjunct1] bit_count_pow2 [OF q, THEN conjunct2]
  have "x * pow2 (bit_count q - 1) \<le> x * of_int q"
    using Q(1) assms by simp
  also have "\<dots> = of_int p" using q x by simp
  also have "\<dots> < pow2 (bit_count p)" by (rule P(2))
  also have "\<dots> = pow2 (?e + 1) * pow2 (bit_count q - 1)" by (simp flip: pow2_add)
  finally have up: "x < pow2 (?e + 1)" by simp
  have "pow2 (?e - 1) * pow2 (bit_count q) = pow2 (bit_count p - 1)" by (simp flip: pow2_add)
  also have "\<dots> \<le> of_int p" by (rule P(1))
  also have "\<dots> = x * of_int q" using q x by simp
  also have "\<dots> \<le> x * pow2 (bit_count q)" using Q(2) assms by simp
  finally have lo: "pow2 (?e - 1) \<le> x" by simp
  show "pow2 (ilog2 x) \<le> x" using lo by (simp add: ilog2_def pq Let_def)
  show "x < pow2 (ilog2 x + 1)" using up by (simp add: ilog2_def pq Let_def)
qed

lemma ilog2_mono:
  assumes "0 < x" and "x \<le> y" shows "ilog2 x \<le> ilog2 y"
proof (rule ccontr)
  assume "\<not> ilog2 x \<le> ilog2 y"
  then have "pow2 (ilog2 y + 1) \<le> pow2 (ilog2 x)" by (intro pow2_mono) simp
  with ilog2_bounds [of x] ilog2_bounds [of y] assms show False by simp
qed

section \<open>Doubles\<close>

definition dbl_pos :: "rat \<Rightarrow> rat" where
  "dbl_pos x = (let u = pow2 (ilog2 x - 52) in of_int (round_half_even (x / u)) * u)"

definition dbl :: "rat \<Rightarrow> rat" where
  "dbl x = (if x = 0 then 0 else if 0 < x then dbl_pos x else - dbl_pos (- x))"

text \<open>A power of two that is at least the unit in the last place survives the rounding.\<close>

lemma dbl_pos_ge_pow2:
  assumes "0 < x" shows "pow2 (ilog2 x) \<le> dbl_pos x"
proof -
  let ?u = "pow2 (ilog2 x - 52)"
  have "pow2 (ilog2 x) = of_int (2 ^ 52) * ?u"
    using pow2_add [of 52 "ilog2 x - 52"] by (simp add: pow2_def [of 52])
  moreover have "(2 ^ 52 :: int) = round_half_even (of_int (2 ^ 52))" by (simp only: round_half_even_of_int)
  moreover have "(of_int (2 ^ 52) :: rat) \<le> x / ?u"
    using ilog2_bounds(1) [OF assms] calculation(1) by (simp add: pos_le_divide_eq)
  ultimately have "2 ^ 52 \<le> round_half_even (x / ?u)"
    using round_half_even_mono by metis
  then have "(of_int (2 ^ 52) :: rat) \<le> of_int (round_half_even (x / ?u))"
    by (simp only: of_int_le_iff)
  then show ?thesis
    unfolding dbl_pos_def Let_def \<open>pow2 (ilog2 x) = _\<close> by (rule mult_right_mono) (simp add: less_imp_le)
qed

lemma dbl_pos_le_pow2:
  assumes "0 < x" shows "dbl_pos x \<le> pow2 (ilog2 x + 1)"
proof -
  let ?u = "pow2 (ilog2 x - 52)"
  have eq: "pow2 (ilog2 x + 1) = of_int (2 ^ 53) * ?u"
    using pow2_add [of 53 "ilog2 x - 52"] by (simp add: pow2_def [of 53] add.commute)
  moreover have "x / ?u \<le> of_int (2 ^ 53)"
    using ilog2_bounds(2) [OF assms] calculation by (simp add: pos_divide_le_eq)
  ultimately have "round_half_even (x / ?u) \<le> 2 ^ 53"
    using round_half_even_mono round_half_even_of_int by metis
  then have "(of_int (round_half_even (x / ?u)) :: rat) \<le> of_int (2 ^ 53)"
    by (simp only: of_int_le_iff)
  then show ?thesis
    unfolding dbl_pos_def Let_def eq by (rule mult_right_mono) (simp add: less_imp_le)
qed

lemma dbl_pos_mono:
  assumes "0 < x" and "x \<le> y" shows "dbl_pos x \<le> dbl_pos y"
proof (cases "ilog2 x = ilog2 y")
  case True
  then have "round_half_even (x / pow2 (ilog2 x - 52)) \<le> round_half_even (y / pow2 (ilog2 x - 52))"
    using assms(2) by (intro round_half_even_mono divide_right_mono) (auto simp: less_imp_le)
  with True show ?thesis by (simp add: dbl_pos_def Let_def)
next
  case False
  with ilog2_mono [OF assms] have "pow2 (ilog2 x + 1) \<le> pow2 (ilog2 y)"
    by (intro pow2_mono) simp
  with dbl_pos_le_pow2 [OF assms(1)] dbl_pos_ge_pow2 [of y] assms show ?thesis by simp
qed

lemma dbl_pos_pos: "0 < x \<Longrightarrow> 0 < dbl_pos x"
  using dbl_pos_ge_pow2 pow2_pos by (meson less_le_trans)

theorem dbl_mono: "x \<le> y \<Longrightarrow> dbl x \<le> dbl y"
proof -
  assume xy: "x \<le> y"
  consider "0 < x" | "x \<le> 0" "0 \<le> y" | "y < 0" by linarith
  then show ?thesis
  proof cases
    case 1 with xy show ?thesis by (simp add: dbl_def dbl_pos_mono)
  next
    case 2
    then have "dbl x \<le> 0" and "0 \<le> dbl y"
      using dbl_pos_pos [of "- x"] dbl_pos_pos [of y] by (auto simp: dbl_def)
    then show ?thesis by simp
  next
    case 3 with xy show ?thesis by (simp add: dbl_def dbl_pos_mono)
  qed
qed

lemma dbl_0 [simp]: "dbl 0 = 0"
  by (simp add: dbl_def)

lemma dbl_minus: "dbl (- x) = - dbl x"
  by (simp add: dbl_def)

text \<open>Integers up to \<open>2 ^ 53\<close> in absolute value are doubles.\<close>

lemma dbl_pos_of_int:
  assumes "0 < n" and "n \<le> 2 ^ 53" shows "dbl_pos (of_int n) = of_int n"
proof (cases "n = 2 ^ 53")
  case True
  have "ilog2 (of_int n) = 53"
    unfolding True by code_simp
  then show ?thesis
    using True by (simp add: dbl_pos_def pow2_def round_half_even_def)
next
  case False
  let ?x = "of_int n :: rat"
  have lt: "ilog2 ?x < 53"
  proof (rule ccontr)
    assume "\<not> ilog2 ?x < 53"
    then have "pow2 53 \<le> pow2 (ilog2 ?x)" by (intro pow2_mono) simp
    also have "\<dots> \<le> ?x" using ilog2_bounds(1) [of ?x] assms by simp
    finally have "(of_int (2 ^ 53) :: rat) \<le> of_int n" by (simp add: pow2_def)
    then have "2 ^ 53 \<le> n" by (simp only: of_int_le_iff)
    with False assms show False by simp
  qed
  let ?k = "nat (52 - ilog2 ?x)"
  have u: "pow2 (ilog2 ?x - 52) = 1 / 2 ^ ?k"
    using lt by (cases "ilog2 ?x = 52") (auto simp: pow2_def)
  then have "?x / pow2 (ilog2 ?x - 52) = of_int (n * 2 ^ ?k)" by simp
  then show ?thesis
    unfolding dbl_pos_def Let_def by (simp only: round_half_even_of_int) (simp add: u)
qed

theorem dbl_of_int: "\<bar>n\<bar> \<le> 2 ^ 53 \<Longrightarrow> dbl (of_int n) = of_int n"
  using dbl_pos_of_int [of n] dbl_pos_of_int [of "- n"] by (auto simp: dbl_def)

lemma dbl_1 [simp]: "dbl 1 = 1" and dbl_100 [simp]: "dbl 100 = 100"
  using dbl_of_int [of 1] dbl_of_int [of 100] by auto

lemma dbl_nonneg: "0 \<le> x \<Longrightarrow> 0 \<le> dbl x"
  using dbl_mono [of 0 x] by simp

lemma dbl_le_1: "x \<le> 1 \<Longrightarrow> dbl x \<le> 1"
  using dbl_mono [of x 1] by simp

text \<open>The share of a part in a whole, as the panels compute it: \<^verbatim>\<open>(v / total) * 100\<close>.\<close>

definition percent_of :: "int \<Rightarrow> int \<Rightarrow> rat" where
  "percent_of v whole = dbl (dbl (of_int v / of_int whole) * 100)"

lemma percent_of_bounds [num_simps]:
  assumes "0 \<le> v" and "v \<le> whole" and "0 < whole"
  shows "0 \<le> percent_of v whole \<and> percent_of v whole \<le> 100"
proof -
  let ?q = "of_int v / of_int whole :: rat"
  have "0 \<le> ?q" and "?q \<le> 1" using assms by auto
  then have "0 \<le> dbl ?q" and "dbl ?q \<le> 1" by (auto intro: dbl_nonneg dbl_le_1)
  then have "0 \<le> dbl ?q * 100" and "dbl ?q * 100 \<le> 100" by auto
  then show ?thesis
    using dbl_mono [of "dbl ?q * 100" 100] by (simp add: percent_of_def dbl_nonneg)
qed

lemma percent_of_mono [num_simps]:
  assumes "v \<le> w" and "0 < whole" shows "percent_of v whole \<le> percent_of w whole"
  unfolding percent_of_def using assms
  by (intro dbl_mono mult_right_mono divide_right_mono) auto

section \<open>Texts of numbers\<close>

definition digit :: "int \<Rightarrow> char" where
  "digit d = ''0123456789'' ! nat d"

text \<open>The decimal digits of a non-negative integer.\<close>

fun show_nonneg :: "int \<Rightarrow> string" where
  "show_nonneg n = (if n < 10 then [digit n] else show_nonneg (n div 10) @ [digit (n mod 10)])"

declare show_nonneg.simps [simp del]

definition show_int :: "int \<Rightarrow> string" where
  "show_int i = (if i < 0 then ''-'' @ show_nonneg (- i) else show_nonneg i)"

definition digit_value :: "char \<Rightarrow> int" where
  "digit_value c = of_char c - 48"

definition read_nonneg :: "string \<Rightarrow> int" where
  "read_nonneg s = foldl (\<lambda>n c. 10 * n + digit_value c) 0 s"

lemma digit_facts:
  assumes "0 \<le> d" and "d < 10" shows "digit_value (digit d) = d \<and> is_digit (digit d)"
proof -
  have "list_all (\<lambda>n. digit_value (digit (int n)) = int n \<and> is_digit (digit (int n))) [0..<10]"
    by (simp add: upt_rec digit_def digit_value_def is_digit_def)
  then have "\<forall>n < 10. digit_value (digit (int n)) = int n \<and> is_digit (digit (int n))"
    by (simp add: list_all_iff)
  from this [rule_format, of "nat d"] assms show ?thesis by simp
qed

lemma read_show_nonneg [num_simps]: "0 \<le> n \<Longrightarrow> read_nonneg (show_nonneg n) = n"
proof (induction n rule: show_nonneg.induct)
  case (1 n)
  show ?case
  proof (cases "n < 10")
    case True
    with "1.prems" show ?thesis by (subst show_nonneg.simps) (simp add: read_nonneg_def digit_facts)
  next
    case False
    with 1 have "read_nonneg (show_nonneg (n div 10)) = n div 10" by simp
    with False show ?thesis
      by (subst show_nonneg.simps) (simp add: read_nonneg_def digit_facts)
  qed
qed

lemma show_nonneg_digits [num_simps]: "0 \<le> n \<Longrightarrow> c \<in> set (show_nonneg n) \<Longrightarrow> is_digit c"
proof (induction n rule: show_nonneg.induct)
  case (1 n)
  then show ?case
    by (cases "n < 10") (auto simp: show_nonneg.simps [of n] digit_facts)
qed

lemma show_nonneg_nonempty [simp]: "show_nonneg n \<noteq> []"
  by (subst show_nonneg.simps) simp

lemma show_nonneg_inj: "0 \<le> m \<Longrightarrow> 0 \<le> n \<Longrightarrow> show_nonneg m = show_nonneg n \<longleftrightarrow> m = n"
  by (metis read_show_nonneg)

lemma show_int_inj [num_simps]: "show_int i = show_int j \<longleftrightarrow> i = j"
proof
  assume eq: "show_int i = show_int j"
  have no: "0 \<le> n \<Longrightarrow> show_nonneg n \<noteq> CHR ''-'' # s" for n s
    using show_nonneg_digits [of n "CHR ''-''"] by (auto simp: is_digit_def)
  then have "i < 0 \<longleftrightarrow> j < 0"
    using eq no [of i] no [of j] by (auto simp: show_int_def split: if_splits dest: sym)
  with eq show "i = j" by (auto simp: show_int_def show_nonneg_inj split: if_splits)
qed simp

lemma int_div_less_iff: "n div 10 < m \<longleftrightarrow> n < 10 * (m::int)"
  by presburger

lemma length_show_nonneg:
  "0 \<le> n \<Longrightarrow> k > 0 \<Longrightarrow> length (show_nonneg n) \<le> k \<longleftrightarrow> n < 10 ^ k"
proof (induction n arbitrary: k rule: show_nonneg.induct)
  case (1 n)
  show ?case
  proof (cases "n < 10")
    case True
    moreover from \<open>k > 0\<close> have "10 \<le> (10::int) ^ k"
      using power_increasing [of 1 k "10::int"] by simp
    ultimately show ?thesis using \<open>k > 0\<close> by (simp add: show_nonneg.simps [of n])
  next
    case False
    show ?thesis
    proof (cases "k = 1")
      case True
      with False show ?thesis by (simp add: show_nonneg.simps [of n])
    next
      case k: False
      then obtain j where j: "k = Suc j" "j > 0" using \<open>k > 0\<close> by (cases k) auto
      have "length (show_nonneg n) \<le> k \<longleftrightarrow> length (show_nonneg (n div 10)) \<le> j"
        using False j by (simp add: show_nonneg.simps [of n])
      also have "\<dots> \<longleftrightarrow> n div 10 < 10 ^ j" using 1 False j by simp
      also have "\<dots> \<longleftrightarrow> n < 10 ^ k" using j by (simp add: int_div_less_iff)
      finally show ?thesis .
    qed
  qed
qed

text \<open>
  \<^verbatim>\<open>toLocaleString('en-US')\<close> of an integer: a comma between groups of three digits.
\<close>

fun group3 :: "string \<Rightarrow> string" where
  "group3 (a # b # c # d # s) = a # b # c # CHR '','' # group3 (d # s)"
| "group3 s = s"

definition locale_int :: "int \<Rightarrow> string" where
  "locale_int i =
     (if i < 0 then ''-'' @ rev (group3 (rev (show_nonneg (- i))))
      else rev (group3 (rev (show_nonneg i))))"

lemma group3_filter [num_simps]: "CHR '','' \<notin> set s \<Longrightarrow> filter (\<lambda>c. c \<noteq> CHR '','') (group3 s) = s"
  by (induction s rule: group3.induct) (auto simp: filter_id_conv)

lemma locale_int_filter [num_simps]: "filter (\<lambda>c. c \<noteq> CHR '','') (locale_int i) = show_int i"
proof -
  have "0 \<le> n \<Longrightarrow> CHR '','' \<notin> set (show_nonneg n)" for n
    using show_nonneg_digits [of n "CHR '',''"] by (auto simp: is_digit_def)
  then show ?thesis
    by (simp add: locale_int_def show_int_def num_simps flip: rev_filter)
qed

definition pad_left :: "nat \<Rightarrow> char \<Rightarrow> string \<Rightarrow> string" where
  "pad_left n c s = replicate (n - length s) c @ s"

text \<open>
  \<^verbatim>\<open>toLocaleString('en-US')\<close> of any finite Number: at most three fraction digits, ties
  away from zero, no trailing zeros.
\<close>

definition locale_fraction :: "int \<Rightarrow> string" where
  "locale_fraction n =
     (let ds = rev (dropWhile (\<lambda>c. c = CHR ''0'') (rev (pad_left 3 (CHR ''0'') (show_nonneg n))))
      in if ds = [] then [] else CHR ''.'' # ds)"

definition locale_num :: "rat \<Rightarrow> string" where
  "locale_num x =
     (let n = \<lfloor>\<bar>x\<bar> * 1000 + 1 / 2\<rfloor>;
          s = rev (group3 (rev (show_nonneg (n div 1000)))) @ locale_fraction (n mod 1000)
      in if x < 0 then CHR ''-'' # s else s)"

lemma locale_fraction_0 [num_simps]: "locale_fraction 0 = []"
  by code_simp

lemma locale_num_of_int [num_simps]: "locale_num (of_int i) = locale_int i"
proof -
  have n: "\<lfloor>\<bar>of_int i :: rat\<bar> * 1000 + 1 / 2\<rfloor> = \<bar>i\<bar> * 1000"
    by (rule floor_unique) (simp_all flip: of_int_abs)
  have "\<bar>i\<bar> * 1000 div 1000 = \<bar>i\<bar>" and "\<bar>i\<bar> * 1000 mod 1000 = 0" by simp_all
  then show ?thesis
    unfolding locale_num_def n Let_def locale_int_def by (simp only:) (simp add: locale_fraction_0)
qed

text \<open>\<^verbatim>\<open>Math.round\<close> rounds ties towards plus infinity.\<close>

definition math_round :: "rat \<Rightarrow> int" where
  "math_round x = \<lfloor>x + 1 / 2\<rfloor>"

lemma math_round_mono: "x \<le> y \<Longrightarrow> math_round x \<le> math_round y"
  by (simp add: math_round_def floor_mono)

lemma math_round_of_int [simp]: "math_round (of_int n) = n"
  by (simp add: math_round_def floor_unique)

text \<open>
  \<^verbatim>\<open>x.toFixed(f)\<close> below \<open>10 ^ 21\<close>: the integer nearest to \<open>x * 10 ^ f\<close>, the larger of
  two, with a point before its last \<open>f\<close> digits.
\<close>

definition to_fixed_nonneg :: "nat \<Rightarrow> rat \<Rightarrow> string" where
  "to_fixed_nonneg f x =
     (let n = \<lfloor>x * 10 ^ f + 1 / 2\<rfloor> in
      if f = 0 then show_nonneg n
      else show_nonneg (n div 10 ^ f) @ ''.'' @ pad_left f (CHR ''0'') (show_nonneg (n mod 10 ^ f)))"

definition to_fixed :: "nat \<Rightarrow> rat \<Rightarrow> string" where
  "to_fixed f x = (if x < 0 then ''-'' @ to_fixed_nonneg f (- x) else to_fixed_nonneg f x)"

text \<open>
  \<^verbatim>\<open>String(n)\<close> of an integral Number (the argument is already a double). Up to
  \<open>2 ^ 53\<close> these are its decimal digits. Above, the shortest decimal that rounds to the number
  (\<open>shortest\<close>, with \<open>k\<close> significant digits) is padded with zeros, and from \<open>10 ^ 21\<close> on it is
  written with an exponent.
\<close>

fun shortest_fuel :: "nat \<Rightarrow> nat \<Rightarrow> nat \<Rightarrow> int \<Rightarrow> int \<times> nat" where
  "shortest_fuel 0 k len n = (n, 0)"
| "shortest_fuel (Suc f) k len n =
     (let p = 10 ^ (len - k); s = \<lfloor>(of_int n / of_int p + 1 / 2) :: rat\<rfloor> in
      if dbl (of_int (s * p)) = of_int n then (s, len - k) else shortest_fuel f (Suc k) len n)"

definition drop_zeros :: "string \<Rightarrow> string" where
  "drop_zeros ds = rev (dropWhile (\<lambda>c. c = CHR ''0'') (rev ds))"

definition show_double_nonneg :: "int \<Rightarrow> string" where
  "show_double_nonneg n =
     (if n < 2 ^ 53 then show_nonneg n
      else
        let len = length (show_nonneg n); (s, z) = shortest_fuel 17 1 len n;
            ds = show_nonneg s; e = show_nonneg (int (length ds + z - 1))
        in if n < 10 ^ 21 then ds @ replicate z (CHR ''0'')
           else (case drop_zeros ds of
                   [d] \<Rightarrow> d # ''e+'' @ e
                 | d # r \<Rightarrow> d # ''.'' @ r @ ''e+'' @ e
                 | [] \<Rightarrow> []))"

definition show_double_int :: "int \<Rightarrow> string" where
  "show_double_int n = (if n < 0 then ''-'' @ show_double_nonneg (- n) else show_double_nonneg n)"

end
