(* ===== verification/Format.thy ===== *)
theory Format
  imports Js_Number
begin

text \<open>
  The formatting helpers of \<^verbatim>\<open>web/src/lib\<close>: \<^verbatim>\<open>fmt.ts\<close> (counts, percentages,
  money), \<^verbatim>\<open>rows.ts\<close> (bar widths), \<^verbatim>\<open>tz.ts\<close> (the zone chip) and
  \<^verbatim>\<open>countries.ts\<close>. \<^verbatim>\<open>Intl.NumberFormat\<close> and \<^verbatim>\<open>Intl.DateTimeFormat\<close>
  depend on the ICU tables of the browser: they are the parameters \<open>intl\<close> and \<open>dtf\<close>, functions
  that build a formatter or throw (\<open>None\<close>). Both modules memoise what they build; the locale
  \<open>memo_table\<close> is the interface they share, and it is interpreted on both.
\<close>

section \<open>Memo tables\<close>

definition memo_sound :: "('x \<Rightarrow> 'k) \<Rightarrow> ('x \<Rightarrow> 'v option) \<Rightarrow> ('k, 'v) omap \<Rightarrow> bool" where
  "memo_sound key build m \<longleftrightarrow>
     distinct (keys m) \<and> (\<forall>k v. map_of m k = Some v \<longrightarrow> (\<exists>x. key x = k \<and> build x = Some v))"

locale memo_table =
  fixes key :: "'x \<Rightarrow> 'k"
    and build :: "'x \<Rightarrow> 'v option"
    and lookup :: "'x \<Rightarrow> ('k, 'v) omap \<Rightarrow> 'v option \<times> ('k, 'v) omap"
  assumes key_inj: "key x = key y \<Longrightarrow> x = y"
    and hit: "map_of m (key x) = Some v \<Longrightarrow> lookup x m = (Some v, m)"
    and miss: "map_of m (key x) = None \<Longrightarrow> build x = Some v \<Longrightarrow>
                 lookup x m = (Some v, omap_set (key x) v m)"
    and fails: "map_of m (key x) = None \<Longrightarrow> build x = None \<Longrightarrow> lookup x m = (None, m)"
begin

lemma sound_empty: "memo_sound key build []"
  by (simp add: memo_sound_def keys_def)

lemma lookup_is_build: "memo_sound key build m \<Longrightarrow> fst (lookup x m) = build x"
proof (cases "map_of m (key x)")
  case None
  then show ?thesis by (cases "build x") (simp_all add: miss fails)
next
  case (Some v)
  assume "memo_sound key build m"
  with Some obtain y where "key y = key x" and "build y = Some v"
    by (auto simp: memo_sound_def)
  with Some show ?thesis using key_inj by (metis hit fst_conv)
qed

lemma lookup_sound: "memo_sound key build m \<Longrightarrow> memo_sound key build (snd (lookup x m))"
proof (cases "map_of m (key x)")
  case None
  moreover assume "memo_sound key build m"
  ultimately show ?thesis
    by (cases "build x") (auto simp: miss fails memo_sound_def obj_simps)
next
  case (Some v)
  moreover assume "memo_sound key build m"
  ultimately show ?thesis by (simp add: hit)
qed

lemma lookup_keys: "set (keys (snd (lookup x m))) \<subseteq> insert (key x) (set (keys m))"
proof (cases "map_of m (key x)")
  case None
  then show ?thesis by (cases "build x") (auto simp: miss fails obj_simps)
qed (auto simp: hit)

end

section \<open>fmt.ts\<close>

definition fmtInt :: "rat \<Rightarrow> string" where
  "fmtInt n = locale_num n"

definition fmtPct :: "rat \<Rightarrow> string" where
  "fmtPct n = to_fixed 2 n @ ''%''"

definition fmtSharePct :: "rat \<Rightarrow> string" where
  "fmtSharePct p =
     (if p = 0 then ''0%'' else if p < 1 then ''<1%'' else show_int (math_round p) @ ''%'')"

type_synonym formatter = "rat \<Rightarrow> string"
type_synonym intl = "string \<Rightarrow> nat \<Rightarrow> formatter option"
type_synonym money_table = "(string, formatter) omap"

definition money_key :: "string \<times> nat \<Rightarrow> string" where
  "money_key = (\<lambda>(currency, fractionDigits). currency @ ''|'' @ show_nonneg (int fractionDigits))"

definition moneyFormatter ::
    "intl \<Rightarrow> string \<times> nat \<Rightarrow> money_table \<Rightarrow> formatter option \<times> money_table" where
  "moneyFormatter intl x m =
     (case map_of m (money_key x) of
        Some cached \<Rightarrow> (Some cached, m)
      | None \<Rightarrow>
          (case intl (fst x) (snd x) of
             Some f \<Rightarrow> (Some f, omap_set (money_key x) f m)
           | None \<Rightarrow> (None, m)))"

definition fmtMoney :: "intl \<Rightarrow> rat \<Rightarrow> string \<Rightarrow> nat \<Rightarrow> money_table \<Rightarrow> string \<times> money_table" where
  "fmtMoney intl amount currency fractionDigits m =
     (if currency = [] then (fmtInt amount, m)
      else (case moneyFormatter intl (currency, fractionDigits) m of
              (None, m') \<Rightarrow> (fmtInt amount @ '' '' @ currency, m')
            | (Some f, m') \<Rightarrow> (f amount, m')))"

definition fmtRpv :: "intl \<Rightarrow> rat \<Rightarrow> string \<Rightarrow> money_table \<Rightarrow> string \<times> money_table" where
  "fmtRpv intl v currency m = fmtMoney intl v currency 2 m"

text \<open>The same text without a table, and a session's calls in the order they are made.\<close>

definition money_text :: "intl \<Rightarrow> rat \<times> string \<times> nat \<Rightarrow> string" where
  "money_text intl = (\<lambda>(amount, currency, d).
     if currency = [] then fmtInt amount
     else (case intl currency d of
             None \<Rightarrow> fmtInt amount @ '' '' @ currency
           | Some f \<Rightarrow> f amount))"

fun money_run :: "intl \<Rightarrow> money_table \<Rightarrow> (rat \<times> string \<times> nat) list \<Rightarrow> string list \<times> money_table" where
  "money_run intl m [] = ([], m)"
| "money_run intl m ((amount, currency, d) # cs) =
     (let (s, m1) = fmtMoney intl amount currency d m; (ss, m2) = money_run intl m1 cs in (s # ss, m2))"

lemma money_key_inj: "money_key x = money_key y \<Longrightarrow> x = y"
proof -
  assume eq: "money_key x = money_key y"
  obtain c d c' d' where xy: "x = (c, d)" "y = (c', d')" by (cases x, cases y)
  have no_bar: "CHR ''|'' \<notin> set (show_nonneg (int n))" for n
    using show_nonneg_digits [of "int n" "CHR ''|''"] by (auto simp: is_digit_def)
  have split: "split_first (CHR ''|'') (rev (money_key (a, n))) = Some (rev (show_nonneg (int n)), rev a)"
    for a n
    using no_bar [of n] split_first_append [of "CHR ''|''" "rev (show_nonneg (int n))" "rev a"]
    by (simp add: money_key_def)
  from eq split [of c d] split [of c' d'] have "rev (show_nonneg (int d)) = rev (show_nonneg (int d')) \<and> rev c = rev c'"
    by (simp add: xy)
  then show "x = y" by (simp add: xy show_nonneg_inj)
qed

interpretation money: memo_table money_key "\<lambda>(c, d). intl c d" "moneyFormatter intl" for intl
  by unfold_locales (auto simp: moneyFormatter_def money_key_inj split: option.splits)

lemma fmtMoney_text:
  "memo_sound money_key (\<lambda>(c, d). intl c d) m \<Longrightarrow>
     fst (fmtMoney intl a c d m) = money_text intl (a, c, d)
     \<and> memo_sound money_key (\<lambda>(c, d). intl c d) (snd (fmtMoney intl a c d m))"
  using money.lookup_is_build [of intl m "(c, d)"] money.lookup_sound [of intl m "(c, d)"]
  by (cases "moneyFormatter intl (c, d) m"; cases "fst (moneyFormatter intl (c, d) m)")
     (auto simp: fmtMoney_def money_text_def)

lemma fmtMoney_keys:
  "set (keys (snd (fmtMoney intl a c d m))) \<subseteq> insert (money_key (c, d)) (set (keys m))"
  using money.lookup_keys [of intl "(c, d)" m]
  by (cases "moneyFormatter intl (c, d) m"; cases "fst (moneyFormatter intl (c, d) m)")
     (auto simp: fmtMoney_def)

lemma money_run_sound:
  "memo_sound money_key (\<lambda>(c, d). intl c d) m \<Longrightarrow>
     fst (money_run intl m calls) = map (money_text intl) calls
     \<and> set (keys (snd (money_run intl m calls)))
         \<subseteq> set (keys m) \<union> (\<lambda>(a, c, d). money_key (c, d)) ` set calls
     \<and> memo_sound money_key (\<lambda>(c, d). intl c d) (snd (money_run intl m calls))"
proof (induction intl m calls rule: money_run.induct)
  case (2 intl m amount currency d cs)
  obtain s m1 where 1: "fmtMoney intl amount currency d m = (s, m1)" by (cases "fmtMoney intl amount currency d m")
  obtain ss m2 where ss: "money_run intl m1 cs = (ss, m2)" by (cases "money_run intl m1 cs")
  note step = fmtMoney_text [OF "2.prems", of amount currency d] fmtMoney_keys [of intl amount currency d m]
  then have "fst (money_run intl m1 cs) = map (money_text intl) cs
     \<and> set (keys (snd (money_run intl m1 cs))) \<subseteq> set (keys m1) \<union> (\<lambda>(a, c, d). money_key (c, d)) ` set cs
     \<and> memo_sound money_key (\<lambda>(c, d). intl c d) (snd (money_run intl m1 cs))"
    using "2.IH" [OF 1 [symmetric] refl] by (simp add: 1)
  with step show ?case by (auto simp: 1 ss)
qed simp

text \<open>
  for every sequence of \<^verbatim>\<open>fmtMoney\<close>/\<^verbatim>\<open>fmtRpv\<close> calls from a fresh page
  the shared formatter table is unobservable: each call gives the text a freshly built
  \<^verbatim>\<open>Intl.NumberFormat\<close> of its own currency and precision would give (or the
  plain-number fall-back when the currency is empty or refused), and the table holds at most one
  entry per (currency, fraction digits) pair that was asked for.
\<close>

theorem money_memo_transparent:
  "fst (money_run intl [] calls) = map (money_text intl) calls
   \<and> distinct (keys (snd (money_run intl [] calls)))
   \<and> set (keys (snd (money_run intl [] calls))) \<subseteq> (\<lambda>(a, c, d). money_key (c, d)) ` set calls"
  using money_run_sound [OF money.sound_empty] by (simp add: memo_sound_def keys_def)

text \<open>
  the label of a share is \<open>0%\<close> exactly for a zero share, never for a small positive one,
  and from one percent on it is the rounded integer.
\<close>

theorem share_label_zero:
  "(fmtSharePct p = ''0%'' \<longleftrightarrow> p = 0)
   \<and> (fmtSharePct p = ''<1%'' \<longleftrightarrow> p \<noteq> 0 \<and> p < 1)
   \<and> (p < 1 \<or> fmtSharePct p = show_int (math_round p) @ ''%'')"
proof -
  have "show_int (math_round p) @ ''%'' \<noteq> ''0%''" and "show_int (math_round p) @ ''%'' \<noteq> ''<1%''"
    if "\<not> p < 1"
  proof -
    from that have "1 \<le> math_round p" using math_round_mono [of 1 p] math_round_of_int [of 1] by simp
    moreover have "show_int 0 = ''0''" by code_simp
    ultimately have "show_int (math_round p) \<noteq> ''0''" using show_int_inj [of "math_round p" 0] by auto
    then show "show_int (math_round p) @ ''%'' \<noteq> ''0%''" by auto
    have "hd (show_int (math_round p)) \<noteq> CHR ''<''"
      using \<open>1 \<le> math_round p\<close> show_nonneg_digits [of "math_round p" "CHR ''<''"]
      by (auto simp: show_int_def is_digit_def) (metis hd_in_set show_nonneg_nonempty)
    then show "show_int (math_round p) @ ''%'' \<noteq> ''<1%''"
      by (cases "show_int (math_round p)") auto
  qed
  then show ?thesis by (auto simp: fmtSharePct_def)
qed

section \<open>rows.ts\<close>

definition rowMax :: "'r list \<Rightarrow> ('r \<Rightarrow> int) \<Rightarrow> int" where
  "rowMax rows pick = foldl (\<lambda>m r. if pick r > m then pick r else m) 0 rows"

definition pctOfMax_num :: "int \<Rightarrow> int \<Rightarrow> int" where
  "pctOfMax_num v mx = (if mx \<le> 0 then 0 else math_round (percent_of v mx))"

definition pctOfMax :: "int \<Rightarrow> int \<Rightarrow> string" where
  "pctOfMax v mx =
     (if mx \<le> 0 then ''0%'' else show_int (math_round (percent_of v mx)) @ ''%'')"

lemma rowMax_ge_start: "m \<le> foldl (\<lambda>m r. if pick r > m then pick r else m) (m::int) rows"
proof (induction rows arbitrary: m)
  case (Cons r rows)
  show ?case using Cons [of "if pick r > m then pick r else m"] by (auto split: if_splits)
qed simp

lemma rowMax_upper: "r \<in> set rows \<Longrightarrow> pick r \<le> rowMax rows pick" "0 \<le> rowMax rows pick"
proof -
  have "r \<in> set rows \<Longrightarrow> pick r \<le> foldl (\<lambda>m r. if pick r > m then pick r else m) m rows" for m
  proof (induction rows arbitrary: m)
    case (Cons x rows)
    show ?case
    proof (cases "r = x")
      case True
      then show ?thesis using rowMax_ge_start [of "if pick x > m then pick x else m" pick rows] by auto
    next
      case False
      with Cons show ?thesis by auto
    qed
  qed simp
  then show "r \<in> set rows \<Longrightarrow> pick r \<le> rowMax rows pick" by (simp add: rowMax_def)
  show "0 \<le> rowMax rows pick" unfolding rowMax_def by (rule rowMax_ge_start)
qed

lemma pctOfMax_text: "pctOfMax v mx = show_int (pctOfMax_num v mx) @ ''%''"
proof -
  have "show_int 0 = ''0''" by code_simp
  then show ?thesis by (simp add: pctOfMax_def pctOfMax_num_def)
qed

lemma pctOfMax_num_bounds:
  assumes "0 \<le> v" and "v \<le> mx" shows "0 \<le> pctOfMax_num v mx \<and> pctOfMax_num v mx \<le> 100"
proof (cases "mx \<le> 0")
  case False
  then have "0 \<le> percent_of v mx" and "percent_of v mx \<le> 100"
    using percent_of_bounds [of v mx] assms by auto
  then have "math_round (of_int 0) \<le> math_round (percent_of v mx)"
    and "math_round (percent_of v mx) \<le> math_round (of_int 100)"
    by (auto intro!: math_round_mono simp del: math_round_of_int)
  with False show ?thesis by (simp only: math_round_of_int pctOfMax_num_def if_False)
qed (simp add: pctOfMax_num_def)

lemma pctOfMax_num_mono: "v \<le> w \<Longrightarrow> pctOfMax_num v mx \<le> pctOfMax_num w mx"
  by (simp add: pctOfMax_num_def math_round_mono percent_of_mono)

lemma percent_of_self: "0 < n \<Longrightarrow> percent_of n n = 100"
  by (simp add: percent_of_def)

text \<open>
  the bars of a dual-bar panel. The width of a row against the maximum of its rows is the
  text of an integer between 0 and 100 followed by a percent sign, it is 100 for a row that
  attains a positive maximum, and a row with a larger value never has a narrower bar.
\<close>

theorem bar_width_bounds:
  assumes "r \<in> set rows" and "r' \<in> set rows" and "0 \<le> pick r" and "pick r \<le> pick r'"
  shows "\<exists>n n'. pctOfMax (pick r) (rowMax rows pick) = show_int n @ ''%''
          \<and> pctOfMax (pick r') (rowMax rows pick) = show_int n' @ ''%''
          \<and> 0 \<le> n \<and> n \<le> n' \<and> n' \<le> 100
          \<and> (0 < pick r' \<and> pick r' = rowMax rows pick \<longrightarrow> n' = 100)"
proof -
  let ?m = "rowMax rows pick"
  have "0 \<le> pctOfMax_num (pick r) ?m" and "pctOfMax_num (pick r') ?m \<le> 100"
    using assms rowMax_upper(1) [of r rows pick] rowMax_upper(1) [of r' rows pick]
      pctOfMax_num_bounds [of "pick r" ?m] pctOfMax_num_bounds [of "pick r'" ?m] by auto
  moreover have "pctOfMax_num (pick r) ?m \<le> pctOfMax_num (pick r') ?m"
    using assms(4) by (rule pctOfMax_num_mono)
  moreover have "0 < pick r' \<and> pick r' = ?m \<longrightarrow> pctOfMax_num (pick r') ?m = 100"
    using math_round_of_int [of 100] by (auto simp: pctOfMax_num_def percent_of_self)
  ultimately show ?thesis using pctOfMax_text by blast
qed

theorem bar_width_bounds_witness:
  "\<exists>n n'. pctOfMax 1 (rowMax [3, 1, 2::int] (\<lambda>x. x)) = show_int n @ ''%''
          \<and> pctOfMax 3 (rowMax [3, 1, 2::int] (\<lambda>x. x)) = show_int n' @ ''%''
          \<and> 0 \<le> n \<and> n \<le> n' \<and> n' \<le> 100
          \<and> (0 < (3::int) \<and> 3 = rowMax [3, 1, 2::int] (\<lambda>x. x) \<longrightarrow> n' = 100)"
  using bar_width_bounds [of 1 "[3, 1, 2::int]" 3 "\<lambda>x. x"] by simp

section \<open>tz.ts\<close>

type_synonym 'd part_formatter = "'d \<Rightarrow> (string \<times> string) list"
type_synonym 'd zone_table = "(string, 'd part_formatter) omap"

definition FALLBACK_LABEL :: string where
  "FALLBACK_LABEL = ''UTC''"

definition getFormatter ::
    "(string \<Rightarrow> 'd part_formatter option) \<Rightarrow> string \<Rightarrow> 'd zone_table
       \<Rightarrow> 'd part_formatter option \<times> 'd zone_table" where
  "getFormatter dtf iana m =
     (case map_of m iana of
        Some cached \<Rightarrow> (Some cached, m)
      | None \<Rightarrow>
          (case dtf iana of
             Some f \<Rightarrow> (Some f, omap_set iana f m)
           | None \<Rightarrow> (None, m)))"

definition tzShortLabel ::
    "(string \<Rightarrow> 'd part_formatter option) \<Rightarrow> string \<Rightarrow> 'd \<Rightarrow> 'd zone_table \<Rightarrow> string \<times> 'd zone_table" where
  "tzShortLabel dtf ianaName now m =
     (if ianaName = [] then (FALLBACK_LABEL, m)
      else (case getFormatter dtf ianaName m of
              (None, m') \<Rightarrow> (FALLBACK_LABEL, m')
            | (Some formatter, m') \<Rightarrow>
                (case find (\<lambda>(ty, _). ty = ''timeZoneName'') (formatter now) of
                   Some (_, v) \<Rightarrow> (v, m')
                 | None \<Rightarrow> (FALLBACK_LABEL, m'))))"

fun tz_run ::
    "(string \<Rightarrow> 'd part_formatter option) \<Rightarrow> 'd zone_table \<Rightarrow> (string \<times> 'd) list
       \<Rightarrow> string list \<times> 'd zone_table" where
  "tz_run dtf m [] = ([], m)"
| "tz_run dtf m ((z, t) # cs) =
     (let (s, m1) = tzShortLabel dtf z t m; (ss, m2) = tz_run dtf m1 cs in (s # ss, m2))"

text \<open>What the chip should show: the zone-name part of a fresh formatter, else the fall-back.\<close>

definition tz_text :: "(string \<Rightarrow> 'd part_formatter option) \<Rightarrow> string \<times> 'd \<Rightarrow> string" where
  "tz_text dtf = (\<lambda>(z, t).
     case (if z = [] then None else dtf z) of
       None \<Rightarrow> FALLBACK_LABEL
     | Some f \<Rightarrow> (case map_of (f t) ''timeZoneName'' of None \<Rightarrow> FALLBACK_LABEL | Some v \<Rightarrow> v))"

interpretation zone: memo_table "\<lambda>x. x" dtf "getFormatter dtf" for dtf
  by unfold_locales (auto simp: getFormatter_def split: option.splits)

lemma find_map_of:
  "find (\<lambda>(ty, _). ty = k) ps = (case map_of ps k of None \<Rightarrow> None | Some v \<Rightarrow> Some (k, v))"
  by (induction ps) auto

lemma tzShortLabel_text:
  "memo_sound (\<lambda>x. x) dtf m \<Longrightarrow>
     fst (tzShortLabel dtf z t m) = tz_text dtf (z, t) \<and> memo_sound (\<lambda>x. x) dtf (snd (tzShortLabel dtf z t m))"
  using zone.lookup_is_build [of dtf m z] zone.lookup_sound [of dtf m z]
  by (cases "getFormatter dtf z m"; cases "fst (getFormatter dtf z m)")
     (auto simp: tzShortLabel_def tz_text_def find_map_of split: option.splits)

lemma tz_run_sound:
  "memo_sound (\<lambda>x. x) dtf m \<Longrightarrow> fst (tz_run dtf m calls) = map (tz_text dtf) calls"
proof (induction dtf m calls rule: tz_run.induct)
  case (2 dtf m z t cs)
  obtain s m1 where 1: "tzShortLabel dtf z t m = (s, m1)" by (cases "tzShortLabel dtf z t m")
  obtain ss m2 where ss: "tz_run dtf m1 cs = (ss, m2)" by (cases "tz_run dtf m1 cs")
  note step = tzShortLabel_text [OF "2.prems", of z t]
  then have "fst (tz_run dtf m1 cs) = map (tz_text dtf) cs"
    using "2.IH" [OF 1 [symmetric] refl] by (simp add: 1)
  with step show ?case by (simp add: 1 ss)
qed simp

text \<open>
  over any sequence of header renders, memoised formatters included, the zone chip shows the
  \<^verbatim>\<open>timeZoneName\<close> part for its own zone at its own moment, and \<open>UTC\<close> when the zone
  is empty, unknown to the browser, or its formatter yields no such part.
\<close>

theorem tz_label_spec: "fst (tz_run dtf [] calls) = map (tz_text dtf) calls"
  by (rule tz_run_sound [OF zone.sound_empty])

section \<open>countries.ts\<close>

record Country =
  country_name :: string
  flag :: string

definition ISO :: "(string, Country) omap" where
  "ISO = [
    (''IR'', \<lparr>country_name = ''Iran'', flag = [CHR 0xF0, CHR 0x9F, CHR 0x87, CHR 0xAE, CHR 0xF0, CHR 0x9F, CHR 0x87, CHR 0xB7]\<rparr>),
    (''US'', \<lparr>country_name = ''United States'', flag = [CHR 0xF0, CHR 0x9F, CHR 0x87, CHR 0xBA, CHR 0xF0, CHR 0x9F, CHR 0x87, CHR 0xB8]\<rparr>),
    (''DE'', \<lparr>country_name = ''Germany'', flag = [CHR 0xF0, CHR 0x9F, CHR 0x87, CHR 0xA9, CHR 0xF0, CHR 0x9F, CHR 0x87, CHR 0xAA]\<rparr>),
    (''GB'', \<lparr>country_name = ''United Kingdom'', flag = [CHR 0xF0, CHR 0x9F, CHR 0x87, CHR 0xAC, CHR 0xF0, CHR 0x9F, CHR 0x87, CHR 0xA7]\<rparr>),
    (''FR'', \<lparr>country_name = ''France'', flag = [CHR 0xF0, CHR 0x9F, CHR 0x87, CHR 0xAB, CHR 0xF0, CHR 0x9F, CHR 0x87, CHR 0xB7]\<rparr>),
    (''CA'', \<lparr>country_name = ''Canada'', flag = [CHR 0xF0, CHR 0x9F, CHR 0x87, CHR 0xA8, CHR 0xF0, CHR 0x9F, CHR 0x87, CHR 0xA6]\<rparr>),
    (''AU'', \<lparr>country_name = ''Australia'', flag = [CHR 0xF0, CHR 0x9F, CHR 0x87, CHR 0xA6, CHR 0xF0, CHR 0x9F, CHR 0x87, CHR 0xBA]\<rparr>),
    (''JP'', \<lparr>country_name = ''Japan'', flag = [CHR 0xF0, CHR 0x9F, CHR 0x87, CHR 0xAF, CHR 0xF0, CHR 0x9F, CHR 0x87, CHR 0xB5]\<rparr>),
    (''CN'', \<lparr>country_name = ''China'', flag = [CHR 0xF0, CHR 0x9F, CHR 0x87, CHR 0xA8, CHR 0xF0, CHR 0x9F, CHR 0x87, CHR 0xB3]\<rparr>),
    (''RU'', \<lparr>country_name = ''Russia'', flag = [CHR 0xF0, CHR 0x9F, CHR 0x87, CHR 0xB7, CHR 0xF0, CHR 0x9F, CHR 0x87, CHR 0xBA]\<rparr>),
    (''TR'', \<lparr>country_name = ''Turkey'', flag = [CHR 0xF0, CHR 0x9F, CHR 0x87, CHR 0xB9, CHR 0xF0, CHR 0x9F, CHR 0x87, CHR 0xB7]\<rparr>),
    (''AE'', \<lparr>country_name = ''United Arab Emirates'', flag = [CHR 0xF0, CHR 0x9F, CHR 0x87, CHR 0xA6, CHR 0xF0, CHR 0x9F, CHR 0x87, CHR 0xAA]\<rparr>),
    (''SA'', \<lparr>country_name = ''Saudi Arabia'', flag = [CHR 0xF0, CHR 0x9F, CHR 0x87, CHR 0xB8, CHR 0xF0, CHR 0x9F, CHR 0x87, CHR 0xA6]\<rparr>),
    (''IN'', \<lparr>country_name = ''India'', flag = [CHR 0xF0, CHR 0x9F, CHR 0x87, CHR 0xAE, CHR 0xF0, CHR 0x9F, CHR 0x87, CHR 0xB3]\<rparr>),
    (''PK'', \<lparr>country_name = ''Pakistan'', flag = [CHR 0xF0, CHR 0x9F, CHR 0x87, CHR 0xB5, CHR 0xF0, CHR 0x9F, CHR 0x87, CHR 0xB0]\<rparr>),
    (''AF'', \<lparr>country_name = ''Afghanistan'', flag = [CHR 0xF0, CHR 0x9F, CHR 0x87, CHR 0xA6, CHR 0xF0, CHR 0x9F, CHR 0x87, CHR 0xAB]\<rparr>),
    (''IQ'', \<lparr>country_name = ''Iraq'', flag = [CHR 0xF0, CHR 0x9F, CHR 0x87, CHR 0xAE, CHR 0xF0, CHR 0x9F, CHR 0x87, CHR 0xB6]\<rparr>),
    (''SE'', \<lparr>country_name = ''Sweden'', flag = [CHR 0xF0, CHR 0x9F, CHR 0x87, CHR 0xB8, CHR 0xF0, CHR 0x9F, CHR 0x87, CHR 0xAA]\<rparr>),
    (''NL'', \<lparr>country_name = ''Netherlands'', flag = [CHR 0xF0, CHR 0x9F, CHR 0x87, CHR 0xB3, CHR 0xF0, CHR 0x9F, CHR 0x87, CHR 0xB1]\<rparr>),
    (''IT'', \<lparr>country_name = ''Italy'', flag = [CHR 0xF0, CHR 0x9F, CHR 0x87, CHR 0xAE, CHR 0xF0, CHR 0x9F, CHR 0x87, CHR 0xB9]\<rparr>),
    (''ES'', \<lparr>country_name = ''Spain'', flag = [CHR 0xF0, CHR 0x9F, CHR 0x87, CHR 0xAA, CHR 0xF0, CHR 0x9F, CHR 0x87, CHR 0xB8]\<rparr>),
    (''PL'', \<lparr>country_name = ''Poland'', flag = [CHR 0xF0, CHR 0x9F, CHR 0x87, CHR 0xB5, CHR 0xF0, CHR 0x9F, CHR 0x87, CHR 0xB1]\<rparr>),
    (''BR'', \<lparr>country_name = ''Brazil'', flag = [CHR 0xF0, CHR 0x9F, CHR 0x87, CHR 0xA7, CHR 0xF0, CHR 0x9F, CHR 0x87, CHR 0xB7]\<rparr>),
    (''MX'', \<lparr>country_name = ''Mexico'', flag = [CHR 0xF0, CHR 0x9F, CHR 0x87, CHR 0xB2, CHR 0xF0, CHR 0x9F, CHR 0x87, CHR 0xBD]\<rparr>),
    (''ID'', \<lparr>country_name = ''Indonesia'', flag = [CHR 0xF0, CHR 0x9F, CHR 0x87, CHR 0xAE, CHR 0xF0, CHR 0x9F, CHR 0x87, CHR 0xA9]\<rparr>),
    (''KR'', \<lparr>country_name = ''South Korea'', flag = [CHR 0xF0, CHR 0x9F, CHR 0x87, CHR 0xB0, CHR 0xF0, CHR 0x9F, CHR 0x87, CHR 0xB7]\<rparr>),
    (''CH'', \<lparr>country_name = ''Switzerland'', flag = [CHR 0xF0, CHR 0x9F, CHR 0x87, CHR 0xA8, CHR 0xF0, CHR 0x9F, CHR 0x87, CHR 0xAD]\<rparr>),
    (''AT'', \<lparr>country_name = ''Austria'', flag = [CHR 0xF0, CHR 0x9F, CHR 0x87, CHR 0xA6, CHR 0xF0, CHR 0x9F, CHR 0x87, CHR 0xB9]\<rparr>),
    (''BE'', \<lparr>country_name = ''Belgium'', flag = [CHR 0xF0, CHR 0x9F, CHR 0x87, CHR 0xA7, CHR 0xF0, CHR 0x9F, CHR 0x87, CHR 0xAA]\<rparr>),
    (''DK'', \<lparr>country_name = ''Denmark'', flag = [CHR 0xF0, CHR 0x9F, CHR 0x87, CHR 0xA9, CHR 0xF0, CHR 0x9F, CHR 0x87, CHR 0xB0]\<rparr>),
    (''NO'', \<lparr>country_name = ''Norway'', flag = [CHR 0xF0, CHR 0x9F, CHR 0x87, CHR 0xB3, CHR 0xF0, CHR 0x9F, CHR 0x87, CHR 0xB4]\<rparr>),
    (''FI'', \<lparr>country_name = ''Finland'', flag = [CHR 0xF0, CHR 0x9F, CHR 0x87, CHR 0xAB, CHR 0xF0, CHR 0x9F, CHR 0x87, CHR 0xAE]\<rparr>),
    (''IE'', \<lparr>country_name = ''Ireland'', flag = [CHR 0xF0, CHR 0x9F, CHR 0x87, CHR 0xAE, CHR 0xF0, CHR 0x9F, CHR 0x87, CHR 0xAA]\<rparr>),
    (''PT'', \<lparr>country_name = ''Portugal'', flag = [CHR 0xF0, CHR 0x9F, CHR 0x87, CHR 0xB5, CHR 0xF0, CHR 0x9F, CHR 0x87, CHR 0xB9]\<rparr>),
    (''GR'', \<lparr>country_name = ''Greece'', flag = [CHR 0xF0, CHR 0x9F, CHR 0x87, CHR 0xAC, CHR 0xF0, CHR 0x9F, CHR 0x87, CHR 0xB7]\<rparr>),
    (''CZ'', \<lparr>country_name = ''Czech Republic'', flag = [CHR 0xF0, CHR 0x9F, CHR 0x87, CHR 0xA8, CHR 0xF0, CHR 0x9F, CHR 0x87, CHR 0xBF]\<rparr>),
    (''HU'', \<lparr>country_name = ''Hungary'', flag = [CHR 0xF0, CHR 0x9F, CHR 0x87, CHR 0xAD, CHR 0xF0, CHR 0x9F, CHR 0x87, CHR 0xBA]\<rparr>),
    (''RO'', \<lparr>country_name = ''Romania'', flag = [CHR 0xF0, CHR 0x9F, CHR 0x87, CHR 0xB7, CHR 0xF0, CHR 0x9F, CHR 0x87, CHR 0xB4]\<rparr>),
    (''UA'', \<lparr>country_name = ''Ukraine'', flag = [CHR 0xF0, CHR 0x9F, CHR 0x87, CHR 0xBA, CHR 0xF0, CHR 0x9F, CHR 0x87, CHR 0xA6]\<rparr>),
    (''IL'', \<lparr>country_name = ''Israel'', flag = [CHR 0xF0, CHR 0x9F, CHR 0x87, CHR 0xAE, CHR 0xF0, CHR 0x9F, CHR 0x87, CHR 0xB1]\<rparr>),
    (''EG'', \<lparr>country_name = ''Egypt'', flag = [CHR 0xF0, CHR 0x9F, CHR 0x87, CHR 0xAA, CHR 0xF0, CHR 0x9F, CHR 0x87, CHR 0xAC]\<rparr>),
    (''MA'', \<lparr>country_name = ''Morocco'', flag = [CHR 0xF0, CHR 0x9F, CHR 0x87, CHR 0xB2, CHR 0xF0, CHR 0x9F, CHR 0x87, CHR 0xA6]\<rparr>),
    (''ZA'', \<lparr>country_name = ''South Africa'', flag = [CHR 0xF0, CHR 0x9F, CHR 0x87, CHR 0xBF, CHR 0xF0, CHR 0x9F, CHR 0x87, CHR 0xA6]\<rparr>),
    (''NG'', \<lparr>country_name = ''Nigeria'', flag = [CHR 0xF0, CHR 0x9F, CHR 0x87, CHR 0xB3, CHR 0xF0, CHR 0x9F, CHR 0x87, CHR 0xAC]\<rparr>),
    (''KE'', \<lparr>country_name = ''Kenya'', flag = [CHR 0xF0, CHR 0x9F, CHR 0x87, CHR 0xB0, CHR 0xF0, CHR 0x9F, CHR 0x87, CHR 0xAA]\<rparr>),
    (''AR'', \<lparr>country_name = ''Argentina'', flag = [CHR 0xF0, CHR 0x9F, CHR 0x87, CHR 0xA6, CHR 0xF0, CHR 0x9F, CHR 0x87, CHR 0xB7]\<rparr>),
    (''CL'', \<lparr>country_name = ''Chile'', flag = [CHR 0xF0, CHR 0x9F, CHR 0x87, CHR 0xA8, CHR 0xF0, CHR 0x9F, CHR 0x87, CHR 0xB1]\<rparr>),
    (''CO'', \<lparr>country_name = ''Colombia'', flag = [CHR 0xF0, CHR 0x9F, CHR 0x87, CHR 0xA8, CHR 0xF0, CHR 0x9F, CHR 0x87, CHR 0xB4]\<rparr>),
    (''PE'', \<lparr>country_name = ''Peru'', flag = [CHR 0xF0, CHR 0x9F, CHR 0x87, CHR 0xB5, CHR 0xF0, CHR 0x9F, CHR 0x87, CHR 0xAA]\<rparr>),
    (''TH'', \<lparr>country_name = ''Thailand'', flag = [CHR 0xF0, CHR 0x9F, CHR 0x87, CHR 0xB9, CHR 0xF0, CHR 0x9F, CHR 0x87, CHR 0xAD]\<rparr>),
    (''VN'', \<lparr>country_name = ''Vietnam'', flag = [CHR 0xF0, CHR 0x9F, CHR 0x87, CHR 0xBB, CHR 0xF0, CHR 0x9F, CHR 0x87, CHR 0xB3]\<rparr>),
    (''MY'', \<lparr>country_name = ''Malaysia'', flag = [CHR 0xF0, CHR 0x9F, CHR 0x87, CHR 0xB2, CHR 0xF0, CHR 0x9F, CHR 0x87, CHR 0xBE]\<rparr>),
    (''SG'', \<lparr>country_name = ''Singapore'', flag = [CHR 0xF0, CHR 0x9F, CHR 0x87, CHR 0xB8, CHR 0xF0, CHR 0x9F, CHR 0x87, CHR 0xAC]\<rparr>),
    (''PH'', \<lparr>country_name = ''Philippines'', flag = [CHR 0xF0, CHR 0x9F, CHR 0x87, CHR 0xB5, CHR 0xF0, CHR 0x9F, CHR 0x87, CHR 0xAD]\<rparr>),
    (''NZ'', \<lparr>country_name = ''New Zealand'', flag = [CHR 0xF0, CHR 0x9F, CHR 0x87, CHR 0xB3, CHR 0xF0, CHR 0x9F, CHR 0x87, CHR 0xBF]\<rparr>)]"

definition WHITE_FLAG :: string where
  "WHITE_FLAG = [CHR 0xF0, CHR 0x9F, CHR 0x8F, CHR 0xB3, CHR 0xEF, CHR 0xB8, CHR 0x8F]"

definition UNKNOWN :: Country where
  "UNKNOWN = \<lparr>country_name = ''Unknown'', flag = WHITE_FLAG\<rparr>"

text \<open>\<^verbatim>\<open>toUpperCase\<close> is modelled on ASCII codes.\<close>

definition lookupCountry :: "string \<Rightarrow> Country" where
  "lookupCountry code =
     (if code = [] \<or> code = ''--'' \<or> code = [CHR 0x00, CHR 0x00] then UNKNOWN
      else let upper = ascii_upper code in
        case map_of ISO upper of
          Some c \<Rightarrow> c
        | None \<Rightarrow> \<lparr>country_name = upper, flag = WHITE_FLAG\<rparr>)"

text \<open>
  The flag of a two-letter code: its two regional indicator symbols, U+1F1E6 for the letter A to
  U+1F1FF for Z, in UTF-8.
\<close>

definition regional :: "string \<Rightarrow> string" where
  "regional code =
     concat (map (\<lambda>c. [CHR 0xF0, CHR 0x9F, CHR 0x87, char_of ((of_char c :: nat) + 101)]) code)"

lemma ISO_flags: "list_all (\<lambda>(k, c). flag c = regional k \<and> length k = 2 \<and> list_all is_upper k
                             \<and> country_name c \<noteq> []) ISO"
  by (simp add: ISO_def regional_def is_upper_def char_of_def bit_0)

lemma ascii_upper_fixed: "list_all is_upper s \<Longrightarrow> ascii_upper s = s"
  by (auto simp: ascii_upper_def list_all_iff is_upper_def upper_char_def Let_def intro!: map_idI)

text \<open>
  every entry of the country table is found under its code, in any letter case, and the flag
  shown is the one made of the code's own two regional indicator symbols; every other code gets
  the white flag.
\<close>

theorem country_flag_matches_code:
  "(map_of ISO (ascii_upper code) \<noteq> None
      \<longrightarrow> flag (lookupCountry code) = regional (ascii_upper code)
        \<and> lookupCountry code = the (map_of ISO (ascii_upper code)))
   \<and> (map_of ISO (ascii_upper code) = None \<longrightarrow> flag (lookupCountry code) = WHITE_FLAG)"
proof (cases "map_of ISO (ascii_upper code)")
  case None
  then show ?thesis by (simp add: lookupCountry_def UNKNOWN_def Let_def)
next
  case (Some c)
  then have "(ascii_upper code, c) \<in> set ISO" by (rule map_of_SomeD)
  then have f: "flag c = regional (ascii_upper code)" and l: "length (ascii_upper code) = 2"
    and u: "list_all is_upper (ascii_upper code)"
    using ISO_flags by (auto simp: list_all_iff)
  have "code \<noteq> []" using l by (auto simp: ascii_upper_def)
  moreover have "code \<noteq> ''--''" and "code \<noteq> [CHR 0x00, CHR 0x00]"
    using u by (auto simp: ascii_upper_def upper_char_def is_upper_def)
  ultimately show ?thesis using Some f by (simp add: lookupCountry_def Let_def)
qed

theorem country_flag_matches_code_witness:
  "flag (lookupCountry ''ir'') = regional ''IR''"
proof -
  have "map_of ISO (ascii_upper ''ir'') \<noteq> None" and "ascii_upper ''ir'' = ''IR''"
    by (simp_all add: ISO_def ascii_upper_def upper_char_def char_of_def bit_0)
  note facts = this
  have "flag (lookupCountry ''ir'') = regional (ascii_upper ''ir'')"
    using country_flag_matches_code [of "''ir''"] facts(1) by blast
  then show ?thesis by (simp only: facts(2))
qed

end
