(* ===== verification/Json.thy ===== *)
theory Json
  imports Js_Number
begin

text \<open>
  The value world of the language: finite and non-finite Numbers, \<^verbatim>\<open>Number(s)\<close> and
  \<^verbatim>\<open>String(n)\<close>, JSON values with \<^verbatim>\<open>JSON.stringify\<close> and
  \<^verbatim>\<open>JSON.parse\<close>, and the theorem that parsing inverts printing. The parser takes
  fuel, and the length of its input is always enough for a printed value.
\<close>

section \<open>Numbers with their special values\<close>

datatype number = Fin rat | NaN | PosInf | NegInf

text \<open>The Number nearest to a rational; from \<open>2 ^ 1024\<close> on it is an infinity.\<close>

definition dbl_limit :: rat where
  "dbl_limit = 2 ^ 1024"

definition to_number :: "rat \<Rightarrow> number" where
  "to_number x =
     (let d = dbl x in if dbl_limit \<le> d then PosInf else if d \<le> - dbl_limit then NegInf else Fin d)"

lemma to_number_of_int [num_simps]:
  assumes "\<bar>n\<bar> \<le> 2 ^ 53" shows "to_number (of_int n) = Fin (of_int n)"
proof -
  have "(of_int \<bar>n\<bar> :: rat) \<le> of_int (2 ^ 53)" using assms by (simp only: of_int_le_iff)
  also have "(of_int (2 ^ 53) :: rat) = 2 ^ 53" by simp
  also have "(2 ^ 53 :: rat) < dbl_limit" unfolding dbl_limit_def by (rule power_strict_increasing) simp_all
  finally have "\<bar>of_int n :: rat\<bar> < dbl_limit" by simp
  then show ?thesis using dbl_of_int [OF assms] by (simp add: to_number_def Let_def abs_less_iff not_le)
qed

definition is_integer :: "number \<Rightarrow> bool" where
  "is_integer n = (case n of Fin x \<Rightarrow> of_int \<lfloor>x\<rfloor> = x | _ \<Rightarrow> False)"

text \<open>
  \<^verbatim>\<open>String(n)\<close>: integers up to \<open>2 ^ 53\<close> by their digits; otherwise the shortest decimal
  that rounds to the number, found with one more digit at a time, laid out by its magnitude.
\<close>

definition pow10 :: "int \<Rightarrow> rat" where
  "pow10 e = (if 0 \<le> e then 10 ^ nat e else 1 / 10 ^ nat (- e))"

definition ilog10 :: "rat \<Rightarrow> int" where
  "ilog10 x =
     (let (p, q) = quotient_of x; e = int (length (show_nonneg p)) - int (length (show_nonneg q)) in
      if pow10 e \<le> x then e else e - 1)"

fun shortest_decimal :: "nat \<Rightarrow> int \<Rightarrow> rat \<Rightarrow> int \<times> int" where
  "shortest_decimal 0 e x = (\<lfloor>x / pow10 e + 1 / 2\<rfloor>, e)"
| "shortest_decimal (Suc f) e x =
     (let s = \<lfloor>x / pow10 e + 1 / 2\<rfloor> in
      if dbl (of_int s * pow10 e) = x then (s, e) else shortest_decimal f (e - 1) x)"

definition show_positive :: "rat \<Rightarrow> string" where
  "show_positive x =
     (let (s, z) = shortest_decimal 16 (ilog10 x) x;
          n = int (length (show_nonneg s)) + z; ds = drop_zeros (show_nonneg s);
          k = int (length ds); e = n - 1;
          tail = ''e'' @ (if e < 0 then ''-'' else ''+'') @ show_nonneg \<bar>e\<bar>
      in if k \<le> n \<and> n \<le> 21 then ds @ replicate (nat (n - k)) (CHR ''0'')
         else if 0 < n \<and> n \<le> 21 then take (nat n) ds @ ''.'' @ drop (nat n) ds
         else if - 6 < n \<and> n \<le> 0 then ''0.'' @ replicate (nat (- n)) (CHR ''0'') @ ds
         else if k = 1 then ds @ tail
         else take 1 ds @ ''.'' @ drop 1 ds @ tail)"

definition show_rat :: "rat \<Rightarrow> string" where
  "show_rat x =
     (if of_int \<lfloor>x\<rfloor> = x \<and> \<bar>\<lfloor>x\<rfloor>\<bar> < 2 ^ 53 then show_int \<lfloor>x\<rfloor>
      else if x < 0 then ''-'' @ show_positive (- x) else show_positive x)"

definition show_number :: "number \<Rightarrow> string" where
  "show_number n =
     (case n of Fin x \<Rightarrow> show_rat x | NaN \<Rightarrow> ''NaN'' | PosInf \<Rightarrow> ''Infinity'' | NegInf \<Rightarrow> ''-Infinity'')"

lemma show_rat_of_int [num_simps]: "\<bar>n\<bar> < 2 ^ 53 \<Longrightarrow> show_rat (of_int n) = show_int n"
  by (simp add: show_rat_def)

section \<open>Reading numerals\<close>

definition digits_of :: "string \<Rightarrow> string" where "digits_of s = takeWhile is_digit s"
definition after_digits :: "string \<Rightarrow> string" where "after_digits s = dropWhile is_digit s"

text \<open>An optional exponent part: its value and what follows. It needs at least one digit.\<close>

definition read_exponent :: "string \<Rightarrow> int \<times> string" where
  "read_exponent s =
     (case s of
        e # t \<Rightarrow>
          if e = CHR ''e'' \<or> e = CHR ''E'' then
            (let (neg, u) = (case t of c # t' \<Rightarrow> if c = CHR ''-'' then (True, t')
                                        else if c = CHR ''+'' then (False, t') else (False, t)
                             | [] \<Rightarrow> (False, []));
                 ds = digits_of u; v = read_nonneg ds
             in if ds = [] then (0, s) else (if neg then - v else v, after_digits u))
          else (0, s)
      | [] \<Rightarrow> (0, []))"

definition decimal_value :: "string \<Rightarrow> string \<Rightarrow> int \<Rightarrow> rat" where
  "decimal_value i f e =
     (of_int (read_nonneg i) + of_int (read_nonneg f) / 10 ^ length f) * pow10 e"

definition radix_digit :: "int \<Rightarrow> char \<Rightarrow> int option" where
  "radix_digit b c =
     (case hex_val c of Some v \<Rightarrow> if int v < b then Some (int v) else None | None \<Rightarrow> None)"

definition read_radix :: "int \<Rightarrow> string \<Rightarrow> number" where
  "read_radix b s =
     (if s = [] \<or> \<not> list_all (\<lambda>c. radix_digit b c \<noteq> None) s then NaN
      else to_number (of_int (foldl (\<lambda>n c. b * n + the (radix_digit b c)) 0 s)))"

definition unsigned_literal :: "string \<Rightarrow> rat option" where
  "unsigned_literal s =
     (let i = digits_of s; r = after_digits s;
          f = (case r of c # t \<Rightarrow> if c = CHR ''.'' then digits_of t else [] | [] \<Rightarrow> []);
          r' = (case r of c # t \<Rightarrow> if c = CHR ''.'' then after_digits t else r | [] \<Rightarrow> []);
          (e, rest) = read_exponent r'
      in if (i = [] \<and> f = []) \<or> rest \<noteq> [] then None else Some (decimal_value i f e))"

definition signed_literal :: "string \<Rightarrow> number" where
  "signed_literal s =
     (let (neg, u) = (case s of c # t \<Rightarrow> if c = CHR ''-'' then (True, t)
                                else if c = CHR ''+'' then (False, t) else (False, s)
                      | [] \<Rightarrow> (False, []))
      in if u = ''Infinity'' then (if neg then NegInf else PosInf)
         else (case unsigned_literal u of
                 None \<Rightarrow> NaN
               | Some v \<Rightarrow> to_number (if neg then - v else v)))"

text \<open>\<^verbatim>\<open>Number(s)\<close>.\<close>

definition number_of_string :: "string \<Rightarrow> number" where
  "number_of_string str =
     (let s = js_trim str in
      if s = [] then Fin 0
      else if prefix ''0x'' s \<or> prefix ''0X'' s then read_radix 16 (drop 2 s)
      else if prefix ''0o'' s \<or> prefix ''0O'' s then read_radix 8 (drop 2 s)
      else if prefix ''0b'' s \<or> prefix ''0B'' s then read_radix 2 (drop 2 s)
      else signed_literal s)"

section \<open>JSON\<close>

datatype json =
    JNull
  | JBool bool
  | JNum rat
  | JStr string
  | JArr "json list"
  | JObj "(string \<times> json) list"

definition control_escapes :: "(char \<times> char) list" where
  "control_escapes =
     [(CHR 0x08, CHR ''b''), (CHR 0x09, CHR ''t''), (CHR 0x0A, CHR ''n''), (CHR 0x0C, CHR ''f''),
      (CHR 0x0D, CHR ''r'')]"

definition lower_hex :: "nat \<Rightarrow> char" where
  "lower_hex n = ''0123456789abcdef'' ! n"

definition json_char :: "char \<Rightarrow> string" where
  "json_char c =
     (let n = of_char c :: nat in
      if c = CHR 0x22 then [CHR 0x5C, CHR 0x22]
      else if c = CHR 0x5C then [CHR 0x5C, CHR 0x5C]
      else if n < 32 then
        (case map_of control_escapes c of
           Some e \<Rightarrow> [CHR 0x5C, e]
         | None \<Rightarrow> [CHR 0x5C, CHR ''u'', CHR ''0'', CHR ''0'', lower_hex (n div 16), lower_hex (n mod 16)])
      else [c])"

definition quote :: "string \<Rightarrow> string" where
  "quote s = CHR 0x22 # concat (map json_char s) @ [CHR 0x22]"

text \<open>\<^verbatim>\<open>JSON.stringify(v)\<close> without indentation.\<close>

fun stringify :: "json \<Rightarrow> string" where
  "stringify JNull = ''null''"
| "stringify (JBool b) = (if b then ''true'' else ''false'')"
| "stringify (JNum x) = show_rat x"
| "stringify (JStr s) = quote s"
| "stringify (JArr xs) = ''['' @ join '','' (map stringify xs) @ '']''"
| "stringify (JObj ms) =
     ''{'' @ join '','' (map (\<lambda>m. quote (fst m) @ '':'' @ stringify (snd m)) ms) @ ''}''"

definition skip_ws :: "string \<Rightarrow> string" where
  "skip_ws s = dropWhile (\<lambda>c. c \<in> {CHR 0x20, CHR 0x09, CHR 0x0A, CHR 0x0D}) s"

definition hex4 :: "char \<Rightarrow> char \<Rightarrow> char \<Rightarrow> char \<Rightarrow> nat option" where
  "hex4 a b c d =
     (case (hex_val a, hex_val b, hex_val c, hex_val d) of
        (Some w, Some x, Some y, Some z) \<Rightarrow> Some (((w * 16 + x) * 16 + y) * 16 + z)
      | _ \<Rightarrow> None)"

definition simple_escape :: "char \<Rightarrow> char option" where
  "simple_escape e =
     map_of [(CHR 0x22, CHR 0x22), (CHR 0x5C, CHR 0x5C), (CHR ''/'', CHR ''/''), (CHR ''b'', CHR 0x08),
             (CHR ''f'', CHR 0x0C), (CHR ''n'', CHR 0x0A), (CHR ''r'', CHR 0x0D), (CHR ''t'', CHR 0x09)] e"

text \<open>
  The rest of a string literal after its opening quote. A pair of escaped surrogates is one code
  point; a lone one keeps its own three-byte encoding.
\<close>

fun parse_chars :: "string \<Rightarrow> (string \<times> string) option" where
  "parse_chars [] = None"
| "parse_chars (c # s) =
     (if c = CHR 0x22 then Some ([], s)
      else if c = CHR 0x5C then
        (case s of
           u # a # b # e # d # t \<Rightarrow>
             if u = CHR ''u'' then
               (case hex4 a b e d of
                  None \<Rightarrow> None
                | Some hi \<Rightarrow>
                    (case t of
                       sl # v # a' # b' # e' # d' # t' \<Rightarrow>
                         (case (if sl = CHR 0x5C \<and> v = CHR ''u'' \<and> 55296 \<le> hi \<and> hi < 56320
                                then hex4 a' b' e' d' else None) of
                            Some lo \<Rightarrow>
                              if 56320 \<le> lo \<and> lo < 57344
                              then map_option (\<lambda>(r, q). (utf8_char (65536 + (hi - 55296) * 1024 + (lo - 56320)) @ r, q))
                                     (parse_chars t')
                              else map_option (\<lambda>(r, q). (utf8_char hi @ r, q)) (parse_chars t)
                          | None \<Rightarrow> map_option (\<lambda>(r, q). (utf8_char hi @ r, q)) (parse_chars t))
                     | _ \<Rightarrow> map_option (\<lambda>(r, q). (utf8_char hi @ r, q)) (parse_chars t)))
             else (case simple_escape u of
                     Some x \<Rightarrow> map_option (\<lambda>(r, q). (x # r, q)) (parse_chars (a # b # e # d # t))
                   | None \<Rightarrow> None)
         | u # t \<Rightarrow>
             (case simple_escape u of
                Some x \<Rightarrow> map_option (\<lambda>(r, q). (x # r, q)) (parse_chars t)
              | None \<Rightarrow> None)
         | [] \<Rightarrow> None)
      else if (of_char c :: nat) < 32 then None
      else map_option (\<lambda>(r, q). (c # r, q)) (parse_chars s))"

text \<open>A JSON number: no leading zeros, digits on both sides of a point.\<close>

definition parse_unsigned :: "string \<Rightarrow> (rat \<times> string) option" where
  "parse_unsigned s =
     (let i = digits_of s; r = after_digits s in
      if i = [] \<or> (hd i = CHR ''0'' \<and> length i \<noteq> 1) then None
      else (case r of
              c # t \<Rightarrow>
                if c = CHR ''.'' then
                  (let f = digits_of t; (e, q) = read_exponent (after_digits t) in
                   if f = [] then None else Some (decimal_value i f e, q))
                else (let (e, q) = read_exponent r in Some (decimal_value i [] e, q))
            | [] \<Rightarrow> Some (decimal_value i [] 0, [])))"

definition parse_number :: "string \<Rightarrow> (json \<times> string) option" where
  "parse_number s =
     (case s of
        c # t \<Rightarrow>
          if c = CHR ''-'' then map_option (\<lambda>(v, q). (JNum (dbl (- v)), q)) (parse_unsigned t)
          else map_option (\<lambda>(v, q). (JNum (dbl v), q)) (parse_unsigned s)
      | [] \<Rightarrow> None)"

definition json_object :: "(string \<times> json) list \<Rightarrow> json" where
  "json_object ms = JObj (foldl (\<lambda>m (k, v). omap_set k v m) [] ms)"

definition strip_word :: "string \<Rightarrow> json \<Rightarrow> string \<Rightarrow> (json \<times> string) option" where
  "strip_word w v s = (if prefix w s then Some (v, drop (length w) s) else None)"

fun parse_value :: "nat \<Rightarrow> string \<Rightarrow> (json \<times> string) option"
and parse_elems :: "nat \<Rightarrow> string \<Rightarrow> (json list \<times> string) option"
and parse_members :: "nat \<Rightarrow> string \<Rightarrow> ((string \<times> json) list \<times> string) option" where
  "parse_value 0 s = None"
| "parse_value (Suc n) s =
     (case skip_ws s of
        [] \<Rightarrow> None
      | c # t \<Rightarrow>
          if c = CHR ''n'' then strip_word ''null'' JNull (c # t)
          else if c = CHR ''t'' then strip_word ''true'' (JBool True) (c # t)
          else if c = CHR ''f'' then strip_word ''false'' (JBool False) (c # t)
          else if c = CHR 0x22 then map_option (\<lambda>(x, q). (JStr x, q)) (parse_chars t)
          else if c = CHR ''['' then
            (case skip_ws t of
               b # q \<Rightarrow> if b = CHR '']'' then Some (JArr [], q)
                        else map_option (\<lambda>(xs, q). (JArr xs, q)) (parse_elems n t)
             | [] \<Rightarrow> None)
          else if c = CHR ''{'' then
            (case skip_ws t of
               b # q \<Rightarrow> if b = CHR ''}'' then Some (JObj [], q)
                        else map_option (\<lambda>(ms, q). (json_object ms, q)) (parse_members n t)
             | [] \<Rightarrow> None)
          else parse_number (c # t))"
| "parse_elems 0 s = None"
| "parse_elems (Suc n) s =
     (case parse_value n s of
        None \<Rightarrow> None
      | Some (x, r) \<Rightarrow>
          (case skip_ws r of
             c # q \<Rightarrow>
               if c = CHR '','' then map_option (\<lambda>(xs, q). (x # xs, q)) (parse_elems n q)
               else if c = CHR '']'' then Some ([x], q) else None
           | [] \<Rightarrow> None))"
| "parse_members 0 s = None"
| "parse_members (Suc n) s =
     (case skip_ws s of
        d # t \<Rightarrow>
          if d \<noteq> CHR 0x22 then None
          else (case parse_chars t of
                  None \<Rightarrow> None
                | Some (k, r) \<Rightarrow>
                    (case skip_ws r of
                       e # u \<Rightarrow>
                         if e \<noteq> CHR '':'' then None
                         else (case parse_value n u of
                                 None \<Rightarrow> None
                               | Some (v, r') \<Rightarrow>
                                   (case skip_ws r' of
                                      c # q \<Rightarrow>
                                        if c = CHR '','' then
                                          map_option (\<lambda>(ms, q). ((k, v) # ms, q)) (parse_members n q)
                                        else if c = CHR ''}'' then Some ([(k, v)], q) else None
                                    | [] \<Rightarrow> None))
                     | [] \<Rightarrow> None))
      | [] \<Rightarrow> None)"

text \<open>\<^verbatim>\<open>JSON.parse(s)\<close>; \<open>None\<close> is the SyntaxError.\<close>

definition json_parse :: "string \<Rightarrow> json option" where
  "json_parse s =
     (case parse_value (length s) s of
        Some (v, r) \<Rightarrow> if skip_ws r = [] then Some v else None
      | None \<Rightarrow> None)"

section \<open>Parsing inverts printing\<close>

text \<open>
  The values whose text is read back unchanged: integers below \<open>2 ^ 53\<close> in absolute value, and
  objects whose keys are distinct (which the objects of the language always are).
\<close>

fun json_ok :: "json \<Rightarrow> bool" where
  "json_ok (JNum x) = (of_int \<lfloor>x\<rfloor> = x \<and> \<bar>\<lfloor>x\<rfloor>\<bar> < 2 ^ 53)"
| "json_ok (JArr xs) = list_all json_ok xs"
| "json_ok (JObj ms) = (distinct (map fst ms) \<and> list_all (\<lambda>m. json_ok (snd m)) ms)"
| "json_ok _ = True"

text \<open>What may follow a value inside a document.\<close>

definition follows :: "string \<Rightarrow> bool" where
  "follows s \<longleftrightarrow> (case s of [] \<Rightarrow> True | c # _ \<Rightarrow> c \<in> {CHR '','', CHR '']'', CHR ''}''})"

lemma hex_digit_lower: "n < 16 \<Longrightarrow> hex_val (lower_hex n) = Some n"
proof -
  have "list_all (\<lambda>n. hex_val (lower_hex n) = Some n) [0..<16]"
    by (simp add: upt_rec hex_val_def lower_hex_def hex_table_def)
  then show "n < 16 \<Longrightarrow> hex_val (lower_hex n) = Some n" by (simp add: list_all_iff)
qed

lemma control_escapes_simple:
  "map_of control_escapes c = Some e \<Longrightarrow> simple_escape e = Some c \<and> e \<noteq> CHR ''u''"
  by (auto simp: control_escapes_def simple_escape_def split: if_splits)

lemma parse_escape:
  "simple_escape e = Some c \<Longrightarrow> e \<noteq> CHR ''u'' \<Longrightarrow>
     parse_chars (CHR 0x5C # e # s) = map_option (\<lambda>(r, q). (c # r, q)) (parse_chars s)"
  by (cases s rule: list.exhaust; cases "tl s"; cases "tl (tl s)"; cases "tl (tl (tl s))") auto

lemma parse_hex4:
  assumes "hex4 a b e d = Some n" and "n < 55296"
  shows "parse_chars (CHR 0x5C # CHR ''u'' # a # b # e # d # t)
           = map_option (\<lambda>(r, q). (utf8_char n @ r, q)) (parse_chars t)"
  using assms by (subst parse_chars.simps(2)) (simp del: parse_chars.simps split: list.split)

lemma parse_unicode:
  assumes "(of_char c :: nat) < 32"
  shows "parse_chars ([CHR 0x5C, CHR ''u'', CHR ''0'', CHR ''0'', lower_hex (of_char c div 16), lower_hex (of_char c mod 16)] @ s)
           = map_option (\<lambda>(r, q). (c # r, q)) (parse_chars s)"
proof -
  have h: "hex4 (CHR ''0'') (CHR ''0'') (lower_hex (of_char c div 16)) (lower_hex (of_char c mod 16)) = Some (of_char c)"
    using hex_digit_lower [of "of_char c div 16"] hex_digit_lower [of "of_char c mod 16"]
    by (simp add: hex4_def hex_val_def [of "CHR ''0''"] hex_table_def)
  have u: "utf8_char (of_char c) = [c]" using assms by (simp add: utf8_char_def)
  show ?thesis using assms u by (simp del: parse_chars.simps add: parse_hex4 [OF h])
qed

lemma parse_json_char:
  "parse_chars (json_char c @ s) = map_option (\<lambda>(r, q). (c # r, q)) (parse_chars s)"
proof -
  consider "c = CHR 0x22 \<or> c = CHR 0x5C" | e where "map_of control_escapes c = Some e" "(of_char c :: nat) < 32" "c \<noteq> CHR 0x22" "c \<noteq> CHR 0x5C"
    | "map_of control_escapes c = None" "(of_char c :: nat) < 32" "c \<noteq> CHR 0x22" "c \<noteq> CHR 0x5C"
    | "32 \<le> (of_char c :: nat)" "c \<noteq> CHR 0x22" "c \<noteq> CHR 0x5C"
    by (cases "map_of control_escapes c") force+
  then show ?thesis
  proof cases
    case 1
    then have "simple_escape c = Some c \<and> c \<noteq> CHR ''u''" by (auto simp: simple_escape_def)
    with 1 parse_escape [of c c s] show ?thesis by (auto simp: json_char_def Let_def simp del: parse_chars.simps)
  next
    case 2
    with control_escapes_simple [of c e] parse_escape [of e c s] show ?thesis
      by (simp add: json_char_def Let_def del: parse_chars.simps)
  next
    case 3
    with parse_unicode [of c s] show ?thesis by (simp add: json_char_def Let_def del: parse_chars.simps)
  next
    case 4
    then show ?thesis by (simp add: json_char_def Let_def)
  qed
qed

lemma parse_quoted: "parse_chars (concat (map json_char s) @ CHR 0x22 # rest) = Some (s, rest)"
  by (induction s) (simp_all add: parse_json_char del: parse_chars.simps(2), simp)

lemma digits_of_append:
  assumes "\<forall>c \<in> set ds. is_digit c" and "rest = [] \<or> \<not> is_digit (hd rest)"
  shows "digits_of (ds @ rest) = ds \<and> after_digits (ds @ rest) = rest"
  using assms by (cases rest) (auto simp: digits_of_def after_digits_def takeWhile_append2 dropWhile_append2)

lemma show_nonneg_leading: "0 < n \<Longrightarrow> hd (show_nonneg n) \<noteq> CHR ''0''"
proof (induction n rule: show_nonneg.induct)
  case (1 n)
  show ?case
  proof (cases "n < 10")
    case True
    have "digit n \<noteq> CHR ''0''" using digit_facts [of n] True "1.prems" by (auto simp: digit_value_def)
    with True show ?thesis by (simp add: show_nonneg.simps [of n])
  next
    case False
    with 1 have "hd (show_nonneg (n div 10)) \<noteq> CHR ''0''" by simp
    with False show ?thesis by (simp add: show_nonneg.simps [of n])
  qed
qed

lemma follows_cases:
  "follows rest \<Longrightarrow> rest = [] \<or> \<not> is_digit (hd rest) \<and> hd rest \<noteq> CHR ''.'' \<and> hd rest \<noteq> CHR ''e'' \<and> hd rest \<noteq> CHR ''E''"
  by (cases rest) (auto simp: follows_def is_digit_def)

lemma parse_unsigned_nonneg:
  assumes "0 \<le> n" and "follows rest"
  shows "parse_unsigned (show_nonneg n @ rest) = Some (of_int n, rest)"
proof -
  have d: "digits_of (show_nonneg n @ rest) = show_nonneg n" "after_digits (show_nonneg n @ rest) = rest"
    using digits_of_append [of "show_nonneg n" rest] show_nonneg_digits [OF assms(1)] follows_cases [OF assms(2)]
    by auto
  have z: "\<not> (hd (show_nonneg n) = CHR ''0'' \<and> length (show_nonneg n) \<noteq> 1)"
  proof (cases "n = 0")
    case True then show ?thesis by (simp add: show_nonneg.simps [of 0])
  next
    case False with assms(1) show ?thesis using show_nonneg_leading [of n] by simp
  qed
  have v: "decimal_value (show_nonneg n) [] 0 = of_int n"
    using assms(1) by (simp add: decimal_value_def pow10_def read_show_nonneg) (simp add: read_nonneg_def)
  show ?thesis
  proof (cases rest)
    case Nil
    with d z v show ?thesis by (simp add: parse_unsigned_def Let_def)
  next
    case (Cons c t)
    with follows_cases [OF assms(2)] have "read_exponent rest = (0, rest)" and "c \<noteq> CHR ''.''"
      by (auto simp: read_exponent_def)
    with Cons d z v show ?thesis by (simp add: parse_unsigned_def Let_def)
  qed
qed

lemma show_int_head:
  "\<exists>c t. show_int n = c # t \<and> (c = CHR ''-'' \<or> is_digit c)"
proof (cases "n < 0")
  case False
  then have "is_digit (hd (show_nonneg n))"
    using show_nonneg_digits [of n "hd (show_nonneg n)"] by simp
  with False show ?thesis by (cases "show_nonneg n") (auto simp: show_int_def)
qed (simp add: show_int_def)

lemma parse_number_int:
  assumes "\<bar>n\<bar> < 2 ^ 53" and "follows rest"
  shows "parse_number (show_int n @ rest) = Some (JNum (of_int n), rest)"
proof (cases "n < 0")
  case True
  moreover have "dbl (- of_int (- n)) = of_int n"
    using dbl_of_int [of n] assms(1) by simp
  ultimately show ?thesis
    using parse_unsigned_nonneg [of "- n" rest] assms(2) by (simp add: show_int_def parse_number_def)
next
  case False
  then obtain c t where ct: "show_nonneg n = c # t" "is_digit c"
    using show_int_head [of n] show_nonneg_digits [of n]
    by (cases "show_nonneg n") (auto simp: show_int_def)
  then have "c \<noteq> CHR ''-''" by (auto simp: is_digit_def)
  moreover have "dbl (of_int n) = of_int n" using dbl_of_int [of n] assms(1) by simp
  ultimately show ?thesis
    using parse_unsigned_nonneg [of n rest] False assms(2) ct by (simp add: show_int_def parse_number_def)
qed

definition plain_head :: "char \<Rightarrow> bool" where
  "plain_head c \<longleftrightarrow> c \<notin> {CHR 0x20, CHR 0x09, CHR 0x0A, CHR 0x0D, CHR '']'', CHR ''}'', CHR '':'', CHR '',''}"

lemma skip_ws_head: "c \<notin> {CHR 0x20, CHR 0x09, CHR 0x0A, CHR 0x0D} \<Longrightarrow> skip_ws (c # s) = c # s"
  by (simp add: skip_ws_def)

lemma stringify_head: "json_ok j \<Longrightarrow> \<exists>c t. stringify j = c # t \<and> plain_head c"
proof (cases j)
  case (JNum x)
  assume "json_ok j"
  with JNum have "stringify j = show_int \<lfloor>x\<rfloor>" by (simp add: show_rat_def)
  with show_int_head [of "\<lfloor>x\<rfloor>"] show ?thesis by (auto simp: plain_head_def is_digit_def)
qed (auto simp: quote_def plain_head_def)

definition parses :: "json \<Rightarrow> bool" where
  "parses j \<longleftrightarrow> (\<forall>n r. follows r \<and> length (stringify j) \<le> n \<longrightarrow> parse_value n (stringify j @ r) = Some (j, r))"

lemma parses_Suc:
  assumes "0 < length (stringify j)"
    and "\<And>n r. follows r \<Longrightarrow> length (stringify j) \<le> Suc n \<Longrightarrow> parse_value (Suc n) (stringify j @ r) = Some (j, r)"
  shows "parses j"
  unfolding parses_def
proof (intro allI impI)
  fix n r assume "follows r \<and> length (stringify j) \<le> n"
  with assms show "parse_value n (stringify j @ r) = Some (j, r)" by (cases n) auto
qed

lemma parse_elems_ok:
  assumes "xs \<noteq> []" and "\<forall>x \<in> set xs. parses x \<and> json_ok x" and "length (join '','' (map stringify xs)) < n"
  shows "parse_elems n (join '','' (map stringify xs) @ CHR '']'' # r) = Some (xs, r)"
  using assms
proof (induction xs arbitrary: n)
  case (Cons x xs)
  then obtain m where n: "n = Suc m" by (cases n) auto
  obtain c t where ct: "stringify x = c # t" using stringify_head [of x] Cons.prems by auto
  show ?case
  proof (cases xs)
    case Nil
    have "parse_value m (stringify x @ CHR '']'' # r) = Some (x, CHR '']'' # r)"
      using Cons.prems n Nil by (simp add: parses_def follows_def)
    then show ?thesis by (simp add: n Nil skip_ws_head)
  next
    case (Cons y ys)
    let ?rest = "join '','' (map stringify xs) @ CHR '']'' # r"
    have tx: "join '','' (map stringify (x # xs)) @ CHR '']'' # r = stringify x @ CHR '','' # ?rest"
      by (simp add: Cons)
    have len: "length (stringify x) \<le> m" "length (join '','' (map stringify xs)) < m"
      using Cons.prems(3) ct by (auto simp: n Cons)
    then have "parse_value m (stringify x @ CHR '','' # ?rest) = Some (x, CHR '','' # ?rest)"
      using Cons.prems(2) by (simp add: parses_def follows_def)
    moreover have "parse_elems m ?rest = Some (xs, r)"
      using Cons.IH [of m] Cons.prems(2) len(2) by (simp add: Cons)
    ultimately show ?thesis unfolding tx n by (simp add: skip_ws_head)
  qed
qed simp

abbreviation member_text :: "string \<times> json \<Rightarrow> string" where
  "member_text m \<equiv> quote (fst m) @ '':'' @ stringify (snd m)"

lemma parse_members_ok:
  assumes "ms \<noteq> []" and "\<forall>m \<in> set ms. parses (snd m) \<and> json_ok (snd m)"
    and "length (join '','' (map member_text ms)) < n"
  shows "parse_members n (join '','' (map member_text ms) @ CHR ''}'' # r) = Some (ms, r)"
  using assms
proof (induction ms arbitrary: n)
  case (Cons x ms)
  then obtain m where n: "n = Suc m" by (cases n) auto
  obtain k v where x: "x = (k, v)" by (cases x)
  have head: "parse_members (Suc m) (member_text x @ s) =
      (case parse_value m (stringify v @ s) of
         None \<Rightarrow> None
       | Some (v, r') \<Rightarrow>
           (case skip_ws r' of
              c # q \<Rightarrow>
                if c = CHR '','' then map_option (\<lambda>(ms, q). ((k, v) # ms, q)) (parse_members m q)
                else if c = CHR ''}'' then Some ([(k, v)], q) else None
            | [] \<Rightarrow> None))" for s
    using parse_quoted [of k "CHR '':'' # stringify v @ s"]
    by (simp add: x quote_def skip_ws_head del: parse_chars.simps)
  show ?case
  proof (cases ms)
    case Nil
    have "parse_value m (stringify v @ CHR ''}'' # r) = Some (v, CHR ''}'' # r)"
      using Cons.prems n Nil x by (simp add: parses_def follows_def)
    then show ?thesis using head [of "CHR ''}'' # r"] by (simp add: n Nil x skip_ws_head)
  next
    case (Cons y ys)
    let ?rest = "join '','' (map member_text ms) @ CHR ''}'' # r"
    have tx: "join '','' (map member_text (x # ms)) @ CHR ''}'' # r = member_text x @ CHR '','' # ?rest"
      by (simp add: Cons)
    have len: "length (stringify v) \<le> m" "length (join '','' (map member_text ms)) < m"
      using Cons.prems(3) by (auto simp: n Cons x quote_def)
    then have "parse_value m (stringify v @ CHR '','' # ?rest) = Some (v, CHR '','' # ?rest)"
      using Cons.prems(2) by (simp add: parses_def follows_def x)
    moreover have "parse_members m ?rest = Some (ms, r)"
      using Cons.IH [of m] Cons.prems(2) len(2) by (simp add: Cons)
    ultimately show ?thesis unfolding tx n head by (simp add: skip_ws_head x)
  qed
qed simp

lemma omap_set_fresh: "k \<notin> fst ` set m \<Longrightarrow> omap_set k v m = m @ [(k, v)]"
  by (induction k v m rule: omap_set.induct) auto

lemma json_object_distinct:
  assumes "distinct (map fst ms)" shows "json_object ms = JObj ms"
proof -
  have "distinct (map fst (a @ ms)) \<Longrightarrow> foldl (\<lambda>m (k, v). omap_set k v m) a ms = a @ ms" for a
  proof (induction ms arbitrary: a)
    case (Cons x ms)
    then show ?case
      using Cons.IH [of "a @ [x]"] by (cases x) (auto simp: omap_set_fresh)
  qed simp
  from this [of "[]"] assms show ?thesis by (simp add: json_object_def)
qed

lemma join_plain_head:
  assumes "xs \<noteq> []" and "\<exists>c t. hd xs = c # t \<and> plain_head c"
  shows "\<exists>c t. join '','' xs = c # t \<and> plain_head c"
  using assms by (cases xs rule: remdups_adj.cases) auto

lemma json_ok_parses: "json_ok j \<Longrightarrow> parses j"
proof (induction j)
  case (JNum x)
  then have s: "stringify (JNum x) = show_int \<lfloor>x\<rfloor>" and x: "of_int \<lfloor>x\<rfloor> = x" and b: "\<bar>\<lfloor>x\<rfloor>\<bar> < 2 ^ 53"
    by (auto simp: show_rat_def)
  obtain c t where ct: "show_int \<lfloor>x\<rfloor> = c # t" "c = CHR ''-'' \<or> is_digit c" using show_int_head by blast
  show ?case
  proof (rule parses_Suc; unfold s)
    show "0 < length (show_int \<lfloor>x\<rfloor>)" by (simp add: ct)
    fix n r assume "follows r"
    then have "parse_number (show_int \<lfloor>x\<rfloor> @ r) = Some (JNum x, r)"
      using parse_number_int [OF b] x by simp
    moreover have "skip_ws (c # t @ r) = c # t @ r"
      using ct(2) by (intro skip_ws_head) (auto simp: is_digit_def)
    moreover have "c \<notin> {CHR ''n'', CHR ''t'', CHR ''f'', CHR 0x22, CHR ''['', CHR ''{''}"
      using ct(2) by (auto simp: is_digit_def)
    ultimately show "parse_value (Suc n) (show_int \<lfloor>x\<rfloor> @ r) = Some (JNum x, r)" by (simp add: ct(1))
  qed
next
  case (JStr s)
  show ?case
  proof (rule parses_Suc)
    fix n r
    show "parse_value (Suc n) (stringify (JStr s) @ r) = Some (JStr s, r)"
      using parse_quoted [of s r] by (simp add: quote_def skip_ws_head del: parse_chars.simps)
  qed (simp add: quote_def)
next
  case (JArr xs)
  have el: "\<forall>x \<in> set xs. parses x \<and> json_ok x" using JArr by (auto simp: list_all_iff)
  show ?case
  proof (rule parses_Suc)
    fix n r assume h: "length (stringify (JArr xs)) \<le> Suc n"
    show "parse_value (Suc n) (stringify (JArr xs) @ r) = Some (JArr xs, r)"
    proof (cases "xs = []")
      case True
      then show ?thesis by (simp add: skip_ws_head)
    next
      case False
      then have "\<exists>c t. join '','' (map stringify xs) = c # t \<and> plain_head c"
        using stringify_head el by (intro join_plain_head) (auto simp: hd_map)
      then obtain c t where ct: "join '','' (map stringify xs) = c # t" "plain_head c" by blast
      have "parse_elems n (join '','' (map stringify xs) @ CHR '']'' # r) = Some (xs, r)"
        using h by (intro parse_elems_ok [OF False el]) simp
      then show ?thesis using ct by (simp add: skip_ws_head plain_head_def)
    qed
  qed simp
next
  case (JObj ms)
  have el: "\<forall>m \<in> set ms. parses (snd m) \<and> json_ok (snd m)"
    using JObj by (auto simp: list_all_iff)
  show ?case
  proof (rule parses_Suc)
    fix n r assume h: "length (stringify (JObj ms)) \<le> Suc n"
    show "parse_value (Suc n) (stringify (JObj ms) @ r) = Some (JObj ms, r)"
    proof (cases "ms = []")
      case True
      then show ?thesis by (simp add: skip_ws_head)
    next
      case False
      then have "\<exists>c t. join '','' (map member_text ms) = c # t \<and> plain_head c"
        by (intro join_plain_head) (auto simp: hd_map quote_def plain_head_def)
      then obtain c t where ct: "join '','' (map member_text ms) = c # t" "plain_head c" by blast
      have "parse_members n (join '','' (map member_text ms) @ CHR ''}'' # r) = Some (ms, r)"
        using h by (intro parse_members_ok [OF False el]) simp
      moreover have "json_object ms = JObj ms" using JObj.prems by (simp add: json_object_distinct)
      ultimately show ?thesis using ct by (simp add: skip_ws_head plain_head_def)
    qed
  qed simp
qed (rule parses_Suc; simp add: skip_ws_head strip_word_def)+

theorem json_parse_stringify: "json_ok j \<Longrightarrow> json_parse (stringify j) = Some j"
  using json_ok_parses [of j] unfolding parses_def json_parse_def
  by (auto dest!: spec [where x = "length (stringify j)"] spec [where x = "[]"] simp: follows_def skip_ws_def)

section \<open>Plain objects\<close>

text \<open>
  A plain object used as a string map is an association list in the order of
  \<^verbatim>\<open>Object.keys\<close>: array indices first, ascending, then the other keys in insertion
  order. Assigning to the key \<^verbatim>\<open>__proto__\<close> with brackets reaches the prototype setter,
  which ignores strings; in an object literal it defines an own property.
\<close>

type_synonym props = "(string \<times> string) list"

definition array_index :: "string \<Rightarrow> int option" where
  "array_index k =
     (if k \<noteq> [] \<and> list_all is_digit k \<and> show_nonneg (read_nonneg k) = k \<and> read_nonneg k < 2 ^ 32 - 1
      then Some (read_nonneg k) else None)"

fun insert_index :: "int \<Rightarrow> string \<Rightarrow> 'v \<Rightarrow> (string, 'v) omap \<Rightarrow> (string, 'v) omap" where
  "insert_index n k v [] = [(k, v)]"
| "insert_index n k v ((k', v') # m) =
     (case array_index k' of
        Some n' \<Rightarrow> if n < n' then (k, v) # (k', v') # m else (k', v') # insert_index n k v m
      | None \<Rightarrow> (k, v) # (k', v') # m)"

definition obj_define :: "string \<Rightarrow> 'v \<Rightarrow> (string, 'v) omap \<Rightarrow> (string, 'v) omap" where
  "obj_define k v m =
     (if k \<in> set (keys m) then omap_set k v m
      else (case array_index k of Some n \<Rightarrow> insert_index n k v m | None \<Rightarrow> m @ [(k, v)]))"

definition obj_assign :: "string \<Rightarrow> string \<Rightarrow> props \<Rightarrow> props" where
  "obj_assign k v m = (if k = ''__proto__'' then m else obj_define k v m)"

lemma set_keys_insert_index: "set (keys (insert_index n k v m)) = insert k (set (keys m))"
  by (induction n k v m rule: insert_index.induct) (auto simp: keys_def split: option.splits)

lemma map_of_insert_index:
  "k \<notin> set (keys m) \<Longrightarrow> map_of (insert_index n k v m) = (map_of m)(k \<mapsto> v)"
  by (induction n k v m rule: insert_index.induct) (auto simp: keys_def split: option.splits)

lemma distinct_insert_index:
  "distinct (keys m) \<Longrightarrow> k \<notin> set (keys m) \<Longrightarrow> distinct (keys (insert_index n k v m))"
proof (induction n k v m rule: insert_index.induct)
  case (2 n k v k' v' m)
  then show ?case
    using set_keys_insert_index [of n k v m] by (auto simp: keys_def split: option.splits)
qed (simp add: keys_def)

lemma map_of_obj_define [obj_simps]: "map_of (obj_define k v m) = (map_of m)(k \<mapsto> v)"
proof (cases "k \<in> set (keys m)")
  case False
  then have "k \<notin> dom (map_of m)" by (simp flip: keys_dom)
  with False show ?thesis
    by (auto simp: obj_define_def map_of_insert_index map_add_def split: option.splits intro!: ext)
qed (simp add: obj_define_def map_of_omap_set)

lemma set_keys_obj_define [obj_simps]: "set (keys (obj_define k v m)) = insert k (set (keys m))"
  by (auto simp: obj_define_def set_keys_omap_set set_keys_insert_index split: option.splits)
     (auto simp: keys_def)

lemma distinct_obj_define [obj_simps]: "distinct (keys m) \<Longrightarrow> distinct (keys (obj_define k v m))"
  by (auto simp: obj_define_def distinct_omap_set distinct_insert_index split: option.splits)
     (auto simp: keys_def)

end
