(* ===== verification/Field.thy ===== *)
theory Field
  imports Json
begin

text \<open>
  Form validation and error texts: the regular expressions and validators of
  \<^verbatim>\<open>web/src/lib/field.ts\<close>, the \<^verbatim>\<open>HttpError\<close> class of
  \<^verbatim>\<open>web/src/api/admin.ts\<close> and \<^verbatim>\<open>web/src/lib/errorMessage.ts\<close>.
  Regular expressions are matched by derivatives and characterised by their languages; all of
  them are anchored at both ends, so \<^verbatim>\<open>test\<close> is membership.
\<close>

section \<open>Anchored regular expressions\<close>

datatype re =
    Zero
  | Eps
  | Cls "char \<Rightarrow> bool"
  | Seq re re
  | Alt re re
  | Star re

fun nullable :: "re \<Rightarrow> bool" where
  "nullable Zero = False"
| "nullable Eps = True"
| "nullable (Cls P) = False"
| "nullable (Seq r s) = (nullable r \<and> nullable s)"
| "nullable (Alt r s) = (nullable r \<or> nullable s)"
| "nullable (Star r) = True"

fun deriv :: "char \<Rightarrow> re \<Rightarrow> re" where
  "deriv c Zero = Zero"
| "deriv c Eps = Zero"
| "deriv c (Cls P) = (if P c then Eps else Zero)"
| "deriv c (Seq r s) = (if nullable r then Alt (Seq (deriv c r) s) (deriv c s) else Seq (deriv c r) s)"
| "deriv c (Alt r s) = Alt (deriv c r) (deriv c s)"
| "deriv c (Star r) = Seq (deriv c r) (Star r)"

definition re_test :: "re \<Rightarrow> string \<Rightarrow> bool" where
  "re_test r s = nullable (foldl (\<lambda>r c. deriv c r) r s)"

fun lang :: "re \<Rightarrow> string set" where
  "lang Zero = {}"
| "lang Eps = {[]}"
| "lang (Cls P) = {[c] | c. P c}"
| "lang (Seq r s) = {a @ b | a b. a \<in> lang r \<and> b \<in> lang s}"
| "lang (Alt r s) = lang r \<union> lang s"
| "lang (Star r) = {concat ws | ws. set ws \<subseteq> lang r}"

lemma nullable_lang: "nullable r \<longleftrightarrow> [] \<in> lang r"
  by (induction r) (auto intro: exI [where x = "[]"])

lemma star_head:
  "set ws \<subseteq> L \<Longrightarrow> concat ws = c # s \<Longrightarrow> \<exists>a b vs. s = a @ b \<and> c # a \<in> L \<and> b = concat vs \<and> set vs \<subseteq> L"
proof (induction ws)
  case (Cons w ws)
  show ?case
  proof (cases w)
    case Nil with Cons show ?thesis by auto
  next
    case (Cons d a)
    with Cons.prems show ?thesis by auto
  qed
qed simp

lemma deriv_lang: "s \<in> lang (deriv c r) \<longleftrightarrow> c # s \<in> lang r"
proof (induction r arbitrary: s)
  case (Seq r1 r2)
  have "c # s \<in> lang (Seq r1 r2) \<longleftrightarrow>
      (\<exists>a b. s = a @ b \<and> c # a \<in> lang r1 \<and> b \<in> lang r2) \<or> ([] \<in> lang r1 \<and> c # s \<in> lang r2)"
    by (auto simp: Cons_eq_append_conv)
  then show ?case by (auto simp: Seq nullable_lang)
next
  case (Star r)
  show ?case
  proof
    assume "s \<in> lang (deriv c (Star r))"
    then obtain a ws where "s = a @ concat ws" "c # a \<in> lang r" "set ws \<subseteq> lang r"
      using Star by auto
    then have "c # s = concat ((c # a) # ws) \<and> set ((c # a) # ws) \<subseteq> lang r" by simp
    then show "c # s \<in> lang (Star r)" unfolding lang.simps by blast
  next
    assume "c # s \<in> lang (Star r)"
    then obtain ws where ws: "set ws \<subseteq> lang r" and "concat ws = c # s"
      unfolding lang.simps by (auto dest: sym)
    from star_head [OF this]
    obtain a vs where "s = a @ concat vs" "c # a \<in> lang r" "set vs \<subseteq> lang r"
      by (elim exE conjE) simp
    moreover from this have "a \<in> lang (deriv c r)" using Star by simp
    ultimately show "s \<in> lang (deriv c (Star r))" unfolding deriv.simps lang.simps by blast
  qed
qed (auto split: if_splits)

lemma re_test_lang: "re_test r s \<longleftrightarrow> s \<in> lang r"
proof (induction s arbitrary: r)
  case (Cons c s)
  then show ?case by (simp add: re_test_def deriv_lang)
qed (simp add: re_test_def nullable_lang)

definition Plus :: "re \<Rightarrow> re" where "Plus r = Seq r (Star r)"
definition Opt :: "re \<Rightarrow> re" where "Opt r = Alt r Eps"

fun Lit :: "string \<Rightarrow> re" where
  "Lit [] = Eps"
| "Lit (c # s) = Seq (Cls (\<lambda>d. d = c)) (Lit s)"

text \<open>\<^verbatim>\<open>r{m,n}\<close>.\<close>

fun Between :: "nat \<Rightarrow> nat \<Rightarrow> re \<Rightarrow> re" where
  "Between 0 0 r = Eps"
| "Between 0 (Suc n) r = Opt (Seq r (Between 0 n r))"
| "Between (Suc m) 0 r = Zero"
| "Between (Suc m) (Suc n) r = Seq r (Between m n r)"

named_theorems re_simps \<open>languages of regular expressions\<close>

lemma lang_star_cls [re_simps]: "s \<in> lang (Star (Cls P)) \<longleftrightarrow> list_all P s"
proof
  assume "s \<in> lang (Star (Cls P))"
  then show "list_all P s" by (fastforce simp: list_all_iff)
next
  assume "list_all P s"
  then have "s = concat (map (\<lambda>c. [c]) s) \<and> set (map (\<lambda>c. [c]) s) \<subseteq> lang (Cls P)"
    by (auto simp: list_all_iff)
  then show "s \<in> lang (Star (Cls P))" unfolding lang.simps by blast
qed

lemma lang_seq_cls: "s \<in> lang (Seq (Cls P) r) \<longleftrightarrow> (\<exists>c t. s = c # t \<and> P c \<and> t \<in> lang r)"
proof -
  have "[c] @ t = s \<longleftrightarrow> c # t = s" for c t by simp
  then show ?thesis unfolding lang.simps mem_Collect_eq by (metis (mono_tags, lifting))
qed

lemma lang_plus_cls [re_simps]: "s \<in> lang (Plus (Cls P)) \<longleftrightarrow> s \<noteq> [] \<and> list_all P s"
  unfolding Plus_def lang_seq_cls lang_star_cls by (cases s) auto

lemma lang_lit [re_simps]: "lang (Lit w) = {w}"
  by (induction w) auto

lemma lang_between_cls [re_simps]:
  "s \<in> lang (Between m n (Cls P)) \<longleftrightarrow> m \<le> length s \<and> length s \<le> n \<and> list_all P s"
proof (induction m n "Cls P" arbitrary: s rule: Between.induct)
  case (2 n)
  have "s \<in> lang (Between 0 (Suc n) (Cls P)) \<longleftrightarrow> s \<in> lang (Seq (Cls P) (Between 0 n (Cls P))) \<or> s = []"
    by (auto simp: Opt_def simp del: lang.simps(4))
  with 2 show ?case unfolding lang_seq_cls by (cases s) auto
next
  case (4 m n)
  then show ?case unfolding Between.simps lang_seq_cls by (cases s) auto
qed auto

lemma lang_seq_split:
  "s \<in> lang (Seq r q) \<longleftrightarrow> (\<exists>a b. s = a @ b \<and> a \<in> lang r \<and> b \<in> lang q)"
  by auto

section \<open>The expressions of field.ts\<close>

definition host_class :: "char \<Rightarrow> bool" where
  "host_class c = (is_lower c \<or> is_digit c \<or> c = CHR ''.'' \<or> c = CHR ''-'')"

definition port_re :: re where
  "port_re = Opt (Seq (Lit '':'') (Plus (Cls is_digit)))"

definition HOSTNAME_RE :: re where
  "HOSTNAME_RE = Seq (Plus (Cls host_class)) port_re"

definition SLUG_RE :: re where
  "SLUG_RE = Plus (Cls (\<lambda>c. is_lower c \<or> is_digit c \<or> c = CHR ''-''))"

text \<open>
  \<^verbatim>\<open>\S\<close> on bytes: no ASCII white space; the wide white-space characters are excluded
  by \<open>has_white_space\<close>, which looks for them anywhere in the text.
\<close>

definition non_space :: "char \<Rightarrow> bool" where
  "non_space c = ([c] \<notin> set whitespace)"

fun has_white_space :: "string \<Rightarrow> bool" where
  "has_white_space [] = False"
| "has_white_space (c # s) = (strip_one whitespace (c # s) \<noteq> None \<or> has_white_space s)"

definition EMAIL_RE :: re where
  "EMAIL_RE =
     Seq (Plus (Cls non_space)) (Seq (Lit ''@'') (Seq (Plus (Cls non_space))
       (Seq (Lit ''.'') (Plus (Cls non_space)))))"

definition USERNAME_RE :: re where
  "USERNAME_RE = Between 2 32 (Cls (\<lambda>c. is_lower c \<or> is_digit c \<or> c \<in> set ''._-''))"

text \<open>The flag \<^verbatim>\<open>i\<close> of the origin expression: every class also admits capitals.\<close>

definition HTTPS_ORIGIN_RE :: re where
  "HTTPS_ORIGIN_RE =
     foldr Seq (map (\<lambda>d. Cls (\<lambda>c. lower_char c = d)) ''https://'')
       (Seq (Plus (Cls (\<lambda>c. host_class (lower_char c)))) port_re)"

definition EVENT_NAME_RE :: re where
  "EVENT_NAME_RE = Between 1 128 (Cls (\<lambda>c. is_lower c \<or> is_digit c \<or> c = CHR ''_''))"

section \<open>Validators\<close>

text \<open>The values a form hands to a validator typed \<^verbatim>\<open>unknown\<close>.\<close>

datatype jsval = Undefined | Null | Bool bool | Num number | Str string

type_synonym error_sentence = "string option"

definition oneOf :: "'a list \<Rightarrow> 'a \<Rightarrow> error_sentence" where
  "oneOf allowed v = (if v \<in> set allowed then None else Some ''Pick a value from the list.'')"

definition hostname_error :: string where
  "hostname_error = ''Hostname must be a domain like `example.com` (no `https://`, no `/`).''"

definition hostname :: "jsval \<Rightarrow> error_sentence" where
  "hostname v =
     (case v of
        Str s \<Rightarrow>
          if js_length s = 0 \<or> 253 < js_length s \<or> \<not> re_test HOSTNAME_RE s
          then Some hostname_error else None
      | _ \<Rightarrow> Some hostname_error)"

definition slug_error :: string where
  "slug_error = ''Slug can use letters, numbers, and hyphens only. Up to 32 characters.''"

definition slug :: "jsval \<Rightarrow> error_sentence" where
  "slug v =
     (case v of
        Undefined \<Rightarrow> None
      | Null \<Rightarrow> None
      | Str s \<Rightarrow>
          if s = [] then None
          else if js_length s < 2 \<or> 32 < js_length s \<or> \<not> re_test SLUG_RE s
          then Some slug_error else None
      | _ \<Rightarrow> Some slug_error)"

definition email :: "jsval \<Rightarrow> error_sentence" where
  "email v =
     (case v of
        Str s \<Rightarrow>
          if re_test EMAIL_RE s \<and> \<not> has_white_space s then None
          else Some ''That doesn't look like an email address.''
      | _ \<Rightarrow> Some ''That doesn't look like an email address.'')"

definition username_error :: string where
  "username_error =
     ''Username can use letters, numbers, dots, hyphens, and underscores. Up to 32 characters.''"

definition username :: "jsval \<Rightarrow> error_sentence" where
  "username v =
     (case v of
        Str s \<Rightarrow> if re_test USERNAME_RE s then None else Some username_error
      | _ \<Rightarrow> Some username_error)"

definition password :: "jsval \<Rightarrow> error_sentence" where
  "password v =
     (case v of
        Str s \<Rightarrow> if 12 \<le> js_length s then None else Some ''Password needs at least 12 characters.''
      | _ \<Rightarrow> Some ''Password needs at least 12 characters.'')"

text \<open>\<^verbatim>\<open>String(value ?? '')\<close>.\<close>

definition string_of :: "jsval \<Rightarrow> string" where
  "string_of v =
     (case v of
        Undefined \<Rightarrow> []
      | Null \<Rightarrow> []
      | Bool b \<Rightarrow> if b then ''true'' else ''false''
      | Num n \<Rightarrow> show_number n
      | Str s \<Rightarrow> s)"

definition origin_error :: "string \<Rightarrow> string" where
  "origin_error shown =
     ''Must start with `https://` and have no `/` or path. You entered `'' @ shown @ ''`.''"

definition httpsOrigin :: "jsval \<Rightarrow> error_sentence" where
  "httpsOrigin v =
     (case v of
        Str s \<Rightarrow> if re_test HTTPS_ORIGIN_RE s then None else Some (origin_error s)
      | _ \<Rightarrow> Some (origin_error (string_of v)))"

definition event_name_error :: string where
  "event_name_error =
     ''Event name uses lowercase letters, numbers, and underscores only. Up to 128 characters.''"

definition eventName :: "jsval \<Rightarrow> error_sentence" where
  "eventName v =
     (case v of
        Str s \<Rightarrow> if re_test EVENT_NAME_RE s then None else Some event_name_error
      | _ \<Rightarrow> Some event_name_error)"

text \<open>\<^verbatim>\<open>Number(value)\<close> of a primitive.\<close>

definition number_of :: "jsval \<Rightarrow> number" where
  "number_of v =
     (case v of
        Undefined \<Rightarrow> NaN
      | Null \<Rightarrow> Fin 0
      | Bool b \<Rightarrow> Fin (if b then 1 else 0)
      | Num n \<Rightarrow> n
      | Str s \<Rightarrow> number_of_string s)"

definition goalValue :: "jsval \<Rightarrow> error_sentence" where
  "goalValue v =
     (case number_of v of
        Fin n \<Rightarrow>
          if \<not> is_integer (Fin n) \<or> n < 0 \<or> 10 < js_length (show_number (Fin n))
          then Some ''Value must be 0 or a positive whole number.'' else None
      | _ \<Rightarrow> Some ''Value must be 0 or a positive whole number.'')"

section \<open>What the validators accept\<close>

lemma ascii_of_class:
  "list_all P s \<Longrightarrow> (\<And>c. P c \<Longrightarrow> (of_char c :: nat) < 128) \<Longrightarrow> js_length s = length s"
  by (intro js_length_ascii) (auto simp: is_ascii_def list_all_iff)

lemma class_ascii:
  "is_lower c \<Longrightarrow> (of_char c :: nat) < 128" "is_digit c \<Longrightarrow> (of_char c :: nat) < 128"
  "host_class c \<Longrightarrow> (of_char c :: nat) < 128"
  by (auto simp: is_lower_def is_digit_def host_class_def Let_def)

text \<open>An optional port: nothing, or a colon and digits.\<close>

definition is_port :: "string \<Rightarrow> bool" where
  "is_port p = (case p of [] \<Rightarrow> True | c # d \<Rightarrow> c = CHR '':'' \<and> d \<noteq> [] \<and> list_all is_digit d)"

lemma lang_port: "p \<in> lang port_re \<longleftrightarrow> is_port p"
  unfolding port_re_def Opt_def lang.simps(5) Un_iff lang_seq_split lang.simps(2)
  by (cases p) (auto simp: re_simps is_port_def)

lemma is_port_ascii: "is_port p \<Longrightarrow> is_ascii p"
  by (cases p) (auto simp: is_port_def is_ascii_def list_all_iff class_ascii)

lemma lang_hostname:
  "s \<in> lang HOSTNAME_RE \<longleftrightarrow> (\<exists>h p. s = h @ p \<and> h \<noteq> [] \<and> list_all host_class h \<and> is_port p)"
  unfolding HOSTNAME_RE_def lang_seq_split by (simp add: re_simps lang_port)

lemma lang_fold_cls:
  "s \<in> lang (foldr Seq (map Cls Ps) r) \<longleftrightarrow>
     (\<exists>a b. s = a @ b \<and> list_all2 (\<lambda>P c. P c) Ps a \<and> b \<in> lang r)"
proof (induction Ps arbitrary: s)
  case (Cons P Ps)
  have "s \<in> lang (foldr Seq (map Cls (P # Ps)) r) \<longleftrightarrow>
      (\<exists>c t. s = c # t \<and> P c \<and> t \<in> lang (foldr Seq (map Cls Ps) r))"
    unfolding list.map foldr.simps o_apply lang_seq_cls by (rule refl)
  also have "\<dots> \<longleftrightarrow> (\<exists>c a b. s = c # a @ b \<and> P c \<and> list_all2 (\<lambda>P c. P c) Ps a \<and> b \<in> lang r)"
    using Cons.IH by auto
  also have "\<dots> \<longleftrightarrow> (\<exists>a b. s = a @ b \<and> list_all2 (\<lambda>P c. P c) (P # Ps) a \<and> b \<in> lang r)"
    unfolding list_all2_Cons1 by (metis append_Cons)
  finally show ?case .
qed simp

lemma lower_match: "list_all2 (\<lambda>P c. P c) (map (\<lambda>d c. lower_char c = d) w) a \<longleftrightarrow> ascii_lower a = w"
  by (induction w arbitrary: a) (auto simp: ascii_lower_def list_all2_Cons1 Cons_eq_map_conv)

lemma lang_origin:
  "s \<in> lang HTTPS_ORIGIN_RE \<longleftrightarrow>
     (\<exists>a h p. s = a @ h @ p \<and> ascii_lower a = ''https://'' \<and> h \<noteq> []
        \<and> list_all host_class (ascii_lower h) \<and> is_port p)"
proof -
  have all: "list_all (\<lambda>c. host_class (lower_char c)) h = list_all host_class (ascii_lower h)" for h
    by (simp add: ascii_lower_def list_all_iff)
  have fold: "HTTPS_ORIGIN_RE = foldr Seq (map Cls (map (\<lambda>d c. lower_char c = d) ''https://''))
       (Seq (Plus (Cls (\<lambda>c. host_class (lower_char c)))) port_re)"
    unfolding HTTPS_ORIGIN_RE_def map_map o_def by simp
  show ?thesis
    unfolding fold lang_fold_cls lower_match lang_seq_split re_simps lang_port all by blast
qed


lemma hostname_ascii:
  "s \<in> lang HOSTNAME_RE \<Longrightarrow> is_ascii s"
  using is_port_ascii class_ascii(3) by (auto simp: lang_hostname is_ascii_def list_all_iff)

lemma slug_class_ascii: "is_lower c \<or> is_digit c \<or> c = CHR ''-'' \<Longrightarrow> (of_char c :: nat) < 128"
  using class_ascii by auto

text \<open>
  C39: the name fields. A host name is accepted exactly when it has between 1 and 253 characters
  and consists of lower-case letters, digits, dots and hyphens with an optional port of digits; a
  user name when it has 2 to 32 of its characters; an event name when it has 1 to 128; a slug when
  it is absent, empty, or has 2 to 32; a password when it has at least 12 UTF-16 units.
\<close>

theorem name_validators_accept:
  "(hostname (Str s) = None \<longleftrightarrow> length s \<le> 253 \<and>
      (\<exists>h p. s = h @ p \<and> h \<noteq> [] \<and> list_all host_class h \<and> is_port p))
   \<and> (username (Str s) = None \<longleftrightarrow> 2 \<le> length s \<and> length s \<le> 32
        \<and> list_all (\<lambda>c. is_lower c \<or> is_digit c \<or> c \<in> set ''._-'') s)
   \<and> (eventName (Str s) = None \<longleftrightarrow> 1 \<le> length s \<and> length s \<le> 128
        \<and> list_all (\<lambda>c. is_lower c \<or> is_digit c \<or> c = CHR ''_'') s)
   \<and> (slug (Str s) = None \<longleftrightarrow> s = [] \<or> 2 \<le> length s \<and> length s \<le> 32
        \<and> list_all (\<lambda>c. is_lower c \<or> is_digit c \<or> c = CHR ''-'') s)
   \<and> (password (Str s) = None \<longleftrightarrow> 12 \<le> js_length s)"
proof -
  have h: "hostname (Str s) = None \<longleftrightarrow> length s \<le> 253 \<and> s \<in> lang HOSTNAME_RE"
  proof (cases "s \<in> lang HOSTNAME_RE")
    case True
    moreover have "s \<noteq> []" using True by (auto simp: lang_hostname)
    ultimately show ?thesis
      using js_length_ascii [OF hostname_ascii [OF True]] by (simp add: hostname_def re_test_lang)
  qed (simp add: hostname_def re_test_lang)
  have sl: "s \<in> lang SLUG_RE \<longleftrightarrow> s \<noteq> [] \<and> list_all (\<lambda>c. is_lower c \<or> is_digit c \<or> c = CHR ''-'') s"
    unfolding SLUG_RE_def lang_plus_cls by (rule refl)
  have "list_all (\<lambda>c. is_lower c \<or> is_digit c \<or> c = CHR ''-'') s \<Longrightarrow> js_length s = length s"
    by (erule ascii_of_class) (rule slug_class_ascii)
  then have "slug (Str s) = None \<longleftrightarrow> s = [] \<or> 2 \<le> length s \<and> length s \<le> 32
        \<and> list_all (\<lambda>c. is_lower c \<or> is_digit c \<or> c = CHR ''-'') s"
    by (auto simp: slug_def re_test_lang sl)
  moreover have "username (Str s) = None \<longleftrightarrow> 2 \<le> length s \<and> length s \<le> 32
        \<and> list_all (\<lambda>c. is_lower c \<or> is_digit c \<or> c \<in> set ''._-'') s"
    by (simp add: username_def re_test_lang USERNAME_RE_def lang_between_cls del: Between.simps lang.simps)
  moreover have "eventName (Str s) = None \<longleftrightarrow> 1 \<le> length s \<and> length s \<le> 128
        \<and> list_all (\<lambda>c. is_lower c \<or> is_digit c \<or> c = CHR ''_'') s"
    unfolding eventName_def EVENT_NAME_RE_def jsval.case re_test_lang lang_between_cls by simp
  moreover have "password (Str s) = None \<longleftrightarrow> 12 \<le> js_length s" by (simp add: password_def)
  moreover have "hostname (Str s) = None \<longleftrightarrow> length s \<le> 253 \<and>
      (\<exists>h p. s = h @ p \<and> h \<noteq> [] \<and> list_all host_class h \<and> is_port p)"
    by (simp only: h lang_hostname)
  ultimately show ?thesis by (intro conjI) assumption+
qed

lemma lower_char_slash: "lower_char c = CHR ''/'' \<longleftrightarrow> c = CHR ''/''"
proof -
  define n where "n = (of_char c :: nat)"
  have c: "c = char_of n" by (simp add: n_def)
  show ?thesis
  proof (cases "65 \<le> n \<and> n \<le> 90")
    case True
    then have "lower_char c = char_of (n + 32)" by (simp add: lower_char_def n_def)
    moreover have "char_of (n + 32) = CHR ''/'' \<longleftrightarrow> (n + 32) mod 256 = 47"
       using of_char_eq_iff [of "char_of (n + 32)" "CHR ''/''", where ?'a = nat] by simp
    moreover have "c = CHR ''/'' \<longleftrightarrow> n = 47"
       using of_char_eq_iff [of c "CHR ''/''", where ?'a = nat] by (simp add: n_def)
    ultimately show ?thesis using True by simp
  qed (auto simp: lower_char_def Let_def n_def)
qed

lemma origin_path_free:
  "list_all host_class (ascii_lower h) \<Longrightarrow> CHR ''/'' \<notin> set h"
proof
  assume all: "list_all host_class (ascii_lower h)" and "CHR ''/'' \<in> set h"
  then have "lower_char (CHR ''/'') \<in> set (ascii_lower h)" unfolding ascii_lower_def set_map by blast
  with all have "host_class (lower_char (CHR ''/''))" unfolding list_all_iff by (rule bspec)
  moreover have "lower_char (CHR ''/'') = CHR ''/''" unfolding lower_char_slash by (rule refl)
  moreover have "\<not> host_class (CHR ''/'')" by (simp add: host_class_def is_lower_def is_digit_def)
  ultimately show False by simp
qed

text \<open>
  an origin is accepted exactly when it is \<open>https://\<close> in any letter case, a non-empty host of
  letters, digits, dots and hyphens, and an optional port; in particular nothing after the scheme
  holds a slash. A refused text is quoted back unchanged in the error sentence.
\<close>

theorem origin_accepts:
  "(httpsOrigin (Str s) = None \<longleftrightarrow>
      (\<exists>a h p. s = a @ h @ p \<and> ascii_lower a = ''https://'' \<and> h \<noteq> []
         \<and> list_all host_class (ascii_lower h) \<and> is_port p))
   \<and> (httpsOrigin (Str s) = None \<longrightarrow> CHR ''/'' \<notin> set (drop 8 s))
   \<and> (httpsOrigin (Str s) = None \<or> httpsOrigin (Str s) = Some (origin_error s))"
proof -
  have iff: "httpsOrigin (Str s) = None \<longleftrightarrow> s \<in> lang HTTPS_ORIGIN_RE"
    by (simp add: httpsOrigin_def re_test_lang)
  have "CHR ''/'' \<notin> set (drop 8 s)" if "s \<in> lang HTTPS_ORIGIN_RE"
  proof -
    from that obtain a h p where s: "s = a @ h @ p" "ascii_lower a = ''https://''"
      and hp: "list_all host_class (ascii_lower h)" "is_port p"
      using lang_origin [of s] by blast
    have "length a = 8" using arg_cong [OF s(2), of length] by (simp add: ascii_lower_def)
    moreover have "CHR ''/'' \<notin> set p"
      using hp(2) by (cases p) (auto simp: is_port_def list_all_iff is_digit_def)
    ultimately show ?thesis using s(1) origin_path_free [OF hp(1)] by simp
  qed
  moreover have "httpsOrigin (Str s) = None \<or> httpsOrigin (Str s) = Some (origin_error s)"
    by (simp add: httpsOrigin_def)
  ultimately show ?thesis unfolding iff lang_origin [symmetric] by blast
qed

theorem origin_accepts_witness: "CHR ''/'' \<notin> set (drop 8 ''HTTPS://a.example:8443'')"
proof -
  have "''HTTPS://a.example:8443'' = ''HTTPS://'' @ ''a.example'' @ '':8443''" by simp
  moreover have "ascii_lower ''HTTPS://'' = ''https://''"
    by (simp add: ascii_lower_def lower_char_def char_of_def bit_0)
  moreover have "list_all host_class (ascii_lower ''a.example'')" and "is_port '':8443''"
    by (simp_all add: ascii_lower_def lower_char_def char_of_def bit_0 host_class_def is_lower_def is_digit_def is_port_def)
  ultimately have "httpsOrigin (Str ''HTTPS://a.example:8443'') = None"
    using origin_accepts [of "''HTTPS://a.example:8443''"] by blast
  then show ?thesis using origin_accepts [of "''HTTPS://a.example:8443''"] by blast
qed

text \<open>
  the value of a goal, for integral Numbers below \<open>2 ^ 53\<close>: exactly 0 to 9999999999 are
  accepted. The length test on \<^verbatim>\<open>String(n)\<close> is not the same test for larger Numbers:
  \<open>10 ^ 21\<close>, whose text is \<open>1e+21\<close>, passes it.
\<close>

theorem goal_value_range:
  "(\<bar>n\<bar> < 2 ^ 53 \<longrightarrow> (goalValue (Num (Fin (of_int n))) = None \<longleftrightarrow> 0 \<le> n \<and> n < 10 ^ 10))
   \<and> goalValue (Num (Fin (10 ^ 21))) = None
   \<and> goalValue (Num NaN) \<noteq> None"
proof (intro conjI impI)
  assume n: "\<bar>n\<bar> < 2 ^ 53"
  have int: "is_integer (Fin (of_int n))" by (simp add: is_integer_def)
  show "goalValue (Num (Fin (of_int n))) = None \<longleftrightarrow> 0 \<le> n \<and> n < 10 ^ 10"
  proof (cases "n < 0")
    case False
    have "is_ascii (show_nonneg n)"
      using show_nonneg_digits [of n] class_ascii(2) False by (auto simp: is_ascii_def)
    then have "js_length (show_rat (of_int n)) = length (show_nonneg n)"
      using False n by (simp add: show_rat_of_int show_int_def js_length_ascii)
    with False int length_show_nonneg [of n 10] show ?thesis
      by (auto simp: goalValue_def number_of_def show_number_def)
  qed (simp add: goalValue_def number_of_def)
next
  show "goalValue (Num (Fin (10 ^ 21))) = None" by code_simp
qed (simp add: goalValue_def number_of_def)

theorem goal_value_range_witness:
  "goalValue (Num (Fin (of_int 25))) = None \<and> goalValue (Num (Fin (of_int 10000000000))) \<noteq> None"
  using goal_value_range [of 25] goal_value_range [of 10000000000] by simp

section \<open>HttpError and errorMessage\<close>

record HttpError =
  status :: int
  code :: string
  serverMessage :: string
  http_path :: string
  http_method :: string
  message :: string

text \<open>The string held by a property of a parsed body, if the body is an object that has one.\<close>

definition string_prop :: "string \<Rightarrow> json \<Rightarrow> string option" where
  "string_prop k j =
     (case j of
        JObj ms \<Rightarrow> (case map_of ms k of Some (JStr s) \<Rightarrow> Some s | _ \<Rightarrow> None)
      | _ \<Rightarrow> None)"

text \<open>
  The constructor. A body that is not JSON, or is the value null (reading a property of it
  throws), becomes the message itself.
\<close>

definition new_HttpError :: "string \<Rightarrow> string \<Rightarrow> int \<Rightarrow> string \<Rightarrow> HttpError" where
  "new_HttpError meth pth st body =
     (let (cd, msg) =
        (case json_parse body of
           None \<Rightarrow> ([], body)
         | Some JNull \<Rightarrow> ([], body)
         | Some parsed \<Rightarrow>
             ((case string_prop ''code'' parsed of Some c \<Rightarrow> c | None \<Rightarrow> []),
              (case string_prop ''error'' parsed of
                 Some e \<Rightarrow> e
               | None \<Rightarrow> (case string_prop ''message'' parsed of Some m \<Rightarrow> m | None \<Rightarrow> []))))
      in \<lparr>status = st, code = cd, serverMessage = msg, http_path = pth, http_method = meth,
          message = (if msg \<noteq> [] then msg else meth @ '' '' @ pth @ '': HTTP '' @ show_int st)\<rparr>)"

text \<open>What a panel catches: the class above, another Error, or a value that is no Error.\<close>

datatype thrown = Http HttpError | Error string | Thrown_value

definition errorMessage :: "thrown \<Rightarrow> string \<Rightarrow> string" where
  "errorMessage e fallback =
     (case e of
        Thrown_value \<Rightarrow> fallback
      | Error m \<Rightarrow> if m \<noteq> [] then fallback @ '' '' @ m else fallback
      | Http h \<Rightarrow>
          (let detail = (if serverMessage h \<noteq> [] then serverMessage h else ''no detail provided'') in
           if 500 \<le> status h \<and> status h \<le> 599 then
             ''Couldn't save your changes. The server is having trouble; try again, and if it keeps failing, contact your operator with the time and the site ID.''
           else if status h = 400 then
             ''We couldn't save your changes. The server flagged this: '' @ detail
               @ ''. Check the highlighted field and try again.''
           else if status h = 401 then ''Your session has expired. Sign in again to keep editing.''
           else if status h = 403 then
             ''Your account doesn't have permission to change this. Ask an admin on your site to grant it.''
           else if status h = 404 then
             ''We couldn't find this site any more. Refresh the page; if it's gone, ask an admin.''
           else if status h = 409 then
             (if code h = ''origin_already_registered'' then
                detail @ '' is already registered to another site. Remove it there first or use a different subdomain.''
              else if code h = ''slug_taken'' then ''That slug is already used. Pick a different one.''
              else ''That value is already in use elsewhere: '' @ detail @ ''.'')
           else if status h = 422 then
             ''The server rejected the change: '' @ detail @ ''. Adjust the highlighted field and try again.''
           else if status h = 429 then
             ''Too many changes in a short time. Wait a few seconds and try again.''
           else fallback))"

text \<open>The body the server writes for an error: a code and a sentence.\<close>

definition error_body :: "string \<Rightarrow> string \<Rightarrow> string" where
  "error_body cd msg = stringify (JObj [(''code'', JStr cd), (''error'', JStr msg)])"

lemma new_HttpError_body:
  "new_HttpError meth pth st (error_body cd msg) =
     \<lparr>status = st, code = cd, serverMessage = msg, http_path = pth, http_method = meth,
      message = (if msg \<noteq> [] then msg else meth @ '' '' @ pth @ '': HTTP '' @ show_int st)\<rparr>"
proof -
  have "json_parse (error_body cd msg) = Some (JObj [(''code'', JStr cd), (''error'', JStr msg)])"
    unfolding error_body_def by (rule json_parse_stringify) simp
  then show ?thesis by (simp add: new_HttpError_def string_prop_def)
qed

text \<open>
  the sentence shown for a failed request whose body is the server's JSON error object, through
  the constructor's parsing. The server's text appears, quoted in full, exactly for the statuses
  that are about a field's content (400, 409 with an origin or a generic conflict, 422); for
  authorisation failures, missing sites, throttling and every 5xx status the sentence is a fixed
  one, whatever the server wrote.
\<close>

theorem error_sentence_spec:
  "errorMessage (Http (new_HttpError meth pth st (error_body cd (c # msg)))) fb =
     (let d = c # msg in
      if st = 400 then
        ''We couldn't save your changes. The server flagged this: '' @ d @ ''. Check the highlighted field and try again.''
      else if st = 409 \<and> cd = ''origin_already_registered'' then
        d @ '' is already registered to another site. Remove it there first or use a different subdomain.''
      else if st = 409 \<and> cd \<noteq> ''slug_taken'' then
        ''That value is already in use elsewhere: '' @ d @ ''.''
      else if st = 422 then
        ''The server rejected the change: '' @ d @ ''. Adjust the highlighted field and try again.''
      else errorMessage (Http (new_HttpError meth pth st (error_body cd []))) fb)"
  unfolding new_HttpError_body by (auto simp: errorMessage_def Let_def)

end
