(* ===== verification/Hash.thy ===== *)
theory Hash
  imports Js_Text
begin

text \<open>
  The hash router of \<^verbatim>\<open>web/src/state/hash.ts\<close>: parsing and printing of the URL hash,
  and the module's operations on the browser's session history. The browser is a zipper: the
  hashes behind the current entry, the current \<^verbatim>\<open>location.hash\<close>, and those in
  front of it. \<^verbatim>\<open>hashSignal\<close> is part of the same record.
\<close>

section \<open>Parsing and printing\<close>

datatype PanelName =
    Overview | Sources | Pages | Seo | Campaigns | Geo | Realtime | Admin | Compare | Connect

definition DEFAULT_PANEL :: PanelName where
  "DEFAULT_PANEL = Overview"

definition panel_table :: "(string \<times> PanelName) list" where
  "panel_table =
     [(''overview'', Overview), (''sources'', Sources), (''pages'', Pages), (''seo'', Seo),
      (''campaigns'', Campaigns), (''geo'', Geo), (''realtime'', Realtime), (''admin'', Admin),
      (''compare'', Compare), (''connect'', Connect)]"

definition VALID :: "string list" where
  "VALID = map fst panel_table"

fun panel_name :: "PanelName \<Rightarrow> string" where
  "panel_name Overview = ''overview''"
| "panel_name Sources = ''sources''"
| "panel_name Pages = ''pages''"
| "panel_name Seo = ''seo''"
| "panel_name Campaigns = ''campaigns''"
| "panel_name Geo = ''geo''"
| "panel_name Realtime = ''realtime''"
| "panel_name Admin = ''admin''"
| "panel_name Compare = ''compare''"
| "panel_name Connect = ''connect''"

record HashState =
  panel :: PanelName
  params :: params

definition parseHash :: "string \<Rightarrow> HashState" where
  "parseHash hash =
     (let raw = (if prefix ''#'' hash then drop 1 hash else hash);
          (panelPart, queryPart) =
            (case split_first (CHR ''?'') raw of None \<Rightarrow> (raw, []) | Some (a, b) \<Rightarrow> (a, b))
      in \<lparr>panel = (case map_of panel_table panelPart of Some p \<Rightarrow> p | None \<Rightarrow> DEFAULT_PANEL),
          params = parse_params queryPart\<rparr>)"

definition serialize :: "HashState \<Rightarrow> string" where
  "serialize state =
     (let q = params_to_string (params state) in
      if q \<noteq> [] then panel_name (panel state) @ ''?'' @ q else panel_name (panel state))"

lemma panel_name_table: "map_of panel_table (panel_name p) = Some p"
  by (cases p) (simp_all add: panel_table_def)

lemma panel_name_plain: "CHR ''?'' \<notin> set (panel_name p)"
  by (cases p) simp_all

lemma panel_table_name: "map_of panel_table s = Some p \<Longrightarrow> s = panel_name p"
  by (auto simp: panel_table_def split: if_splits)

lemma parse_serialize: "parseHash (CHR ''#'' # serialize st) = st"
proof (cases "params st = []")
  case True
  have "split_first (CHR ''?'') (panel_name (panel st)) = None"
    using panel_name_plain by (simp add: split_first_None)
  with True show ?thesis
    by (simp add: parseHash_def serialize_def Let_def panel_name_table params_to_string_def parse_params_def)
next
  case False
  have "split_first (CHR ''?'') (panel_name (panel st) @ CHR ''?'' # params_to_string (params st))
          = Some (panel_name (panel st), params_to_string (params st))"
    by (rule split_first_append [OF panel_name_plain])
  with False show ?thesis
    by (simp add: parseHash_def serialize_def Let_def panel_name_table parse_params_to_string)
qed

text \<open>
  C13: printing and parsing of the hash. Reading back what \<^verbatim>\<open>serialize\<close> wrote gives
  the same panel and the same parameters, in order and with duplicates, for every panel and every
  parameter list; an unknown or empty panel name gives the default panel with its query kept.
\<close>

theorem hash_round_trip:
  "parseHash (''#'' @ serialize st) = st
   \<and> panel (parseHash []) = DEFAULT_PANEL
   \<and> (map_of panel_table s = None \<and> CHR ''?'' \<notin> set s \<longrightarrow>
        parseHash (''#'' @ s @ ''?'' @ params_to_string ps) = \<lparr>panel = DEFAULT_PANEL, params = ps\<rparr>)"
proof (intro conjI impI)
  show "panel (parseHash []) = DEFAULT_PANEL"
    by (simp add: parseHash_def panel_table_def)
  assume "map_of panel_table s = None \<and> CHR ''?'' \<notin> set s"
  then show "parseHash (''#'' @ s @ ''?'' @ params_to_string ps) = \<lparr>panel = DEFAULT_PANEL, params = ps\<rparr>"
    using split_first_append [of "CHR ''?''" s "params_to_string ps"]
    by (simp add: parseHash_def parse_params_to_string)
qed (simp add: parse_serialize)

theorem hash_round_trip_witness:
  "parseHash (''#'' @ ''funnel'' @ ''?'' @ params_to_string [(''path'', ''/a b'')])
     = \<lparr>panel = DEFAULT_PANEL, params = [(''path'', ''/a b'')]\<rparr>"
proof -
  have "map_of panel_table ''funnel'' = None \<and> CHR ''?'' \<notin> set ''funnel''"
    by (simp add: panel_table_def)
  then show ?thesis using hash_round_trip [of undefined "''funnel''" "[(''path'', ''/a b'')]"] by blast
qed

section \<open>The browser's history\<close>

record Browser =
  back_stack :: "string list"
  location_hash :: string
  forward_stack :: "string list"
  hashSignal :: HashState

definition pushState :: "string \<Rightarrow> Browser \<Rightarrow> Browser" where
  "pushState h b = b\<lparr>back_stack := location_hash b # back_stack b, location_hash := h, forward_stack := []\<rparr>"

definition replaceState :: "string \<Rightarrow> Browser \<Rightarrow> Browser" where
  "replaceState h b = b\<lparr>location_hash := h\<rparr>"

text \<open>Module load: the signal is read from the current hash.\<close>

definition boot_hash :: "string \<Rightarrow> Browser" where
  "boot_hash h = \<lparr>back_stack = [], location_hash = h, forward_stack = [], hashSignal = parseHash h\<rparr>"

definition navigate :: "PanelName \<Rightarrow> params option \<Rightarrow> Browser \<Rightarrow> Browser" where
  "navigate p ps b =
     (let next_state = \<lparr>panel = p, params = (case ps of Some q \<Rightarrow> q | None \<Rightarrow> [])\<rparr>;
          hash = ''#'' @ serialize next_state;
          b1 = (if location_hash b \<noteq> hash then pushState hash b else b)
      in b1\<lparr>hashSignal := next_state\<rparr>)"

definition replaceHashParams :: "params \<Rightarrow> Browser \<Rightarrow> Browser" where
  "replaceHashParams ps b =
     (let next_state = \<lparr>panel = panel (hashSignal b), params = ps\<rparr>;
          hash = ''#'' @ serialize next_state;
          b1 = (if location_hash b \<noteq> hash then replaceState hash b else b)
      in b1\<lparr>hashSignal := next_state\<rparr>)"

text \<open>The listener of \<^verbatim>\<open>hashchange\<close> and \<^verbatim>\<open>popstate\<close>.\<close>

definition resync :: "Browser \<Rightarrow> Browser" where
  "resync b = b\<lparr>hashSignal := parseHash (location_hash b)\<rparr>"

text \<open>
  What can happen to the page: the two operations above, the back and forward buttons, and a hash
  typed into the address bar, each followed by its event.
\<close>

datatype nav_event =
    Navigate PanelName "params option"
  | Replace params
  | Back
  | Forward
  | Edit string

fun nav_step :: "nav_event \<Rightarrow> Browser \<Rightarrow> Browser" where
  "nav_step (Navigate p ps) b = navigate p ps b"
| "nav_step (Replace ps) b = replaceHashParams ps b"
| "nav_step Back b =
     (case back_stack b of
        [] \<Rightarrow> b
      | h # hs \<Rightarrow> resync (b\<lparr>back_stack := hs, location_hash := h,
                          forward_stack := location_hash b # forward_stack b\<rparr>))"
| "nav_step Forward b =
     (case forward_stack b of
        [] \<Rightarrow> b
      | h # hs \<Rightarrow> resync (b\<lparr>forward_stack := hs, location_hash := h,
                          back_stack := location_hash b # back_stack b\<rparr>))"
| "nav_step (Edit h) b = (if h = location_hash b then b else resync (pushState h b))"

definition in_sync :: "Browser \<Rightarrow> bool" where
  "in_sync b \<longleftrightarrow> hashSignal b = parseHash (location_hash b)"

lemma navigate_fields:
  "location_hash (navigate p ps b) = ''#'' @ serialize \<lparr>panel = p, params = (case ps of Some q \<Rightarrow> q | None \<Rightarrow> [])\<rparr>"
  "hashSignal (navigate p ps b) = \<lparr>panel = p, params = (case ps of Some q \<Rightarrow> q | None \<Rightarrow> [])\<rparr>"
  by (simp_all add: navigate_def pushState_def Let_def)

lemma replaceHashParams_fields:
  "location_hash (replaceHashParams ps b) = ''#'' @ serialize \<lparr>panel = panel (hashSignal b), params = ps\<rparr>"
  "hashSignal (replaceHashParams ps b) = \<lparr>panel = panel (hashSignal b), params = ps\<rparr>"
  "back_stack (replaceHashParams ps b) = back_stack b"
  "forward_stack (replaceHashParams ps b) = forward_stack b"
  by (simp_all add: replaceHashParams_def replaceState_def Let_def)

lemma nav_step_in_sync: "in_sync b \<Longrightarrow> in_sync (nav_step e b)"
  by (cases e)
     (auto simp: in_sync_def navigate_fields replaceHashParams_fields parse_serialize resync_def
       pushState_def split: list.splits)

text \<open>
  C21: the router's signal agrees with the address bar after every sequence of navigations,
  parameter replacements, back and forward presses and hand-edited hashes; replacing parameters
  never adds a history entry and keeps the panel; and going back after a navigation that changed
  the hash restores the address, the signal and the rest of the history.
\<close>

theorem hash_in_sync:
  "in_sync (fold nav_step es (boot_hash h))
   \<and> (let b = fold nav_step es (boot_hash h) in
        back_stack (nav_step (Replace ps) b) = back_stack b
        \<and> panel (hashSignal (nav_step (Replace ps) b)) = panel (hashSignal b)
        \<and> (location_hash (nav_step (Navigate p q) b) = location_hash b \<or>
             (let b' = nav_step Back (nav_step (Navigate p q) b) in
                location_hash b' = location_hash b \<and> hashSignal b' = hashSignal b
                \<and> back_stack b' = back_stack b)))"
proof -
  have "in_sync b \<Longrightarrow> in_sync (fold nav_step es b)" for b
    by (induction es arbitrary: b) (auto intro: nav_step_in_sync)
  from this [of "boot_hash h"] have sync: "in_sync (fold nav_step es (boot_hash h))"
    by (simp add: in_sync_def boot_hash_def)
  have undo: "location_hash (navigate p q b) = location_hash b \<or>
      (let b' = nav_step Back (navigate p q b) in
         location_hash b' = location_hash b \<and> hashSignal b' = hashSignal b \<and> back_stack b' = back_stack b)"
    if "in_sync b" for b
    using that by (simp add: navigate_def pushState_def resync_def in_sync_def Let_def)
  from sync undo [OF sync] show ?thesis
    unfolding Let_def nav_step.simps replaceHashParams_fields by simp
qed

end
