(* ===== verification/Filters.thy ===== *)
theory Filters
  imports Json
begin

text \<open>
  The filter state of \<^verbatim>\<open>web/src/state/filters.ts\<close>: the record of filters, its encoding as
  query parameters and back, the comparison the synchronisation uses, and the metric selection of
  the Overview chart. The signal that holds the record and the effects on it are in \<open>Signals\<close>.
\<close>

section \<open>The record\<close>

record Filters =
  device :: string
  channel :: string
  country :: string
  path :: string
  from_day :: string
  to_day :: string
  metrics :: string
  sort :: string
  dir :: string
  hitProps :: props
  sessionProps :: props
  userProps :: props

definition EMPTY_FILTERS :: Filters where
  "EMPTY_FILTERS =
     \<lparr>device = [], channel = [], country = [], path = [], from_day = [], to_day = [], metrics = [],
      sort = [], dir = [], hitProps = [], sessionProps = [], userProps = []\<rparr>"

datatype filter_key = Device | Channel | Country | Path | From | To | Metrics | Sort | Dir

datatype scope = HitProps | SessionProps | UserProps

definition KEYS :: "filter_key list" where
  "KEYS = [Device, Channel, Country, Path, From, To, Metrics, Sort, Dir]"

definition SCOPES :: "scope list" where
  "SCOPES = [HitProps, SessionProps, UserProps]"

fun key_name :: "filter_key \<Rightarrow> string" where
  "key_name Device = ''device''"
| "key_name Channel = ''channel''"
| "key_name Country = ''country''"
| "key_name Path = ''path''"
| "key_name From = ''from''"
| "key_name To = ''to''"
| "key_name Metrics = ''metrics''"
| "key_name Sort = ''sort''"
| "key_name Dir = ''dir''"

fun PROP_PARAM_NAMES :: "scope \<Rightarrow> string" where
  "PROP_PARAM_NAMES HitProps = ''hit_prop''"
| "PROP_PARAM_NAMES SessionProps = ''session_prop''"
| "PROP_PARAM_NAMES UserProps = ''user_prop''"

text \<open>\<^verbatim>\<open>f[k]\<close> and \<^verbatim>\<open>f[k] = v\<close>.\<close>

fun get_key :: "filter_key \<Rightarrow> Filters \<Rightarrow> string" where
  "get_key Device f = device f"
| "get_key Channel f = channel f"
| "get_key Country f = country f"
| "get_key Path f = path f"
| "get_key From f = from_day f"
| "get_key To f = to_day f"
| "get_key Metrics f = metrics f"
| "get_key Sort f = sort f"
| "get_key Dir f = dir f"

fun set_key :: "filter_key \<Rightarrow> string \<Rightarrow> Filters \<Rightarrow> Filters" where
  "set_key Device v f = f\<lparr>device := v\<rparr>"
| "set_key Channel v f = f\<lparr>channel := v\<rparr>"
| "set_key Country v f = f\<lparr>country := v\<rparr>"
| "set_key Path v f = f\<lparr>path := v\<rparr>"
| "set_key From v f = f\<lparr>from_day := v\<rparr>"
| "set_key To v f = f\<lparr>to_day := v\<rparr>"
| "set_key Metrics v f = f\<lparr>metrics := v\<rparr>"
| "set_key Sort v f = f\<lparr>sort := v\<rparr>"
| "set_key Dir v f = f\<lparr>dir := v\<rparr>"

fun get_scope :: "scope \<Rightarrow> Filters \<Rightarrow> props" where
  "get_scope HitProps f = hitProps f"
| "get_scope SessionProps f = sessionProps f"
| "get_scope UserProps f = userProps f"

fun set_scope :: "scope \<Rightarrow> props \<Rightarrow> Filters \<Rightarrow> Filters" where
  "set_scope HitProps m f = f\<lparr>hitProps := m\<rparr>"
| "set_scope SessionProps m f = f\<lparr>sessionProps := m\<rparr>"
| "set_scope UserProps m f = f\<lparr>userProps := m\<rparr>"

section \<open>Encoding\<close>

definition prop_param :: "string \<Rightarrow> string \<Rightarrow> string" where
  "prop_param name v = name @ '':'' @ v"

definition filtersToQuery :: "Filters \<Rightarrow> params" where
  "filtersToQuery f =
     (let p = foldl (\<lambda>p k. if get_key k f \<noteq> [] then params_set (key_name k) (get_key k f) p else p) [] KEYS
      in foldl (\<lambda>p s.
           foldl (\<lambda>p name.
             (case map_of (get_scope s f) name of
                Some v \<Rightarrow> if name \<noteq> [] then params_append (PROP_PARAM_NAMES s) (prop_param name v) p else p
              | None \<Rightarrow> p)) p (keys (get_scope s f))) p SCOPES)"

definition decode_entry :: "props \<Rightarrow> string \<Rightarrow> props" where
  "decode_entry m entry =
     (case split_first (CHR '':'') entry of
        None \<Rightarrow> m
      | Some (name, v) \<Rightarrow> if name = [] then m else obj_assign name v m)"

definition decode_scope :: "params \<Rightarrow> scope \<Rightarrow> props" where
  "decode_scope p s = foldl decode_entry [] (params_get_all (PROP_PARAM_NAMES s) p)"

definition queryToFilters :: "params \<Rightarrow> Filters" where
  "queryToFilters p =
     (let out1 = foldl (\<lambda>f k. case params_get (key_name k) p of
                               Some v \<Rightarrow> if v \<noteq> [] then set_key k v f else f
                             | None \<Rightarrow> f) EMPTY_FILTERS KEYS;
          out2 = (if sort out1 = [] then out1\<lparr>dir := []\<rparr> else out1)
      in foldl (\<lambda>f s. set_scope s (decode_scope p s) f) out2 SCOPES)"

section \<open>Comparison\<close>

definition mapsEqual :: "props \<Rightarrow> props \<Rightarrow> bool" where
  "mapsEqual a b \<longleftrightarrow>
     length (keys a) = length (keys b) \<and> list_all (\<lambda>k. map_of a k = map_of b k) (keys a)"

definition filtersEqual :: "Filters \<Rightarrow> Filters \<Rightarrow> bool" where
  "filtersEqual a b \<longleftrightarrow>
     list_all (\<lambda>k. get_key k a = get_key k b) KEYS
     \<and> list_all (\<lambda>s. mapsEqual (get_scope s a) (get_scope s b)) SCOPES"

text \<open>The objects of the language have distinct keys.\<close>

definition wf_filters :: "Filters \<Rightarrow> bool" where
  "wf_filters f \<longleftrightarrow> list_all (\<lambda>s. distinct (keys (get_scope s f))) SCOPES"

text \<open>The filters a link can carry: a direction only with a sort key, and plain property names.\<close>

definition plain_name :: "string \<Rightarrow> bool" where
  "plain_name n \<longleftrightarrow> n \<noteq> [] \<and> CHR '':'' \<notin> set n \<and> n \<noteq> ''__proto__''"

definition normal :: "Filters \<Rightarrow> bool" where
  "normal f \<longleftrightarrow> (sort f = [] \<longrightarrow> dir f = []) \<and> list_all (\<lambda>s. list_all plain_name (keys (get_scope s f))) SCOPES"

lemma mapsEqual_iff:
  assumes "distinct (keys a)" and "distinct (keys b)"
  shows "mapsEqual a b \<longleftrightarrow> map_of a = map_of b"
proof
  assume eq: "mapsEqual a b"
  show "map_of a = map_of b"
  proof (rule map_of_eq_by_length [OF assms])
    show "length a = length b" using eq by (simp add: mapsEqual_def keys_def)
    show "map_of a k = map_of b k" if "k \<in> set (keys a)" for k
      using eq that by (simp add: mapsEqual_def list_all_iff)
  qed
next
  assume "map_of a = map_of b"
  then show "mapsEqual a b"
    using map_of_eq_length [OF assms] by (simp add: mapsEqual_def list_all_iff keys_def)
qed

lemma all_keys: "list_all P KEYS \<longleftrightarrow> (\<forall>k. P k)"
proof
  assume "list_all P KEYS"
  then show "\<forall>k. P k" unfolding KEYS_def by (intro allI, case_tac k) simp_all
qed (simp add: KEYS_def)

lemma all_scopes: "list_all P SCOPES \<longleftrightarrow> (\<forall>s. P s)"
proof
  assume "list_all P SCOPES"
  then show "\<forall>s. P s" unfolding SCOPES_def by (intro allI, case_tac s) simp_all
qed (simp add: SCOPES_def)

lemma filtersEqual_iff:
  assumes "wf_filters a" and "wf_filters b"
  shows "filtersEqual a b \<longleftrightarrow>
     (\<forall>k. get_key k a = get_key k b) \<and> (\<forall>s. map_of (get_scope s a) = map_of (get_scope s b))"
  using assms by (simp add: filtersEqual_def all_keys all_scopes wf_filters_def mapsEqual_iff)

lemma filtersEqual_refl [simp]: "filtersEqual f f"
  by (simp add: filtersEqual_def mapsEqual_def list_all_iff)

lemma filtersEqual_sym:
  "wf_filters a \<Longrightarrow> wf_filters b \<Longrightarrow> filtersEqual a b \<longleftrightarrow> filtersEqual b a"
  by (auto simp: filtersEqual_iff)

lemma filtersEqual_trans:
  "wf_filters a \<Longrightarrow> wf_filters b \<Longrightarrow> wf_filters c \<Longrightarrow> filtersEqual a b \<Longrightarrow> filtersEqual b c \<Longrightarrow> filtersEqual a c"
  by (auto simp: filtersEqual_iff)

lemma filtersEqual_normal:
  assumes "wf_filters a" and "wf_filters b" and "filtersEqual a b" and "normal a"
  shows "normal b"
proof -
  have k: "get_key k a = get_key k b" and m: "map_of (get_scope s a) = map_of (get_scope s b)" for k s
    using assms by (simp_all add: filtersEqual_iff)
  then have "set (keys (get_scope s a)) = set (keys (get_scope s b))" for s by (simp add: keys_dom)
  with assms(4) k [of Sort] k [of Dir] show ?thesis
    by (simp add: normal_def all_scopes list_all_iff)
qed

section \<open>What is written\<close>

definition scalar_params :: "Filters \<Rightarrow> params" where
  "scalar_params f = map (\<lambda>k. (key_name k, get_key k f)) (filter (\<lambda>k. get_key k f \<noteq> []) KEYS)"

definition scope_params :: "scope \<Rightarrow> Filters \<Rightarrow> params" where
  "scope_params s f =
     map (\<lambda>(n, v). (PROP_PARAM_NAMES s, prop_param n v)) (filter (\<lambda>(n, _). n \<noteq> []) (get_scope s f))"

lemma params_set_fresh: "k \<notin> fst ` set p \<Longrightarrow> params_set k v p = p @ [(k, v)]"
  by (induction p) auto

lemma key_name_inj: "key_name k = key_name k' \<longleftrightarrow> k = k'"
  by (cases k; cases k') simp_all

lemma scalar_fold:
  assumes "distinct (ks @ ks')"
  shows "foldl (\<lambda>p k. if get_key k f \<noteq> [] then params_set (key_name k) (get_key k f) p else p)
           (map (\<lambda>k. (key_name k, get_key k f)) (filter (\<lambda>k. get_key k f \<noteq> []) ks)) ks'
         = map (\<lambda>k. (key_name k, get_key k f)) (filter (\<lambda>k. get_key k f \<noteq> []) (ks @ ks'))"
  using assms
proof (induction ks' arbitrary: ks)
  case (Cons k ks')
  have "key_name k \<notin> fst ` set (map (\<lambda>k. (key_name k, get_key k f)) (filter (\<lambda>k. get_key k f \<noteq> []) ks))"
    using Cons.prems by (auto simp: key_name_inj)
  then show ?case
    using Cons.IH [of "ks @ [k]"] Cons.prems by (cases "get_key k f = []") (simp_all add: params_set_fresh)
qed simp

lemma scope_fold:
  assumes "distinct (keys m)" and "set ms \<subseteq> set m"
  shows "foldl (\<lambda>p name. (case map_of m name of
                Some v \<Rightarrow> if name \<noteq> [] then params_append c (prop_param name v) p else p
              | None \<Rightarrow> p)) p (keys ms)
         = p @ map (\<lambda>(n, v). (c, prop_param n v)) (filter (\<lambda>(n, _). n \<noteq> []) ms)"
  using assms(2)
proof (induction ms arbitrary: p)
  case (Cons x ms)
  obtain n v where x: "x = (n, v)" by (cases x)
  have "map_of m n = Some v"
    using assms(1) Cons.prems by (simp add: x keys_def)
  with Cons show ?case by (auto simp: x keys_def params_append_def)
qed (simp add: keys_def)

lemma filtersToQuery_eq:
  assumes "wf_filters f"
  shows "filtersToQuery f =
     scalar_params f @ scope_params HitProps f @ scope_params SessionProps f @ scope_params UserProps f"
proof -
  have d: "distinct (keys (get_scope s f))" for s
    using assms by (simp add: wf_filters_def all_scopes)
  have "distinct KEYS" by (simp add: KEYS_def)
  then have scal: "foldl (\<lambda>p k. if get_key k f \<noteq> [] then params_set (key_name k) (get_key k f) p else p) [] KEYS
      = scalar_params f"
    using scalar_fold [of "[]" KEYS f] by (simp add: scalar_params_def)
  show ?thesis
    unfolding filtersToQuery_def Let_def scal
    by (simp add: SCOPES_def scope_fold [OF d [of HitProps, simplified] subset_refl]
        scope_fold [OF d [of SessionProps, simplified] subset_refl]
        scope_fold [OF d [of UserProps, simplified] subset_refl] scope_params_def)
qed

lemma key_name_scope: "key_name k \<noteq> PROP_PARAM_NAMES s"
  by (cases k; cases s) simp_all

lemma scope_name_inj: "PROP_PARAM_NAMES s = PROP_PARAM_NAMES s' \<longleftrightarrow> s = s'"
  by (cases s; cases s') simp_all

lemma map_of_scalar_params:
  "map_of (scalar_params f) (key_name k) = (if get_key k f = [] then None else Some (get_key k f))"
proof -
  have "map_of (map (\<lambda>k. (key_name k, g k)) (filter (\<lambda>k. g k \<noteq> []) ks)) (key_name k)
      = (if k \<in> set ks \<and> g k \<noteq> [] then Some (g k) else None)" for g :: "filter_key \<Rightarrow> string" and ks
    by (induction ks) (simp_all add: key_name_inj)
  moreover have "k \<in> set KEYS" by (cases k) (simp_all add: KEYS_def)
  ultimately show ?thesis by (simp add: scalar_params_def)
qed

lemma map_of_scope_params: "map_of (scope_params s f) (key_name k) = None"
proof -
  have "map_of (map (\<lambda>(n, v). (PROP_PARAM_NAMES s, prop_param n v)) m) (key_name k) = None" for m
    using key_name_scope [of k s] by (induction m) auto
  then show ?thesis by (simp only: scope_params_def)
qed

lemma params_get_filtersToQuery:
  "wf_filters f \<Longrightarrow>
     params_get (key_name k) (filtersToQuery f) = (if get_key k f = [] then None else Some (get_key k f))"
  by (simp add: params_get_def filtersToQuery_eq map_of_append map_add_def map_of_scalar_params
      map_of_scope_params)

lemma params_get_all_append: "params_get_all k (p @ q) = params_get_all k p @ params_get_all k q"
  by (simp add: params_get_all_def)

lemma params_get_all_scalar: "params_get_all (PROP_PARAM_NAMES s) (scalar_params f) = []"
proof -
  have "params_get_all (PROP_PARAM_NAMES s) (map (\<lambda>k. (key_name k, get_key k f)) ks) = []" for ks
    by (induction ks) (simp_all add: params_get_all_def key_name_scope)
  then show ?thesis by (simp add: scalar_params_def)
qed

lemma params_get_all_map:
  "params_get_all c (map (\<lambda>(n, v). (c', g n v)) xs) = (if c = c' then map (\<lambda>(n, v). g n v) xs else [])"
  by (induction xs) (auto simp: params_get_all_def)

lemma params_get_all_scope:
  "params_get_all (PROP_PARAM_NAMES s) (scope_params s' f) =
     (if s = s' then map (\<lambda>(n, v). prop_param n v) (filter (\<lambda>(n, _). n \<noteq> []) (get_scope s f)) else [])"
  by (simp add: scope_params_def params_get_all_map scope_name_inj)

lemma params_get_all_filtersToQuery:
  "wf_filters f \<Longrightarrow> params_get_all (PROP_PARAM_NAMES s) (filtersToQuery f) =
     map (\<lambda>(n, v). prop_param n v) (filter (\<lambda>(n, _). n \<noteq> []) (get_scope s f))"
  by (cases s; simp only: filtersToQuery_eq params_get_all_append params_get_all_scalar params_get_all_scope)
     simp_all

section \<open>What is read back\<close>

lemma decode_entry_plain:
  "distinct (keys m) \<Longrightarrow> list_all plain_name (keys m) \<Longrightarrow>
     distinct (keys (decode_entry m e)) \<and> list_all plain_name (keys (decode_entry m e))"
proof (cases "split_first (CHR '':'') e")
  case (Some nv)
  assume m: "distinct (keys m)" "list_all plain_name (keys m)"
  obtain n v where nv: "nv = (n, v)" by (cases nv)
  with Some have "CHR '':'' \<notin> set n" by (simp add: split_first_Some)
  with m Some nv show ?thesis
    by (auto simp: decode_entry_def obj_assign_def distinct_obj_define list_all_iff set_keys_obj_define plain_name_def)
qed (simp add: decode_entry_def)

lemma decode_plain:
  "distinct (keys (decode_scope p s)) \<and> list_all plain_name (keys (decode_scope p s))"
proof -
  have "distinct (keys m) \<Longrightarrow> list_all plain_name (keys m) \<Longrightarrow>
      distinct (keys (foldl decode_entry m es)) \<and> list_all plain_name (keys (foldl decode_entry m es))" for m es
  proof (induction es arbitrary: m)
    case (Cons e es)
    then show ?case using decode_entry_plain [of m e] by simp
  qed simp
  then show ?thesis by (simp add: decode_scope_def keys_def)
qed

lemma get_set_key: "get_key k (set_key k' v f) = (if k = k' then v else get_key k f)"
  by (cases k; cases k') simp_all

lemma get_scope_set_key: "get_scope s (set_key k v f) = get_scope s f"
  by (cases s; cases k) simp_all

lemma get_set_scope: "get_scope s (set_scope s' m f) = (if s = s' then m else get_scope s f)"
  by (cases s; cases s') simp_all

lemma get_key_set_scope: "get_key k (set_scope s m f) = get_key k f"
  by (cases k; cases s) simp_all

definition read_key :: "params \<Rightarrow> filter_key \<Rightarrow> string" where
  "read_key p k = (case params_get (key_name k) p of Some v \<Rightarrow> v | None \<Rightarrow> [])"

definition read_scalars :: "params \<Rightarrow> Filters" where
  "read_scalars p = foldl (\<lambda>f k. case params_get (key_name k) p of
                               Some v \<Rightarrow> if v \<noteq> [] then set_key k v f else f
                             | None \<Rightarrow> f) EMPTY_FILTERS KEYS"

lemma get_EMPTY: "get_key k EMPTY_FILTERS = []"
  by (cases k) (simp_all add: EMPTY_FILTERS_def)

lemma read_scalars_key: "get_key k (read_scalars p) = read_key p k"
proof -
  have "get_key k (foldl (\<lambda>f k. case params_get (key_name k) p of
                               Some v \<Rightarrow> if v \<noteq> [] then set_key k v f else f
                             | None \<Rightarrow> f) f ks)
      = (if k \<in> set ks \<and> read_key p k \<noteq> [] then read_key p k else get_key k f)" for f ks
    by (induction ks arbitrary: f) (auto simp: read_key_def get_set_key split: option.splits)
  moreover have "k \<in> set KEYS" using all_keys [of "\<lambda>k. k \<in> set KEYS"] by (simp add: list_all_iff)
  ultimately show ?thesis by (simp add: read_scalars_def get_EMPTY)
qed

lemma queryToFilters_eq:
  "queryToFilters p =
     (let f = (if sort (read_scalars p) = [] then (read_scalars p)\<lparr>dir := []\<rparr> else read_scalars p)
      in set_scope UserProps (decode_scope p UserProps)
           (set_scope SessionProps (decode_scope p SessionProps)
             (set_scope HitProps (decode_scope p HitProps) f)))"
  by (simp only: queryToFilters_def read_scalars_def [symmetric] Let_def SCOPES_def foldl.simps)

lemma read_back_key:
  "get_key k (queryToFilters p) = (if k = Dir \<and> read_key p Sort = [] then [] else read_key p k)"
proof -
  let ?r = "read_scalars p"
  have s: "sort ?r = read_key p Sort" using read_scalars_key [of Sort p] by simp
  have d: "get_key k (?r\<lparr>dir := []\<rparr>) = (if k = Dir then [] else get_key k ?r)" by (cases k) simp_all
  show ?thesis
    unfolding queryToFilters_eq Let_def get_key_set_scope s by (simp add: d read_scalars_key)
qed

lemma read_back_scope: "get_scope s (queryToFilters p) = decode_scope p s"
  by (cases s) (simp_all only: queryToFilters_eq Let_def get_set_scope scope.distinct if_True if_False simp_thms)

lemma queryToFilters_normal: "wf_filters (queryToFilters p) \<and> normal (queryToFilters p)"
proof -
  have "sort (queryToFilters p) = [] \<Longrightarrow> dir (queryToFilters p) = []"
    using read_back_key [of Sort p] read_back_key [of Dir p] by (simp split: if_splits)
  then show ?thesis
    using decode_plain by (simp add: wf_filters_def normal_def all_scopes read_back_scope)
qed

lemma decode_encode:
  assumes "list_all plain_name (keys m)" and "distinct (keys m)"
  shows "map_of (foldl decode_entry [] (map (\<lambda>(n, v). prop_param n v) m)) = map_of m"
proof -
  have "list_all plain_name (keys m) \<Longrightarrow> distinct (keys m) \<Longrightarrow>
      map_of (foldl decode_entry a (map (\<lambda>(n, v). prop_param n v) m)) = map_of a ++ map_of m" for a
  proof (induction m arbitrary: a)
    case (Cons x m)
    obtain n v where x: "x = (n, v)" by (cases x)
    have n: "n \<noteq> []" "CHR '':'' \<notin> set n" "n \<noteq> ''__proto__''"
      using Cons.prems by (simp_all add: x keys_def plain_name_def)
    have "map_of (decode_entry a (prop_param n v)) = (map_of a)(n \<mapsto> v)"
      using n split_first_append [of "CHR '':''" n v]
      by (simp add: decode_entry_def prop_param_def obj_assign_def map_of_obj_define)
    moreover have "n \<notin> dom (map_of m)" using Cons.prems(2) by (simp add: x keys_def dom_map_of_conv_image_fst)
    moreover have "map_of (foldl decode_entry (decode_entry a (prop_param n v)) (map (\<lambda>(n, v). prop_param n v) m))
        = map_of (decode_entry a (prop_param n v)) ++ map_of m"
      using Cons.prems by (intro Cons.IH) (simp_all add: x keys_def)
    ultimately have "map_of (foldl decode_entry a (map (\<lambda>(n, v). prop_param n v) (x # m)))
        = (map_of a ++ map_of m)(n \<mapsto> v)"
      by (simp only: x list.map prod.case foldl.simps map_add_upd_left [OF \<open>n \<notin> dom (map_of m)\<close>])
    moreover have "map_of (x # m) = (map_of m)(n \<mapsto> v)" by (simp add: x fun_upd_def)
    ultimately show ?case by (simp only: map_add_upd)
  qed simp
  from this [of "[]"] assms show ?thesis by simp
qed

lemma read_back_plain:
  assumes "wf_filters f" and "list_all plain_name (keys (get_scope s f))"
  shows "map_of (get_scope s (queryToFilters (filtersToQuery f))) = map_of (get_scope s f)"
proof -
  have d: "distinct (keys (get_scope s f))" using assms(1) by (simp add: wf_filters_def all_scopes)
  have "filter (\<lambda>(n, _). n \<noteq> []) (get_scope s f) = get_scope s f"
    using assms(2) by (auto simp: filter_id_conv list_all_iff keys_def plain_name_def)
  then show ?thesis
    using decode_encode [OF assms(2) d]
    by (simp add: read_back_scope decode_scope_def params_get_all_filtersToQuery [OF assms(1)])
qed

lemma round_trip_equal:
  assumes "wf_filters f" and "normal f"
  shows "filtersEqual (queryToFilters (filtersToQuery f)) f"
proof -
  have key: "read_key (filtersToQuery f) k = get_key k f" for k
    using assms(1) by (simp add: read_key_def params_get_filtersToQuery)
  have "get_key k (queryToFilters (filtersToQuery f)) = get_key k f" for k
    using assms(2) by (simp add: read_back_key key normal_def)
  moreover have "map_of (get_scope s (queryToFilters (filtersToQuery f))) = map_of (get_scope s f)" for s
    using assms by (intro read_back_plain) (simp_all add: normal_def all_scopes)
  ultimately show ?thesis using assms(1) queryToFilters_normal by (simp add: filtersEqual_iff)
qed

text \<open>
  C4: which filters survive a shared link. Writing filters as query parameters and reading them
  back gives equal filters exactly when they carry no direction without a sort key and every
  property name is non-empty, has no colon and is not \<^verbatim>\<open>__proto__\<close>; and whatever is
  read from a query has that form, so one round trip normalises and a second changes nothing.
\<close>

theorem filters_round_trip:
  assumes "wf_filters f"
  shows "(filtersEqual (queryToFilters (filtersToQuery f)) f \<longleftrightarrow> normal f)
    \<and> normal (queryToFilters p)
    \<and> filtersEqual (queryToFilters (filtersToQuery (queryToFilters p))) (queryToFilters p)"
  using assms round_trip_equal filtersEqual_normal queryToFilters_normal by blast

theorem filters_round_trip_witness:
  "filtersEqual (queryToFilters (filtersToQuery (EMPTY_FILTERS\<lparr>channel := ''Direct'', hitProps := [(''plan'', ''a:b'')]\<rparr>)))
     (EMPTY_FILTERS\<lparr>channel := ''Direct'', hitProps := [(''plan'', ''a:b'')]\<rparr>)
   \<and> \<not> filtersEqual (queryToFilters (filtersToQuery (EMPTY_FILTERS\<lparr>hitProps := [(''a:b'', ''c'')]\<rparr>)))
     (EMPTY_FILTERS\<lparr>hitProps := [(''a:b'', ''c'')]\<rparr>)"
  using filters_round_trip [of "EMPTY_FILTERS\<lparr>channel := ''Direct'', hitProps := [(''plan'', ''a:b'')]\<rparr>" "[]"]
    filters_round_trip [of "EMPTY_FILTERS\<lparr>hitProps := [(''a:b'', ''c'')]\<rparr>" "[]"]
  by (simp add: wf_filters_def normal_def SCOPES_def EMPTY_FILTERS_def keys_def plain_name_def)

section \<open>Derived views\<close>

definition hasAnyPropFilter :: "Filters \<Rightarrow> bool" where
  "hasAnyPropFilter f \<longleftrightarrow>
     length (keys (hitProps f)) > 0 \<or> length (keys (sessionProps f)) > 0 \<or> length (keys (userProps f)) > 0"

datatype sort_dir = Asc | Desc

definition dirOf :: "Filters \<Rightarrow> sort_dir" where
  "dirOf f = (if dir f = ''asc'' then Asc else Desc)"

datatype MetricId = Visitors | Conversion | Revenue | Rpv | Pageviews | Goals

fun metric_name :: "MetricId \<Rightarrow> string" where
  "metric_name Visitors = ''visitors''"
| "metric_name Conversion = ''conversion''"
| "metric_name Revenue = ''revenue''"
| "metric_name Rpv = ''rpv''"
| "metric_name Pageviews = ''pageviews''"
| "metric_name Goals = ''goals''"

definition ALL_METRICS :: "MetricId list" where
  "ALL_METRICS = [Visitors, Conversion, Revenue, Rpv, Pageviews, Goals]"

definition DEFAULT_METRICS :: "MetricId list" where
  "DEFAULT_METRICS = [Visitors]"

definition METRIC_SET :: "(string \<times> MetricId) list" where
  "METRIC_SET = map (\<lambda>m. (metric_name m, m)) ALL_METRICS"

definition selectedMetrics :: "Filters \<Rightarrow> MetricId list" where
  "selectedMetrics f =
     (if metrics f = [] then DEFAULT_METRICS
      else let ids = List.map_filter (map_of METRIC_SET) (split_on (CHR '','') (metrics f)) in
        if ids \<noteq> [] then ids else DEFAULT_METRICS)"

text \<open>The list \<^verbatim>\<open>toggleMetric\<close> computes; \<open>None\<close> when it returns early.\<close>

definition toggled :: "MetricId \<Rightarrow> Filters \<Rightarrow> string option" where
  "toggled m f =
     (let current = selectedMetrics f;
          nxt = (if m \<in> set current then filter (\<lambda>x. x \<noteq> m) current else current @ [m])
      in if nxt = [] then None else Some (join '','' (map metric_name nxt)))"

lemma map_of_METRIC_SET: "map_of METRIC_SET (metric_name m) = Some m"
  by (cases m) (simp_all add: METRIC_SET_def ALL_METRICS_def)

lemma metric_name_plain: "CHR '','' \<notin> set (metric_name m)" "metric_name m \<noteq> []"
  by (cases m; simp)+

lemma selected_join:
  "ms \<noteq> [] \<Longrightarrow> selectedMetrics (f\<lparr>metrics := join '','' (map metric_name ms)\<rparr>) = ms"
proof -
  assume ms: "ms \<noteq> []"
  then have "split_on (CHR '','') (join '','' (map metric_name ms)) = map metric_name ms"
    using metric_name_plain by (intro split_on_join) auto
  moreover have "List.map_filter (map_of METRIC_SET) (map metric_name ms) = ms"
    by (induction ms) (simp_all add: map_of_METRIC_SET)
  moreover have "join '','' (map metric_name ms) \<noteq> []"
    using ms metric_name_plain by (auto simp: map_eq_Cons_conv)
  ultimately show ?thesis using ms by (simp add: selectedMetrics_def)
qed

lemma selected_nonempty: "selectedMetrics f \<noteq> []"
  by (simp add: selectedMetrics_def DEFAULT_METRICS_def Let_def)

text \<open>
  the metric selection. At least one metric is always selected, whatever text the link holds;
  a toggle adds a missing metric at the end, removes a present one, and is refused exactly when it
  would remove the only one; the text it writes selects precisely the new list.
\<close>

theorem toggle_metric_spec:
  "selectedMetrics f \<noteq> []
   \<and> (toggled m f = None \<longleftrightarrow> set (selectedMetrics f) = {m})
   \<and> (case toggled m f of
        None \<Rightarrow> True
      | Some t \<Rightarrow>
          selectedMetrics (f\<lparr>metrics := t\<rparr>) =
            (if m \<in> set (selectedMetrics f) then filter (\<lambda>x. x \<noteq> m) (selectedMetrics f)
             else selectedMetrics f @ [m])
          \<and> (m \<in> set (selectedMetrics (f\<lparr>metrics := t\<rparr>)) \<longleftrightarrow> m \<notin> set (selectedMetrics f)))"
proof -
  have iff: "toggled m f = None \<longleftrightarrow> set (selectedMetrics f) = {m}"
  proof (cases "m \<in> set (selectedMetrics f)")
    case True
    then have "toggled m f = None \<longleftrightarrow> (\<forall>x \<in> set (selectedMetrics f). x = m)"
      by (simp add: toggled_def Let_def filter_empty_conv)
    with True show ?thesis by blast
  next
    case False
    then have "toggled m f \<noteq> None" by (simp add: toggled_def Let_def)
    with False show ?thesis by blast
  qed
  show ?thesis
  proof (cases "toggled m f")
    case None
    then show ?thesis using iff selected_nonempty by simp
  next
    case (Some t)
    let ?next = "if m \<in> set (selectedMetrics f) then filter (\<lambda>x. x \<noteq> m) (selectedMetrics f)
             else selectedMetrics f @ [m]"
    have "toggled m f = (if ?next = [] then None else Some (join '','' (map metric_name ?next)))"
      by (simp only: toggled_def Let_def)
    with Some have "?next \<noteq> []" and t: "t = join '','' (map metric_name ?next)"
      by (metis option.distinct(1), metis option.distinct(1) option.inject)
    then have "selectedMetrics (f\<lparr>metrics := t\<rparr>) = ?next" unfolding t by (intro selected_join)
    then show ?thesis using iff selected_nonempty [of f] Some by simp
  qed
qed

end
