(* ===== verification/Dates.thy ===== *)
theory Dates
  imports Js_Number
begin

text \<open>
  The calendar of \<^verbatim>\<open>Date\<close>: days since 1 January 1970 to a year, month and day of the
  proleptic Gregorian calendar and back, the text \<^verbatim>\<open>YYYY-MM-DD\<close> that
  \<^verbatim>\<open>toISOString\<close> starts with for the years 0 to 9999, and string comparison. The main
  facts are that the text determines the day and that comparing texts compares days.
\<close>

section \<open>Years\<close>

definition leap :: "int \<Rightarrow> bool" where
  "leap y \<longleftrightarrow> y mod 4 = 0 \<and> (y mod 100 \<noteq> 0 \<or> y mod 400 = 0)"

text \<open>\<^verbatim>\<open>DayFromYear\<close> of the language specification.\<close>

definition year_start :: "int \<Rightarrow> int" where
  "year_start y = 365 * (y - 1970) + (y - 1969) div 4 - (y - 1901) div 100 + (y - 1601) div 400"

definition year_of_day :: "int \<Rightarrow> int" where
  "year_of_day d =
     (let y = 1970 + d * 400 div 146097 in
      if year_start (y + 1) \<le> d then y + 1 else if d < year_start y then y - 1 else y)"

lemma div_bounds: "0 < n \<Longrightarrow> n * (x div n) \<le> x \<and> x < n * (x div n) + n" for n x :: int
  using mult_div_mod_eq [of n x] pos_mod_sign [of n x] pos_mod_bound [of n x] by linarith

lemma div_unique: "0 < n \<Longrightarrow> n * q \<le> x \<Longrightarrow> x < n * q + n \<Longrightarrow> x div n = q" for n q x :: int
proof -
  assume n: "0 < n" "n * q \<le> x" "x < n * q + n"
  then have "x = n * q + (x - n * q)" and "0 \<le> x - n * q" and "x - n * q < n" by simp_all
  then show "x div n = q" using n(1) by (metis div_mult_self4 div_pos_pos_trivial less_irrefl add.right_neutral)
qed

lemma div_step:
  assumes n: "0 < (n::int)" shows "(a + 1) div n = a div n + (if (a + 1) mod n = 0 then 1 else 0)"
proof (cases "a mod n + 1 = n")
  case True
  then have "a + 1 = n * (a div n) + n" using mult_div_mod_eq [of n a] by linarith
  then have eq: "a + 1 = n * (a div n + 1)" by (simp add: distrib_left)
  have "(a + 1) div n = a div n + 1" using n unfolding eq by simp
  moreover have "(a + 1) mod n = 0" unfolding eq by simp
  ultimately show ?thesis by simp
next
  case False
  then have q: "(a + 1) div n = a div n"
    using n mult_div_mod_eq [of n a] pos_mod_sign [of n a] pos_mod_bound [of n a] by (intro div_unique) linarith+
  have "n * (a div n) + (a + 1) mod n = a + 1" using mult_div_mod_eq [of n "a + 1"] unfolding q .
  then have "(a + 1) mod n = a mod n + 1" using mult_div_mod_eq [of n a] by linarith
  then have "(a + 1) mod n \<noteq> 0" using pos_mod_sign [OF n, of a] by linarith
  with q show ?thesis by simp
qed

lemma mod_shift: "c mod n = 0 \<Longrightarrow> (y - c) mod n = y mod n" for n c y :: int
  by (metis diff_zero mod_diff_right_eq)

lemma year_length: "year_start (y + 1) = year_start y + (if leap y then 366 else 365)"
proof -
  have gen: "365 * k + 365 + (a + p) - (b + q) + (c + r) = (365 * k + a - b + c) + 365 + (p - q + r)"
    for a b c p q r k :: int by simp
  have leaps: "(if P then 1 else 0) - (if Q then 1 else 0) + (if R then 1 else 0)
        = (if P \<and> (\<not> Q \<or> R) then 1 else (0::int))" if "R \<longrightarrow> Q" and "Q \<longrightarrow> P" for P Q R
    using that by (cases P; cases Q; cases R) simp_all
  have s4: "(y - 1968) div 4 = (y - 1969) div 4 + (if y mod 4 = 0 then 1 else 0)"
    using div_step [of 4 "y - 1969"] mod_shift [of 1968 4 y] by simp
  have s100: "(y - 1900) div 100 = (y - 1901) div 100 + (if y mod 100 = 0 then 1 else 0)"
    using div_step [of 100 "y - 1901"] mod_shift [of 1900 100 y] by simp
  have s400: "(y - 1600) div 400 = (y - 1601) div 400 + (if y mod 400 = 0 then 1 else 0)"
    using div_step [of 400 "y - 1601"] mod_shift [of 1600 400 y] by simp
  have chain: "y mod 400 = 0 \<Longrightarrow> y mod 100 = 0" "y mod 100 = 0 \<Longrightarrow> y mod 4 = 0"
    using dvd_trans [of 100 400 y] dvd_trans [of 4 100 y] by (simp_all flip: dvd_eq_mod_eq_0)
  have "year_start (y + 1) = 365 * (y - 1970) + 365 + (y - 1968) div 4 - (y - 1900) div 100 + (y - 1600) div 400"
    by (simp add: year_start_def)
  also have "\<dots> = year_start y + 365 + ((if y mod 4 = 0 then 1 else 0) - (if y mod 100 = 0 then 1 else 0)
      + (if y mod 400 = 0 then 1 else 0))"
    unfolding s4 s100 s400 year_start_def by (rule gen)
  also have "(if y mod 4 = 0 then 1 else 0) - (if y mod 100 = 0 then 1 else 0)
      + (if y mod 400 = 0 then 1 else 0) = (if leap y then 1 else 0 :: int)"
    unfolding leap_def by (rule leaps [OF impI impI]) (fact chain)+
  finally show ?thesis by simp
qed

lemma year_start_bounds:
  "146097 * (y - 1970) - 506 \<le> 400 * year_start y \<and> 400 * year_start y \<le> 146097 * (y - 1970) + 589"
proof -
  define a b c where "a = (y - 1969) div 4" and "b = (y - 1901) div 100" and "c = (y - 1601) div 400"
  have "4 * a \<le> y - 1969" "y - 1969 < 4 * a + 4" "100 * b \<le> y - 1901" "y - 1901 < 100 * b + 100"
    "400 * c \<le> y - 1601" "y - 1601 < 400 * c + 400"
    using div_bounds [of 4 "y - 1969"] div_bounds [of 100 "y - 1901"] div_bounds [of 400 "y - 1601"]
    by (simp_all add: a_def b_def c_def)
  moreover have "year_start y = 365 * (y - 1970) + a - b + c"
    by (simp add: year_start_def a_def b_def c_def)
  ultimately show ?thesis by (simp add: algebra_simps)
qed

lemma year_of_day_bounds:
  "year_start (year_of_day d) \<le> d \<and> d < year_start (year_of_day d + 1)"
proof -
  define k where "k = d * 400 div 146097"
  have k: "146097 * k \<le> d * 400" "d * 400 < 146097 * (k + 1)"
    using div_bounds [of 146097 "d * 400"] by (simp_all add: k_def)
  have y: "year_of_day d = (if year_start (1970 + k + 1) \<le> d then 1970 + k + 1
             else if d < year_start (1970 + k) then 1970 + k - 1 else 1970 + k)"
    by (simp add: year_of_day_def k_def Let_def)
  have "d < year_start (1970 + k + 2)"
    using year_start_bounds [of "1970 + k + 2"] k(2) by simp
  moreover have "year_start (1970 + k - 1) \<le> d"
    using year_start_bounds [of "1970 + k - 1"] k(1) by simp
  ultimately show ?thesis unfolding y by (auto simp: algebra_simps)
qed

lemma year_start_less: "y < z \<Longrightarrow> year_start (y + 1) \<le> year_start z"
proof (induction "nat (z - y)" arbitrary: z)
  case (Suc n)
  show ?case
  proof (cases "z = y + 1")
    case False
    with Suc have "year_start (y + 1) \<le> year_start (z - 1)" by auto
    then show ?thesis using year_length [of "z - 1"] by (auto split: if_splits)
  qed simp
qed simp

lemma year_of_day_unique:
  "year_start y \<le> d \<Longrightarrow> d < year_start (y + 1) \<Longrightarrow> year_of_day d = y"
  using year_of_day_bounds [of d] year_start_less [of y "year_of_day d"] year_start_less [of "year_of_day d" y]
  by (cases "y < year_of_day d"; cases "year_of_day d < y") auto

lemma year_of_day_mono: "d \<le> e \<Longrightarrow> year_of_day d \<le> year_of_day e"
  using year_of_day_bounds [of d] year_of_day_bounds [of e] year_start_less [of "year_of_day e" "year_of_day d"]
  by (cases "year_of_day e < year_of_day d") auto

section \<open>Months and days\<close>

definition month_lengths :: "int \<Rightarrow> int list" where
  "month_lengths y = [31, if leap y then 29 else 28, 31, 30, 31, 30, 31, 31, 30, 31, 30, 31]"

fun split_month :: "int list \<Rightarrow> int \<Rightarrow> int \<Rightarrow> int \<times> int" where
  "split_month [] m r = (m, r + 1)"
| "split_month (l # ls) m r = (if r < l then (m, r + 1) else split_month ls (m + 1) (r - l))"

definition civil_of_day :: "int \<Rightarrow> int \<times> int \<times> int" where
  "civil_of_day d =
     (let y = year_of_day d; (m, dd) = split_month (month_lengths y) 1 (d - year_start y) in (y, m, dd))"

definition day_of_civil :: "int \<Rightarrow> int \<Rightarrow> int \<Rightarrow> int" where
  "day_of_civil y m dd = year_start y + sum_list (take (nat (m - 1)) (month_lengths y)) + dd - 1"

definition valid_civil :: "int \<Rightarrow> int \<Rightarrow> int \<Rightarrow> bool" where
  "valid_civil y m dd \<longleftrightarrow> 1 \<le> m \<and> m \<le> 12 \<and> 1 \<le> dd \<and> dd \<le> month_lengths y ! nat (m - 1)"

lemma month_lengths_sum: "sum_list (month_lengths y) = (if leap y then 366 else 365)"
  by (simp add: month_lengths_def)

lemma split_month_spec:
  assumes "0 \<le> r" and "r < sum_list ls" and "split_month ls m r = (m', d)"
  shows "m \<le> m' \<and> m' < m + int (length ls) \<and> 1 \<le> d \<and> d \<le> ls ! nat (m' - m)
     \<and> r = sum_list (take (nat (m' - m)) ls) + d - 1"
  using assms
proof (induction ls m r rule: split_month.induct)
  case (2 l ls m r)
  show ?case
  proof (cases "r < l")
    case False
    with 2 have IH: "m + 1 \<le> m' \<and> m' < m + 1 + int (length ls) \<and> 1 \<le> d \<and> d \<le> ls ! nat (m' - (m + 1))
       \<and> r - l = sum_list (take (nat (m' - (m + 1))) ls) + d - 1"
      by auto
    then have "nat (m' - m) = Suc (nat (m' - (m + 1)))" by linarith
    with IH show ?thesis by auto
  qed (use 2 in auto)
qed simp

lemma split_month_mono:
  assumes "0 \<le> r" and "r < r'" and "split_month ls m r = (a, b)" and "split_month ls m r' = (a', b')"
    and "list_all (\<lambda>l. 0 \<le> l) ls"
  shows "a < a' \<or> a = a' \<and> b < b'"
  using assms
proof (induction ls m r arbitrary: r' rule: split_month.induct)
  case (2 l ls m r)
  have ge: "split_month ls n q = (c, e) \<Longrightarrow> n \<le> c" for n q c e
    by (induction ls n q rule: split_month.induct) (auto split: if_splits)
  show ?case
  proof (cases "r < l")
    case True
    then show ?thesis using 2 ge [of "m + 1" "r' - l" a' b'] by (auto split: if_splits)
  next
    case False
    then have "a < a' \<or> a = a' \<and> b < b'"
      using 2 by (intro "2.IH" [of "r' - l"]) auto
    then show ?thesis .
  qed
qed auto


lemma length_month_lengths: "length (month_lengths y) = 12"
  by (simp add: month_lengths_def)

lemma civil_of_day_valid:
  "case civil_of_day d of (y, m, dd) \<Rightarrow> valid_civil y m dd \<and> day_of_civil y m dd = d"
proof -
  let ?y = "year_of_day d"
  obtain m dd where s: "split_month (month_lengths ?y) 1 (d - year_start ?y) = (m, dd)"
    by (cases "split_month (month_lengths ?y) 1 (d - year_start ?y)")
  have "0 \<le> d - year_start ?y" and "d - year_start ?y < sum_list (month_lengths ?y)"
    using year_of_day_bounds [of d] by (auto simp: year_length month_lengths_sum)
  from split_month_spec [OF this s] show ?thesis
    unfolding civil_of_day_def Let_def s by (simp add: valid_civil_def day_of_civil_def length_month_lengths)
qed

lemma civil_of_day_less:
  assumes "d < e" and "civil_of_day d = (y, m, dd)" and "civil_of_day e = (y', m', dd')"
  shows "y < y' \<or> y = y' \<and> (m < m' \<or> m = m' \<and> dd < dd')"
proof (cases "y = y'")
  case True
  have "y = year_of_day d" and "y' = year_of_day e"
    using assms by (auto simp: civil_of_day_def Let_def split: prod.splits)
  with True assms split_month_mono [of "d - year_start y" "e - year_start y" "month_lengths y" 1 m dd m' dd']
    year_of_day_bounds [of d]
  show ?thesis by (auto simp: civil_of_day_def Let_def month_lengths_def split: prod.splits)
next
  case False
  then show ?thesis
    using assms year_of_day_mono [of d e] by (auto simp: civil_of_day_def Let_def split: prod.splits)
qed

lemma day_of_civil_inverse:
  assumes "valid_civil y m dd" shows "civil_of_day (day_of_civil y m dd) = (y, m, dd)"
proof -
  obtain y' m' d' where c: "civil_of_day (day_of_civil y m dd) = (y', m', d')" by (cases "civil_of_day (day_of_civil y m dd)")
  have pre: "list_all (\<lambda>n. 0 \<le> sum_list (take n (month_lengths y))
       \<and> sum_list (take n (month_lengths y)) + month_lengths y ! n \<le> (if leap y then 366 else 365)) [0..<12]"
    by (simp add: upt_rec month_lengths_def)
  have n: "nat (m - 1) \<in> set [0..<12]" using assms by (auto simp: valid_civil_def)
  have "year_start y \<le> day_of_civil y m dd" and "day_of_civil y m dd < year_start (y + 1)"
    using pre [unfolded list_all_iff, rule_format, OF n] assms
    by (simp_all add: year_length day_of_civil_def valid_civil_def)
  then have y: "y' = y" using year_of_day_unique c by (auto simp: civil_of_day_def Let_def split: prod.splits)
  have v: "valid_civil y' m' d'" "day_of_civil y' m' d' = day_of_civil y m dd"
    using civil_of_day_valid [of "day_of_civil y m dd"] by (auto simp: c)
  have step: "list_all (\<lambda>i. list_all (\<lambda>j. i < j \<longrightarrow> sum_list (take i (month_lengths y)) + month_lengths y ! i
       \<le> sum_list (take j (month_lengths y))) [0..<12]) [0..<12]"
    by (simp add: upt_rec month_lengths_def)
  have n': "nat (m' - 1) \<in> set [0..<12]" using v(1) by (auto simp: valid_civil_def)
  have order: "False" if "nat (i - 1) < nat (j - 1)" and "nat (i - 1) \<in> set [0..<12]" "nat (j - 1) \<in> set [0..<12]"
      and "1 \<le> b" "a \<le> month_lengths y ! nat (i - 1)" "day_of_civil y i a = day_of_civil y j b" for i j a b
  proof -
    have "sum_list (take (nat (i - 1)) (month_lengths y)) + month_lengths y ! nat (i - 1)
       \<le> sum_list (take (nat (j - 1)) (month_lengths y))"
      using step that(1,2,3) unfolding list_all_iff by blast
    with that(4,5,6) show False unfolding day_of_civil_def by linarith
  qed
  have "nat (m - 1) = nat (m' - 1)"
    using order [of m m' d' dd] order [of m' m dd d'] n n' v assms
    unfolding y valid_civil_def by (metis linorder_neqE_nat)
  then have "m = m'" using assms v(1) by (auto simp: valid_civil_def)
  moreover from this v(2) y have "d' = dd" by (simp add: day_of_civil_def)
  ultimately show ?thesis using y c by simp
qed

section \<open>Texts of days\<close>

text \<open>\<^verbatim>\<open>new Date(ms).toISOString().slice(0, 10)\<close> for a time on day \<open>d\<close>.\<close>

definition iso_day :: "int \<Rightarrow> string" where
  "iso_day d =
     (case civil_of_day d of (y, m, dd) \<Rightarrow>
        let yt = (if 0 \<le> y \<and> y \<le> 9999 then pad_left 4 (CHR ''0'') (show_nonneg y)
                  else (if y < 0 then ''-'' else ''+'') @ pad_left 6 (CHR ''0'') (show_nonneg \<bar>y\<bar>))
        in take 10 (yt @ ''-'' @ pad_left 2 (CHR ''0'') (show_nonneg m) @ ''-''
                      @ pad_left 2 (CHR ''0'') (show_nonneg dd)))"

text \<open>The days whose year has four digits.\<close>

definition in_calendar :: "int \<Rightarrow> bool" where
  "in_calendar d \<longleftrightarrow> 0 \<le> year_of_day d \<and> year_of_day d \<le> 9999"

text \<open>String comparison, on texts of single-byte characters.\<close>

fun lex_le :: "string \<Rightarrow> string \<Rightarrow> bool" where
  "lex_le [] t = True"
| "lex_le (a # s) [] = False"
| "lex_le (a # s) (b # t) = ((of_char a :: nat) < of_char b \<or> a = b \<and> lex_le s t)"

lemma lex_le_refl [simp]: "lex_le s s"
  by (induction s) simp_all

lemma lex_le_append:
  "length a = length b \<Longrightarrow> lex_le (a @ s) (b @ t) \<longleftrightarrow> (a = b \<and> lex_le s t) \<or> (a \<noteq> b \<and> lex_le a b)"
proof (induction a b rule: list_induct2)
  case (Cons x xs y ys)
  then show ?case by (cases "x = y") auto
qed simp

definition digits :: "string \<Rightarrow> bool" where
  "digits s \<longleftrightarrow> list_all is_digit s"

lemma read_nonneg_snoc: "read_nonneg (s @ [c]) = 10 * read_nonneg s + digit_value c"
  by (simp add: read_nonneg_def)

lemma digit_value_nat: "digit_value c = int (of_char c) - 48"
  unfolding digit_value_def by (cases c) simp

lemma is_digit_nat: "is_digit c \<longleftrightarrow> 48 \<le> (of_char c :: nat) \<and> (of_char c :: nat) \<le> 57"
  by (simp add: is_digit_def Let_def)

lemma digit_value_range: "is_digit c \<Longrightarrow> 0 \<le> digit_value c \<and> digit_value c < 10"
  unfolding digit_value_nat is_digit_nat by linarith

lemma digit_value_less:
  "is_digit a \<Longrightarrow> is_digit b \<Longrightarrow> (of_char a :: nat) < of_char b \<longleftrightarrow> digit_value a < digit_value b"
  unfolding digit_value_nat by linarith

lemma digit_value_inj: "digit_value a = digit_value b \<longleftrightarrow> a = b"
  by (simp add: digit_value_def)

lemma read_nonneg_Cons:
  "read_nonneg (c # s) = digit_value c * 10 ^ length s + read_nonneg s"
proof (induction s rule: rev_induct)
  case (snoc x s)
  then show ?case by (simp add: read_nonneg_snoc algebra_simps flip: append_Cons)
qed (simp add: read_nonneg_def)

lemma read_nonneg_range: "digits s \<Longrightarrow> 0 \<le> read_nonneg s \<and> read_nonneg s < 10 ^ length s"
proof (induction s)
  case (Cons c s)
  then have "0 \<le> digit_value c" "digit_value c \<le> 9" "0 \<le> read_nonneg s" "read_nonneg s < 10 ^ length s"
    using digit_value_range [of c] by (auto simp: digits_def)
  moreover from this have "digit_value c * 10 ^ length s \<le> 9 * 10 ^ length s" by (intro mult_right_mono) auto
  ultimately have "digit_value c * 10 ^ length s + read_nonneg s < 10 * 10 ^ length s"
    and "0 \<le> digit_value c * 10 ^ length s + read_nonneg s" by (linarith, simp)
  then show ?case by (simp add: read_nonneg_Cons)
qed (simp add: read_nonneg_def)

lemma read_nonneg_order:
  "length s = length t \<Longrightarrow> digits s \<Longrightarrow> digits t \<Longrightarrow>
     (lex_le s t \<longleftrightarrow> read_nonneg s \<le> read_nonneg t) \<and> (s = t \<longleftrightarrow> read_nonneg s = read_nonneg t)"
proof (induction s t rule: list_induct2)
  case (Cons a s b t)
  have d: "is_digit a" "is_digit b" "digits s" "digits t" using Cons.prems by (auto simp: digits_def)
  have less: "x * 10 ^ length s + u < y * 10 ^ length s + v"
    if "x < y" "0 \<le> v" "u < 10 ^ length s" for x y u v :: int
  proof -
    have "(x + 1) * 10 ^ length s \<le> y * 10 ^ length s" using that(1) by (intro mult_right_mono) auto
    then show ?thesis using that(2,3) by (simp add: algebra_simps)
  qed
  have s: "0 \<le> read_nonneg s" "read_nonneg s < 10 ^ length s" "0 \<le> read_nonneg t" "read_nonneg t < 10 ^ length s"
    using read_nonneg_range [OF d(3)] read_nonneg_range [OF d(4)] Cons.hyps by auto
  consider "digit_value a < digit_value b" | "digit_value b < digit_value a" | "a = b"
    using digit_value_inj by (metis linorder_neqE)
  then show ?case
  proof cases
    case 1
    with less [OF 1 s(3,2)] d show ?thesis
      using digit_value_less [OF d(1,2)] Cons.hyps by (auto simp: read_nonneg_Cons)
  next
    case 2
    with less [OF 2 s(1,4)] d show ?thesis
      using digit_value_less [OF d(1,2)] Cons.hyps by (auto simp: read_nonneg_Cons)
  next
    case 3
    with Cons.IH d Cons.hyps show ?thesis by (simp add: read_nonneg_Cons)
  qed
qed simp

lemma digits_pad: "0 \<le> n \<Longrightarrow> digits (pad_left k (CHR ''0'') (show_nonneg n))"
  using show_nonneg_digits [of n] by (auto simp: digits_def pad_left_def list_all_iff is_digit_def)

lemma length_pad: "0 \<le> n \<Longrightarrow> 0 < k \<Longrightarrow> n < 10 ^ k \<Longrightarrow> length (pad_left k (CHR ''0'') (show_nonneg n)) = k"
  using length_show_nonneg [of n k] by (simp add: pad_left_def)

lemma read_pad: "0 \<le> n \<Longrightarrow> read_nonneg (pad_left k (CHR ''0'') (show_nonneg n)) = n"
proof -
  have "read_nonneg (replicate j (CHR ''0'') @ s) = read_nonneg s" for j s
    by (induction j) (simp_all add: read_nonneg_Cons digit_value_def)
  then show "0 \<le> n \<Longrightarrow> ?thesis" by (simp add: pad_left_def read_show_nonneg)
qed

text \<open>The text of a day of the calendar has ten characters: four digits, two and two.\<close>

lemma iso_day_eq:
  assumes "in_calendar d" and "civil_of_day d = (y, m, dd)"
  shows "iso_day d = pad_left 4 (CHR ''0'') (show_nonneg y) @ ''-'' @ pad_left 2 (CHR ''0'') (show_nonneg m)
           @ ''-'' @ pad_left 2 (CHR ''0'') (show_nonneg dd)"
    and "0 \<le> y \<and> y < 10 ^ 4" and "0 \<le> m \<and> m < 10 ^ 2" and "0 \<le> dd \<and> dd < 10 ^ 2"
proof -
  have v: "valid_civil y m dd" using civil_of_day_valid [of d] assms(2) by simp
  have ml: "list_all (\<lambda>n. month_lengths y ! n < 100) [0..<12]" by (simp add: upt_rec month_lengths_def)
  have y: "y = year_of_day d" using assms(2) by (auto simp: civil_of_day_def Let_def split: prod.splits)
  show yb: "0 \<le> y \<and> y < 10 ^ 4" using assms(1) by (auto simp: in_calendar_def y)
  show mb: "0 \<le> m \<and> m < 10 ^ 2" using v by (auto simp: valid_civil_def)
  have "nat (m - 1) \<in> set [0..<12]" using v by (auto simp: valid_civil_def)
  then show db: "0 \<le> dd \<and> dd < 10 ^ 2" using v ml unfolding list_all_iff valid_civil_def by force
  have "length (pad_left 4 (CHR ''0'') (show_nonneg y) @ ''-'' @ pad_left 2 (CHR ''0'') (show_nonneg m)
           @ ''-'' @ pad_left 2 (CHR ''0'') (show_nonneg dd)) = 10"
    using yb mb db length_pad [of y 4] length_pad [of m 2] length_pad [of dd 2] by simp
  then show "iso_day d = pad_left 4 (CHR ''0'') (show_nonneg y) @ ''-'' @ pad_left 2 (CHR ''0'') (show_nonneg m)
           @ ''-'' @ pad_left 2 (CHR ''0'') (show_nonneg dd)"
    using yb by (simp only: iso_day_def assms(2) prod.case Let_def) simp
qed


abbreviation pad :: "nat \<Rightarrow> int \<Rightarrow> string" where
  "pad k n \<equiv> pad_left k (CHR ''0'') (show_nonneg n)"

lemma pad_order:
  assumes "0 \<le> a" "a < 10 ^ k" "0 \<le> b" "b < 10 ^ k" "0 < k"
  shows "lex_le (pad k a) (pad k b) \<longleftrightarrow> a \<le> b" and "pad k a = pad k b \<longleftrightarrow> a = b"
  using read_nonneg_order [of "pad k a" "pad k b"] length_pad [of a k] length_pad [of b k]
    digits_pad [of a k] digits_pad [of b k] read_pad [of a k] read_pad [of b k] assms by auto

definition lex_less :: "string \<Rightarrow> string \<Rightarrow> bool" where
  "lex_less s t \<longleftrightarrow> lex_le s t \<and> \<not> lex_le t s"

lemma lex_less_left: "length a = length b \<Longrightarrow> lex_less a b \<Longrightarrow> lex_less (a @ s) (b @ t)"
  by (auto simp: lex_less_def lex_le_append)

lemma lex_less_same: "lex_less s t \<Longrightarrow> lex_less (a @ s) (a @ t)"
  by (simp add: lex_less_def lex_le_append)

lemma lex_less_pad:
  "0 \<le> a \<Longrightarrow> a < b \<Longrightarrow> b < 10 ^ k \<Longrightarrow> 0 < k \<Longrightarrow> lex_less (pad k a) (pad k b)"
  using pad_order [of a k b] pad_order [of b k a] by (simp add: lex_less_def)

text \<open>Comparing the texts of two days compares the days.\<close>

lemma iso_day_less:
  assumes "in_calendar d" and "in_calendar e" and "d < e"
  shows "lex_less (iso_day d) (iso_day e)"
proof -
  obtain y m dd where c: "civil_of_day d = (y, m, dd)" by (cases "civil_of_day d")
  obtain y' m' dd' where c': "civil_of_day e = (y', m', dd')" by (cases "civil_of_day e")
  note eq = iso_day_eq [OF assms(1) c] iso_day_eq [OF assms(2) c']
  note less = civil_of_day_less [OF assms(3) c c']
  have len: "length (pad 4 y) = length (pad 4 y')" "length (pad 2 m) = length (pad 2 m')"
    "length (pad 2 dd) = length (pad 2 dd')"
    using eq(2-4,6-8) length_pad [of y 4] length_pad [of y' 4] length_pad [of m 2] length_pad [of m' 2]
      length_pad [of dd 2] length_pad [of dd' 2] by auto
  consider "y < y'" | "y = y'" "m < m'" | "y = y'" "m = m'" "dd < dd'" using less by blast
  then show ?thesis
  proof cases
    case 1
    with eq(2,6) have "lex_less (pad 4 y) (pad 4 y')" by (intro lex_less_pad) auto
    then show ?thesis unfolding eq(1,5) by (rule lex_less_left [OF len(1)])
  next
    case 2
    with eq(3,7) have "lex_less (pad 2 m) (pad 2 m')" by (intro lex_less_pad) auto
    then show ?thesis unfolding eq(1,5) 2 by (intro lex_less_same lex_less_left [OF len(2)])
  next
    case 3
    with eq(4,8) have "lex_less (pad 2 dd) (pad 2 dd')" by (intro lex_less_pad) auto
    then show ?thesis unfolding eq(1,5) 3 by (intro lex_less_same)
  qed
qed

lemma iso_day_order:
  assumes "in_calendar d" and "in_calendar e"
  shows "lex_le (iso_day d) (iso_day e) \<longleftrightarrow> d \<le> e" and "iso_day d = iso_day e \<longleftrightarrow> d = e"
proof -
  consider "d < e" | "e < d" | "d = e" by linarith
  then have "(lex_le (iso_day d) (iso_day e) \<longleftrightarrow> d \<le> e) \<and> (iso_day d = iso_day e \<longleftrightarrow> d = e)"
  proof cases
    case 1 with iso_day_less [OF assms] show ?thesis by (auto simp: lex_less_def)
  next
    case 2 with iso_day_less [OF assms(2,1)] show ?thesis by (auto simp: lex_less_def)
  qed simp
  then show "lex_le (iso_day d) (iso_day e) \<longleftrightarrow> d \<le> e" and "iso_day d = iso_day e \<longleftrightarrow> d = e" by blast+
qed

text \<open>\<^verbatim>\<open>/^\d{4}-\d{2}-\d{2}$/\<close> and \<^verbatim>\<open>Date.parse\<close> of such a text at midnight UTC.\<close>

definition date_shape :: "string \<Rightarrow> bool" where
  "date_shape s \<longleftrightarrow>
     length s = 10 \<and> digits (take 4 s) \<and> take 1 (drop 4 s) = ''-'' \<and> digits (take 2 (drop 5 s))
     \<and> take 1 (drop 7 s) = ''-'' \<and> digits (drop 8 s)"

definition parse_day :: "string \<Rightarrow> int option" where
  "parse_day s =
     (let y = read_nonneg (take 4 s); m = read_nonneg (take 2 (drop 5 s)); dd = read_nonneg (drop 8 s) in
      if date_shape s \<and> valid_civil y m dd then Some (day_of_civil y m dd) else None)"

lemma parse_iso_day:
  assumes "in_calendar d" shows "date_shape (iso_day d)" and "parse_day (iso_day d) = Some d"
proof -
  obtain y m dd where c: "civil_of_day d = (y, m, dd)" by (cases "civil_of_day d")
  note eq = iso_day_eq [OF assms c]
  have len: "length (pad 4 y) = 4" "length (pad 2 m) = 2" "length (pad 2 dd) = 2"
    using eq(2-4) length_pad [of y 4] length_pad [of m 2] length_pad [of dd 2] by auto
  have parts: "length (iso_day d) = 10" "take 4 (iso_day d) = pad 4 y" "take 2 (drop 5 (iso_day d)) = pad 2 m"
    "drop 8 (iso_day d) = pad 2 dd" "take 1 (drop 4 (iso_day d)) = ''-''" "take 1 (drop 7 (iso_day d)) = ''-''"
    using len unfolding eq(1) by simp_all
  then show shape: "date_shape (iso_day d)"
    using digits_pad [of y 4] digits_pad [of m 2] digits_pad [of dd 2] eq(2-4) by (simp add: date_shape_def)
  have "valid_civil y m dd" "day_of_civil y m dd = d" using civil_of_day_valid [of d] by (simp_all add: c)
  then show "parse_day (iso_day d) = Some d"
    using shape parts read_pad [of y 4] read_pad [of m 2] read_pad [of dd 2] eq(2-4)
    by (simp add: parse_day_def Let_def)
qed

end
