(* ===== verification/Range.thy ===== *)
theory Range
  imports Dates Filters
begin

text \<open>
  The date arithmetic of \<^verbatim>\<open>web/src/state/range.ts\<close>: days of Iran Standard Time (three and
  a half hours ahead of UTC, without daylight saving), presets, and the validity test of a range.
  The clock is the argument \<open>now\<close>, in milliseconds. What an engine makes of a date whose month or
  day does not exist is implementation-defined: it is the parameter \<open>lenient\<close>, the day the engine
  reads, or \<open>None\<close> for an invalid date.
\<close>

definition IRST_DATE_RE :: "string \<Rightarrow> bool" where
  "IRST_DATE_RE s = date_shape s"

definition ms_per_day :: int where
  "ms_per_day = 24 * 60 * 60 * 1000"

text \<open>The day it is in Tehran.\<close>

definition irst_day :: "int \<Rightarrow> int" where
  "irst_day now = (now + (3 * 60 + 30) * 60 * 1000) div ms_per_day"

definition daysAgoIRST :: "int \<Rightarrow> int \<Rightarrow> string" where
  "daysAgoIRST now days =
     (let irstMs = now + (3 * 60 + 30) * 60 * 1000 in
      iso_day ((irstMs - days * 24 * 60 * 60 * 1000) div ms_per_day))"

text \<open>\<open>None\<close> is the RangeError \<^verbatim>\<open>toISOString\<close> throws on an invalid date.\<close>

definition addDayIRST :: "(string \<Rightarrow> int option) \<Rightarrow> string \<Rightarrow> int \<Rightarrow> string option" where
  "addDayIRST lenient text delta =
     (if \<not> IRST_DATE_RE text then Some text
      else (case (case parse_day text of Some d \<Rightarrow> Some d | None \<Rightarrow> lenient text) of
              Some d \<Rightarrow> Some (iso_day (d + delta))
            | None \<Rightarrow> None))"

definition isValidIrstRange :: "string \<Rightarrow> string \<Rightarrow> bool" where
  "isValidIrstRange fr to =
     (if \<not> IRST_DATE_RE fr \<or> \<not> IRST_DATE_RE to then False else lex_le fr to)"

type_synonym day_range = "string \<times> string"

definition defaultRange :: "int \<Rightarrow> day_range" where
  "defaultRange now = (daysAgoIRST now 7, daysAgoIRST now (- 1))"

datatype DatePreset = Today | Yesterday | Days7 | Days30 | Days90 | Custom

fun presetToRange :: "int \<Rightarrow> DatePreset \<Rightarrow> day_range" where
  "presetToRange now Today = (daysAgoIRST now 0, daysAgoIRST now (- 1))"
| "presetToRange now Yesterday = (daysAgoIRST now 1, daysAgoIRST now 0)"
| "presetToRange now Days7 = (daysAgoIRST now 7, daysAgoIRST now (- 1))"
| "presetToRange now Days30 = (daysAgoIRST now 30, daysAgoIRST now (- 1))"
| "presetToRange now Days90 = (daysAgoIRST now 90, daysAgoIRST now (- 1))"
| "presetToRange now Custom = defaultRange now"

text \<open>The number of calendar days each preset spans.\<close>

fun preset_days :: "DatePreset \<Rightarrow> int" where
  "preset_days Today = 1"
| "preset_days Yesterday = 1"
| "preset_days Days7 = 8"
| "preset_days Days30 = 31"
| "preset_days Days90 = 91"
| "preset_days Custom = 8"

lemma daysAgoIRST_day: "daysAgoIRST now days = iso_day (irst_day now - days)"
proof -
  have "(x - days * 24 * 60 * 60 * 1000) div 86400000 = x div 86400000 - days" for x :: int
    using div_bounds [of 86400000 x] by (intro div_unique) (auto simp: algebra_simps)
  then show ?thesis by (simp add: daysAgoIRST_def irst_day_def ms_per_day_def)
qed

lemma valid_iso_range:
  "in_calendar d \<Longrightarrow> in_calendar e \<Longrightarrow> isValidIrstRange (iso_day d) (iso_day e) \<longleftrightarrow> d \<le> e"
  by (simp add: isValidIrstRange_def IRST_DATE_RE_def parse_iso_day iso_day_order)

text \<open>Dates from one hundred days before to one day after today have four-digit years.\<close>

definition clock_ok :: "int \<Rightarrow> bool" where
  "clock_ok now \<longleftrightarrow> (\<forall>k. - 1 \<le> k \<and> k \<le> 90 \<longrightarrow> in_calendar (irst_day now - k))"

lemma clock_ok_bounds:
  assumes "in_calendar (irst_day now - 90)" and "in_calendar (irst_day now + 1)"
  shows "clock_ok now"
  unfolding clock_ok_def in_calendar_def
proof (intro allI impI)
  fix k :: int assume "- 1 \<le> k \<and> k \<le> 90"
  then show "0 \<le> year_of_day (irst_day now - k) \<and> year_of_day (irst_day now - k) \<le> 9999"
    using year_of_day_mono [of "irst_day now - 90" "irst_day now - k"]
      year_of_day_mono [of "irst_day now - k" "irst_day now + 1"] assms by (simp add: in_calendar_def)
qed

lemma preset_range_days:
  "presetToRange now p =
     (let e = (if p = Yesterday then irst_day now else irst_day now + 1) in
        (iso_day (e - preset_days p), iso_day e))"
  by (cases p) (simp_all add: daysAgoIRST_day defaultRange_def Let_def)

text \<open>
  the date presets, at any moment of the years 0 to 9999. Every preset is a valid half-open
  range of real days, in Iranian days: all but one end after today, yesterday ends before it, and
  the numbers of days they span are 1, 1, 8, 31 and 91. The default range is that of the preset
  \<^verbatim>\<open>7d\<close>.
\<close>

theorem preset_ranges_valid:
  assumes "clock_ok now"
  shows "isValidIrstRange (fst (presetToRange now p)) (snd (presetToRange now p))
    \<and> parse_day (snd (presetToRange now p)) = Some (if p = Yesterday then irst_day now else irst_day now + 1)
    \<and> parse_day (fst (presetToRange now p))
        = Some ((if p = Yesterday then irst_day now else irst_day now + 1) - preset_days p)
    \<and> defaultRange now = presetToRange now Days7"
proof -
  let ?e = "if p = Yesterday then irst_day now else irst_day now + 1"
  have "1 \<le> preset_days p" and "preset_days p \<le> 91" by (cases p; simp)+
  then have "in_calendar ?e" and "in_calendar (?e - preset_days p)"
    using assms [unfolded clock_ok_def, rule_format, of "-1"] assms [unfolded clock_ok_def, rule_format, of 0]
      assms [unfolded clock_ok_def, rule_format, of "preset_days p - 1"]
      assms [unfolded clock_ok_def, rule_format, of 1]
    by (auto simp: algebra_simps)
  then show ?thesis
    using \<open>1 \<le> preset_days p\<close> valid_iso_range [of "?e - preset_days p" ?e]
      parse_iso_day(2) [of ?e] parse_iso_day(2) [of "?e - preset_days p"]
    unfolding preset_range_days Let_def fst_conv snd_conv
    by (simp add: defaultRange_def daysAgoIRST_day)
qed

text \<open>
  shifting dates. For a day of the calendar the shift by \<open>k\<close> days is the text of the day \<open>k\<close>
  days later, whatever the engine does with dates that do not exist; shifting there and back is
  the identity, so the picker's conversion between inclusive and exclusive ends loses nothing; and
  a range is valid exactly when its days are in order.
\<close>

theorem date_shift_spec:
  assumes "in_calendar d" and "in_calendar (d + k)"
  shows "addDayIRST lenient (iso_day d) k = Some (iso_day (d + k))
    \<and> addDayIRST lenient (the (addDayIRST lenient (iso_day d) k)) (- k) = Some (iso_day d)
    \<and> (isValidIrstRange (iso_day d) (iso_day (d + k)) \<longleftrightarrow> 0 \<le> k)"
  using parse_iso_day [OF assms(1)] parse_iso_day [OF assms(2)] valid_iso_range [OF assms]
  by (simp add: addDayIRST_def IRST_DATE_RE_def)

text \<open>28 February 2028 is day 21242; the next day exists, 2028 being a leap year.\<close>

lemma year_2028: "year_of_day 21242 = 2028" "year_of_day 21243 = 2028" "iso_day 21243 = ''2028-02-29''"
  by code_simp+

theorem date_shift_spec_witness:
  "addDayIRST (\<lambda>_. None) (iso_day 21242) 1 = Some ''2028-02-29''"
  using date_shift_spec [of 21242 1 "\<lambda>_. None"] year_2028 by (simp add: in_calendar_def)

lemma clock_2028: "irst_day 1835395200000 = 21243"
  by code_simp

lemma clock_2028_ok: "clock_ok 1835395200000"
proof (rule clock_ok_bounds)
  have "year_of_day 21153 = 2027" "year_of_day 21244 = 2028" by code_simp+
  then show "in_calendar (irst_day 1835395200000 - 90)" and "in_calendar (irst_day 1835395200000 + 1)"
    by (simp_all add: in_calendar_def clock_2028)
qed

theorem preset_ranges_valid_witness:
  "isValidIrstRange (fst (presetToRange 1835395200000 Days7)) (snd (presetToRange 1835395200000 Days7))
   \<and> parse_day (snd (presetToRange 1835395200000 Days7)) = Some 21244"
  using preset_ranges_valid [OF clock_2028_ok, of Days7] by (simp add: clock_2028)

end
