(* ===== verification/Signals.thy ===== *)
theory Signals
  imports Hash Filters Range
begin

text \<open>
  The reactive store: the hash router, \<^verbatim>\<open>filtersSignal\<close> and \<^verbatim>\<open>rangeSignal\<close> with
  the two effects that synchronise them (\<^verbatim>\<open>state/filters.ts\<close>,
  \<^verbatim>\<open>state/range.ts\<close>) and the operations that write them. Writing a signal reruns the
  effects that depend on it, in an order the signal library chooses. The locale states for two
  effects when all orders of runs that change something end alike; the operations are defined with one
  order and proved equal to every run. The library notifies for every fresh object, equal or not:
  \<open>Net\<close> keeps the identity of what was written, and shows that the guards of the two effects end every
  sequence of reruns.
\<close>

section \<open>Two effects\<close>

inductive react :: "('s \<Rightarrow> 's) \<Rightarrow> ('s \<Rightarrow> 's) \<Rightarrow> 's \<Rightarrow> 's \<Rightarrow> bool" for A B where
  run_A: "A s \<noteq> s \<Longrightarrow> react A B s (A s)"
| run_B: "B s \<noteq> s \<Longrightarrow> react A B s (B s)"

inductive_cases react_cases: "react A B s t"

definition settled :: "('s \<Rightarrow> 's) \<Rightarrow> ('s \<Rightarrow> 's) \<Rightarrow> 's \<Rightarrow> bool" where
  "settled A B s \<longleftrightarrow> A s = s \<and> B s = s"

definition settles :: "('s \<Rightarrow> 's) \<Rightarrow> ('s \<Rightarrow> 's) \<Rightarrow> 's \<Rightarrow> 's \<Rightarrow> bool" where
  "settles A B s t \<longleftrightarrow> (react A B)\<^sup>*\<^sup>* s t \<and> settled A B t"

locale two_effects =
  fixes A :: "'s \<Rightarrow> 's" and B :: "'s \<Rightarrow> 's"
  assumes A_idem: "A (A s) = A s"
    and B_idem: "B (B s) = B s"
    and B_keeps_A: "A s = s \<Longrightarrow> A (B s) = B s"
begin

lemma settled_BA: "settled A B (B (A s))"
  by (simp add: settled_def B_idem B_keeps_A A_idem)

lemma settles_BA: "settles A B s (B (A s))"
proof -
  have 1: "(react A B)\<^sup>*\<^sup>* s (A s)" by (cases "A s = s") (auto intro: run_A)
  have 2: "(react A B)\<^sup>*\<^sup>* (A s) (B (A s))" by (cases "B (A s) = A s") (auto intro: run_B)
  from 1 2 show ?thesis by (auto simp: settles_def settled_BA)
qed

text \<open>At most three runs change something, whatever the order.\<close>

definition rank :: "'s \<Rightarrow> nat" where
  "rank s = (if A s \<noteq> s then 2 + (if B s \<noteq> s then 1 else 0) else if B s \<noteq> s then 1 else 0)"

lemma react_rank:
  assumes "react A B s t" shows "rank t < rank s"
proof -
  consider "t = A s" "A s \<noteq> s" | "t = B s" "B s \<noteq> s" using assms by (auto elim: react_cases)
  then show ?thesis
  proof cases
    case 1 then show ?thesis by (simp add: rank_def A_idem)
  next
    case 2 then show ?thesis using B_keeps_A [of s] by (simp add: rank_def B_idem)
  qed
qed

lemma react_terminates: "(react A B ^^ n) s t \<Longrightarrow> n \<le> rank s"
proof (induction n arbitrary: s)
  case (Suc n)
  then obtain u where "react A B s u" "(react A B ^^ n) u t" using relpowp_Suc_D2 by metis
  with Suc.IH [of u] react_rank [of s u] show ?case by simp
qed simp

lemma react_at_most_three: "(react A B ^^ n) s t \<Longrightarrow> n \<le> 3"
  using react_terminates [of n s t] by (simp add: rank_def split: if_splits)

text \<open>From a state in which the first effect is quiet, every run ends in the same state.\<close>

lemma settles_quiet: "settles A B s t \<Longrightarrow> A s = s \<Longrightarrow> t = B s"
proof -
  assume t: "settles A B s t" and q: "A s = s"
  have "(react A B)\<^sup>*\<^sup>* s u \<Longrightarrow> u = s \<or> u = B s" for u
  proof (induction rule: rtranclp_induct)
    case (step u v)
    then show ?case
      using q B_idem B_keeps_A by (auto elim: react_cases)
  qed simp
  with t show "t = B s" by (metis settled_def settles_def)
qed

text \<open>
  When running the second effect first makes no difference to what both give after the first one,
  every run ends in the same state.
\<close>

lemma settles_unique:
  assumes "settles A B s t" and "B (A (B s)) = B (A s)"
  shows "t = B (A s)"
proof -
  have "(react A B)\<^sup>*\<^sup>* s u \<Longrightarrow>
      u = s \<or> u = B s \<or> u = A s \<or> u = A (B s) \<or> u = B (A s)" for u
  proof (induction rule: rtranclp_induct)
    case (step u v)
    then show ?case
      using A_idem B_idem B_keeps_A assms(2) by (auto elim!: react_cases)
  qed simp
  with assms(1) have "t = s \<or> t = B s \<or> t = A s \<or> t = A (B s) \<or> t = B (A s)"
    by (auto simp: settles_def)
  moreover have "A t = t" "B t = t" using assms(1) by (auto simp: settles_def settled_def)
  ultimately show ?thesis using assms(2) A_idem B_idem by metis
qed

end

section \<open>The store\<close>

record Store =
  browser :: Browser
  filtersSignal :: Filters
  rangeSignal :: day_range

abbreviation hash_params :: "Store \<Rightarrow> params" where
  "hash_params s \<equiv> params (hashSignal (browser s))"

text \<open>
  The effect of \<^verbatim>\<open>filters.ts\<close>: read the filters off the hash when they differ. What an
  effect assigns, if it assigns anything, is kept apart, because the identity of the signals depends on it.
\<close>

definition filters_write :: "Store \<Rightarrow> Filters option" where
  "filters_write s =
     (let fromHash = queryToFilters (hash_params s) in
      if \<not> filtersEqual fromHash (filtersSignal s) then Some fromHash else None)"

definition filters_effect :: "Store \<Rightarrow> Store" where
  "filters_effect s = (case filters_write s of Some f \<Rightarrow> s\<lparr>filtersSignal := f\<rparr> | None \<Rightarrow> s)"

text \<open>The effect of \<^verbatim>\<open>range.ts\<close>: follow a valid range in the filters.\<close>

definition range_write :: "Store \<Rightarrow> day_range option" where
  "range_write s =
     (let f = filtersSignal s in
      if from_day f = [] \<or> to_day f = [] then None
      else if \<not> isValidIrstRange (from_day f) (to_day f) then None
      else let cur = rangeSignal s in
        if fst cur \<noteq> from_day f \<or> snd cur \<noteq> to_day f then Some (from_day f, to_day f) else None)"

definition range_effect :: "Store \<Rightarrow> Store" where
  "range_effect s = (case range_write s of Some r \<Rightarrow> s\<lparr>rangeSignal := r\<rparr> | None \<Rightarrow> s)"

text \<open>The runs of that effect that get as far as reading \<^verbatim>\<open>rangeSignal\<close>.\<close>

definition range_read :: "Store \<Rightarrow> bool" where
  "range_read s \<longleftrightarrow>
     (let f = filtersSignal s in
      \<not> (from_day f = [] \<or> to_day f = []) \<and> isValidIrstRange (from_day f) (to_day f))"

lemma filters_effect_eq:
  "filters_effect s =
     (if filtersEqual (queryToFilters (hash_params s)) (filtersSignal s) then s
      else s\<lparr>filtersSignal := queryToFilters (hash_params s)\<rparr>)"
  by (simp add: filters_effect_def filters_write_def Let_def)

definition settle :: "Store \<Rightarrow> Store" where
  "settle s = range_effect (filters_effect s)"

text \<open>Module load: both signals are read from the hash.\<close>

definition boot_filters :: "Browser \<Rightarrow> Filters" where
  "boot_filters b = queryToFilters (params (hashSignal b))"

definition boot_range :: "int \<Rightarrow> Filters \<Rightarrow> day_range" where
  "boot_range now f =
     (if from_day f \<noteq> [] \<and> to_day f \<noteq> [] \<and> isValidIrstRange (from_day f) (to_day f)
      then (from_day f, to_day f) else defaultRange now)"

definition boot :: "int \<Rightarrow> string \<Rightarrow> Store" where
  "boot now hash =
     (let b = boot_hash hash; f = boot_filters b in
      \<lparr>browser = b, filtersSignal = f, rangeSignal = boot_range now f\<rparr>)"

lemma isValid_nonempty: "isValidIrstRange a b \<Longrightarrow> a \<noteq> [] \<and> b \<noteq> []"
  by (auto simp: isValidIrstRange_def IRST_DATE_RE_def date_shape_def split: if_splits)

lemma range_effect_eq:
  "range_effect s =
     (if isValidIrstRange (from_day (filtersSignal s)) (to_day (filtersSignal s))
      then s\<lparr>rangeSignal := (from_day (filtersSignal s), to_day (filtersSignal s))\<rparr> else s)"
  using isValid_nonempty [of "from_day (filtersSignal s)" "to_day (filtersSignal s)"]
  by (cases "rangeSignal s") (auto simp: range_effect_def range_write_def Let_def)

interpretation store: two_effects filters_effect range_effect
proof
  show "filters_effect (filters_effect s) = filters_effect s" for s
    by (simp add: filters_effect_eq Let_def)
  show "range_effect (range_effect s) = range_effect s" for s
    by (simp add: range_effect_eq)
  show "filters_effect (range_effect s) = range_effect s" if "filters_effect s = s" for s
  proof -
    have "\<not> filtersEqual (queryToFilters (hash_params s)) (filtersSignal s) \<Longrightarrow>
        filtersSignal s = queryToFilters (hash_params s)"
      using that by (metis (no_types, lifting) filters_effect_eq Store.select_convs(2) Store.surjective Store.update_convs(2))
    then show ?thesis by (cases s) (auto simp: filters_effect_eq range_effect_eq Let_def)
  qed
qed

text \<open>The states the page rests in: both effects quiet, and the hash read into the signals.\<close>

definition resting :: "Store \<Rightarrow> bool" where
  "resting s \<longleftrightarrow> settled filters_effect range_effect s \<and> wf_filters (filtersSignal s)"

lemma filters_quiet:
  "filters_effect s = s \<longleftrightarrow> filtersEqual (queryToFilters (hash_params s)) (filtersSignal s)"
proof
  assume q: "filters_effect s = s"
  show "filtersEqual (queryToFilters (hash_params s)) (filtersSignal s)"
  proof (rule ccontr)
    assume n: "\<not> filtersEqual (queryToFilters (hash_params s)) (filtersSignal s)"
    with q have "s\<lparr>filtersSignal := queryToFilters (hash_params s)\<rparr> = s"
      by (simp add: filters_effect_eq Let_def)
    then have "filtersSignal s = queryToFilters (hash_params s)"
      by (metis Store.select_convs(2) Store.surjective Store.update_convs(2))
    with n show False by simp
  qed
qed (simp add: filters_effect_eq)

lemma range_quiet:
  "range_effect s = s \<longleftrightarrow>
     (isValidIrstRange (from_day (filtersSignal s)) (to_day (filtersSignal s)) \<longrightarrow>
        rangeSignal s = (from_day (filtersSignal s), to_day (filtersSignal s)))"
  by (cases s) (auto simp: range_effect_eq)

lemma resting_facts:
  assumes "resting s"
  shows "filtersEqual (queryToFilters (hash_params s)) (filtersSignal s)"
    and "normal (filtersSignal s)" and "wf_filters (filtersSignal s)"
    and "isValidIrstRange (from_day (filtersSignal s)) (to_day (filtersSignal s)) \<Longrightarrow>
           rangeSignal s = (from_day (filtersSignal s), to_day (filtersSignal s))"
proof -
  show eq: "filtersEqual (queryToFilters (hash_params s)) (filtersSignal s)" and wf: "wf_filters (filtersSignal s)"
    using assms by (auto simp: resting_def settled_def filters_quiet)
  show "normal (filtersSignal s)"
    using filtersEqual_normal [OF _ wf eq] queryToFilters_normal by blast
  show "isValidIrstRange (from_day (filtersSignal s)) (to_day (filtersSignal s)) \<Longrightarrow>
           rangeSignal s = (from_day (filtersSignal s), to_day (filtersSignal s))"
    using assms by (simp add: resting_def settled_def range_quiet)
qed

lemma boot_resting: "resting (boot now hash)"
  using queryToFilters_normal isValid_nonempty
  by (auto simp: boot_def boot_filters_def boot_hash_def boot_range_def resting_def settled_def
      filters_quiet range_quiet Let_def)

lemma settle_resting: "wf_filters (filtersSignal s) \<Longrightarrow> resting (settle s)"
proof -
  assume "wf_filters (filtersSignal s)"
  then have "wf_filters (filtersSignal (settle s))"
    using queryToFilters_normal by (auto simp: settle_def filters_effect_eq range_effect_eq Let_def)
  then show ?thesis using store.settled_BA [of s] by (simp add: resting_def settle_def)
qed

section \<open>Runs of the effects\<close>

definition date_range :: "Filters \<Rightarrow> day_range" where
  "date_range f = (from_day f, to_day f)"

abbreviation dated :: "Filters \<Rightarrow> bool" where
  "dated f \<equiv> isValidIrstRange (from_day f) (to_day f)"

lemma filters_effect_fields [simp]:
  "browser (filters_effect s) = browser s" "rangeSignal (filters_effect s) = rangeSignal s"
  by (simp_all add: filters_effect_eq Let_def)

lemma range_effect_fields [simp]:
  "browser (range_effect s) = browser s" "filtersSignal (range_effect s) = filtersSignal s"
  "rangeSignal (range_effect s) = (if dated (filtersSignal s) then date_range (filtersSignal s) else rangeSignal s)"
  by (simp_all add: range_effect_eq date_range_def)

lemma filters_effect_filters:
  "filtersSignal (filters_effect s) =
     (if filtersEqual (queryToFilters (hash_params s)) (filtersSignal s) then filtersSignal s
      else queryToFilters (hash_params s))"
  by (simp add: filters_effect_eq Let_def)

lemma settles_fields:
  assumes "settles filters_effect range_effect s t"
  defines "f \<equiv> filtersSignal (filters_effect s)"
  shows "browser t = browser s" and "filtersSignal t = f"
    and "dated f \<Longrightarrow> rangeSignal t = date_range f"
    and "\<not> dated f \<Longrightarrow> rangeSignal t = rangeSignal s \<or>
           dated (filtersSignal s) \<and> rangeSignal t = date_range (filtersSignal s)"
proof -
  have inv: "(react filters_effect range_effect)\<^sup>*\<^sup>* s u \<Longrightarrow>
      browser u = browser s \<and> (filtersSignal u = filtersSignal s \<or> filtersSignal u = f)
      \<and> (rangeSignal u = rangeSignal s \<or> dated (filtersSignal s) \<and> rangeSignal u = date_range (filtersSignal s)
         \<or> dated f \<and> rangeSignal u = date_range f)" for u
  proof (induction rule: rtranclp_induct)
    case (step u v)
    then show ?case
      by (auto elim!: react_cases simp: f_def filters_effect_filters split: if_splits)
  qed simp
  have q: "filters_effect t = t" "range_effect t = t" and I: "(react filters_effect range_effect)\<^sup>*\<^sup>* s t"
    using assms(1) by (auto simp: settles_def settled_def)
  note inv = inv [OF I]
  show b: "browser t = browser s" using inv by simp
  show ft: "filtersSignal t = f"
    using inv q(1) b by (auto simp: filters_quiet f_def filters_effect_filters)
  show "dated f \<Longrightarrow> rangeSignal t = date_range f"
    using q(2) ft by (simp add: range_quiet date_range_def)
  show "\<not> dated f \<Longrightarrow> rangeSignal t = rangeSignal s \<or>
           dated (filtersSignal s) \<and> rangeSignal t = date_range (filtersSignal s)"
    using inv by auto
qed

section \<open>Identity of what is written\<close>

text \<open>
  A signal of \<^verbatim>\<open>@preact/signals\<close> compares by identity, as documented: a write of a fresh object notifies
  every effect that read the signal in its last run, the writing effect too, whatever its value. Here every write gets the signal a new number,
  and an effect remembers the numbers it read. The effect of the range reads \<^verbatim>\<open>rangeSignal\<close> only when
  the filters have a valid range.
\<close>

record Net =
  net_store :: Store
  hash_no :: nat
  filters_no :: nat
  range_no :: nat
  filters_seen :: "(nat \<times> nat) option"
  range_seen :: "(nat \<times> nat option) option"

definition net_of :: "Store \<Rightarrow> Net" where
  "net_of s = \<lparr>net_store = s, hash_no = 0, filters_no = 0, range_no = 0, filters_seen = None, range_seen = None\<rparr>"

definition filters_due :: "Net \<Rightarrow> bool" where
  "filters_due n \<longleftrightarrow> filters_seen n \<noteq> Some (hash_no n, filters_no n)"

definition range_due :: "Net \<Rightarrow> bool" where
  "range_due n \<longleftrightarrow>
     (case range_seen n of
        None \<Rightarrow> True
      | Some (f, r) \<Rightarrow> f \<noteq> filters_no n \<or> (case r of None \<Rightarrow> False | Some k \<Rightarrow> k \<noteq> range_no n))"

definition put_hash :: "Browser \<Rightarrow> Net \<Rightarrow> Net" where
  "put_hash b n = n\<lparr>net_store := (net_store n)\<lparr>browser := b\<rparr>, hash_no := hash_no n + 1\<rparr>"

definition put_filters :: "Filters \<Rightarrow> Net \<Rightarrow> Net" where
  "put_filters f n = n\<lparr>net_store := (net_store n)\<lparr>filtersSignal := f\<rparr>, filters_no := filters_no n + 1\<rparr>"

definition put_range :: "day_range \<Rightarrow> Net \<Rightarrow> Net" where
  "put_range r n = n\<lparr>net_store := (net_store n)\<lparr>rangeSignal := r\<rparr>, range_no := range_no n + 1\<rparr>"

definition run_filters :: "Net \<Rightarrow> Net" where
  "run_filters n =
     (let n1 = n\<lparr>filters_seen := Some (hash_no n, filters_no n)\<rparr>
      in case filters_write (net_store n) of Some f \<Rightarrow> put_filters f n1 | None \<Rightarrow> n1)"

definition run_range :: "Net \<Rightarrow> Net" where
  "run_range n =
     (let n1 = n\<lparr>range_seen := Some (filters_no n, if range_read (net_store n) then Some (range_no n) else None)\<rparr>
      in case range_write (net_store n) of Some r \<Rightarrow> put_range r n1 | None \<Rightarrow> n1)"

inductive effect_run :: "Net \<Rightarrow> Net \<Rightarrow> bool" where
  run_filters: "filters_due n \<Longrightarrow> effect_run n (run_filters n)"
| run_range: "range_due n \<Longrightarrow> effect_run n (run_range n)"

inductive_cases effect_run_cases: "effect_run n n'"

text \<open>Module load in any state of the address, then writes of any values and runs of due effects.\<close>

inductive net_reachable :: "Net \<Rightarrow> bool" where
  net_start: "net_reachable (net_of s)"
| net_run: "net_reachable n \<Longrightarrow> effect_run n n' \<Longrightarrow> net_reachable n'"
| net_hash: "net_reachable n \<Longrightarrow> net_reachable (put_hash b n)"
| net_filters: "net_reachable n \<Longrightarrow> net_reachable (put_filters f n)"
| net_range: "net_reachable n \<Longrightarrow> net_reachable (put_range r n)"

lemma no_pair [simp]: "(\<forall>a b. x \<noteq> Some (a, b)) \<longleftrightarrow> x = None"
  by (cases x) auto

lemma filters_write_done [simp]: "filters_write s = Some f \<Longrightarrow> filters_write (s\<lparr>filtersSignal := f\<rparr>) = None"
  by (auto simp: filters_write_def Let_def split: if_splits)

lemma filters_write_range [simp]: "filters_write (s\<lparr>rangeSignal := r\<rparr>) = filters_write s"
  by (simp add: filters_write_def)

lemma range_write_done [simp]: "range_write s = Some r \<Longrightarrow> range_write (s\<lparr>rangeSignal := r\<rparr>) = None"
  by (auto simp: range_write_def Let_def split: if_splits)

lemma range_hash [simp]:
  "range_write (s\<lparr>browser := b\<rparr>) = range_write s" "range_read (s\<lparr>browser := b\<rparr>) = range_read s"
  "range_read (s\<lparr>rangeSignal := r\<rparr>) = range_read s"
  by (simp_all add: range_write_def range_read_def Let_def)

lemma range_write_read: "range_write s \<noteq> None \<Longrightarrow> range_read s"
  by (auto simp: range_write_def range_read_def Let_def split: if_splits)

text \<open>An effect that is not due has nothing to write.\<close>

definition net_ok :: "Net \<Rightarrow> bool" where
  "net_ok n \<longleftrightarrow>
     (case filters_seen n of None \<Rightarrow> True | Some (h, f) \<Rightarrow>
        h \<le> hash_no n \<and> f \<le> filters_no n \<and> (h = hash_no n \<and> f = filters_no n \<longrightarrow> filters_write (net_store n) = None))
     \<and> (case range_seen n of None \<Rightarrow> True | Some (f, r) \<Rightarrow>
          f \<le> filters_no n
          \<and> (case r of
               None \<Rightarrow> f = filters_no n \<longrightarrow> \<not> range_read (net_store n)
             | Some k \<Rightarrow> k \<le> range_no n \<and> (f = filters_no n \<and> k = range_no n \<longrightarrow> range_write (net_store n) = None)))"

lemma net_ok_writes:
  "net_ok n \<Longrightarrow> net_ok (put_hash b n)" "net_ok n \<Longrightarrow> net_ok (put_filters f n)" "net_ok n \<Longrightarrow> net_ok (put_range r n)"
  by (auto simp: net_ok_def put_hash_def put_filters_def put_range_def split: option.splits)

lemma net_ok_run_filters: "net_ok n \<Longrightarrow> net_ok (run_filters n)"
  by (cases "filters_write (net_store n)")
     (auto simp: net_ok_def run_filters_def put_filters_def Let_def split: option.splits)

lemma net_ok_run_range:
  assumes "net_ok n" shows "net_ok (run_range n)"
proof (cases "range_write (net_store n)")
  case None
  with assms show ?thesis by (auto simp: net_ok_def run_range_def Let_def split: option.splits)
next
  case (Some r)
  then have "range_read (net_store n)" using range_write_read by simp
  with Some assms show ?thesis
    by (auto simp: net_ok_def run_range_def put_range_def Let_def split: option.splits)
qed

lemma net_reachable_ok: "net_reachable n \<Longrightarrow> net_ok n"
proof (induction rule: net_reachable.induct)
  case (net_start s)
  show ?case by (simp add: net_ok_def net_of_def)
qed (auto elim: effect_run_cases intro: net_ok_writes net_ok_run_filters net_ok_run_range)

lemma net_quiet:
  assumes "net_ok n" and "\<not> filters_due n" and "\<not> range_due n"
  shows "settled filters_effect range_effect (net_store n)"
proof -
  have "filters_write (net_store n) = None" using assms(1,2) by (auto simp: net_ok_def filters_due_def)
  moreover have "range_write (net_store n) = None"
  proof (cases "range_read (net_store n)")
    case True
    then show ?thesis using assms(1,3) by (auto simp: net_ok_def range_due_def split: option.splits)
  next
    case False
    then show ?thesis using range_write_read by blast
  qed
  ultimately show ?thesis by (simp add: settled_def filters_effect_def range_effect_def)
qed

text \<open>What is left to run, counted with the reruns a write causes.\<close>

definition runs_left :: "Net \<Rightarrow> nat" where
  "runs_left n =
     (if filters_write (net_store n) \<noteq> None then 4 else if filters_due n then 1 else 0)
     + (if range_due n then if range_write (net_store n) \<noteq> None then 2 else 1 else 0)"

lemma runs_left_less:
  assumes "effect_run n n'" shows "runs_left n' < runs_left n"
  using assms
proof (cases rule: effect_run.cases)
  case run_filters
  then show ?thesis
    by (cases "filters_write (net_store n)")
       (auto simp: runs_left_def run_filters_def put_filters_def filters_due_def range_due_def Let_def split: option.split)
next
  case run_range
  then show ?thesis
    by (cases "range_write (net_store n)")
       (auto simp: runs_left_def run_range_def put_range_def filters_due_def range_due_def Let_def)
qed

lemma runs_bounded: "(effect_run ^^ k) n n' \<Longrightarrow> k \<le> runs_left n"
proof (induction k arbitrary: n)
  case (Suc k)
  then obtain m where "effect_run n m" "(effect_run ^^ k) m n'" using relpowp_Suc_D2 by metis
  with Suc.IH [of m] runs_left_less [of n m] show ?case by simp
qed simp

lemma runs_end: "\<exists>n'. effect_run\<^sup>*\<^sup>* n n' \<and> \<not> filters_due n' \<and> \<not> range_due n'"
proof (induction n rule: measure_induct_rule [of runs_left])
  case (less n)
  show ?case
  proof (cases "filters_due n \<or> range_due n")
    case True
    then obtain m where m: "effect_run n m" by (auto intro: effect_run.intros)
    from less [OF runs_left_less [OF m]] show ?thesis using m by (meson converse_rtranclp_into_rtranclp)
  qed blast
qed

text \<open>A run of a due effect is a run of the effect on the values, or changes none.\<close>

lemma effect_run_react:
  "effect_run n n' \<Longrightarrow> (react filters_effect range_effect)\<^sup>*\<^sup>* (net_store n) (net_store n')"
proof (erule effect_run_cases)
  show "n' = run_filters n \<Longrightarrow> (react filters_effect range_effect)\<^sup>*\<^sup>* (net_store n) (net_store n')"
  proof -
    have "net_store (run_filters n) = filters_effect (net_store n)"
      by (simp add: run_filters_def put_filters_def filters_effect_def Let_def split: option.split)
    then show "n' = run_filters n \<Longrightarrow> (react filters_effect range_effect)\<^sup>*\<^sup>* (net_store n) (net_store n')"
      by (cases "filters_effect (net_store n) = net_store n") (auto intro: run_A)
  qed
  show "n' = run_range n \<Longrightarrow> (react filters_effect range_effect)\<^sup>*\<^sup>* (net_store n) (net_store n')"
  proof -
    have "net_store (run_range n) = range_effect (net_store n)"
      by (simp add: run_range_def put_range_def range_effect_def Let_def split: option.split)
    then show "n' = run_range n \<Longrightarrow> (react filters_effect range_effect)\<^sup>*\<^sup>* (net_store n) (net_store n')"
      by (cases "range_effect (net_store n) = net_store n") (auto intro: run_B)
  qed
qed

lemma net_run_react:
  "effect_run\<^sup>*\<^sup>* n n' \<Longrightarrow> (react filters_effect range_effect)\<^sup>*\<^sup>* (net_store n) (net_store n')"
  by (induction rule: rtranclp_induct) (auto dest: effect_run_react)

lemma net_reachable_runs: "effect_run\<^sup>*\<^sup>* n n' \<Longrightarrow> net_reachable n \<Longrightarrow> net_reachable n'"
  by (induction rule: rtranclp_induct) (auto intro: net_run)

text \<open>
  C7: the effects settle. Signals notify by identity, so an effect that assigns a fresh object runs again
  for its own assignment. Still, whatever was written to the three signals before and whichever due effect
  is run first, at most six runs follow, some order ends with no effect due, and at the end of every
  order the values are settled for both effects and could have been reached by runs that compare values, of
  which at most three change something.
\<close>

theorem effects_settle:
  assumes "net_reachable n"
  shows "{k. \<exists>n'. (effect_run ^^ k) n n'} \<subseteq> {..6}
    \<and> (\<exists>n'. effect_run\<^sup>*\<^sup>* n n' \<and> \<not> filters_due n' \<and> \<not> range_due n')
    \<and> (\<forall>n'. effect_run\<^sup>*\<^sup>* n n' \<and> \<not> filters_due n' \<and> \<not> range_due n' \<longrightarrow>
         settles filters_effect range_effect (net_store n) (net_store n'))
    \<and> {k. \<exists>t. (react filters_effect range_effect ^^ k) (net_store n) t} \<subseteq> {..3}"
proof -
  have "runs_left n \<le> 6" by (simp add: runs_left_def)
  then have "{k. \<exists>n'. (effect_run ^^ k) n n'} \<subseteq> {..6}" using runs_bounded order_trans by blast
  moreover have "settles filters_effect range_effect (net_store n) (net_store n')"
    if "effect_run\<^sup>*\<^sup>* n n'" "\<not> filters_due n'" "\<not> range_due n'" for n'
    using net_quiet [OF net_reachable_ok [OF net_reachable_runs [OF that(1) assms]] that(2,3)] net_run_react [OF that(1)]
    by (simp add: settles_def)
  ultimately show ?thesis using runs_end [of n] store.react_at_most_three by blast
qed

theorem effects_settle_witness:
  "\<exists>n. n = put_filters EMPTY_FILTERS (net_of (boot 0 ''#geo?channel=Direct''))
     \<and> filters_due n \<and> range_due n
     \<and> {k. \<exists>n'. (effect_run ^^ k) n n'} \<subseteq> {..6}
     \<and> (\<exists>n'. effect_run\<^sup>*\<^sup>* n n' \<and> \<not> filters_due n' \<and> \<not> range_due n')"
proof -
  let ?n = "put_filters EMPTY_FILTERS (net_of (boot 0 ''#geo?channel=Direct''))"
  have "net_reachable ?n" by (intro net_filters net_start)
  from effects_settle [OF this] have "{k. \<exists>n'. (effect_run ^^ k) ?n n'} \<subseteq> {..6}
      \<and> (\<exists>n'. effect_run\<^sup>*\<^sup>* ?n n' \<and> \<not> filters_due n' \<and> \<not> range_due n')" by blast
  moreover have "filters_due ?n" "range_due ?n"
    by (simp_all add: filters_due_def range_due_def put_filters_def net_of_def)
  ultimately show ?thesis by blast
qed

section \<open>Writing filters\<close>

text \<open>The argument of \<^verbatim>\<open>updateFilters\<close>, a \<^verbatim>\<open>Partial<Filters>\<close>.\<close>

datatype assignment = Key filter_key string | Scope scope props

type_synonym patch = "assignment list"

fun apply_assignment :: "assignment \<Rightarrow> Filters \<Rightarrow> Filters" where
  "apply_assignment (Key k v) f = set_key k v f"
| "apply_assignment (Scope s m) f = set_scope s m f"

definition merge :: "patch \<Rightarrow> Filters \<Rightarrow> Filters" where
  "merge nxt f = fold apply_assignment nxt f"

definition updateFilters :: "patch \<Rightarrow> Store \<Rightarrow> Store" where
  "updateFilters nxt s =
     (let merged = merge nxt (filtersSignal s);
          s1 = settle (s\<lparr>filtersSignal := merged\<rparr>)
      in settle (s1\<lparr>browser := replaceHashParams (filtersToQuery merged) (browser s1)\<rparr>))"

text \<open>The same two writes with every order of effect runs after each.\<close>

definition update_run :: "Filters \<Rightarrow> params \<Rightarrow> Store \<Rightarrow> Store \<Rightarrow> bool" where
  "update_run f ps s t \<longleftrightarrow>
     (\<exists>s1. settles filters_effect range_effect (s\<lparr>filtersSignal := f\<rparr>) s1
         \<and> settles filters_effect range_effect (s1\<lparr>browser := replaceHashParams ps (browser s1)\<rparr>) t)"

definition clearFilters :: "Store \<Rightarrow> Store" where
  "clearFilters s =
     (let s1 = settle (s\<lparr>filtersSignal := EMPTY_FILTERS\<rparr>) in
      settle (s1\<lparr>browser := replaceHashParams [] (browser s1)\<rparr>))"

definition setRange :: "string \<Rightarrow> string \<Rightarrow> Store \<Rightarrow> Store" where
  "setRange fr to s =
     (if \<not> isValidIrstRange fr to then s
      else updateFilters [Key From fr, Key To to] (settle (s\<lparr>rangeSignal := (fr, to)\<rparr>)))"

definition setPropFilter :: "scope \<Rightarrow> string \<Rightarrow> string \<Rightarrow> Store \<Rightarrow> Store" where
  "setPropFilter sc name v s =
     (if name = [] then s
      else updateFilters [Scope sc (obj_define name v (get_scope sc (filtersSignal s)))] s)"

definition removePropFilter :: "scope \<Rightarrow> string \<Rightarrow> Store \<Rightarrow> Store" where
  "removePropFilter sc name s =
     updateFilters [Scope sc (omap_delete name (get_scope sc (filtersSignal s)))] s"

definition toggleMetric :: "MetricId \<Rightarrow> Store \<Rightarrow> Store" where
  "toggleMetric m s =
     (case toggled m (filtersSignal s) of
        None \<Rightarrow> s
      | Some txt \<Rightarrow> updateFilters [Key Metrics txt] s)"

lemma settle_settles: "settles filters_effect range_effect s (settle s)"
  using store.settles_BA [of s] by (simp add: settle_def)

lemma read_dates:
  assumes "wf_filters f"
  shows "from_day (queryToFilters (filtersToQuery f)) = from_day f"
    and "to_day (queryToFilters (filtersToQuery f)) = to_day f"
  using assms read_back_key [of From "filtersToQuery f"] read_back_key [of To "filtersToQuery f"]
    params_get_filtersToQuery [of f From] params_get_filtersToQuery [of f To]
  by (simp_all add: read_key_def split: if_splits)

lemma hash_params_replace [simp]:
  "hash_params (s\<lparr>browser := replaceHashParams ps b\<rparr>) = ps"
  by (simp add: replaceHashParams_fields)

lemma filtersEqual_dates: "filtersEqual a b \<Longrightarrow> date_range a = date_range b"
  by (simp add: filtersEqual_def KEYS_def date_range_def)

text \<open>Two writes from a resting state: the result does not depend on the order of the effects.\<close>

lemma update_run_fields:
  assumes s: "resting s" and run: "update_run f ps s t"
    and dates: "date_range (queryToFilters ps) = date_range f"
    and wf: "wf_filters f"
  shows "browser t = replaceHashParams ps (browser s)"
    and "filtersSignal t =
           (let old = (if filtersEqual (queryToFilters (hash_params s)) f then f else queryToFilters (hash_params s))
            in if filtersEqual (queryToFilters ps) old then old else queryToFilters ps)"
    and "rangeSignal t = (if dated f then date_range f else rangeSignal s)"
proof -
  obtain s1 where 1: "settles filters_effect range_effect (s\<lparr>filtersSignal := f\<rparr>) s1"
    and 2: "settles filters_effect range_effect (s1\<lparr>browser := replaceHashParams ps (browser s1)\<rparr>) t"
    using run by (auto simp: update_run_def)
  let ?old = "if filtersEqual (queryToFilters (hash_params s)) f then f else queryToFilters (hash_params s)"
  note f1 = settles_fields [OF 1] and f2 = settles_fields [OF 2]
  have b1: "browser s1 = browser s" using f1(1) by simp
  have E1: "filtersSignal (filters_effect (s\<lparr>filtersSignal := f\<rparr>)) = ?old"
    by (simp add: filters_effect_filters)
  note f1 = f1 [unfolded E1]
  have F1: "filtersSignal s1 = ?old" by (rule f1(2))
  show "browser t = replaceHashParams ps (browser s)" using f2(1) b1 by simp
  have F2: "filtersSignal t = (if filtersEqual (queryToFilters ps) ?old then ?old else queryToFilters ps)"
    using f2(2) F1 by (simp add: filters_effect_filters del: hash_params_replace add: replaceHashParams_fields)
  then show "filtersSignal t =
           (let old = ?old in if filtersEqual (queryToFilters ps) old then old else queryToFilters ps)"
    by simp
  have same: "date_range (filtersSignal t) = date_range f"
  proof (cases "filtersEqual (queryToFilters ps) ?old")
    case True
    then show ?thesis using F2 dates filtersEqual_dates [of "queryToFilters ps" ?old] by simp
  next
    case False
    then show ?thesis using F2 dates by simp
  qed
  have d: "dated g \<longleftrightarrow> isValidIrstRange (fst (date_range g)) (snd (date_range g))" for g
    by (simp add: date_range_def)
  show "rangeSignal t = (if dated f then date_range f else rangeSignal s)"
  proof (cases "dated f")
    case True
    then have "dated (filtersSignal t)" using same by (simp add: d)
    then show ?thesis using f2(2,3) same True by simp
  next
    case False
    then have nt: "\<not> dated (filtersSignal (filters_effect (s1\<lparr>browser := replaceHashParams ps (browser s1)\<rparr>)))"
      using same f2(2) by (simp add: d)
    have old: "dated ?old \<Longrightarrow> date_range ?old = rangeSignal s"
    proof -
      assume dated: "dated ?old"
      with False have neq: "\<not> filtersEqual (queryToFilters (hash_params s)) f" by (auto split: if_splits)
      have "date_range (queryToFilters (hash_params s)) = date_range (filtersSignal s)"
        using resting_facts(1) [OF s] by (rule filtersEqual_dates)
      with dated neq resting_facts(4) [OF s] show "date_range ?old = rangeSignal s"
        by (simp add: d) (simp add: date_range_def)
    qed
    have "rangeSignal s1 = rangeSignal s"
    proof (cases "dated ?old")
      case True
      show ?thesis unfolding f1(3) [OF True] by (rule old [OF True])
    next
      case n: False
      show ?thesis using f1(4) [OF n] False by simp
    qed
    then show ?thesis using f2(4) [OF nt] False F1 old by auto
  qed
qed

lemma update_run_exists: "update_run m ps s
     (settle (settle (s\<lparr>filtersSignal := m\<rparr>)\<lparr>browser := replaceHashParams ps (browser (settle (s\<lparr>filtersSignal := m\<rparr>)))\<rparr>))"
  unfolding update_run_def
  by (rule exI [of _ "settle (s\<lparr>filtersSignal := m\<rparr>)"]) (intro conjI settle_settles)

lemma update_run_resting:
  assumes "update_run m ps s t" and "wf_filters m" shows "resting t"
proof -
  obtain s1 where 1: "settles filters_effect range_effect (s\<lparr>filtersSignal := m\<rparr>) s1"
    and 2: "settles filters_effect range_effect (s1\<lparr>browser := replaceHashParams ps (browser s1)\<rparr>) t"
    using assms(1) by (auto simp: update_run_def)
  have "wf_filters (filtersSignal s1)"
    using settles_fields(2) [OF 1] assms(2) queryToFilters_normal by (simp add: filters_effect_filters)
  then have "wf_filters (filtersSignal t)"
    using settles_fields(2) [OF 2] queryToFilters_normal by (simp add: filters_effect_filters)
  with 2 show ?thesis by (simp add: resting_def settles_def)
qed

lemma update_run_unique:
  assumes "resting s" and "date_range (queryToFilters ps) = date_range m" and "wf_filters m"
    and "update_run m ps s t" and "update_run m ps s t'"
  shows "t = t'"
  using update_run_fields [OF assms(1,4,2,3)] update_run_fields [OF assms(1,5,2,3)]
  by (intro Store.equality) simp_all

lemma update_run_filters:
  assumes "resting s" and "date_range (queryToFilters ps) = date_range m" and "wf_filters m" "update_run m ps s t"
  shows "filtersEqual (filtersSignal t) (queryToFilters ps)"
proof -
  have "filtersEqual (queryToFilters ps) (filtersSignal t)"
    using update_run_fields(2) [OF assms(1,4,2,3)] by (simp add: Let_def split: if_splits)
  moreover have "wf_filters (filtersSignal t)" using update_run_resting [OF assms(4,3)] by (simp add: resting_def)
  ultimately show ?thesis using filtersEqual_sym queryToFilters_normal by blast
qed

lemma written_dates:
  "wf_filters m \<Longrightarrow> date_range (queryToFilters (filtersToQuery m)) = date_range m"
  by (simp add: date_range_def read_dates)

lemma updateFilters_run:
  "update_run (merge nxt (filtersSignal s)) (filtersToQuery (merge nxt (filtersSignal s))) s (updateFilters nxt s)"
  using update_run_exists by (simp add: updateFilters_def Let_def)

lemma updateFilters_facts:
  assumes "resting s" and "wf_filters (merge nxt (filtersSignal s))"
  defines "m \<equiv> merge nxt (filtersSignal s)"
  shows "browser (updateFilters nxt s) = replaceHashParams (filtersToQuery m) (browser s)"
    and "filtersEqual (filtersSignal (updateFilters nxt s)) (queryToFilters (filtersToQuery m))"
    and "normal m \<Longrightarrow> filtersEqual (filtersSignal (updateFilters nxt s)) m"
    and "rangeSignal (updateFilters nxt s) = (if dated m then date_range m else rangeSignal s)"
    and "resting (updateFilters nxt s)"
proof -
  note run = updateFilters_run [of nxt s, folded m_def]
  have wf: "wf_filters m" using assms(2) by (simp add: m_def)
  note F = update_run_fields [OF assms(1) run written_dates [OF wf] wf]
  show "browser (updateFilters nxt s) = replaceHashParams (filtersToQuery m) (browser s)"
    and "rangeSignal (updateFilters nxt s) = (if dated m then date_range m else rangeSignal s)"
    by (rule F)+
  show eq: "filtersEqual (filtersSignal (updateFilters nxt s)) (queryToFilters (filtersToQuery m))"
    by (rule update_run_filters [OF assms(1) written_dates [OF wf] wf run])
  show rest: "resting (updateFilters nxt s)" by (rule update_run_resting [OF run wf])
  show "filtersEqual (filtersSignal (updateFilters nxt s)) m" if "normal m"
    using filtersEqual_trans [OF _ _ wf eq round_trip_equal [OF wf that]] rest queryToFilters_normal
    by (simp add: resting_def)
qed

text \<open>
  C2: \<^verbatim>\<open>updateFilters\<close>. From a resting page, every order in which the effects can run
  after its two writes ends in the same state, although the effect first undoes the write of the
  signal from the old hash. In that state the hash carries the merged filters on the same panel
  without a new history entry, the signal holds what that hash says (the merged filters themselves
  when a link can carry them), the range follows a valid date window and otherwise stays, and
  the page rests again.
\<close>

theorem update_filters_spec:
  assumes "resting s" and "m = merge nxt (filtersSignal s)" and "wf_filters m"
    and "update_run m (filtersToQuery m) s t"
  shows "t = updateFilters nxt s
    \<and> browser t = replaceHashParams (filtersToQuery m) (browser s)
    \<and> filtersEqual (filtersSignal t) (queryToFilters (filtersToQuery m))
    \<and> (normal m \<longrightarrow> filtersEqual (filtersSignal t) m)
    \<and> rangeSignal t = (if dated m then date_range m else rangeSignal s)
    \<and> resting t"
proof -
  have "t = updateFilters nxt s"
    using update_run_unique [OF assms(1) written_dates [OF assms(3)] assms(3,4)] updateFilters_run assms(2) by blast
  then show ?thesis using updateFilters_facts [of s nxt] assms by simp
qed

definition example_store :: Store where
  "example_store = boot 0 ''#geo?channel=Direct''"

lemma example_resting: "resting example_store"
  by (simp add: example_store_def boot_resting)

lemma example_wf: "wf_filters (merge [Key Channel ''Paid''] (filtersSignal example_store))"
  using resting_facts(3) [OF example_resting]
  by (simp add: merge_def wf_filters_def SCOPES_def)

theorem update_filters_spec_witness:
  "rangeSignal (updateFilters [Key Channel ''Paid''] example_store)
     = (let m = merge [Key Channel ''Paid''] (filtersSignal example_store) in
        if dated m then date_range m else rangeSignal example_store)"
  using update_filters_spec [OF example_resting refl example_wf updateFilters_run] by (simp add: Let_def)

section \<open>The other writers\<close>

lemma normal_set_dates: "normal f \<Longrightarrow> normal (f\<lparr>from_day := a, to_day := b\<rparr>)"
  by (simp add: normal_def SCOPES_def)

lemma wf_set_dates: "wf_filters f \<Longrightarrow> wf_filters (f\<lparr>from_day := a, to_day := b\<rparr>)"
  by (simp add: wf_filters_def SCOPES_def)

lemma settle_range_write:
  assumes "resting s"
  shows "browser (settle (s\<lparr>rangeSignal := r\<rparr>)) = browser s"
    and "filtersSignal (settle (s\<lparr>rangeSignal := r\<rparr>)) = filtersSignal s"
    and "resting (settle (s\<lparr>rangeSignal := r\<rparr>))"
proof -
  have "filters_effect (s\<lparr>rangeSignal := r\<rparr>) = s\<lparr>rangeSignal := r\<rparr>"
    using resting_facts(1) [OF assms] by (simp add: filters_quiet)
  then show "browser (settle (s\<lparr>rangeSignal := r\<rparr>)) = browser s"
    and "filtersSignal (settle (s\<lparr>rangeSignal := r\<rparr>)) = filtersSignal s"
    by (simp_all add: settle_def)
  show "resting (settle (s\<lparr>rangeSignal := r\<rparr>))"
    using assms by (intro settle_resting) (simp add: resting_def)
qed

lemma setRange_facts:
  assumes "resting s" and "isValidIrstRange fr to"
  shows "rangeSignal (setRange fr to s) = (fr, to)"
    and "filtersEqual (filtersSignal (setRange fr to s)) ((filtersSignal s)\<lparr>from_day := fr, to_day := to\<rparr>)"
    and "resting (setRange fr to s)"
    and "browser (setRange fr to s) =
           replaceHashParams (filtersToQuery ((filtersSignal s)\<lparr>from_day := fr, to_day := to\<rparr>)) (browser s)"
proof -
  let ?s = "settle (s\<lparr>rangeSignal := (fr, to)\<rparr>)"
  let ?m = "(filtersSignal s)\<lparr>from_day := fr, to_day := to\<rparr>"
  note w = settle_range_write [OF assms(1), of "(fr, to)"]
  have m: "merge [Key From fr, Key To to] (filtersSignal ?s) = ?m" by (simp add: merge_def w)
  have wf: "wf_filters ?m" using resting_facts(3) [OF assms(1)] by (rule wf_set_dates)
  have n: "normal ?m" using resting_facts(2) [OF assms(1)] by (rule normal_set_dates)
  note F = updateFilters_facts [OF w(3), of "[Key From fr, Key To to]", unfolded m, OF wf]
  have eq: "setRange fr to s = updateFilters [Key From fr, Key To to] ?s"
    using assms(2) by (simp add: setRange_def)
  show "rangeSignal (setRange fr to s) = (fr, to)"
    unfolding eq F(4) using assms(2) by (simp add: date_range_def)
  show "filtersEqual (filtersSignal (setRange fr to s)) ?m" unfolding eq by (rule F(3) [OF n])
  show "resting (setRange fr to s)" unfolding eq by (rule F(5))
  show "browser (setRange fr to s) = replaceHashParams (filtersToQuery ?m) (browser s)"
    unfolding eq F(1) w(1) by (rule refl)
qed

text \<open>
  C27: \<^verbatim>\<open>setRange\<close>. An invalid range changes nothing. A valid one ends up in the range
  signal, in the filters and in the hash, everything else in the filters unchanged, although the
  range effect first puts the old range back; the page rests.
\<close>

theorem set_range_spec:
  assumes "resting s"
  shows "(if isValidIrstRange fr to then
            rangeSignal (setRange fr to s) = (fr, to)
            \<and> filtersEqual (filtersSignal (setRange fr to s)) ((filtersSignal s)\<lparr>from_day := fr, to_day := to\<rparr>)
            \<and> hash_params (setRange fr to s) = filtersToQuery ((filtersSignal s)\<lparr>from_day := fr, to_day := to\<rparr>)
          else setRange fr to s = s)
    \<and> resting (setRange fr to s)"
proof (cases "isValidIrstRange fr to")
  case True
  then show ?thesis using setRange_facts [OF assms True] by (simp add: replaceHashParams_fields)
next
  case False
  then show ?thesis using assms by (simp add: setRange_def)
qed

theorem set_range_spec_witness:
  "rangeSignal (setRange ''2026-01-01'' ''2026-01-08'' example_store) = (''2026-01-01'', ''2026-01-08'')"
proof -
  have "isValidIrstRange ''2026-01-01'' ''2026-01-08''" by code_simp
  then show ?thesis using set_range_spec [OF example_resting, of "''2026-01-01''" "''2026-01-08''"] by simp
qed

text \<open>
  \<^verbatim>\<open>clearFilters\<close>, in every order of the effects: the filters become the empty ones,
  the hash keeps the panel and loses all parameters, and the range signal keeps the window it had,
  so after clearing the two signals no longer agree on the dates.
\<close>

theorem clear_filters_spec:
  assumes "resting s" and "update_run EMPTY_FILTERS [] s t"
  shows "t = clearFilters s
    \<and> filtersEqual (filtersSignal t) EMPTY_FILTERS
    \<and> hashSignal (browser t) = \<lparr>panel = panel (hashSignal (browser s)), params = []\<rparr>
    \<and> rangeSignal t = rangeSignal s
    \<and> resting t"
proof -
  have q: "queryToFilters [] = EMPTY_FILTERS"
    by (simp add: queryToFilters_def KEYS_def SCOPES_def params_get_def decode_scope_def params_get_all_def EMPTY_FILTERS_def)
  have wf: "wf_filters EMPTY_FILTERS" by (simp add: wf_filters_def SCOPES_def EMPTY_FILTERS_def keys_def)
  have d: "date_range (queryToFilters []) = date_range EMPTY_FILTERS" by (simp add: q)
  have "update_run EMPTY_FILTERS [] s (clearFilters s)"
    using update_run_exists by (simp add: clearFilters_def Let_def)
  then have "t = clearFilters s" using update_run_unique [OF assms(1) d wf assms(2)] by simp
  moreover have "\<not> dated EMPTY_FILTERS" by (simp add: EMPTY_FILTERS_def isValidIrstRange_def IRST_DATE_RE_def date_shape_def)
  then have "rangeSignal t = rangeSignal s" using update_run_fields(3) [OF assms d wf] by simp
  moreover have "hashSignal (browser t) = \<lparr>panel = panel (hashSignal (browser s)), params = []\<rparr>"
    using update_run_fields(1) [OF assms d wf] by (simp add: replaceHashParams_fields)
  ultimately show ?thesis
    using update_run_filters [OF assms(1) d wf assms(2)] update_run_resting [OF assms(2) wf] q by simp
qed

theorem clear_filters_spec_witness:
  "filtersEqual (filtersSignal (clearFilters example_store)) EMPTY_FILTERS
   \<and> rangeSignal (clearFilters example_store) = rangeSignal example_store"
proof -
  have "update_run EMPTY_FILTERS [] example_store (clearFilters example_store)"
    using update_run_exists by (simp add: clearFilters_def Let_def)
  then show ?thesis using clear_filters_spec [OF example_resting] by blast
qed

section \<open>Property filters\<close>

lemma merge_scope: "merge [Scope sc m] f = set_scope sc m f"
  by (simp add: merge_def)

lemma wf_set_scope: "wf_filters f \<Longrightarrow> distinct (keys m) \<Longrightarrow> wf_filters (set_scope sc m f)"
  by (cases sc) (simp_all add: wf_filters_def SCOPES_def)

lemma normal_set_scope:
  "normal f \<Longrightarrow> list_all plain_name (keys m) \<Longrightarrow> normal (set_scope sc m f)"
  by (cases sc) (simp_all add: normal_def SCOPES_def)

lemma filters_equal_scope:
  assumes "filtersEqual a b" and "wf_filters a" and "wf_filters b"
  shows "map_of (get_scope sc a) = map_of (get_scope sc b)" and "get_key k a = get_key k b"
  using assms by (simp_all add: filtersEqual_iff)

lemma updated_scope:
  assumes "resting s" and "distinct (keys m)" and "list_all plain_name (keys m)"
  shows "map_of (get_scope sc' (filtersSignal (updateFilters [Scope sc m] s)))
           = (if sc' = sc then map_of m else map_of (get_scope sc' (filtersSignal s)))"
    and "get_key k (filtersSignal (updateFilters [Scope sc m] s)) = get_key k (filtersSignal s)"
    and "resting (updateFilters [Scope sc m] s)"
proof -
  let ?m = "set_scope sc m (filtersSignal s)"
  have wf: "wf_filters ?m" and n: "normal ?m"
    using wf_set_scope normal_set_scope resting_facts(2,3) [OF assms(1)] assms(2,3) by blast+
  note F = updateFilters_facts [OF assms(1), of "[Scope sc m]", unfolded merge_scope, OF wf]
  have wf': "wf_filters (filtersSignal (updateFilters [Scope sc m] s))"
    using resting_facts(3) [OF F(5)] .
  note E = filters_equal_scope [OF F(3) [OF n] wf' wf]
  show "map_of (get_scope sc' (filtersSignal (updateFilters [Scope sc m] s)))
           = (if sc' = sc then map_of m else map_of (get_scope sc' (filtersSignal s)))"
    by (simp add: E(1) get_set_scope)
  show "get_key k (filtersSignal (updateFilters [Scope sc m] s)) = get_key k (filtersSignal s)"
    by (simp add: E(2) get_key_set_scope)
  show "resting (updateFilters [Scope sc m] s)" by (rule F(5))
qed

lemma resting_names:
  "resting s \<Longrightarrow> distinct (keys (get_scope sc (filtersSignal s))) \<and> list_all plain_name (keys (get_scope sc (filtersSignal s)))"
  using resting_facts(2,3) [of s] by (simp add: normal_def wf_filters_def all_scopes)

text \<open>
  C28: the property chips. Adding a filter under a plain name makes exactly that entry of that scope
  the given value and changes no other filter; removing it takes exactly that entry away, so
  removing after adding an absent name restores the scope; an empty name is ignored.
\<close>

theorem prop_filter_spec:
  assumes "resting s" and "plain_name name"
  shows "map_of (get_scope sc' (filtersSignal (setPropFilter sc name v s)))
      = (if sc' = sc then (map_of (get_scope sc (filtersSignal s)))(name \<mapsto> v)
         else map_of (get_scope sc' (filtersSignal s)))
    \<and> map_of (get_scope sc' (filtersSignal (removePropFilter sc name s)))
      = (if sc' = sc then (map_of (get_scope sc (filtersSignal s)))(name := None)
         else map_of (get_scope sc' (filtersSignal s)))
    \<and> get_key k (filtersSignal (setPropFilter sc name v s)) = get_key k (filtersSignal s)
    \<and> get_key k (filtersSignal (removePropFilter sc name s)) = get_key k (filtersSignal s)
    \<and> resting (setPropFilter sc name v s) \<and> resting (removePropFilter sc name s)
    \<and> setPropFilter sc [] v s = s"
proof -
  let ?g = "get_scope sc (filtersSignal s)"
  have g: "distinct (keys ?g)" "list_all plain_name (keys ?g)" using resting_names [OF assms(1)] by auto
  have name: "name \<noteq> []" using assms(2) by (simp add: plain_name_def)
  have set1: "distinct (keys (obj_define name v ?g))" "list_all plain_name (keys (obj_define name v ?g))"
    using g assms(2) by (auto simp: distinct_obj_define list_all_iff set_keys_obj_define)
  have rem1: "distinct (keys (omap_delete name ?g))" "list_all plain_name (keys (omap_delete name ?g))"
    using g by (auto simp: distinct_omap_delete list_all_iff) (auto simp: keys_def omap_delete_def)
  show ?thesis
    using updated_scope [OF assms(1) set1] updated_scope [OF assms(1) rem1] name
    by (simp add: setPropFilter_def removePropFilter_def map_of_obj_define map_of_omap_delete)
qed

theorem prop_filter_spec_witness:
  "map_of (hitProps (filtersSignal (setPropFilter HitProps ''plan'' ''pro'' example_store))) ''plan'' = Some ''pro''"
proof -
  have "plain_name ''plan''" by (simp add: plain_name_def)
  from prop_filter_spec [OF example_resting this, of HitProps HitProps "''pro''"] show ?thesis by simp
qed

text \<open>
  a property name with a colon is not kept: after adding \<open>a:b\<close> with a value to a scope without
  other filters, the scope holds the name \<open>a\<close> with the value \<open>b:\<close> followed by the given one.
\<close>

theorem prop_filter_colon:
  assumes "resting s" and "get_scope sc (filtersSignal s) = []" and "plain_name a"
  shows "map_of (get_scope sc (filtersSignal (setPropFilter sc (a @ '':'' @ b) v s))) = [a \<mapsto> b @ '':'' @ v]"
proof -
  let ?m = "set_scope sc [(a @ '':'' @ b, v)] (filtersSignal s)"
  have a: "a \<noteq> []" "CHR '':'' \<notin> set a" "a \<noteq> ''__proto__''" using assms(3) by (simp_all add: plain_name_def)
  have wf: "wf_filters ?m" using wf_set_scope resting_facts(3) [OF assms(1)] by (simp add: keys_def)
  have "\<not> is_digit (CHR '':'')" by (simp add: is_digit_def)
  then have "array_index (a @ '':'' @ b) = None" by (simp add: array_index_def)
  then have eq: "setPropFilter sc (a @ '':'' @ b) v s = updateFilters [Scope sc [(a @ '':'' @ b, v)]] s"
    by (simp add: setPropFilter_def assms(2) obj_define_def keys_def)
  note F = updateFilters_facts [OF assms(1), of "[Scope sc [(a @ '':'' @ b, v)]]", unfolded merge_scope, OF wf]
  have wf': "wf_filters (filtersSignal (updateFilters [Scope sc [(a @ '':'' @ b, v)]] s))"
    using resting_facts(3) [OF F(5)] .
  have "map_of (get_scope sc (queryToFilters (filtersToQuery ?m))) = [a \<mapsto> b @ '':'' @ v]"
  proof -
    have "split_first (CHR '':'') (a @ CHR '':'' # b @ CHR '':'' # v) = Some (a, b @ CHR '':'' # v)"
      by (rule split_first_append [OF a(2)])
    with a show ?thesis
      by (simp add: read_back_scope decode_scope_def params_get_all_filtersToQuery [OF wf [simplified]] get_set_scope
          prop_param_def decode_entry_def obj_assign_def map_of_obj_define)
  qed
  then show ?thesis
    unfolding eq using filters_equal_scope(1) [OF F(2) wf'] queryToFilters_normal by simp
qed

theorem prop_filter_colon_witness:
  "map_of (hitProps (filtersSignal (setPropFilter HitProps ''utm:source'' ''x'' (boot 0 [])))) = [''utm'' \<mapsto> ''source:x'']"
proof -
  have "get_scope HitProps (filtersSignal (boot 0 [])) = []"
    by (simp add: boot_def boot_hash_def boot_filters_def parseHash_def parse_params_def read_back_scope Let_def
        decode_scope_def params_get_all_def del: get_scope.simps)
  moreover have "plain_name ''utm''" by (simp add: plain_name_def)
  ultimately show ?thesis
    using prop_filter_colon [OF boot_resting, of HitProps 0 "[]" "''utm''" "''source''" "''x''"] by simp
qed

section \<open>The page as a whole\<close>

text \<open>
  What the user can do to the store. A hand-made patch keeps the keys of property maps distinct, as
  every object of the language does.
\<close>

datatype store_event =
    Nav nav_event
  | Update patch
  | SetRange string string
  | SetProp scope string string
  | RemoveProp scope string
  | Toggle MetricId
  | Clear

fun wf_assignment :: "assignment \<Rightarrow> bool" where
  "wf_assignment (Key k v) = True"
| "wf_assignment (Scope s m) = distinct (keys m)"

fun wf_event :: "store_event \<Rightarrow> bool" where
  "wf_event (Update nxt) = list_all wf_assignment nxt"
| "wf_event e = True"

fun store_step :: "store_event \<Rightarrow> Store \<Rightarrow> Store" where
  "store_step (Nav e) s = settle (s\<lparr>browser := nav_step e (browser s)\<rparr>)"
| "store_step (Update nxt) s = updateFilters nxt s"
| "store_step (SetRange fr to) s = setRange fr to s"
| "store_step (SetProp sc name v) s = setPropFilter sc name v s"
| "store_step (RemoveProp sc name) s = removePropFilter sc name s"
| "store_step (Toggle m) s = toggleMetric m s"
| "store_step Clear s = clearFilters s"

inductive reachable :: "Store \<Rightarrow> bool" where
  reach_boot: "reachable (boot now hash)"
| reach_step: "reachable s \<Longrightarrow> wf_event e \<Longrightarrow> reachable (store_step e s)"

lemma wf_merge: "wf_filters f \<Longrightarrow> list_all wf_assignment nxt \<Longrightarrow> wf_filters (merge nxt f)"
proof (induction nxt arbitrary: f)
  case (Cons a nxt)
  have "wf_filters (apply_assignment a f)"
    using Cons.prems by (cases a) (auto simp: wf_filters_def all_scopes get_scope_set_key get_set_scope)
  with Cons show ?case by (simp add: merge_def)
qed (simp add: merge_def)

definition store_ok :: "Store \<Rightarrow> bool" where
  "store_ok s \<longleftrightarrow> resting s \<and> in_sync (browser s)"

lemma updateFilters_ok:
  assumes "store_ok s" and "list_all wf_assignment nxt" shows "store_ok (updateFilters nxt s)"
proof -
  have "wf_filters (merge nxt (filtersSignal s))"
    using wf_merge resting_facts(3) assms by (simp add: store_ok_def)
  then show ?thesis
    using updateFilters_facts [of s nxt] nav_step_in_sync [of "browser s" "Replace (filtersToQuery (merge nxt (filtersSignal s)))"] assms
    by (simp add: store_ok_def)
qed

lemma store_step_ok: "store_ok s \<Longrightarrow> wf_event e \<Longrightarrow> store_ok (store_step e s)"
proof (cases e)
  case (Nav n)
  assume ok: "store_ok s"
  then have "resting (settle (s\<lparr>browser := nav_step n (browser s)\<rparr>))"
    by (intro settle_resting) (simp add: store_ok_def resting_def)
  with ok Nav show ?thesis by (simp add: store_ok_def settle_def nav_step_in_sync)
next
  case (Update nxt)
  assume "store_ok s" "wf_event e"
  with Update show ?thesis by (simp add: updateFilters_ok)
next
  case (SetRange fr to)
  assume ok: "store_ok s"
  show ?thesis
  proof (cases "isValidIrstRange fr to")
    case True
    then show ?thesis
      using ok SetRange setRange_facts [of s fr to] nav_step_in_sync [of "browser s" "Replace (filtersToQuery ((filtersSignal s)\<lparr>from_day := fr, to_day := to\<rparr>))"]
      by (simp add: store_ok_def)
  next
    case False
    with ok SetRange show ?thesis by (simp add: setRange_def)
  qed
next
  case (SetProp sc name v)
  assume ok: "store_ok s"
  then have "distinct (keys (get_scope sc (filtersSignal s)))" using resting_names by (simp add: store_ok_def)
  with ok SetProp show ?thesis by (simp add: setPropFilter_def updateFilters_ok distinct_obj_define)
next
  case (RemoveProp sc name)
  assume ok: "store_ok s"
  then have "distinct (keys (get_scope sc (filtersSignal s)))" using resting_names by (simp add: store_ok_def)
  with ok RemoveProp show ?thesis by (simp add: removePropFilter_def updateFilters_ok distinct_omap_delete)
next
  case (Toggle m)
  assume "store_ok s"
  with Toggle show ?thesis by (simp add: toggleMetric_def updateFilters_ok split: option.splits)
next
  case Clear
  assume ok: "store_ok s"
  have run: "update_run EMPTY_FILTERS [] s (clearFilters s)"
    using update_run_exists by (simp add: clearFilters_def Let_def)
  have wf: "wf_filters EMPTY_FILTERS" by (simp add: wf_filters_def SCOPES_def EMPTY_FILTERS_def keys_def)
  have "browser (clearFilters s) = replaceHashParams [] (browser s)"
    by (simp add: clearFilters_def Let_def settle_def)
  with ok Clear nav_step_in_sync [of "browser s" "Replace []"] update_run_resting [OF run wf]
  show ?thesis by (simp add: store_ok_def)
qed

lemma reachable_ok: "reachable s \<Longrightarrow> store_ok s"
proof (induction rule: reachable.induct)
  case (reach_boot now hash)
  show ?case using boot_resting by (simp add: store_ok_def boot_def Let_def boot_hash_def in_sync_def)
next
  case (reach_step s e)
  then show ?case by (simp add: store_step_ok)
qed

lemma reopened_filters:
  assumes "store_ok s"
  shows "filtersEqual (filtersSignal (boot now (location_hash (browser s)))) (filtersSignal s)"
  using assms resting_facts(1) [of s]
  by (simp add: store_ok_def in_sync_def boot_def boot_filters_def boot_hash_def Let_def)

text \<open>
  C1: shared links. Whatever sequence of navigations, filter changes, date changes, metric toggles
  and clearings led to the page, opening its address in a fresh tab gives the same panel, the same
  parameters and equal filters, and the same range whenever the address carries one; in every
  reachable state the filters are the ones the address says.
\<close>

theorem shared_link:
  assumes "reachable s"
  shows "let s' = boot now (location_hash (browser s)) in
      hashSignal (browser s') = hashSignal (browser s)
      \<and> filtersEqual (filtersSignal s') (filtersSignal s)
      \<and> (dated (filtersSignal s) \<longrightarrow> rangeSignal s' = rangeSignal s)
      \<and> normal (filtersSignal s)"
proof -
  have r: "resting s" and i: "hashSignal (browser s) = parseHash (location_hash (browser s))"
    using reachable_ok [OF assms] by (simp_all add: store_ok_def in_sync_def)
  let ?s = "boot now (location_hash (browser s))"
  have h: "hashSignal (browser ?s) = hashSignal (browser s)" by (simp add: boot_def boot_hash_def i Let_def)
  have f: "filtersEqual (filtersSignal ?s) (filtersSignal s)"
    by (rule reopened_filters [OF reachable_ok [OF assms]])
  have "rangeSignal ?s = rangeSignal s" if "dated (filtersSignal s)"
  proof -
    have d: "date_range (filtersSignal ?s) = date_range (filtersSignal s)" using filtersEqual_dates [OF f] .
    then have "rangeSignal ?s = date_range (filtersSignal ?s)"
      using that resting_facts(4) [OF boot_resting, of now "location_hash (browser s)"]
      by (simp add: date_range_def)
    with d resting_facts(4) [OF r that] show ?thesis by (simp add: date_range_def)
  qed
  with h f resting_facts(2) [OF r] show ?thesis by (simp add: Let_def)
qed

theorem shared_link_witness:
  "let s = store_step (SetProp HitProps ''plan'' ''pro'') (boot 0 []) in
     filtersEqual (filtersSignal (boot 5 (location_hash (browser s)))) (filtersSignal s)"
proof -
  have "reachable (store_step (SetProp HitProps ''plan'' ''pro'') (boot 0 []))"
    by (intro reach_step reach_boot) simp
  from shared_link [OF this, of 5] show ?thesis by (simp add: Let_def)
qed

end
