(* ===== verification/Session.thy ===== *)
theory Session
  imports Filters
begin

text \<open>
  The signed-in session of the dashboard: the active site (\<^verbatim>\<open>state/site.ts\<close>), the
  two authentication paths (\<^verbatim>\<open>state/auth.ts\<close>), the application's gate
  (\<^verbatim>\<open>App.tsx\<close>, \<^verbatim>\<open>main.tsx\<close>), the read client
  (\<^verbatim>\<open>api/client.ts\<close>) and the realtime ticker (\<^verbatim>\<open>state/realtime.ts\<close>).
  A request and the handling of its answer are two steps, since anything can happen between them;
  the server's answer is an argument.
\<close>

section \<open>Requests and answers\<close>

record HttpRequest =
  rq_method :: string
  rq_url :: string
  rq_headers :: "(string, string) omap"
  rq_body :: "string option"
  rq_credentials :: bool

text \<open>What \<^verbatim>\<open>fetch\<close> settles with: a rejection, or a status and a body.\<close>

datatype answer = Rejected string | Answer int string

definition ok_status :: "int \<Rightarrow> bool" where
  "ok_status st \<longleftrightarrow> 200 \<le> st \<and> st \<le> 299"

section \<open>Persisted values\<close>

text \<open>
  Web storage is a map from keys to strings, or unavailable (\<open>None\<close>): then every access throws.
\<close>

type_synonym storage = "(string, string) omap option"

definition storage_set :: "string \<Rightarrow> string \<Rightarrow> storage \<Rightarrow> storage" where
  "storage_set k v st = map_option (omap_set k v) st"

definition storage_remove :: "string \<Rightarrow> storage \<Rightarrow> storage" where
  "storage_remove k st = map_option (omap_delete k) st"

definition storage_get :: "string \<Rightarrow> storage \<Rightarrow> string option" where
  "storage_get k st = (case st of None \<Rightarrow> None | Some m \<Rightarrow> map_of m k)"

text \<open>
  A value kept in a store under a key: writing it and reading it back, where the store is
  available, gives the value, and other keys are untouched.
\<close>

locale persisted =
  fixes put :: "'v \<Rightarrow> 's \<Rightarrow> 's" and get :: "'s \<Rightarrow> 'v option"
    and clear :: "'s \<Rightarrow> 's" and usable :: "'s \<Rightarrow> bool" and storable :: "'v \<Rightarrow> bool"
  assumes get_put: "usable s \<Longrightarrow> storable v \<Longrightarrow> get (put v s) = Some v"
    and get_clear: "usable s \<Longrightarrow> get (clear s) = None"
    and put_usable: "usable (put v s) = usable s"
    and clear_usable: "usable (clear s) = usable s"
begin

lemma last_put_wins:
  "usable s \<Longrightarrow> storable v \<Longrightarrow> get (put v (fold put vs s)) = Some v"
proof -
  have "usable (fold put vs s) = usable s" by (induction vs arbitrary: s) (simp_all add: put_usable)
  then show "usable s \<Longrightarrow> storable v \<Longrightarrow> get (put v (fold put vs s)) = Some v" by (simp add: get_put)
qed

lemma clear_after_puts: "usable s \<Longrightarrow> get (clear (fold put vs s)) = None"
proof -
  have "usable (fold put vs s) = usable s" by (induction vs arbitrary: s) (simp_all add: put_usable)
  then show "usable s \<Longrightarrow> get (clear (fold put vs s)) = None" by (simp add: get_clear)
qed

end

section \<open>The store\<close>

record Site =
  site_id :: rat
  site_hostname :: string
  site_enabled :: bool
  site_tz :: string
  site_currency :: string

record Session =
  siteSignal :: rat
  activeSiteSignal :: "Site option"
  sitesSignal :: "Site list"
  authSignal :: string
  userSignal :: "json option"
  authCheckedSignal :: bool
  sessionStorage :: storage

definition STORAGE_KEY :: string where
  "STORAGE_KEY = ''statnive.activeSiteId''"

text \<open>A stored site id: a positive finite Number.\<close>

definition read_site_id :: "storage \<Rightarrow> rat option" where
  "read_site_id st =
     (case storage_get STORAGE_KEY st of
        None \<Rightarrow> None
      | Some raw \<Rightarrow>
          if raw = [] then None
          else (case number_of_string raw of Fin n \<Rightarrow> if 0 < n then Some n else None | _ \<Rightarrow> None))"

definition bootSiteId :: "storage \<Rightarrow> rat" where
  "bootSiteId st = (case read_site_id st of None \<Rightarrow> 1 | Some n \<Rightarrow> n)"

definition persistActiveSite :: "rat \<Rightarrow> storage \<Rightarrow> storage" where
  "persistActiveSite i st = storage_set STORAGE_KEY (show_rat i) st"

definition loadPersistedSiteId :: "storage \<Rightarrow> rat option" where
  "loadPersistedSiteId st = read_site_id st"

text \<open>The effect of \<^verbatim>\<open>site.ts\<close>, run after every write of the active site.\<close>

definition site_effect :: "Session \<Rightarrow> Session" where
  "site_effect s =
     (case activeSiteSignal s of
        Some a \<Rightarrow> if site_id a \<noteq> siteSignal s then s\<lparr>siteSignal := site_id a\<rparr> else s
      | None \<Rightarrow> s)"

definition write_active_site :: "Site option \<Rightarrow> Session \<Rightarrow> Session" where
  "write_active_site a s = site_effect (s\<lparr>activeSiteSignal := a\<rparr>)"

text \<open>Positive integers are stored and read back exactly.\<close>

lemma utf8_no_digit:
  assumes "is_digit c" and "n < 2097152" and "n < 48 \<or> 57 < n"
  shows "\<not> prefix (utf8_char n) (c # s)" and "\<not> prefix (rev (utf8_char n)) (c # s)"
proof -
  have c: "48 \<le> (of_char c :: nat)" "(of_char c :: nat) \<le> 57"
    using assms(1) by (simp_all add: is_digit_def Let_def)
  have ne: "char_of k \<noteq> c" if "k < 256" "k < 48 \<or> 57 < k" for k :: nat
  proof
    assume "char_of k = c"
    then have "of_char c = k mod 256" by auto
    with that c show False by simp
  qed
  consider "n < 128" | "128 \<le> n" "n < 2048" | "2048 \<le> n" "n < 65536" | "65536 \<le> n" by linarith
  then have "hd (utf8_char n) \<noteq> c \<and> last (utf8_char n) \<noteq> c"
  proof cases
    case 1 with assms(3) show ?thesis using ne [of n] by (simp add: utf8_char_def)
  next
    case 2
    then have "n div 64 < 64" by (simp add: less_mult_imp_div_less)
    with 2 show ?thesis using ne [of "192 + n div 64"] ne [of "128 + n mod 64"] by (simp add: utf8_char_def)
  next
    case 3
    then have "n div 4096 < 32" by (simp add: less_mult_imp_div_less)
    with 3 show ?thesis using ne [of "224 + n div 4096"] ne [of "128 + n mod 64"] by (simp add: utf8_char_def)
  next
    case 4
    then have "n div 262144 < 16" using assms(2) by (simp add: less_mult_imp_div_less)
    with 4 show ?thesis using ne [of "240 + n div 262144"] ne [of "128 + n mod 64"] by (simp add: utf8_char_def)
  qed
  moreover have "utf8_char n \<noteq> []" by (simp add: utf8_char_def)
  moreover have "w \<noteq> [] \<Longrightarrow> hd w \<noteq> c \<Longrightarrow> \<not> prefix w (c # s)" for w by (cases w) auto
  ultimately show "\<not> prefix (utf8_char n) (c # s)" and "\<not> prefix (rev (utf8_char n)) (c # s)"
    by (auto simp: hd_rev)
qed

lemma strip_one_None: "list_all (\<lambda>w. \<not> prefix w s) ws \<Longrightarrow> strip_one ws s = None"
  by (induction ws) auto

lemma strip_start_plain: "list_all (\<lambda>w. \<not> prefix w s) ws \<Longrightarrow> strip_start ws s = s"
  by (cases "length s") (simp_all add: strip_start_def strip_one_None)

lemma trim_digits:
  assumes "s \<noteq> []" and "\<forall>c \<in> set s. is_digit c" shows "js_trim s = s"
proof -
  have codes: "list_all (\<lambda>n. n < 2097152 \<and> (n < 48 \<or> 57 < n))
     ([9, 10, 11, 12, 13, 32, 160, 5760] @ [8192..<8203] @ [8232, 8233, 8239, 8287, 12288, 65279])"
    by (simp add: list_all_iff)
  have "list_all (\<lambda>w. \<not> prefix w (c # t)) whitespace \<and> list_all (\<lambda>w. \<not> prefix w (c # t)) (map rev whitespace)"
    if "is_digit c" for c t
    using codes utf8_no_digit [OF that] unfolding whitespace_def list_all_iff by auto
  then have plain: "strip_start whitespace u = u" "strip_start (map rev whitespace) u = u"
    if "u \<noteq> []" "is_digit (hd u)" for u
    using that strip_start_plain by (metis hd_Cons_tl)+
  have "is_digit (hd s)" "is_digit (hd (rev s))" using assms by (auto simp: hd_rev)
  then show ?thesis using plain [of s] plain [of "rev s"] assms(1) by (simp add: js_trim_def)
qed

lemma number_of_nonneg:
  assumes "0 \<le> n" and "n \<le> 2 ^ 53" shows "number_of_string (show_nonneg n) = Fin (of_int n)"
proof -
  let ?s = "show_nonneg n"
  have dig: "\<forall>c \<in> set ?s. is_digit c" using show_nonneg_digits [OF assms(1)] by blast
  then have trim: "js_trim ?s = ?s" by (intro trim_digits) simp_all
  have all: "digits_of ?s = ?s" "after_digits ?s = []"
    using digits_of_append [of ?s "[]"] dig by auto
  obtain c t where ct: "?s = c # t" "is_digit c" using dig by (cases ?s) auto
  have plain: "c \<noteq> CHR ''-''" "c \<noteq> CHR ''+''" "c \<noteq> CHR ''I''" using ct(2) by (auto simp: is_digit_def)
  have second: "\<forall>d \<in> set t. is_digit d" using dig ct(1) by simp
  have no_radix: "\<not> prefix ''0x'' ?s" "\<not> prefix ''0X'' ?s" "\<not> prefix ''0o'' ?s" "\<not> prefix ''0O'' ?s"
    "\<not> prefix ''0b'' ?s" "\<not> prefix ''0B'' ?s"
    using second unfolding ct(1) by (cases t; auto simp: is_digit_def)+
  have "decimal_value ?s [] 0 = of_int n"
    using assms(1) by (simp add: decimal_value_def pow10_def read_show_nonneg) (simp add: read_nonneg_def)
  then have u: "unsigned_literal ?s = Some (of_int n)"
    by (simp add: unsigned_literal_def Let_def all read_exponent_def)
  have "to_number (of_int n) = Fin (of_int n)" using assms by (simp add: to_number_of_int)
  moreover have "?s \<noteq> ''Infinity''" using plain ct by auto
  ultimately have "signed_literal ?s = Fin (of_int n)"
    using u plain ct by (simp add: signed_literal_def)
  then show ?thesis using no_radix by (simp add: number_of_string_def trim)
qed

definition small_id :: "rat \<Rightarrow> bool" where
  "small_id v \<longleftrightarrow> of_int \<lfloor>v\<rfloor> = v \<and> 0 < \<lfloor>v\<rfloor> \<and> \<lfloor>v\<rfloor> < 2 ^ 53"

lemma read_persisted:
  assumes "st \<noteq> None" and "small_id v" shows "read_site_id (persistActiveSite v st) = Some v"
proof -
  obtain m where st: "st = Some m" using assms(1) by auto
  have v: "of_int \<lfloor>v\<rfloor> = v" "0 < \<lfloor>v\<rfloor>" "\<lfloor>v\<rfloor> < 2 ^ 53" using assms(2) by (simp_all add: small_id_def)
  then have t: "show_rat v = show_nonneg \<lfloor>v\<rfloor>" by (simp add: show_rat_def show_int_def)
  have "number_of_string (show_nonneg \<lfloor>v\<rfloor>) = Fin v" using number_of_nonneg [of "\<lfloor>v\<rfloor>"] v by simp
  moreover have "0 < v" using v(1,2) by (metis of_int_0_less_iff)
  ultimately show ?thesis
    by (simp add: read_site_id_def persistActiveSite_def storage_get_def storage_set_def st map_of_omap_set t)
qed

interpretation site_storage: persisted persistActiveSite loadPersistedSiteId
    "storage_remove STORAGE_KEY" "\<lambda>st. st \<noteq> None" small_id
proof
  show "loadPersistedSiteId (persistActiveSite v st) = Some v" if "st \<noteq> None" "small_id v" for st v
    using read_persisted [OF that] by (simp add: loadPersistedSiteId_def)
  show "loadPersistedSiteId (storage_remove STORAGE_KEY st) = None" if "st \<noteq> None" for st
    using that by (auto simp: loadPersistedSiteId_def read_site_id_def storage_get_def storage_remove_def map_of_omap_delete)
qed (auto simp: persistActiveSite_def storage_set_def storage_remove_def)

text \<open>
  the remembered site. Where session storage works, the last of any number of positive integer
  ids that were persisted is the one the next page load starts with; where it does not, or holds
  nothing or no positive number, the load starts with site 1 and nothing is thrown.
\<close>

theorem persisted_site_spec:
  "(st \<noteq> None \<and> small_id v \<longrightarrow> bootSiteId (persistActiveSite v (fold persistActiveSite vs st)) = v)
   \<and> bootSiteId None = 1
   \<and> bootSiteId (persistActiveSite v None) = 1
   \<and> 0 < bootSiteId st"
proof -
  have "st \<noteq> None \<Longrightarrow> small_id v \<Longrightarrow> read_site_id (persistActiveSite v (fold persistActiveSite vs st)) = Some v"
    using site_storage.last_put_wins [of st v vs] by (simp add: loadPersistedSiteId_def)
  moreover have "read_site_id st = Some n \<Longrightarrow> 0 < n" for n
    by (auto simp: read_site_id_def split: option.splits number.splits if_splits)
  ultimately show ?thesis
    by (auto simp: bootSiteId_def read_site_id_def [of None] storage_get_def persistActiveSite_def [of _ None]
        storage_set_def split: option.splits)
qed

theorem persisted_site_spec_witness: "bootSiteId (persistActiveSite 42 (Some [])) = 42"
proof -
  have "small_id 42" by (simp add: small_id_def)
  then show ?thesis using persisted_site_spec [of "Some []" 42 "[]"] by simp
qed

section \<open>Authentication\<close>

definition PLACEHOLDER :: string where
  "PLACEHOLDER = ''STATNIVE_BEARER_PLACEHOLDER''"

text \<open>The content attribute of the meta element, when there is one.\<close>

definition bootstrapBearer :: "string option \<Rightarrow> string" where
  "bootstrapBearer meta =
     (let v = (case meta of Some c \<Rightarrow> c | None \<Rightarrow> []) in if v = PLACEHOLDER then [] else v)"

definition bearer_headers :: "string \<Rightarrow> (string, string) omap" where
  "bearer_headers token =
     (let headers = [(''Accept'', ''application/json'')] in
      if token \<noteq> [] then omap_set ''Authorization'' (''Bearer '' @ token) headers else headers)"

definition loadCurrentUser_request :: "Session \<Rightarrow> HttpRequest" where
  "loadCurrentUser_request s =
     \<lparr>rq_method = ''GET'', rq_url = ''/api/user'', rq_headers = bearer_headers (authSignal s),
      rq_body = None, rq_credentials = True\<rparr>"

text \<open>A body is any JSON value; the value null is the absent user.\<close>

definition user_of_json :: "json \<Rightarrow> json option" where
  "user_of_json j = (if j = JNull then None else Some j)"

definition loadCurrentUser_answer :: "answer \<Rightarrow> Session \<Rightarrow> Session" where
  "loadCurrentUser_answer a s =
     (let s1 =
        (case a of
           Rejected _ \<Rightarrow> s\<lparr>userSignal := None\<rparr>
         | Answer st body \<Rightarrow>
             if st = 401 then s\<lparr>userSignal := None\<rparr>
             else if \<not> ok_status st then s\<lparr>userSignal := None\<rparr>
             else (case json_parse body of
                     None \<Rightarrow> s\<lparr>userSignal := None\<rparr>
                   | Some j \<Rightarrow> s\<lparr>userSignal := user_of_json j\<rparr>))
      in s1\<lparr>authCheckedSignal := True\<rparr>)"

definition logout_request :: HttpRequest where
  "logout_request =
     \<lparr>rq_method = ''POST'', rq_url = ''/api/logout'', rq_headers = [], rq_body = None, rq_credentials = True\<rparr>"

definition logout_answer :: "answer \<Rightarrow> Session \<Rightarrow> Session" where
  "logout_answer a s = s\<lparr>userSignal := None, authSignal := []\<rparr>"

section \<open>The application gate\<close>

text \<open>Module load of the signals, then the two paths of \<^verbatim>\<open>main.tsx\<close>.\<close>

definition boot_session :: "string option \<Rightarrow> storage \<Rightarrow> Session" where
  "boot_session meta st =
     \<lparr>siteSignal = bootSiteId st, activeSiteSignal = None, sitesSignal = [],
      authSignal = bootstrapBearer meta, userSignal = None, authCheckedSignal = False,
      sessionStorage = st\<rparr>"

definition start :: "Session \<Rightarrow> Session \<times> HttpRequest list" where
  "start s =
     (if authSignal s \<noteq> [] then (s\<lparr>authCheckedSignal := True\<rparr>, [])
      else (s, [loadCurrentUser_request s]))"

datatype screen = Blank | LoginScreen | Dashboard

definition App :: "Session \<Rightarrow> screen" where
  "App s =
     (if \<not> authCheckedSignal s then Blank
      else let authenticated = userSignal s \<noteq> None \<or> authSignal s \<noteq> [] in
        if \<not> authenticated then LoginScreen else Dashboard)"

section \<open>The read client\<close>

definition isSiteScopedPath :: "string \<Rightarrow> bool" where
  "isSiteScopedPath pth \<longleftrightarrow> prefix ''/api/stats/'' pth \<or> pth = ''/api/realtime/visitors''"

definition clearStaleActiveSite :: "Session \<Rightarrow> Session" where
  "clearStaleActiveSite s =
     (let s1 = s\<lparr>sessionStorage := storage_remove STORAGE_KEY (sessionStorage s)\<rparr>;
          s2 = (if activeSiteSignal s1 \<noteq> None then write_active_site None s1 else s1)
      in if length (sitesSignal s2) \<noteq> 0 then s2\<lparr>sitesSignal := []\<rparr> else s2)"

text \<open>
  The query of a request: the site, the filters whose name the explicit parameters leave empty, then
  the explicit parameters. The paths the panels pass have no query of their own.
\<close>

definition apiGet_query :: "rat \<Rightarrow> Filters \<Rightarrow> props \<Rightarrow> params" where
  "apiGet_query site f explicit =
     (let q0 = params_set ''site'' (show_rat site) [];
          q1 = foldl (\<lambda>q (k, v). case map_of explicit k of
                        Some w \<Rightarrow> if w \<noteq> [] then q else params_append k v q
                      | None \<Rightarrow> params_append k v q) q0 (filtersToQuery f)
      in foldl (\<lambda>q (k, v). params_set k v q) q1 explicit)"

definition apiGet_request :: "string \<Rightarrow> Session \<Rightarrow> Filters \<Rightarrow> string \<Rightarrow> props \<Rightarrow> HttpRequest" where
  "apiGet_request origin s f pth explicit =
     \<lparr>rq_method = ''GET'',
      rq_url = origin @ pth @ ''?'' @ params_to_string (apiGet_query (siteSignal s) f explicit),
      rq_headers = bearer_headers (authSignal s), rq_body = None, rq_credentials = True\<rparr>"

datatype 'a result = Ok 'a | Throw string

definition apiGet_answer :: "string \<Rightarrow> answer \<Rightarrow> Session \<Rightarrow> json result \<times> Session" where
  "apiGet_answer pth a s =
     (case a of
        Rejected e \<Rightarrow> (Throw e, s)
      | Answer st body \<Rightarrow>
          (let s1 = (if st = 403 \<and> isSiteScopedPath pth then clearStaleActiveSite s else s) in
           if \<not> ok_status st then (Throw (''apiGet '' @ pth @ '': HTTP '' @ show_int st), s1)
           else (case json_parse body of
                   Some j \<Rightarrow> (Ok j, s1)
                 | None \<Rightarrow> (Throw ''SyntaxError'', s1))))"

section \<open>What a request carries\<close>

lemma get_all_params_set:
  "params_get_all k (params_set k' v q) = (if k = k' then [v] else params_get_all k q)"
proof (induction q)
  case (Cons x q)
  have "params_get_all k (filter (\<lambda>(k'', _). k'' \<noteq> k') q) = (if k = k' then [] else params_get_all k q)"
    by (induction q) (auto simp: params_get_all_def)
  with Cons show ?case by (cases x) (auto simp: params_get_all_def)
qed (simp add: params_get_all_def)

lemma get_all_set_fold:
  "distinct (keys m) \<Longrightarrow> params_get_all k (foldl (\<lambda>q (k, v). params_set k v q) q m) =
     (case map_of m k of Some v \<Rightarrow> [v] | None \<Rightarrow> params_get_all k q)"
proof (induction m arbitrary: q)
  case (Cons x m)
  obtain k' v where x: "x = (k', v)" by (cases x)
  have "map_of m k' = None" using Cons.prems by (simp add: x keys_def map_of_eq_None_iff)
  moreover have "distinct (keys m)" using Cons.prems by (simp add: keys_def)
  ultimately show ?case
    using Cons.IH [of "params_set k' v q"] by (auto simp: x get_all_params_set split: option.split)
qed simp

lemma get_all_filters_fold:
  "map_of explicit k = None \<Longrightarrow>
     params_get_all k (foldl (\<lambda>q (k, v). case map_of explicit k of
                        Some w \<Rightarrow> if w \<noteq> [] then q else params_append k v q
                      | None \<Rightarrow> params_append k v q) q ps)
     = params_get_all k q @ params_get_all k ps"
proof (induction ps arbitrary: q)
  case (Cons x ps)
  obtain k' v where x: "x = (k', v)" by (cases x)
  show ?case
  proof (cases "k' = k")
    case True
    then show ?thesis
      using Cons.IH [of "params_append k v q"] Cons.prems
      by (simp add: x params_append_def params_get_all_append) (simp add: params_get_all_def)
  next
    case False
    then have skip: "params_get_all k (x # ps) = params_get_all k ps" by (simp add: x params_get_all_def)
    have app: "params_get_all k (params_append k' v q) = params_get_all k q" using False
      by (simp add: params_append_def params_get_all_def)
    show ?thesis
      using Cons.IH [of q] Cons.IH [of "params_append k' v q"] Cons.prems
      by (auto simp: x skip [unfolded x] app split: option.split)
  qed
qed (simp add: params_get_all_def)

text \<open>
  C33: the query of every read. Each explicit parameter appears exactly once with its value and wins
  over a filter of the same name; without one, the site appears exactly once as the active site id
  and every other name carries exactly the values the filters write for it, in order; and the
  server decodes the query to this list.
\<close>

theorem api_get_query_spec:
  assumes "distinct (keys explicit)"
  shows "params_get_all k (apiGet_query site f explicit) =
      (case map_of explicit k of
         Some v \<Rightarrow> [v]
       | None \<Rightarrow> (if k = ''site'' then [show_rat site] else []) @ params_get_all k (filtersToQuery f))
    \<and> parse_params (params_to_string (apiGet_query site f explicit)) = apiGet_query site f explicit"
proof (cases "map_of explicit k")
  case None
  have "params_get_all k (params_set ''site'' (show_rat site) []) = (if k = ''site'' then [show_rat site] else [])"
    by (simp add: params_get_all_def)
  with None show ?thesis
    by (simp add: apiGet_query_def get_all_set_fold [OF assms] get_all_filters_fold parse_params_to_string)
next
  case (Some v)
  then show ?thesis by (simp add: apiGet_query_def get_all_set_fold [OF assms] parse_params_to_string)
qed

theorem api_get_query_spec_witness:
  "params_get_all ''from'' (apiGet_query 7 EMPTY_FILTERS [(''from'', ''2026-01-01'')]) = [''2026-01-01'']"
  using api_get_query_spec [of "[(''from'', ''2026-01-01'')]" "''from''" 7 EMPTY_FILTERS] by (simp add: keys_def)

lemma clearStale_fields:
  "activeSiteSignal (clearStaleActiveSite s) = None"
  "sitesSignal (clearStaleActiveSite s) = []"
  "sessionStorage (clearStaleActiveSite s) = storage_remove STORAGE_KEY (sessionStorage s)"
  "siteSignal (clearStaleActiveSite s) = siteSignal s"
  "authSignal (clearStaleActiveSite s) = authSignal s"
  "userSignal (clearStaleActiveSite s) = userSignal s"
  "authCheckedSignal (clearStaleActiveSite s) = authCheckedSignal s"
  by (auto simp: clearStaleActiveSite_def write_active_site_def site_effect_def Let_def split: option.splits)

lemma storage_remove_idem: "storage_remove k (storage_remove k st) = storage_remove k st"
  by (cases st) (simp_all add: storage_remove_def omap_delete_def)

text \<open>
  C34: the recovery from a revoked grant. Only a 403 on a site-scoped path clears the selection: the
  remembered id, the active site and the site list; the id the next requests carry, the token and
  the user stay; any other answer leaves the session alone. A storm of such answers has the effect
  of one. Every failing status is reported to the caller with its path.
\<close>

theorem stale_site_recovery:
  "snd (apiGet_answer pth a s) =
      (case a of Answer st _ \<Rightarrow> if st = 403 \<and> isSiteScopedPath pth then clearStaleActiveSite s else s | Rejected _ \<Rightarrow> s)
   \<and> activeSiteSignal (clearStaleActiveSite s) = None \<and> sitesSignal (clearStaleActiveSite s) = []
   \<and> read_site_id (sessionStorage (clearStaleActiveSite s)) = None
   \<and> siteSignal (clearStaleActiveSite s) = siteSignal s \<and> authSignal (clearStaleActiveSite s) = authSignal s
   \<and> userSignal (clearStaleActiveSite s) = userSignal s
   \<and> (clearStaleActiveSite ^^ Suc n) s = clearStaleActiveSite s
   \<and> (case a of Answer st _ \<Rightarrow> ok_status st \<or>
        fst (apiGet_answer pth a s) = Throw (''apiGet '' @ pth @ '': HTTP '' @ show_int st) | Rejected _ \<Rightarrow> True)"
proof -
  have idem: "clearStaleActiveSite (clearStaleActiveSite t) = clearStaleActiveSite t" for t
    by (intro Session.equality) (simp_all add: clearStale_fields storage_remove_idem)
  have "(clearStaleActiveSite ^^ Suc n) s = clearStaleActiveSite s"
    by (induction n) (simp_all add: idem)
  moreover have "read_site_id (sessionStorage (clearStaleActiveSite s)) = None"
    by (cases "sessionStorage s")
       (simp_all add: clearStale_fields read_site_id_def storage_get_def storage_remove_def map_of_omap_delete)
  ultimately show ?thesis
    by (cases a) (auto simp: apiGet_answer_def Let_def clearStale_fields split: option.splits)
qed

section \<open>Who sees the dashboard\<close>

text \<open>The events that touch the gate: answers to the profile request, logouts, successful logins.\<close>

datatype auth_event = Profile answer | Logged_out answer | Login_accepted

fun auth_step :: "auth_event \<Rightarrow> Session \<Rightarrow> Session" where
  "auth_step (Profile a) s = loadCurrentUser_answer a s"
| "auth_step (Logged_out a) s = logout_answer a s"
| "auth_step Login_accepted s = s\<lparr>authSignal := []\<rparr>"

text \<open>A profile answer that grants: a success status with a JSON body that is not null.\<close>

fun grants :: "auth_event \<Rightarrow> bool" where
  "grants (Profile (Answer st body)) = (ok_status st \<and> json_parse body \<noteq> None \<and> json_parse body \<noteq> Some JNull)"
| "grants e = False"

fun keeps_user :: "auth_event \<Rightarrow> bool" where
  "keeps_user Login_accepted = True"
| "keeps_user e = grants e"

fun keeps_token :: "auth_event \<Rightarrow> bool" where
  "keeps_token (Profile a) = True"
| "keeps_token e = False"

lemma user_after:
  "userSignal (auth_step e s) \<noteq> None \<longleftrightarrow> grants e \<or> e = Login_accepted \<and> userSignal s \<noteq> None"
proof (cases e)
  case (Profile a)
  have "ok_status st \<Longrightarrow> st \<noteq> 401" for st by (auto simp: ok_status_def)
  then show ?thesis
    by (cases a) (auto simp: Profile loadCurrentUser_answer_def Let_def user_of_json_def split: option.splits)
qed (simp_all add: logout_answer_def)

lemma token_after: "authSignal (auth_step e s) = (if keeps_token e then authSignal s else [])"
proof (cases e)
  case (Profile a)
  then show ?thesis by (cases a) (auto simp: loadCurrentUser_answer_def Let_def split: option.splits)
qed (simp_all add: logout_answer_def)

lemma user_invariant:
  assumes "userSignal s = None" and "userSignal (fold auth_step es s) \<noteq> None"
  shows "\<exists>pre e post. es = pre @ e # post \<and> grants e \<and> list_all keeps_user post"
  using assms(2)
proof (induction es rule: rev_induct)
  case Nil
  with assms(1) show ?case by simp
next
  case (snoc e es)
  show ?case
  proof (cases "grants e")
    case True
    then show ?thesis by (intro exI [of _ es] exI [of _ e] exI [of _ "[]"]) simp
  next
    case False
    have "userSignal (auth_step e (fold auth_step es s)) \<noteq> None" using snoc.prems by (simp del: not_None_eq)
    with False have e: "e = Login_accepted" and u: "userSignal (fold auth_step es s) \<noteq> None"
      using user_after [of e "fold auth_step es s"] by (simp_all del: not_None_eq)
    from snoc.IH [OF u] obtain pre e' post
      where "es = pre @ e' # post" "grants e'" "list_all keeps_user post" by blast
    then show ?thesis by (intro exI [of _ pre] exI [of _ e'] exI [of _ "post @ [e]"]) (simp add: e)
  qed
qed

lemma token_invariant:
  "authSignal (fold auth_step es s) \<noteq> [] \<Longrightarrow> authSignal s \<noteq> [] \<and> list_all keeps_token es"
proof (induction es arbitrary: s)
  case (Cons e es)
  have "authSignal (fold auth_step es (auth_step e s)) \<noteq> []" using Cons.prems by simp
  from Cons.IH [OF this] show ?case by (simp add: token_after split: if_splits)
qed simp

text \<open>
  C32: the gate. Whatever the order of profile answers, logins and logouts after a page load, the
  dashboard is shown only while a token the page was served with has not been dropped by a login or
  logout, or after a profile answer with a success status and a JSON body other than null that no
  later failing answer and no logout has revoked.
\<close>

theorem auth_gate:
  assumes "App (fold auth_step es (fst (start (boot_session meta st)))) = Dashboard"
  shows "(bootstrapBearer meta \<noteq> [] \<and> list_all keeps_token es)
    \<or> (\<exists>pre e post. es = pre @ e # post \<and> grants e \<and> list_all keeps_user post)"
proof -
  let ?s = "fst (start (boot_session meta st))"
  have none: "userSignal ?s = None" and tok: "authSignal ?s = bootstrapBearer meta"
    by (simp_all add: start_def boot_session_def)
  have "userSignal (fold auth_step es ?s) \<noteq> None \<or> authSignal (fold auth_step es ?s) \<noteq> []"
    using assms by (auto simp: App_def Let_def split: if_splits)
  then show ?thesis
    using user_invariant [OF none] token_invariant [of es ?s] tok by auto
qed

theorem auth_gate_witness:
  "App (fold auth_step [Profile (Answer 200 ''1'')] (fst (start (boot_session None None)))) = Dashboard
   \<and> (\<exists>pre e post. [Profile (Answer 200 ''1'')] = pre @ e # post \<and> grants e \<and> list_all keeps_user post)"
proof -
  have "json_parse ''1'' = Some (JNum 1)"
    using json_parse_stringify [of "JNum 1"] by (simp add: show_rat_def show_int_def show_nonneg.simps digit_def)
  then have d: "App (fold auth_step [Profile (Answer 200 ''1'')] (fst (start (boot_session None None)))) = Dashboard"
    by (simp add: App_def Let_def start_def boot_session_def bootstrapBearer_def PLACEHOLDER_def
        loadCurrentUser_answer_def ok_status_def user_of_json_def)
  from auth_gate [OF d] show ?thesis using d by (simp add: bootstrapBearer_def)
qed

section \<open>The realtime ticker\<close>

text \<open>
  The ticks, the handle the module holds, and the timers the browser has running; new timers get
  fresh ids.
\<close>

record Ticker =
  realtimeTickSignal :: int
  intervalHandle :: "nat option"
  running_timers :: "nat list"
  next_timer :: nat

definition REALTIME_INTERVAL_MS :: int where
  "REALTIME_INTERVAL_MS = 10000"

definition tick :: "Ticker \<Rightarrow> Ticker" where
  "tick t = t\<lparr>realtimeTickSignal := realtimeTickSignal t + 1\<rparr>"

definition start_timer :: "Ticker \<Rightarrow> Ticker" where
  "start_timer t =
     (if intervalHandle t \<noteq> None then t
      else t\<lparr>intervalHandle := Some (next_timer t), running_timers := next_timer t # running_timers t,
             next_timer := Suc (next_timer t)\<rparr>)"

definition stop_timer :: "Ticker \<Rightarrow> Ticker" where
  "stop_timer t =
     (case intervalHandle t of
        None \<Rightarrow> t
      | Some h \<Rightarrow> t\<lparr>running_timers := filter (\<lambda>i. i \<noteq> h) (running_timers t), intervalHandle := None\<rparr>)"

definition boot_ticker :: "bool \<Rightarrow> Ticker" where
  "boot_ticker hidden =
     (let t = \<lparr>realtimeTickSignal = 0, intervalHandle = None, running_timers = [], next_timer = 0\<rparr>
      in if \<not> hidden then start_timer t else t)"

definition visibility_change :: "bool \<Rightarrow> Ticker \<Rightarrow> Ticker" where
  "visibility_change hidden t = (if hidden then stop_timer t else start_timer (tick t))"

text \<open>A visibility event with the new value, or a timer of the browser going off.\<close>

datatype ticker_event = Visibility bool | Fire nat

fun ticker_step :: "ticker_event \<Rightarrow> Ticker \<Rightarrow> Ticker" where
  "ticker_step (Visibility hidden) t = visibility_change hidden t"
| "ticker_step (Fire i) t = (if i \<in> set (running_timers t) then tick t else t)"

fun hidden_after :: "bool \<Rightarrow> ticker_event list \<Rightarrow> bool" where
  "hidden_after h [] = h"
| "hidden_after h (Visibility h' # es) = hidden_after h' es"
| "hidden_after h (Fire i # es) = hidden_after h es"

definition ticker_ok :: "bool \<Rightarrow> Ticker \<Rightarrow> bool" where
  "ticker_ok hidden t \<longleftrightarrow>
     running_timers t = (case intervalHandle t of None \<Rightarrow> [] | Some h \<Rightarrow> [h])
     \<and> (intervalHandle t = None \<longleftrightarrow> hidden)"

lemma ticker_step_ok:
  "ticker_ok hidden t \<Longrightarrow>
     ticker_ok (case e of Visibility h \<Rightarrow> h | Fire _ \<Rightarrow> hidden) (ticker_step e t)
     \<and> realtimeTickSignal t \<le> realtimeTickSignal (ticker_step e t)"
  by (cases e)
     (auto simp: ticker_ok_def visibility_change_def start_timer_def stop_timer_def tick_def split: option.splits)

lemma ticker_run_ok:
  "ticker_ok hidden t \<Longrightarrow>
     ticker_ok (hidden_after hidden es) (fold ticker_step es t)
     \<and> realtimeTickSignal t \<le> realtimeTickSignal (fold ticker_step es t)"
proof (induction es arbitrary: hidden t)
  case (Cons e es)
  note step = ticker_step_ok [OF Cons.prems, of e]
  from Cons.IH [OF step [THEN conjunct1]] step show ?case by (cases e) auto
qed simp

text \<open>
  the realtime ticker. After any sequence of visibility changes and timer callbacks exactly one
  interval is running while the page is visible and none while it is hidden, however often an event
  repeats; and the tick count never decreases.
\<close>

theorem realtime_single_timer:
  "(let t = fold ticker_step es (boot_ticker hidden) in
      length (running_timers t) = (if hidden_after hidden es then 0 else 1)
      \<and> 0 \<le> realtimeTickSignal t)"
proof -
  have ok: "ticker_ok hidden (boot_ticker hidden)" and z: "realtimeTickSignal (boot_ticker hidden) = 0"
    by (simp_all add: ticker_ok_def boot_ticker_def start_timer_def Let_def)
  from ticker_run_ok [OF ok, of es] z show ?thesis
    by (auto simp: ticker_ok_def Let_def split: option.splits)
qed

end
