(* ===== verification/AdminApi.thy ===== *)
theory AdminApi
  imports Session Field
begin

text \<open>
  The administration client: the closed sets of \<^verbatim>\<open>api/admin.ts\<close>, its
  \<^verbatim>\<open>request\<close> function as a request and a handler of the answer, one endpoint per
  exported function, and the token endpoints of \<^verbatim>\<open>api/mcp.ts\<close>, which reuse it.
\<close>

section \<open>Jurisdictions and consent modes\<close>

datatype Jurisdiction = DE | FR | IT | ES | NL | BE | IE | UK | OTHER_EU | OTHER_NON_EU | IR

text \<open>The string that is the value in the source.\<close>

fun jurisdiction_code :: "Jurisdiction \<Rightarrow> string" where
  "jurisdiction_code DE = ''DE''"
| "jurisdiction_code FR = ''FR''"
| "jurisdiction_code IT = ''IT''"
| "jurisdiction_code ES = ''ES''"
| "jurisdiction_code NL = ''NL''"
| "jurisdiction_code BE = ''BE''"
| "jurisdiction_code IE = ''IE''"
| "jurisdiction_code UK = ''UK''"
| "jurisdiction_code OTHER_EU = ''OTHER-EU''"
| "jurisdiction_code OTHER_NON_EU = ''OTHER-NON-EU''"
| "jurisdiction_code IR = ''IR''"

datatype ConsentMode = Permissive | Consent_free | Consent_required | Hybrid

fun consent_code :: "ConsentMode \<Rightarrow> string" where
  "consent_code Permissive = ''permissive''"
| "consent_code Consent_free = ''consent-free''"
| "consent_code Consent_required = ''consent-required''"
| "consent_code Hybrid = ''hybrid''"

fun jurisdictionLabel :: "Jurisdiction \<Rightarrow> string" where
  "jurisdictionLabel DE = ''Germany (DE)''"
| "jurisdictionLabel FR = ''France (FR)''"
| "jurisdictionLabel IT = ''Italy (IT)''"
| "jurisdictionLabel ES = ''Spain (ES)''"
| "jurisdictionLabel NL = ''Netherlands (NL)''"
| "jurisdictionLabel BE = ''Belgium (BE)''"
| "jurisdictionLabel IE = ''Ireland (IE)''"
| "jurisdictionLabel UK = ''United Kingdom (UK)''"
| "jurisdictionLabel OTHER_EU = ''Other EU member state''"
| "jurisdictionLabel OTHER_NON_EU = ''Other (non-EU)''"
| "jurisdictionLabel IR = ''Iran (IR)''"

definition derivedConsentMode :: "Jurisdiction \<Rightarrow> ConsentMode" where
  "derivedConsentMode j = (if j = IR \<or> j = OTHER_NON_EU then Permissive else Consent_free)"

definition JURISDICTIONS :: "Jurisdiction list" where
  "JURISDICTIONS = [DE, FR, IT, ES, NL, BE, IE, UK, OTHER_EU, OTHER_NON_EU, IR]"

definition CONSENT_MODES :: "ConsentMode list" where
  "CONSENT_MODES = [Consent_free, Hybrid, Consent_required, Permissive]"

lemma jurisdiction_codes: "inj jurisdiction_code"
proof
  fix x y show "jurisdiction_code x = jurisdiction_code y \<Longrightarrow> x = y" by (cases x; cases y; simp)
qed

lemma jurisdiction_labels: "inj jurisdictionLabel"
proof
  fix x y show "jurisdictionLabel x = jurisdictionLabel y \<Longrightarrow> x = y" by (cases x; cases y; simp)
qed

lemma consent_codes: "inj consent_code"
proof
  fix x y show "consent_code x = consent_code y \<Longrightarrow> x = y" by (cases x; cases y; simp)
qed

lemma all_jurisdictions: "j \<in> set JURISDICTIONS" by (cases j) (simp_all add: JURISDICTIONS_def)

section \<open>The shared client\<close>

text \<open>What a call settles with: a value, or something thrown.\<close>

datatype 'a outcome = Returned 'a | Failed thrown

text \<open>The request; the body is absent or a JSON value.\<close>

definition api_request :: "string \<Rightarrow> string \<Rightarrow> string \<Rightarrow> json option \<Rightarrow> HttpRequest" where
  "api_request token meth pth body =
     (let h0 = [(''Accept'', ''application/json'')];
          h1 = (if body \<noteq> None then omap_set ''Content-Type'' ''application/json'' h0 else h0);
          h2 = (if token \<noteq> [] then omap_set ''Authorization'' (''Bearer '' @ token) h1 else h1)
      in \<lparr>rq_method = meth, rq_url = pth, rq_headers = h2, rq_body = map_option stringify body,
          rq_credentials = True\<rparr>)"

text \<open>The handler of the answer; \<open>None\<close> is the value undefined.\<close>

definition api_answer :: "string \<Rightarrow> string \<Rightarrow> answer \<Rightarrow> json option outcome" where
  "api_answer meth pth a =
     (case a of
        Rejected e \<Rightarrow> Failed (Error e)
      | Answer st body \<Rightarrow>
          if st = 204 then Returned None
          else if \<not> ok_status st then Failed (Http (new_HttpError meth pth st body))
          else if body \<noteq> [] then
            (case json_parse body of Some j \<Rightarrow> Returned (Some j) | None \<Rightarrow> Failed (Error ''SyntaxError''))
          else Returned None)"

text \<open>
  An exported function is a method, a path, a body and what it makes of the value
  \<^verbatim>\<open>request\<close> returns.
\<close>

record 'a endpoint =
  ep_method :: string
  ep_path :: string
  ep_body :: "json option"
  ep_read :: "json option \<Rightarrow> 'a outcome"

definition send :: "string \<Rightarrow> 'a endpoint \<Rightarrow> HttpRequest" where
  "send token e = api_request token (ep_method e) (ep_path e) (ep_body e)"

definition receive :: "'a endpoint \<Rightarrow> answer \<Rightarrow> 'a outcome" where
  "receive e a =
     (case api_answer (ep_method e) (ep_path e) a of Failed x \<Rightarrow> Failed x | Returned j \<Rightarrow> ep_read e j)"

text \<open>The three ways a function uses the value: it ignores it, returns it, or returns a member of it.\<close>

definition nothing :: "json option \<Rightarrow> unit outcome" where
  "nothing j = Returned ()"

definition whole :: "json option \<Rightarrow> json option outcome" where
  "whole j = Returned j"

text \<open>
  \<^verbatim>\<open>res.k ?? []\<close>: reading a member of undefined or null throws, a value that is no object,
  and an object without the member or with null in it, give the empty array.
\<close>

definition member_or_empty :: "string \<Rightarrow> json option \<Rightarrow> json outcome" where
  "member_or_empty k res =
     (case res of
        None \<Rightarrow> Failed (Error ''TypeError'')
      | Some JNull \<Rightarrow> Failed (Error ''TypeError'')
      | Some (JObj ms) \<Rightarrow>
          (case map_of ms k of None \<Rightarrow> Returned (JArr []) | Some JNull \<Rightarrow> Returned (JArr [])
           | Some v \<Rightarrow> Returned v)
      | Some _ \<Rightarrow> Returned (JArr []))"

section \<open>Users\<close>

definition listUsers :: "rat \<Rightarrow> json endpoint" where
  "listUsers siteID =
     \<lparr>ep_method = ''GET'', ep_path = ''/api/admin/users?site_id='' @ show_rat siteID, ep_body = None,
      ep_read = member_or_empty ''users''\<rparr>"

definition createUser :: "rat \<Rightarrow> json \<Rightarrow> json option endpoint" where
  "createUser siteID body =
     \<lparr>ep_method = ''POST'', ep_path = ''/api/admin/users?site_id='' @ show_rat siteID,
      ep_body = Some body, ep_read = whole\<rparr>"

definition updateUserSites :: "string \<Rightarrow> json \<Rightarrow> unit endpoint" where
  "updateUserSites i sites =
     \<lparr>ep_method = ''PATCH'', ep_path = ''/api/admin/users/'' @ i @ ''/sites'',
      ep_body = Some (JObj [(''sites'', sites)]), ep_read = nothing\<rparr>"

definition updateUser :: "string \<Rightarrow> json \<Rightarrow> json option endpoint" where
  "updateUser i body =
     \<lparr>ep_method = ''PATCH'', ep_path = ''/api/admin/users/'' @ i, ep_body = Some body, ep_read = whole\<rparr>"

definition resetPassword :: "string \<Rightarrow> string \<Rightarrow> unit endpoint" where
  "resetPassword i pw =
     \<lparr>ep_method = ''POST'', ep_path = ''/api/admin/users/'' @ i @ ''/password'',
      ep_body = Some (JObj [(''password'', JStr pw)]), ep_read = nothing\<rparr>"

definition disableUser :: "string \<Rightarrow> unit endpoint" where
  "disableUser i =
     \<lparr>ep_method = ''POST'', ep_path = ''/api/admin/users/'' @ i @ ''/disable'', ep_body = None,
      ep_read = nothing\<rparr>"

definition enableUser :: "string \<Rightarrow> unit endpoint" where
  "enableUser i =
     \<lparr>ep_method = ''POST'', ep_path = ''/api/admin/users/'' @ i @ ''/enable'', ep_body = None,
      ep_read = nothing\<rparr>"

definition deleteUser :: "string \<Rightarrow> unit endpoint" where
  "deleteUser i =
     \<lparr>ep_method = ''DELETE'', ep_path = ''/api/admin/users/'' @ i, ep_body = None, ep_read = nothing\<rparr>"

section \<open>Goals\<close>

definition listGoals :: "rat \<Rightarrow> json endpoint" where
  "listGoals siteID =
     \<lparr>ep_method = ''GET'', ep_path = ''/api/admin/goals?site_id='' @ show_rat siteID, ep_body = None,
      ep_read = member_or_empty ''goals''\<rparr>"

definition createGoal :: "rat \<Rightarrow> json \<Rightarrow> json option endpoint" where
  "createGoal siteID body =
     \<lparr>ep_method = ''POST'', ep_path = ''/api/admin/goals?site_id='' @ show_rat siteID,
      ep_body = Some body, ep_read = whole\<rparr>"

definition updateGoal :: "rat \<Rightarrow> string \<Rightarrow> json \<Rightarrow> json option endpoint" where
  "updateGoal siteID i body =
     \<lparr>ep_method = ''PATCH'', ep_path = ''/api/admin/goals/'' @ i @ ''?site_id='' @ show_rat siteID,
      ep_body = Some body, ep_read = whole\<rparr>"

definition disableGoal :: "rat \<Rightarrow> string \<Rightarrow> unit endpoint" where
  "disableGoal siteID i =
     \<lparr>ep_method = ''POST'', ep_path = ''/api/admin/goals/'' @ i @ ''/disable?site_id='' @ show_rat siteID,
      ep_body = None, ep_read = nothing\<rparr>"

section \<open>Sites and options\<close>

definition listSites :: "json endpoint" where
  "listSites =
     \<lparr>ep_method = ''GET'', ep_path = ''/api/admin/sites'', ep_body = None, ep_read = member_or_empty ''sites''\<rparr>"

definition createSite :: "json \<Rightarrow> json option endpoint" where
  "createSite body =
     \<lparr>ep_method = ''POST'', ep_path = ''/api/admin/sites'', ep_body = Some body, ep_read = whole\<rparr>"

definition updateSiteEnabled :: "rat \<Rightarrow> bool \<Rightarrow> json option endpoint" where
  "updateSiteEnabled siteID enabled =
     \<lparr>ep_method = ''PATCH'', ep_path = ''/api/admin/sites/'' @ show_rat siteID,
      ep_body = Some (JObj [(''enabled'', JBool enabled)]), ep_read = whole\<rparr>"

definition updateSitePolicy :: "rat \<Rightarrow> json \<Rightarrow> json option endpoint" where
  "updateSitePolicy siteID patch =
     \<lparr>ep_method = ''PATCH'', ep_path = ''/api/admin/sites/'' @ show_rat siteID, ep_body = Some patch,
      ep_read = whole\<rparr>"

definition listCurrencies :: "json endpoint" where
  "listCurrencies =
     \<lparr>ep_method = ''GET'', ep_path = ''/api/admin/currencies'', ep_body = None,
      ep_read = member_or_empty ''currencies''\<rparr>"

definition listTimezones :: "json endpoint" where
  "listTimezones =
     \<lparr>ep_method = ''GET'', ep_path = ''/api/admin/timezones'', ep_body = None,
      ep_read = member_or_empty ''timezones''\<rparr>"

definition getJurisdictionNotice :: "json option endpoint" where
  "getJurisdictionNotice =
     \<lparr>ep_method = ''GET'', ep_path = ''/api/admin/jurisdiction-notice'', ep_body = None, ep_read = whole\<rparr>"

definition dismissJurisdictionNotice :: "unit endpoint" where
  "dismissJurisdictionNotice =
     \<lparr>ep_method = ''POST'', ep_path = ''/api/admin/jurisdiction-notice/dismiss'', ep_body = None,
      ep_read = nothing\<rparr>"

section \<open>Access tokens\<close>

definition listMCPTokens :: "json endpoint" where
  "listMCPTokens =
     \<lparr>ep_method = ''GET'', ep_path = ''/api/mcp/tokens'', ep_body = None, ep_read = member_or_empty ''tokens''\<rparr>"

definition createMCPToken :: "json \<Rightarrow> json option endpoint" where
  "createMCPToken body =
     \<lparr>ep_method = ''POST'', ep_path = ''/api/mcp/tokens'', ep_body = Some body, ep_read = whole\<rparr>"

definition revokeMCPToken :: "string \<Rightarrow> unit endpoint" where
  "revokeMCPToken i =
     \<lparr>ep_method = ''DELETE'', ep_path = ''/api/mcp/tokens/'' @ encode_uri_component i, ep_body = None,
      ep_read = nothing\<rparr>"

definition getMCPConnection :: "json option endpoint" where
  "getMCPConnection =
     \<lparr>ep_method = ''GET'', ep_path = ''/api/mcp/connection'', ep_body = None, ep_read = whole\<rparr>"

section \<open>What a request and its answer mean\<close>

lemmas endpoint_defs =
  listUsers_def createUser_def updateUserSites_def updateUser_def resetPassword_def disableUser_def
  enableUser_def deleteUser_def listGoals_def createGoal_def updateGoal_def disableGoal_def
  listSites_def createSite_def updateSiteEnabled_def updateSitePolicy_def listCurrencies_def
  listTimezones_def getJurisdictionNotice_def dismissJurisdictionNotice_def listMCPTokens_def
  createMCPToken_def revokeMCPToken_def getMCPConnection_def

text \<open>
  The other side of a call: what a server reads off a request (the token after \<^verbatim>\<open>Bearer\<close>, and the value of
  a body that is declared as JSON), and the answer in which it sends a status and a value or none.
\<close>

definition bearer_of :: "HttpRequest \<Rightarrow> string option" where
  "bearer_of rq =
     (case map_of (rq_headers rq) ''Authorization'' of
        Some h \<Rightarrow> if prefix ''Bearer '' h then Some (drop 7 h) else None
      | None \<Rightarrow> None)"

definition body_of :: "HttpRequest \<Rightarrow> json option" where
  "body_of rq =
     (if map_of (rq_headers rq) ''Content-Type'' = Some ''application/json'' then Option.bind (rq_body rq) json_parse else None)"

type_synonym handler = "string \<Rightarrow> string \<Rightarrow> string option \<Rightarrow> json option \<Rightarrow> int \<times> json option"

definition served :: "handler \<Rightarrow> HttpRequest \<Rightarrow> answer" where
  "served srv rq =
     (case srv (rq_method rq) (rq_url rq) (bearer_of rq) (body_of rq) of
        (st, reply) \<Rightarrow> Answer st (case reply of Some j \<Rightarrow> stringify j | None \<Rightarrow> []))"

lemma request_headers:
  "map_of (rq_headers (api_request token meth pth body))
     = [''Accept'' \<mapsto> ''application/json'']
       ++ (if body = None then Map.empty else [''Content-Type'' \<mapsto> ''application/json''])
       ++ (if token = [] then Map.empty else [''Authorization'' \<mapsto> ''Bearer '' @ token])"
  "distinct (keys (rq_headers (api_request token meth pth body)))"
  by (auto simp: api_request_def Let_def map_of_omap_set distinct_omap_set keys_def)

lemma read_bearer: "bearer_of (api_request token meth pth body) = (if token = [] then None else Some token)"
proof -
  have "prefix ''Bearer '' (''Bearer '' @ token)" and "drop 7 (''Bearer '' @ token) = token"
    by (rule prefixI [OF refl]) simp
  then show ?thesis by (simp add: bearer_of_def request_headers map_add_def del: append.simps)
qed

lemma read_body:
  assumes "pred_option json_ok body"
  shows "body_of (api_request token meth pth body) = body"
    and "Option.bind (rq_body (api_request token meth pth body)) json_parse = body"
proof -
  have b: "rq_body (api_request token meth pth x) = map_option stringify x" for x by (simp add: api_request_def Let_def)
  show rb: "Option.bind (rq_body (api_request token meth pth body)) json_parse = body"
    using assms by (cases body) (simp_all add: b json_parse_stringify)
  have "map_of (rq_headers (api_request token meth pth body)) ''Content-Type''
      = (if body = None then None else Some ''application/json'')"
    by (simp add: request_headers map_add_def)
  then show "body_of (api_request token meth pth body) = body"
    using rb by (auto simp: body_of_def)
qed

lemma reply_read:
  assumes "pred_option json_ok reply"
  shows "api_answer meth pth (Answer st (case reply of Some j \<Rightarrow> stringify j | None \<Rightarrow> []))
    = (if ok_status st then Returned (if st = 204 then None else reply)
       else Failed (Http (new_HttpError meth pth st (case reply of Some j \<Rightarrow> stringify j | None \<Rightarrow> []))))"
proof -
  have "ok_status 204" by (simp add: ok_status_def)
  moreover have "stringify j \<noteq> []" if "reply = Some j" for j using stringify_head [of j] assms that by auto
  ultimately show ?thesis
    using assms by (cases reply) (auto simp: api_answer_def json_parse_stringify)
qed

lemma http_error_call:
  "status (new_HttpError meth pth st txt0) = st" "http_method (new_HttpError meth pth st txt0) = meth"
  "http_path (new_HttpError meth pth st txt0) = pth"
  by (simp_all add: new_HttpError_def split_beta)

lemma http_error_named:
  assumes "json_ok (JObj ms)" and "map_of ms ''code'' = Some (JStr c)" and "map_of ms ''error'' = Some (JStr msg)" and "msg \<noteq> []"
  shows "code (new_HttpError meth pth st (stringify (JObj ms))) = c"
    "serverMessage (new_HttpError meth pth st (stringify (JObj ms))) = msg"
    "message (new_HttpError meth pth st (stringify (JObj ms))) = msg"
  by (simp_all add: new_HttpError_def json_parse_stringify [OF assms(1)] string_prop_def assms del: stringify.simps)

lemma http_error_text:
  assumes "json_parse txt0 = None"
  shows "code (new_HttpError meth pth st txt0) = []" "serverMessage (new_HttpError meth pth st txt0) = txt0"
    "message (new_HttpError meth pth st txt0) = (if txt0 = [] then meth @ '' '' @ pth @ '': HTTP '' @ show_int st else txt0)"
  by (simp_all add: new_HttpError_def assms)

text \<open>
  C40: a call of the administration, from the caller to the server and back, for every exported function and
  any server. The request has the method and path of the function and the cookies; its headers are
  the accepted type, the content type exactly with a body, and the bearer exactly with a token, each once.
  The server reads the caller's body and token off it. For a success the caller gets what the function makes
  of the value the server sent, of undefined for 204 and for an answer without a value; for every other
  status an HttpError with the call, the status, and the code and the error the server named. A success that is not JSON is
  a SyntaxError, a failure that is not JSON keeps its text, and a rejected fetch is passed on.
\<close>

theorem admin_request_spec:
  fixes e :: "'a endpoint"
  assumes "pred_option json_ok (ep_body e)" and "pred_option json_ok reply"
    and "srv (ep_method e) (ep_path e) (if token = [] then None else Some token) (ep_body e) = (st, reply)"
  shows "let rq = send token e in
      rq_method rq = ep_method e \<and> rq_url rq = ep_path e \<and> rq_credentials rq
    \<and> distinct (keys (rq_headers rq))
    \<and> map_of (rq_headers rq)
        = [''Accept'' \<mapsto> ''application/json'']
          ++ (if ep_body e = None then Map.empty else [''Content-Type'' \<mapsto> ''application/json''])
          ++ (if token = [] then Map.empty else [''Authorization'' \<mapsto> ''Bearer '' @ token])
    \<and> (rq_body rq = None \<longleftrightarrow> ep_body e = None) \<and> Option.bind (rq_body rq) json_parse = ep_body e
    \<and> (ok_status st \<longrightarrow> receive e (served srv rq) = ep_read e (if st = 204 then None else reply))
    \<and> (\<not> ok_status st \<longrightarrow> (\<exists>err. receive e (served srv rq) = Failed (Http err)
          \<and> status err = st \<and> http_method err = ep_method e \<and> http_path err = ep_path e
          \<and> (\<forall>ms c msg. reply = Some (JObj ms) \<and> map_of ms ''code'' = Some (JStr c) \<and> map_of ms ''error'' = Some (JStr msg) \<and> msg \<noteq> []
               \<longrightarrow> code err = c \<and> serverMessage err = msg \<and> message err = msg)
          \<and> (reply = None \<longrightarrow> code err = [] \<and> serverMessage err = []
               \<and> message err = ep_method e @ '' '' @ ep_path e @ '': HTTP '' @ show_int st)))
    \<and> (json_parse garbage = None \<and> garbage \<noteq> [] \<longrightarrow>
        (ok_status st' \<and> st' \<noteq> 204 \<longrightarrow> receive e (Answer st' garbage) = Failed (Error ''SyntaxError''))
        \<and> (\<not> ok_status st' \<longrightarrow> (\<exists>err. receive e (Answer st' garbage) = Failed (Http err)
             \<and> status err = st' \<and> code err = [] \<and> serverMessage err = garbage \<and> message err = garbage)))
    \<and> receive e (Rejected why) = Failed (Error why)"
proof -
  let ?rq = "send token e" and ?txt = "case reply of Some j \<Rightarrow> stringify j | None \<Rightarrow> []"
  let ?err = "new_HttpError (ep_method e) (ep_path e) st ?txt"
  have fields: "rq_method ?rq = ep_method e" "rq_url ?rq = ep_path e" "rq_credentials ?rq"
    "rq_body ?rq = None \<longleftrightarrow> ep_body e = None"
    by (simp_all add: send_def api_request_def Let_def)
  have sent: "Option.bind (rq_body ?rq) json_parse = ep_body e" by (simp add: send_def read_body [OF assms(1)])
  have headers: "map_of (rq_headers ?rq)
        = [''Accept'' \<mapsto> ''application/json'']
          ++ (if ep_body e = None then Map.empty else [''Content-Type'' \<mapsto> ''application/json''])
          ++ (if token = [] then Map.empty else [''Authorization'' \<mapsto> ''Bearer '' @ token])"
    "distinct (keys (rq_headers ?rq))"
    by (simp_all add: send_def request_headers)
  have answered: "receive e (served srv ?rq)
      = (if ok_status st then ep_read e (if st = 204 then None else reply) else Failed (Http ?err))"
    using assms(3) fields(1,2) by (simp add: receive_def served_def send_def read_bearer read_body [OF assms(1)] reply_read [OF assms(2)])
  have nojson: "json_parse [] = None" by code_simp
  have named: "code ?err = c \<and> serverMessage ?err = msg \<and> message ?err = msg"
    if "reply = Some (JObj ms)" "map_of ms ''code'' = Some (JStr c)" "map_of ms ''error'' = Some (JStr msg)" "msg \<noteq> []" for ms c msg
    using that assms(2) http_error_named [OF _ that(2-4)] by (simp del: stringify.simps)
  have bare: "reply = None \<longrightarrow> code ?err = [] \<and> serverMessage ?err = []
      \<and> message ?err = ep_method e @ '' '' @ ep_path e @ '': HTTP '' @ show_int st"
    by (simp add: http_error_text [OF nojson])
  have "ok_status 204" by (simp add: ok_status_def)
  then have garbage: "receive e (Answer st' garbage)
      = (if st' = 204 then ep_read e None else if ok_status st' then Failed (Error ''SyntaxError'')
         else Failed (Http (new_HttpError (ep_method e) (ep_path e) st' garbage)))"
    if "json_parse garbage = None" "garbage \<noteq> []"
    using that by (simp add: receive_def api_answer_def)
  have failed: "\<exists>err. receive e (served srv ?rq) = Failed (Http err)
          \<and> status err = st \<and> http_method err = ep_method e \<and> http_path err = ep_path e
          \<and> (\<forall>ms c msg. reply = Some (JObj ms) \<and> map_of ms ''code'' = Some (JStr c) \<and> map_of ms ''error'' = Some (JStr msg) \<and> msg \<noteq> []
               \<longrightarrow> code err = c \<and> serverMessage err = msg \<and> message err = msg)
          \<and> (reply = None \<longrightarrow> code err = [] \<and> serverMessage err = []
               \<and> message err = ep_method e @ '' '' @ ep_path e @ '': HTTP '' @ show_int st)" if "\<not> ok_status st"
    using that named bare by (intro exI [of _ ?err]) (simp add: answered http_error_call)
  have rejected: "receive e (Rejected why) = Failed (Error why)" by (simp add: receive_def api_answer_def)
  have noise: "\<exists>err. receive e (Answer st' garbage) = Failed (Http err) \<and> status err = st' \<and> code err = []
      \<and> serverMessage err = garbage \<and> message err = garbage"
    if "json_parse garbage = None" "garbage \<noteq> []" "\<not> ok_status st'"
    using that \<open>ok_status 204\<close> by (auto simp: garbage http_error_call http_error_text)
  show ?thesis
    unfolding Let_def
    by (intro conjI impI failed noise)
      (simp_all add: fields answered rejected garbage headers sent)
qed

theorem admin_request_spec_witness:
  "let srv = (\<lambda>meth pth who body. if who = Some ''t'' then (200, Some (JObj [(''users'', JArr [])])) else (403, Some (JObj [(''error'', JStr ''no'')]))) in
     receive (listUsers 7) (served srv (send ''t'' (listUsers 7))) = Returned (JArr [])
     \<and> map_of (rq_headers (send ''t'' (listUsers 7))) ''Authorization'' = Some ''Bearer t''
     \<and> rq_credentials (send ''t'' (listUsers 7))"
proof -
  let ?srv = "\<lambda>meth pth who body. if who = Some ''t'' then (200, Some (JObj [(''users'', JArr [])])) else (403, Some (JObj [(''error'', JStr ''no'')]))"
  have "pred_option json_ok (ep_body (listUsers 7))" by (simp add: listUsers_def)
  moreover have "pred_option json_ok (Some (JObj [(''users'', JArr [])]))" by simp
  moreover have "?srv (ep_method (listUsers 7)) (ep_path (listUsers 7)) (if ''t'' = [] then None else Some ''t'') (ep_body (listUsers 7))
      = (200, Some (JObj [(''users'', JArr [])]))" by simp
  ultimately have "let rq = send ''t'' (listUsers 7) in
      rq_credentials rq \<and> map_of (rq_headers rq) ''Authorization'' = Some ''Bearer t''
      \<and> (ok_status 200 \<longrightarrow> receive (listUsers 7) (served ?srv rq) = ep_read (listUsers 7) (Some (JObj [(''users'', JArr [])])))"
    using admin_request_spec [of "listUsers 7" "Some (JObj [(''users'', JArr [])])" ?srv "''t''" 200]
    by (simp add: Let_def)
  then show ?thesis by (simp add: Let_def ok_status_def listUsers_def member_or_empty_def)
qed

lemma uri_delims: "x \<in> {CHR ''/'', CHR ''?'', CHR ''#''} \<Longrightarrow> x \<notin> set (encode_uri_component s)"
proof -
  assume x: "x \<in> {CHR ''/'', CHR ''?'', CHR ''#''}"
  then have "\<not> uri_safe x"
    by (auto simp: uri_safe_def is_alnum_def is_lower_def is_upper_def is_digit_def)
  moreover have "x \<notin> set (percent c)" for c using x by (intro percent_avoids) auto
  ultimately show ?thesis by (auto simp: encode_uri_component_def)
qed

text \<open>
  revoking a token. Whatever characters the id holds, the path is the collection followed by one
  segment that has no delimiter of a path, query or fragment in it and decodes to the id, so no id
  adds a segment or a query, and different ids never share a path.
\<close>

theorem revoke_path_spec:
  assumes "well_formed i"
  shows "(\<exists>seg. ep_path (revokeMCPToken i) = ''/api/mcp/tokens/'' @ seg
            \<and> {CHR ''/'', CHR ''?'', CHR ''#''} \<inter> set seg = {}
            \<and> decode_uri_component seg = Some i)
    \<and> (ep_path (revokeMCPToken i) = ep_path (revokeMCPToken k) \<longleftrightarrow> i = k)"
proof -
  have "encode_uri_component i = encode_uri_component k \<Longrightarrow> i = k" for i k
    using uri_unescape_encode by (metis option.inject)
  moreover have "{CHR ''/'', CHR ''?'', CHR ''#''} \<inter> set (encode_uri_component i) = {}"
    using uri_delims by blast
  ultimately show ?thesis
    using decode_encode_uri [OF assms]
    by (auto simp: revokeMCPToken_def)
qed

theorem revoke_path_spec_witness:
  "ep_path (revokeMCPToken ''../x'') \<noteq> ep_path (revokeMCPToken ''x'')"
proof -
  have "well_formed ''../x''" by (rule well_formed_ascii) (simp add: is_ascii_def)
  from revoke_path_spec [OF this, of "''x''"] show ?thesis by simp
qed

text \<open>The list endpoints with the member each of them returns.\<close>

definition list_endpoints :: "rat \<Rightarrow> (json endpoint \<times> string) list" where
  "list_endpoints siteID =
     [(listUsers siteID, ''users''), (listGoals siteID, ''goals''), (listSites, ''sites''),
      (listCurrencies, ''currencies''), (listTimezones, ''timezones''), (listMCPTokens, ''tokens'')]"

lemma list_endpoint_reads: "list_all (\<lambda>(e, k). ep_read e = member_or_empty k) (list_endpoints siteID)"
  by (simp add: list_endpoints_def endpoint_defs)

lemma receive_json:
  assumes "json_ok j" and "ok_status st" and "st \<noteq> 204"
  shows "receive e (Answer st (stringify j)) = ep_read e (Some j)"
proof -
  have "stringify j \<noteq> []" using stringify_head [OF assms(1)] by auto
  then show ?thesis
    using assms(2,3) json_parse_stringify [OF assms(1)] by (simp add: receive_def api_answer_def)
qed

text \<open>
  the list functions. For each of the six, a success whose object holds an array under the
  function's member gives exactly that array; an object with null there, or without the member,
  gives the empty array; an answer without a value (204, or an empty body) makes the function throw
  a TypeError instead of returning an empty list.
\<close>

theorem admin_lists_spec:
  assumes "json_ok (JObj ms)" and "json_ok (JArr xs)" and "ok_status st" and "st \<noteq> 204"
  shows "list_all (\<lambda>(e, k).
       (map_of ms k = Some (JArr xs) \<longrightarrow> receive e (Answer st (stringify (JObj ms))) = Returned (JArr xs))
     \<and> (map_of ms k = Some JNull \<or> map_of ms k = None \<longrightarrow>
          receive e (Answer st (stringify (JObj ms))) = Returned (JArr []))
     \<and> receive e (Answer 204 txt0) = Failed (Error ''TypeError'')
     \<and> receive e (Answer st []) = Failed (Error ''TypeError''))
     (list_endpoints siteID)"
proof -
  have empty: "receive e (Answer st []) = ep_read e None" for e :: "json endpoint"
    using assms(3) by (simp add: receive_def api_answer_def)
  have none: "receive e (Answer 204 txt0) = ep_read e None" for e :: "json endpoint"
    by (simp add: receive_def api_answer_def)
  have step: "(map_of ms k = Some (JArr xs) \<longrightarrow> receive e (Answer st (stringify (JObj ms))) = Returned (JArr xs))
     \<and> (map_of ms k = Some JNull \<or> map_of ms k = None \<longrightarrow>
          receive e (Answer st (stringify (JObj ms))) = Returned (JArr []))
     \<and> receive e (Answer 204 txt0) = Failed (Error ''TypeError'')
     \<and> receive e (Answer st []) = Failed (Error ''TypeError'')"
    if r: "ep_read e = member_or_empty k" for e :: "json endpoint" and k
    unfolding receive_json [OF assms(1,3,4)] empty none r by (auto simp: member_or_empty_def)
  show ?thesis
    using step list_endpoint_reads [of siteID] by (elim list.pred_mono_strong) blast
qed

theorem admin_lists_spec_witness:
  "receive (listUsers 7) (Answer 200 (stringify (JObj [(''users'', JArr [JNum 3])]))) = Returned (JArr [JNum 3])"
proof -
  have "json_ok (JObj [(''users'', JArr [JNum 3])])" "json_ok (JArr [JNum 3])" "ok_status 200" "(200::int) \<noteq> 204"
    by (simp_all add: ok_status_def)
  from admin_lists_spec [OF this, of "[]" 7] show ?thesis by (simp add: list_endpoints_def)
qed

end
