(* ===== verification/Tracker.thy ===== *)
theory Tracker
  imports Session
begin

text \<open>
  The embedded tracker, \<^verbatim>\<open>tracker/src/tracker.js\<close>, over a model of the page it
  runs in: the script elements, the cookie jar, session storage, the address, and the list of what
  was sent. The tracker's closure is a record; a call that throws leaves the effects it had before.
  Arguments of the public functions are JSON values or undefined (\<open>None\<close>).
\<close>

section \<open>The page\<close>

record Script =
  endpoint_attr :: "string option"
  src_attr :: "string option"
  src_url :: string
  honour_gpc :: "string option"

record Closure =
  endpoint :: string
  base_url :: string
  userId :: string
  q :: params
  pageviewed :: bool

datatype api = Noop string | Live Closure

datatype transmission = Beacon string string | Fetched HttpRequest

record Tab =
  webdriver :: bool
  phantom :: bool
  globalPrivacyControl :: bool
  can_beacon :: bool
  scripts :: "Script list"
  currentScript :: "Script option"
  loc_hostname :: string
  loc_pathname :: string
  loc_search :: string
  doc_title :: string
  doc_referrer :: string
  jar :: "(string, string) omap"
  tab_storage :: storage
  sent :: "transmission list"
  statniveLive :: "api option"

section \<open>Cookies\<close>

text \<open>
  The text of \<^verbatim>\<open>document.cookie\<close> and what an assignment to it does: pairs longer
  than 4096 bytes are ignored, a zero age deletes.
\<close>

definition cookie_text :: "(string, string) omap \<Rightarrow> string" where
  "cookie_text m = join ''; '' (map (\<lambda>(n, v). n @ ''='' @ v) m)"

definition cookie_assign :: "string \<Rightarrow> (string, string) omap \<Rightarrow> (string, string) omap" where
  "cookie_assign s m =
     (case split_first CHR ''='' (hd (split_on CHR '';'' s)) of
        None \<Rightarrow> m
      | Some (n, v) \<Rightarrow>
          if 4096 < length n + length v then m
          else if '' Max-Age=0'' \<in> set (tl (split_on CHR '';'' s)) then omap_delete n m
          else omap_set n v m)"

text \<open>\<^verbatim>\<open>s.split('; ')\<close>.\<close>

function split_semi :: "string \<Rightarrow> string list" where
  "split_semi [] = [[]]"
| "split_semi (c # s) =
     (if c = CHR '';'' \<and> prefix '' '' s then [] # split_semi (tl s)
      else (c # hd (split_semi s)) # tl (split_semi s))"
  by pat_completeness auto
termination by (relation "measure length") auto

definition KC :: string where "KC = ''sn_consent''"
definition KU :: string where "KU = ''sn_user_props''"
definition KS :: string where "KS = ''sn_sess_props''"
definition COOK :: string where "COOK = ''; SameSite=Lax; Max-Age=31536000; Path=/''"

definition RESOLVED :: string where "RESOLVED = ''resolved''"
definition IDLE :: string where "IDLE = ''idle''"
definition WITHDRAWN :: string where "WITHDRAWN = ''withdrawn''"

text \<open>\<open>None\<close>: \<^verbatim>\<open>decodeURIComponent\<close> throws.\<close>

fun find_cookie :: "string \<Rightarrow> string list \<Rightarrow> string option" where
  "find_cookie k [] = Some []"
| "find_cookie k (p # ps) =
     (let x = split_on CHR ''='' p in
      if x ! 0 = k then decode_uri_component (if 1 < length x then x ! 1 else []) else find_cookie k ps)"

definition ck_get :: "string \<Rightarrow> Tab \<Rightarrow> string option" where
  "ck_get k t = find_cookie k (split_semi (cookie_text (jar t)))"

definition ck_set :: "string \<Rightarrow> string \<Rightarrow> Tab \<Rightarrow> Tab" where
  "ck_set k v t =
     t\<lparr>jar := cookie_assign (if v \<noteq> [] then k @ ''='' @ encode_uri_component v @ COOK
                              else k @ ''=; Max-Age=0; Path=/'') (jar t)\<rparr>"

definition ss_get :: "string \<Rightarrow> Tab \<Rightarrow> string" where
  "ss_get k t = (case storage_get k (tab_storage t) of Some v \<Rightarrow> v | None \<Rightarrow> [])"

definition ss_set :: "string \<Rightarrow> string \<Rightarrow> Tab \<Rightarrow> Tab" where
  "ss_set k v t =
     t\<lparr>tab_storage := (if v \<noteq> [] then storage_set k v (tab_storage t) else storage_remove k (tab_storage t))\<rparr>"

definition jp :: "string \<Rightarrow> json" where
  "jp s = (if s \<noteq> [] then case json_parse s of Some j \<Rightarrow> j | None \<Rightarrow> JObj [] else JObj [])"

definition getConsent :: "Tab \<Rightarrow> string option" where
  "getConsent t = map_option (\<lambda>c. if c \<noteq> [] then c else IDLE) (ck_get KC t)"

section \<open>Sending\<close>

fun truthy :: "json option \<Rightarrow> bool" where
  "truthy None = False"
| "truthy (Some JNull) = False"
| "truthy (Some (JBool b)) = b"
| "truthy (Some (JNum x)) = (x \<noteq> 0)"
| "truthy (Some (JStr s)) = (s \<noteq> [])"
| "truthy (Some _) = True"

definition either :: "json option \<Rightarrow> json \<Rightarrow> json" where
  "either a b = (if truthy a then the a else b)"

definition q_get :: "string \<Rightarrow> params \<Rightarrow> json" where
  "q_get k ps = JStr (case params_get k ps of Some v \<Rightarrow> v | None \<Rightarrow> [])"

definition pv :: "json option" where
  "pv = Some (JStr ''pageview'')"

text \<open>A member that is undefined is left out of the text.\<close>

definition event_members :: "Closure \<Rightarrow> Tab \<Rightarrow> json option \<Rightarrow> json option \<Rightarrow> json option \<Rightarrow> (string \<times> json) list" where
  "event_members c t name hit value =
     [(''hostname'', JStr (loc_hostname t)),
      (''pathname'', JStr (loc_pathname t)),
      (''title'', JStr (doc_title t)),
      (''referrer'', JStr (doc_referrer t)),
      (''utm_source'', q_get ''utm_source'' (q c)),
      (''utm_medium'', q_get ''utm_medium'' (q c)),
      (''utm_campaign'', q_get ''utm_campaign'' (q c)),
      (''utm_content'', q_get ''utm_content'' (q c)),
      (''utm_term'', q_get ''utm_term'' (q c)),
      (''event_type'', JStr (if name = pv then ''pageview'' else ''custom''))]
     @ (case name of None \<Rightarrow> [] | Some n \<Rightarrow> [(''event_name'', n)])
     @ [(''event_value'', either value (JNum 0)),
        (''user_id'', JStr (userId c)),
        (''hit_props'', either hit (JObj []))]"

definition event_body :: "Closure \<Rightarrow> Tab \<Rightarrow> json option \<Rightarrow> json option \<Rightarrow> json option \<Rightarrow> json \<Rightarrow> json \<Rightarrow> string" where
  "event_body c t name hit value sess user =
     stringify (JObj (event_members c t name hit value @ [(''session_props'', sess), (''user_props'', user)]))"

definition transmit :: "Closure \<Rightarrow> bool \<Rightarrow> string \<Rightarrow> Tab \<Rightarrow> Tab" where
  "transmit c resolved body t =
     t\<lparr>sent := sent t @
       [if can_beacon t then Beacon (endpoint c) body
        else Fetched \<lparr>rq_method = ''POST'', rq_url = endpoint c,
               rq_headers = (let h = [(''Content-Type'', ''text/plain'')] in
                             if resolved then omap_set ''X-Statnive-Consent'' ''given'' h else h),
               rq_body = Some body, rq_credentials = False\<rparr>]\<rparr>"

text \<open>\<open>None\<close>: the call throws, before any effect.\<close>

definition fire :: "Closure \<Rightarrow> json option \<Rightarrow> json option \<Rightarrow> json option \<Rightarrow> Tab \<Rightarrow> Tab option" where
  "fire c name hit value t =
     (case getConsent t of
        None \<Rightarrow> None
      | Some cs \<Rightarrow>
          let resolved = (cs = RESOLVED) in
          if resolved then
            (case ck_get KU t of
               None \<Rightarrow> None
             | Some u \<Rightarrow> Some (transmit c True (event_body c t name hit value (jp (ss_get KS t)) (jp u)) t))
          else Some (transmit c False (event_body c t name hit value (JObj []) (JObj [])) t))"

text \<open>A step gives the page and whether it threw.\<close>

definition keep :: "Closure \<Rightarrow> Tab \<Rightarrow> Tab option \<Rightarrow> Tab \<times> bool" where
  "keep c t r =
     (case r of Some t' \<Rightarrow> (t'\<lparr>statniveLive := Some (Live c)\<rparr>, False)
      | None \<Rightarrow> (t\<lparr>statniveLive := Some (Live c)\<rparr>, True))"

definition pageview :: "Closure \<Rightarrow> Tab \<Rightarrow> Tab \<times> bool" where
  "pageview c t =
     (if pageviewed c then keep c t (Some t)
      else let c' = c\<lparr>pageviewed := True\<rparr> in keep c' t (fire c' pv None None t))"

definition search_params :: "string \<Rightarrow> params" where
  "search_params s = parse_params (if prefix ''?'' s then tl s else s)"

definition refresh :: "Closure \<Rightarrow> Tab \<Rightarrow> Tab \<times> bool" where
  "refresh c t = pageview (c\<lparr>q := search_params (loc_search t), pageviewed := False\<rparr>) t"

section \<open>Consent and the public functions\<close>

definition consent_request :: "Closure \<Rightarrow> string \<Rightarrow> string \<Rightarrow> HttpRequest" where
  "consent_request c action csrfToken =
     \<lparr>rq_method = ''POST'', rq_url = base_url c @ ''/api/privacy/consent'',
      rq_headers = [(''Content-Type'', ''application/json''), (''X-CSRF-Token'', csrfToken)],
      rq_body = Some (stringify (JObj [(''action'', JStr action)])), rq_credentials = True\<rparr>"

definition consent_answer :: "string \<Rightarrow> answer \<Rightarrow> Tab \<Rightarrow> Tab" where
  "consent_answer action r t =
     (case r of
        Answer st _ \<Rightarrow>
          if ok_status st then
            (if action = ''give'' then ck_set KC RESOLVED t
             else ss_set KS [] (ck_set KU [] (ck_set KC WITHDRAWN t)))
          else t
      | Rejected _ \<Rightarrow> t)"

text \<open>\<^verbatim>\<open>String(v)\<close>.\<close>

fun js_string :: "json \<Rightarrow> string" where
  "js_string JNull = ''null''"
| "js_string (JBool b) = (if b then ''true'' else ''false'')"
| "js_string (JNum x) = show_rat x"
| "js_string (JStr s) = s"
| "js_string (JArr xs) = join '','' (map (\<lambda>x. if x = JNull then [] else js_string x) xs)"
| "js_string (JObj ms) = ''[object Object]''"

text \<open>\<^verbatim>\<open>userId\<close> is assigned before the consent is read, so it stays when that throws.\<close>

definition identify :: "Closure \<Rightarrow> json option \<Rightarrow> json option \<Rightarrow> Tab \<Rightarrow> Tab \<times> bool" where
  "identify c uid uprops t =
     (let c' = c\<lparr>userId := (if truthy uid then js_string (the uid) else [])\<rparr> in
      keep c' t
        (if truthy uprops then
           (case getConsent t of
              None \<Rightarrow> None
            | Some cs \<Rightarrow> Some (if cs = RESOLVED then ck_set KU (stringify (the uprops)) t else t))
         else Some t))"

definition setSession :: "Closure \<Rightarrow> json option \<Rightarrow> Tab \<Rightarrow> Tab \<times> bool" where
  "setSession c sessProps t =
     keep c t
       (if truthy sessProps then
          (case getConsent t of
             None \<Rightarrow> None
           | Some cs \<Rightarrow> Some (if cs = RESOLVED then ss_set KS (stringify (the sessProps)) t else t))
        else Some t)"

section \<open>Start\<close>

text \<open>
  The pattern of the script address: a shortest nonempty part, \<^verbatim>\<open>/tracker.js\<close>, and
  nothing or a query up to the end.
\<close>

definition script_tail :: "string \<Rightarrow> bool" where
  "script_tail s \<longleftrightarrow> prefix ''/tracker.js'' s \<and> (drop 11 s = [] \<or> hd (drop 11 s) = CHR ''?'')"

fun derived_base :: "string \<Rightarrow> string option" where
  "derived_base [] = None"
| "derived_base (c # s) = (if script_tail s then Some [c] else map_option (\<lambda>p. c # p) (derived_base s))"

text \<open>\<^verbatim>\<open>replace(/\/api\/event.*$/, '')\<close> for an endpoint on one line.\<close>

fun strip_event :: "string \<Rightarrow> string" where
  "strip_event [] = []"
| "strip_event (c # s) = (if prefix ''/api/event'' (c # s) then [] else c # strip_event s)"

definition tracker_script :: "Tab \<Rightarrow> Script option" where
  "tracker_script t =
     (case currentScript t of
        Some s \<Rightarrow> Some s
      | None \<Rightarrow>
          (case find (\<lambda>s. endpoint_attr s \<noteq> None) (scripts t) of
             Some s \<Rightarrow> Some s
           | None \<Rightarrow>
               find (\<lambda>s. case src_attr s of Some a \<Rightarrow> sublist ''/tracker.js'' a | None \<Rightarrow> False) (scripts t)))"

definition resolve_endpoint :: "Script option \<Rightarrow> string" where
  "resolve_endpoint script =
     (let attr = (case script of Some s \<Rightarrow> (case endpoint_attr s of Some a \<Rightarrow> a | None \<Rightarrow> []) | None \<Rightarrow> []);
          derived = (case script of Some s \<Rightarrow> derived_base (src_url s) | None \<Rightarrow> None)
      in if attr \<noteq> [] then attr
         else case derived of Some b \<Rightarrow> b @ ''/api/event'' | None \<Rightarrow> ''/api/event'')"

definition boot :: "Tab \<Rightarrow> Tab \<times> bool" where
  "boot t =
     (if statniveLive t \<noteq> None then (t, False)
      else if webdriver t \<or> phantom t then (t\<lparr>statniveLive := Some (Noop IDLE)\<rparr>, False)
      else let e = resolve_endpoint (tracker_script t) in
        if globalPrivacyControl t \<and> list_ex (\<lambda>s. honour_gpc s = Some ''1'') (scripts t)
        then (t\<lparr>statniveLive := Some (Noop WITHDRAWN)\<rparr>, False)
        else pageview \<lparr>endpoint = e, base_url = strip_event e, userId = [],
                        q = search_params (loc_search t), pageviewed = False\<rparr> t)"

section \<open>Events\<close>

text \<open>
  What can happen afterwards: calls of the public functions, answers to consent requests (with the
  action the request was made for), navigations within the page, and the unload backstop.
\<close>

datatype tracker_event =
    Track "json option" "json option" "json option"
  | Identify "json option" "json option"
  | Set_session "json option"
  | Accept_consent string
  | Withdraw_consent string
  | Consent_answer string answer
  | Push_state string string
  | Replace_state string string
  | Pop_state string string
  | Pagehide

definition go :: "string \<Rightarrow> string \<Rightarrow> Tab \<Rightarrow> Tab" where
  "go p s t = t\<lparr>loc_pathname := p, loc_search := s\<rparr>"

definition request_consent :: "Closure \<Rightarrow> string \<Rightarrow> string \<Rightarrow> Tab \<Rightarrow> Tab \<times> bool" where
  "request_consent c action csrfToken t =
     (t\<lparr>sent := sent t @ [Fetched (consent_request c action csrfToken)]\<rparr>, False)"

fun live_step :: "Closure \<Rightarrow> tracker_event \<Rightarrow> Tab \<Rightarrow> Tab \<times> bool" where
  "live_step c (Track name hit value) t = keep c t (fire c name hit value t)"
| "live_step c (Identify uid props) t = identify c uid props t"
| "live_step c (Set_session props) t = setSession c props t"
| "live_step c (Accept_consent token) t = request_consent c ''give'' token t"
| "live_step c (Withdraw_consent token) t = request_consent c ''withdraw'' token t"
| "live_step c (Consent_answer action r) t = (consent_answer action r t, False)"
| "live_step c (Push_state p s) t = refresh c (go p s t)"
| "live_step c (Replace_state p s) t = refresh c (go p s t)"
| "live_step c (Pop_state p s) t = refresh c (go p s t)"
| "live_step c Pagehide t = pageview c t"

text \<open>Without a live tracker only the navigations of the page itself remain.\<close>

fun idle_step :: "tracker_event \<Rightarrow> Tab \<Rightarrow> Tab" where
  "idle_step (Push_state p s) t = go p s t"
| "idle_step (Replace_state p s) t = go p s t"
| "idle_step (Pop_state p s) t = go p s t"
| "idle_step _ t = t"

definition tab_step :: "tracker_event \<Rightarrow> Tab \<Rightarrow> Tab \<times> bool" where
  "tab_step e t =
     (case statniveLive t of Some (Live c) \<Rightarrow> live_step c e t | _ \<Rightarrow> (idle_step e t, False))"

definition run :: "tracker_event list \<Rightarrow> Tab \<Rightarrow> Tab" where
  "run es t = fold (\<lambda>e t. fst (tab_step e t)) es t"

definition public_getConsent :: "Tab \<Rightarrow> string option" where
  "public_getConsent t =
     (case statniveLive t of Some (Noop c) \<Rightarrow> Some c | Some (Live c) \<Rightarrow> getConsent t | None \<Rightarrow> None)"

section \<open>Reading and writing cookies\<close>

text \<open>A jar as a browser holds it: distinct nonempty names, no separators inside names and values.\<close>

definition good_jar :: "(string, string) omap \<Rightarrow> bool" where
  "good_jar m \<longleftrightarrow> distinct (keys m) \<and>
     list_all (\<lambda>(n, v). n \<noteq> [] \<and> CHR ''='' \<notin> set n \<and> CHR '';'' \<notin> set n \<and> CHR '';'' \<notin> set v) m"

lemma split_semi_last: "CHR '';'' \<notin> set s \<Longrightarrow> split_semi s = [s]"
  by (induction s) auto

lemma split_semi_step: "CHR '';'' \<notin> set s \<Longrightarrow> split_semi (s @ ''; '' @ r) = s # split_semi r"
  by (induction s) auto

lemma split_semi_join:
  "list_all (\<lambda>s. CHR '';'' \<notin> set s) ps \<Longrightarrow> split_semi (join ''; '' ps) = (if ps = [] then [[]] else ps)"
proof (induction ps)
  case (Cons p ps)
  then show ?case using split_semi_step [of p "join ''; '' ps"] by (cases ps) (simp_all add: split_semi_last)
qed simp

lemma find_cookie_pairs:
  assumes "list_all (\<lambda>(n, v). n \<noteq> [] \<and> CHR ''='' \<notin> set n \<and> CHR '';'' \<notin> set n \<and> CHR '';'' \<notin> set v) m"
  shows "find_cookie k (map (\<lambda>(n, v). n @ ''='' @ v) m) =
     (case map_of m k of None \<Rightarrow> Some [] | Some v \<Rightarrow> decode_uri_component (hd (split_on CHR ''='' v)))"
  using assms
proof (induction m)
  case (Cons x m)
  obtain n v where x: "x = (n, v)" by (cases x)
  have sp: "split_on CHR ''='' (n @ ''='' @ v) = n # split_on CHR ''='' v"
    using Cons.prems by (simp add: x split_on_append)
  have "1 < length (n # split_on CHR ''='' v)" by (cases "split_on CHR ''='' v") auto
  moreover have "(n # split_on CHR ''='' v) ! 1 = hd (split_on CHR ''='' v)"
    by (simp add: hd_conv_nth)
  ultimately show ?case using Cons sp by (simp add: x Let_def)
qed simp

lemma ck_get_jar:
  assumes "good_jar (jar t)" and "k \<noteq> []"
  shows "ck_get k t =
     (case map_of (jar t) k of None \<Rightarrow> Some [] | Some v \<Rightarrow> decode_uri_component (hd (split_on CHR ''='' v)))"
proof (cases "jar t")
  case Nil
  then show ?thesis
    using assms(2) by (simp add: ck_get_def cookie_text_def)
next
  case (Cons x m)
  have ok: "list_all (\<lambda>(n, v). n \<noteq> [] \<and> CHR ''='' \<notin> set n \<and> CHR '';'' \<notin> set n \<and> CHR '';'' \<notin> set v) (jar t)"
    using assms(1) by (simp add: good_jar_def)
  then have "list_all (\<lambda>s. CHR '';'' \<notin> set s) (map (\<lambda>(n, v). n @ ''='' @ v) (jar t))"
    by (auto simp: list_all_iff)
  from split_semi_join [OF this]
  have "split_semi (cookie_text (jar t)) = map (\<lambda>(n, v). n @ ''='' @ v) (jar t)"
    using Cons by (simp add: cookie_text_def)
  then show ?thesis by (simp only: ck_get_def find_cookie_pairs [OF ok])
qed

lemma cookie_keys:
  "KC \<noteq> KU" "KC \<noteq> []" "KU \<noteq> []"
  "k = KC \<or> k = KU \<Longrightarrow> CHR ''='' \<notin> set k \<and> CHR '';'' \<notin> set k \<and> k \<noteq> [] \<and> length k \<le> 13"
  by (auto simp: KC_def KU_def)

lemma jar_ck_set:
  assumes "k = KC \<or> k = KU" and "v \<noteq> []"
  shows "jar (ck_set k v t) =
     (if 4096 < length k + length (encode_uri_component v) then jar t
      else omap_set k (encode_uri_component v) (jar t))"
proof -
  have semi: "CHR '';'' \<notin> set (k @ ''='' @ encode_uri_component v)"
    using cookie_keys(4) [OF assms(1)] encode_uri_set by auto
  have "split_on CHR '';'' (k @ ''='' @ encode_uri_component v @ COOK)
    = (k @ ''='' @ encode_uri_component v) # ['' SameSite=Lax'', '' Max-Age=31536000'', '' Path=/'']"
    using split_on_append [OF semi, of "tl COOK"] by (simp add: COOK_def)
  moreover have "split_first CHR ''='' (k @ ''='' @ encode_uri_component v) = Some (k, encode_uri_component v)"
    using cookie_keys(4) [OF assms(1)] by (simp add: split_first_append)
  ultimately show ?thesis using assms(2) by (simp add: ck_set_def cookie_assign_def)
qed

lemma jar_ck_clear:
  assumes "k = KC \<or> k = KU" shows "jar (ck_set k [] t) = omap_delete k (jar t)"
proof -
  have semi: "CHR '';'' \<notin> set (k @ ''='')" using cookie_keys(4) [OF assms] by auto
  have "split_on CHR '';'' (k @ ''=; Max-Age=0; Path=/'') = (k @ ''='') # ['' Max-Age=0'', '' Path=/'']"
    using split_on_append [OF semi, of "'' Max-Age=0; Path=/''"] by simp
  moreover have "split_first CHR ''='' (k @ ''='') = Some (k, [])"
    using cookie_keys(4) [OF assms] split_first_append [of "CHR ''=''" k "[]"] by simp
  ultimately show ?thesis using cookie_keys(4) [OF assms] by (simp add: ck_set_def cookie_assign_def)
qed

lemma good_jar_set:
  "good_jar m \<Longrightarrow> k = KC \<or> k = KU \<Longrightarrow> good_jar (omap_set k (encode_uri_component v) m)"
  "good_jar m \<Longrightarrow> good_jar (omap_delete k m)"
proof -
  have *: "list_all P m \<Longrightarrow> P (k, w) \<Longrightarrow> list_all P (omap_set k w m)" for P k and w :: string and m
    by (induction k w m rule: omap_set.induct) auto
  show "good_jar m \<Longrightarrow> k = KC \<or> k = KU \<Longrightarrow> good_jar (omap_set k (encode_uri_component v) m)"
    using cookie_keys(4) [of k] encode_uri_set [of "CHR '';''" v]
    by (auto simp: good_jar_def distinct_omap_set intro!: *)
  show "good_jar m \<Longrightarrow> good_jar (omap_delete k m)"
    by (auto simp: good_jar_def distinct_omap_delete) (auto simp: omap_delete_def list_all_iff)
qed

lemma encoded_value: "hd (split_on CHR ''='' (encode_uri_component v)) = encode_uri_component v"
  using encode_uri_set [of "CHR ''=''" v] by (simp add: split_on_no_sep)

lemma good_ck_set: "good_jar (jar t) \<Longrightarrow> k = KC \<or> k = KU \<Longrightarrow> good_jar (jar (ck_set k v t))"
  by (cases "v = []") (auto simp: jar_ck_set jar_ck_clear good_jar_set)

text \<open>Reading after a write, for the written cookie and for the other one.\<close>

lemma ck_get_set:
  assumes "good_jar (jar t)" and "k = KC \<or> k = KU" and "v \<noteq> []" and "well_formed v"
    and "length (encode_uri_component v) \<le> 4000"
  shows "ck_get k (ck_set k v t) = Some v"
  using assms cookie_keys(4) [OF assms(2)] ck_get_jar [OF good_ck_set [OF assms(1,2)], of k v]
  by (simp add: jar_ck_set map_of_omap_set encoded_value decode_encode_uri)

lemma ck_get_other:
  assumes "good_jar (jar t)" and "k = KC \<or> k = KU" and "k' = KC \<or> k' = KU" and "k \<noteq> k'"
  shows "ck_get k' (ck_set k v t) = ck_get k' t"
  using assms cookie_keys(4) [OF assms(3)] ck_get_jar [OF good_ck_set [OF assms(1,2)], of k' v] ck_get_jar [OF assms(1), of k']
  by (cases "v = []") (auto simp: jar_ck_set jar_ck_clear map_of_omap_set map_of_omap_delete)

lemma ck_get_clear:
  assumes "good_jar (jar t)" and "k = KC \<or> k = KU"
  shows "ck_get k (ck_set k [] t) = Some []"
  using assms cookie_keys(4) [OF assms(2)] ck_get_jar [OF good_ck_set [OF assms], of k "[]"]
  by (simp add: jar_ck_clear map_of_omap_delete)

section \<open>A tracker that keeps running\<close>

lemma ck_get_updates [simp]:
  "ck_get k (t\<lparr>sent := x\<rparr>) = ck_get k t"
  "ck_get k (t\<lparr>statniveLive := a\<rparr>) = ck_get k t"
  "ck_get k (t\<lparr>tab_storage := b\<rparr>) = ck_get k t"
  "ck_get k (go p s t) = ck_get k t"
  "ck_get k (transmit c r body t) = ck_get k t"
  "ck_get k (ss_set k' v t) = ck_get k t"
  by (simp_all add: ck_get_def go_def transmit_def ss_set_def)

lemma kept_fields [simp]:
  "jar (ss_set k v t) = jar t" "sent (ss_set k v t) = sent t" "statniveLive (ss_set k v t) = statniveLive t"
  "sent (ck_set k v t) = sent t" "statniveLive (ck_set k v t) = statniveLive t"
  "tab_storage (ck_set k v t) = tab_storage t"
  "jar (go p s t) = jar t" "sent (go p s t) = sent t" "tab_storage (go p s t) = tab_storage t"
  "statniveLive (go p s t) = statniveLive t"
  "jar (transmit c r body t) = jar t" "tab_storage (transmit c r body t) = tab_storage t"
  by (simp_all add: ss_set_def ck_set_def go_def transmit_def)

definition readable :: "Tab \<Rightarrow> bool" where
  "readable t \<longleftrightarrow> good_jar (jar t) \<and> ck_get KC t \<noteq> None \<and> ck_get KU t \<noteq> None"

lemma readable_updates [simp]:
  "readable (t\<lparr>sent := x\<rparr>) = readable t"
  "readable (t\<lparr>statniveLive := a\<rparr>) = readable t"
  "readable (go p s t) = readable t"
  "readable (transmit c r body t) = readable t"
  "readable (ss_set k v t) = readable t"
  by (simp_all add: readable_def)

lemma ck_get_same:
  assumes "good_jar (jar t)" and "k = KC \<or> k = KU" and "well_formed v"
  shows "ck_get k (ck_set k v t) \<in> {ck_get k t, Some v}"
proof (cases "v = []")
  case False
  show ?thesis
  proof (cases "4096 < length k + length (encode_uri_component v)")
    case True
    then show ?thesis using assms(2) False by (simp add: ck_get_def jar_ck_set)
  next
    case short: False
    show ?thesis
      using assms cookie_keys(4) [OF assms(2)] short False
        ck_get_jar [OF good_ck_set [OF assms(1,2)], of k v]
      by (simp add: jar_ck_set map_of_omap_set encoded_value decode_encode_uri)
  qed
qed (use ck_get_clear [OF assms(1,2)] in simp)

lemma readable_ck_set:
  assumes "readable t" and "k = KC \<or> k = KU" and "well_formed v"
  shows "readable (ck_set k v t)"
proof -
  have g: "good_jar (jar t)" using assms(1) by (simp add: readable_def)
  have "ck_get k' (ck_set k v t) \<noteq> None" if k': "k' = KC \<or> k' = KU" for k'
  proof (cases "k' = k")
    case True
    moreover have "ck_get k t \<noteq> None" using assms(1,2) by (auto simp: readable_def)
    ultimately show ?thesis using ck_get_same [OF g assms(2,3)] by auto
  next
    case False
    then show ?thesis using ck_get_other [OF g assms(2) k', of v] assms(1) k' by (auto simp: readable_def)
  qed
  then show ?thesis using good_ck_set [OF g assms(2)] by (simp add: readable_def)
qed

lemma well_formed_states: "well_formed RESOLVED" "well_formed WITHDRAWN" "well_formed []"
  by (rule well_formed_ascii; simp add: is_ascii_def RESOLVED_def WITHDRAWN_def)+

text \<open>The text of user properties a caller passes is valid text, as strings of the language are.\<close>

fun event_ok :: "tracker_event \<Rightarrow> bool" where
  "event_ok (Identify uid (Some j)) = well_formed (stringify j)"
| "event_ok e = True"

fun messages :: "tracker_event \<Rightarrow> nat" where
  "messages (Track name hit value) = 1"
| "messages (Accept_consent token) = 1"
| "messages (Withdraw_consent token) = 1"
| "messages (Push_state p s) = 1"
| "messages (Replace_state p s) = 1"
| "messages (Pop_state p s) = 1"
| "messages e = 0"

definition live :: "Tab \<Rightarrow> bool" where
  "live t \<longleftrightarrow> (\<exists>c. statniveLive t = Some (Live c) \<and> pageviewed c)"

definition steady :: "Tab \<Rightarrow> Tab \<times> bool \<Rightarrow> nat \<Rightarrow> bool" where
  "steady t r n \<longleftrightarrow>
     \<not> snd r \<and> readable (fst r) \<and> live (fst r) \<and> length (sent (fst r)) = length (sent t) + n"

lemma getConsent_readable: "readable t \<Longrightarrow> getConsent t \<noteq> None"
  by (simp add: readable_def getConsent_def)

lemma fire_readable:
  assumes "readable t" obtains t' where "fire c name hit value t = Some t'" "readable t'"
    "length (sent t') = length (sent t) + 1"
proof -
  obtain cs u where "getConsent t = Some cs" "ck_get KU t = Some u"
    using getConsent_readable [OF assms] assms by (auto simp: readable_def)
  then have "\<exists>r body. fire c name hit value t = Some (transmit c r body t)"
    by (auto simp: fire_def Let_def)
  with assms that show thesis by (auto simp: transmit_def)
qed

lemma steady_keep:
  "readable t' \<Longrightarrow> pageviewed c \<Longrightarrow> length (sent t') = length (sent t) + n \<Longrightarrow> steady t (keep c u (Some t')) n"
  by (simp add: steady_def keep_def live_def)

lemma steady_pageview:
  "readable t \<Longrightarrow> steady t (pageview c t) (if pageviewed c then 0 else 1)"
proof -
  assume r: "readable t"
  from fire_readable [OF r, of "c\<lparr>pageviewed := True\<rparr>" pv None None]
  obtain t' where "fire (c\<lparr>pageviewed := True\<rparr>) pv None None t = Some t'" "readable t'"
    "length (sent t') = length (sent t) + 1" by blast
  with r show ?thesis by (simp add: pageview_def Let_def steady_keep)
qed

lemma steady_refresh: "readable t \<Longrightarrow> steady t (refresh c t) 1"
  using steady_pageview [of t "c\<lparr>q := search_params (loc_search t), pageviewed := False\<rparr>"]
  by (simp add: refresh_def)

lemma live_step_steady:
  assumes "readable t" and "statniveLive t = Some (Live c)" and "pageviewed c" and "event_ok e"
  shows "steady t (live_step c e t) (messages e)"
proof (cases e)
  case (Track name hit v)
  obtain t' where "fire c name hit v t = Some t'" "readable t'" "length (sent t') = length (sent t) + 1"
    using fire_readable [OF assms(1)] by blast
  then show ?thesis by (simp add: Track steady_keep assms(3))
next
  case (Identify uid up)
  obtain cs where cs: "getConsent t = Some cs" using getConsent_readable [OF assms(1)] by auto
  have "truthy up \<Longrightarrow> readable (ck_set KU (stringify (the up)) t)"
    using assms(1,4) by (cases up) (auto simp: Identify intro: readable_ck_set)
  with cs show ?thesis by (simp add: Identify identify_def Let_def steady_keep assms(1,3))
next
  case (Set_session sp)
  obtain cs where cs: "getConsent t = Some cs" using getConsent_readable [OF assms(1)] by auto
  then show ?thesis by (simp add: Set_session setSession_def steady_keep assms(1,3))
next
  case (Consent_answer action r)
  have "readable (consent_answer action r t)"
    using assms(1) well_formed_states
    by (cases r) (auto simp: consent_answer_def intro!: readable_ck_set)
  moreover have "sent (consent_answer action r t) = sent t" "statniveLive (consent_answer action r t) = statniveLive t"
    by (cases r; simp add: consent_answer_def)+
  ultimately show ?thesis by (simp add: Consent_answer steady_def live_def assms(2,3))
next
  case (Push_state p s)
  then show ?thesis using steady_refresh [of "go p s t" c] assms(1) by (simp add: steady_def)
next
  case (Replace_state p s)
  then show ?thesis using steady_refresh [of "go p s t" c] assms(1) by (simp add: steady_def)
next
  case (Pop_state p s)
  then show ?thesis using steady_refresh [of "go p s t" c] assms(1) by (simp add: steady_def)
next
  case Pagehide
  then show ?thesis using steady_pageview [OF assms(1), of c] assms(3) by simp
qed (simp_all add: request_consent_def steady_def live_def assms)

text \<open>Whether some step of a run throws.\<close>

fun throws :: "tracker_event list \<Rightarrow> Tab \<Rightarrow> bool" where
  "throws [] t = False"
| "throws (e # es) t = (snd (tab_step e t) \<or> throws es (fst (tab_step e t)))"

lemma run_steady:
  assumes "readable t" and "live t" and "list_all event_ok es"
  shows "\<not> throws es t \<and> readable (run es t) \<and> live (run es t)
    \<and> length (sent (run es t)) = length (sent t) + sum_list (map messages es)"
  using assms
proof (induction es arbitrary: t)
  case (Cons e es)
  from Cons.prems(2) obtain c where c: "statniveLive t = Some (Live c)" "pageviewed c" by (auto simp: live_def)
  have "steady t (tab_step e t) (messages e)"
    using live_step_steady [OF Cons.prems(1) c] Cons.prems(3) by (simp add: tab_step_def c)
  then show ?case using Cons.IH [of "fst (tab_step e t)"] Cons.prems(3) by (simp add: steady_def run_def)
qed (simp add: run_def)

definition suppressed :: "Tab \<Rightarrow> bool" where
  "suppressed t \<longleftrightarrow> webdriver t \<or> phantom t \<or>
     globalPrivacyControl t \<and> list_ex (\<lambda>s. honour_gpc s = Some ''1'') (scripts t)"

lemma boot_steady:
  assumes "readable t" and "statniveLive t = None" and "\<not> suppressed t"
  shows "steady t (boot t) 1"
proof -
  let ?e = "resolve_endpoint (tracker_script t)"
  let ?c = "\<lparr>endpoint = ?e, base_url = strip_event ?e, userId = [], q = search_params (loc_search t),
              pageviewed = False\<rparr>"
  have "boot t = pageview ?c t" using assms(2,3) by (auto simp: boot_def suppressed_def Let_def)
  then show ?thesis using steady_pageview [OF assms(1), of ?c] by simp
qed

text \<open>
  C5: one pageview per route. On a page whose consent cookies can be read, nothing the tracker does
  ever throws, and it sends exactly one message for the page load, one for every navigation within
  the page (pushState, replaceState, back or forward), one for every track call and one for every
  consent call; unload events, however many, and every other event send nothing.
\<close>

theorem pageview_once_per_route:
  assumes "readable t" and "statniveLive t = None" and "\<not> suppressed t" and "list_all event_ok es"
  shows "\<not> snd (boot t) \<and> \<not> throws es (fst (boot t))
    \<and> length (sent (run es (fst (boot t)))) = length (sent t) + 1 + sum_list (map messages es)"
  using boot_steady [OF assms(1-3)] run_steady [of "fst (boot t)" es] assms(4) by (simp add: steady_def)

definition example_tab :: Tab where
  "example_tab =
     \<lparr>webdriver = False, phantom = False, globalPrivacyControl = False, can_beacon = False,
      scripts = [], currentScript = None, loc_hostname = ''a.example'', loc_pathname = ''/'',
      loc_search = [], doc_title = ''Home'', doc_referrer = [], jar = [], tab_storage = Some [],
      sent = [], statniveLive = None\<rparr>"

lemma example_readable: "readable example_tab" and example_free: "\<not> suppressed example_tab"
proof -
  have "good_jar (jar example_tab)" by (simp add: example_tab_def good_jar_def keys_def)
  with ck_get_jar [OF this] cookie_keys show "readable example_tab"
    by (simp add: readable_def) (simp add: example_tab_def)
qed (simp add: suppressed_def example_tab_def)

theorem pageview_once_per_route_witness:
  "length (sent (run [Pagehide, Push_state ''/a'' [], Pagehide, Pagehide] (fst (boot example_tab)))) = 2"
  using pageview_once_per_route [OF example_readable _ example_free,
      of "[Pagehide, Push_state ''/a'' [], Pagehide, Pagehide]"]
  by (simp add: example_tab_def)

section \<open>Suppression\<close>

lemma idle_step_fields:
  "sent (idle_step e t) = sent t" "jar (idle_step e t) = jar t" "tab_storage (idle_step e t) = tab_storage t"
  "statniveLive (idle_step e t) = statniveLive t"
  by (cases e; simp)+

lemma idle_run:
  "statniveLive t = Some (Noop cs) \<Longrightarrow>
     sent (run es t) = sent t \<and> jar (run es t) = jar t \<and> tab_storage (run es t) = tab_storage t
     \<and> statniveLive (run es t) = Some (Noop cs) \<and> \<not> throws es t"
proof (induction es arbitrary: t)
  case (Cons e es)
  have "statniveLive (fst (tab_step e t)) = Some (Noop cs)"
    using Cons.prems by (simp add: tab_step_def idle_step_fields)
  from Cons.IH [OF this] show ?case
    using Cons.prems by (simp add: run_def tab_step_def idle_step_fields)
qed (simp add: run_def)

text \<open>
  C8: suppressed pages. In an automated browser, or when the visitor's browser sends the global
  privacy control and some script of the page honours it, the tracker sends nothing, writes and
  deletes no cookie and no stored value, and never throws, whatever is called afterwards; the
  consent it reports is idle for automation and withdrawn for the privacy control. The header of the
  source and two documents say that the control is not consulted in the browser; with the
  attribute \<^verbatim>\<open>data-statnive-honour-gpc\<close> on the page it is.
\<close>

theorem suppressed_is_silent:
  assumes "suppressed t" and "statniveLive t = None"
  shows "sent (run es (fst (boot t))) = sent t \<and> jar (run es (fst (boot t))) = jar t
    \<and> tab_storage (run es (fst (boot t))) = tab_storage t
    \<and> \<not> snd (boot t) \<and> \<not> throws es (fst (boot t))
    \<and> public_getConsent (run es (fst (boot t))) = Some (if webdriver t \<or> phantom t then ''idle'' else ''withdrawn'')"
proof -
  let ?cs = "if webdriver t \<or> phantom t then IDLE else WITHDRAWN"
  have b: "boot t = (t\<lparr>statniveLive := Some (Noop ?cs)\<rparr>, False)"
    using assms by (auto simp: boot_def suppressed_def Let_def)
  have "statniveLive (fst (boot t)) = Some (Noop ?cs)" by (simp add: b)
  from idle_run [OF this, of es] show ?thesis
    by (auto simp: b public_getConsent_def IDLE_def WITHDRAWN_def)
qed

theorem suppressed_is_silent_witness:
  "sent (run [Track pv None None, Accept_consent []] (fst (boot (example_tab\<lparr>webdriver := True\<rparr>)))) = []"
  using suppressed_is_silent [of "example_tab\<lparr>webdriver := True\<rparr>" "[Track pv None None, Accept_consent []]"]
  by (simp add: suppressed_def example_tab_def)

section \<open>The consent gate\<close>

definition no_props :: "string \<Rightarrow> bool" where
  "no_props b \<longleftrightarrow> (\<exists>ms. b = stringify (JObj (ms @ [(''session_props'', JObj []), (''user_props'', JObj [])])))"

definition consent_call :: "string \<Rightarrow> bool" where
  "consent_call b \<longleftrightarrow> (\<exists>a. b = stringify (JObj [(''action'', JStr a)]))"

fun body_of :: "transmission \<Rightarrow> string option" where
  "body_of (Beacon u b) = Some b"
| "body_of (Fetched r) = rq_body r"

text \<open>A message without stored properties: no consent header, and an event with both sets empty.\<close>

definition anonymous :: "transmission \<Rightarrow> bool" where
  "anonymous m \<longleftrightarrow>
     (\<exists>b. body_of m = Some b \<and> (no_props b \<or> consent_call b))
     \<and> (case m of Beacon u b \<Rightarrow> True | Fetched r \<Rightarrow> map_of (rq_headers r) ''X-Statnive-Consent'' = None)"

text \<open>An answer that gives consent.\<close>

fun gives_consent :: "tracker_event \<Rightarrow> bool" where
  "gives_consent (Consent_answer action (Answer st b)) = (action = ''give'' \<and> ok_status st)"
| "gives_consent e = False"

text \<open>How a page may change while consent is not given.\<close>

definition within_gate :: "Tab \<Rightarrow> Tab \<Rightarrow> bool" where
  "within_gate t t' \<longleftrightarrow>
     good_jar (jar t') \<and> getConsent t' \<noteq> Some RESOLVED
     \<and> map_of (jar t') KU \<in> {map_of (jar t) KU, None}
     \<and> storage_get KS (tab_storage t') \<in> {storage_get KS (tab_storage t), None}
     \<and> (\<exists>new. sent t' = sent t @ new \<and> list_all anonymous new)"

lemma within_gate_trans: "within_gate t t' \<Longrightarrow> within_gate t' t'' \<Longrightarrow> within_gate t t''"
  unfolding within_gate_def by auto

lemma within_gate_same:
  assumes "good_jar (jar t)" and "getConsent t \<noteq> Some RESOLVED"
    and "jar t' = jar t" and "tab_storage t' = tab_storage t" and "sent t' = sent t @ new" and "list_all anonymous new"
  shows "within_gate t t'"
proof -
  have "getConsent t' = getConsent t" using assms(3) by (simp add: getConsent_def ck_get_def)
  with assms show ?thesis by (auto simp: within_gate_def)
qed

lemma event_body_no_props: "no_props (event_body c t name hit v (JObj []) (JObj []))"
  unfolding no_props_def event_body_def by blast

lemma fire_gate:
  assumes "good_jar (jar t)" and "getConsent t \<noteq> Some RESOLVED" and "fire c name hit v t = Some t'"
  shows "within_gate t t'"
proof -
  have f: "t' = transmit c False (event_body c t name hit v (JObj []) (JObj [])) t"
    using assms(2,3) by (auto simp: fire_def Let_def split: option.splits if_splits)
  have "\<exists>m. sent t' = sent t @ [m] \<and> anonymous m"
    using event_body_no_props by (auto simp: f transmit_def anonymous_def)
  with assms(1,2) show ?thesis by (auto intro: within_gate_same simp: f)
qed

lemma keep_gate:
  assumes "good_jar (jar t)" and "getConsent t \<noteq> Some RESOLVED" and "\<And>t'. r = Some t' \<Longrightarrow> within_gate t t'"
  shows "within_gate t (fst (keep c t r))"
proof -
  have "within_gate u (u\<lparr>statniveLive := Some (Live c)\<rparr>)" if "good_jar (jar u)" "getConsent u \<noteq> Some RESOLVED" for u
    using that by (intro within_gate_same [where new = "[]"]) simp_all
  then show ?thesis
    using assms by (cases r) (auto simp: keep_def within_gate_def intro: within_gate_trans)
qed

lemma pageview_gate:
  assumes "good_jar (jar t)" and "getConsent t \<noteq> Some RESOLVED"
  shows "within_gate t (fst (pageview c t))"
proof -
  have "within_gate t t" using assms by (intro within_gate_same [where new = "[]"]) simp_all
  then show ?thesis
    unfolding pageview_def Let_def using assms fire_gate [OF assms]
    by (auto intro: keep_gate)
qed

lemma refresh_gate:
  assumes "good_jar (jar t)" and "getConsent t \<noteq> Some RESOLVED"
  shows "within_gate t (fst (refresh c (go p s t)))"
proof -
  have g: "within_gate t (go p s t)" using assms by (intro within_gate_same [where new = "[]"]) simp_all
  have "getConsent (go p s t) = getConsent t" by (simp add: getConsent_def)
  with g show ?thesis
    unfolding refresh_def using assms by (intro within_gate_trans [OF g] pageview_gate) simp_all
qed

lemma withdraw_gate:
  assumes "good_jar (jar t)"
  shows "within_gate t (ss_set KS [] (ck_set KU [] (ck_set KC WITHDRAWN t)))"
proof -
  let ?u = "ck_set KC WITHDRAWN t"
  have gu: "good_jar (jar ?u)" using good_ck_set [OF assms] by simp
  have gw: "good_jar (jar (ck_set KU [] ?u))" using good_ck_set [OF gu] by simp
  have len: "length (encode_uri_component WITHDRAWN) \<le> 4000" by (simp add: WITHDRAWN_def encode_uri_component_def percent_def)
  have ne: "WITHDRAWN \<noteq> []" by (simp add: WITHDRAWN_def)
  have "ck_get KC (ck_set KU [] ?u) = Some WITHDRAWN"
    using ck_get_set [OF assms, of KC WITHDRAWN] ck_get_other [OF gu, of KU KC "[]"] cookie_keys(1) len ne well_formed_states(2)
    by simp
  then have "getConsent (ss_set KS [] (ck_set KU [] ?u)) = Some WITHDRAWN" using ne by (simp add: getConsent_def)
  moreover have "map_of (jar (ck_set KU [] ?u)) KU = None" by (simp add: jar_ck_clear map_of_omap_delete)
  moreover have "storage_get KS (storage_remove KS st) = None" for st
    by (cases st) (simp_all add: storage_get_def storage_remove_def map_of_omap_delete)
  moreover have "WITHDRAWN \<noteq> RESOLVED" by (simp add: WITHDRAWN_def RESOLVED_def)
  ultimately show ?thesis using gw by (simp add: within_gate_def) (simp add: ss_set_def)
qed

lemma consent_call_anonymous: "anonymous (Fetched (consent_request c a token))"
  by (auto simp: anonymous_def consent_call_def consent_request_def)

lemma tab_step_gate:
  assumes "good_jar (jar t)" and "getConsent t \<noteq> Some RESOLVED" and "\<not> gives_consent e"
  shows "within_gate t (fst (tab_step e t))"
proof -
  have refl: "within_gate t t" using assms by (intro within_gate_same [where new = "[]"]) simp_all
  show ?thesis
  proof (cases "\<exists>c. statniveLive t = Some (Live c)")
    case False
    then have "tab_step e t = (idle_step e t, False)"
      by (auto simp: tab_step_def split: option.splits api.splits)
    then show ?thesis
      using assms by (intro within_gate_same [where new = "[]"]) (simp_all add: idle_step_fields)
  next
    case True
    then obtain c where c: "statniveLive t = Some (Live c)" by blast
    have "within_gate t (fst (live_step c e t))"
    proof (cases e)
      case (Track name hit v)
      then show ?thesis using assms fire_gate [OF assms(1,2)] by (auto intro: keep_gate)
    next
      case (Identify uid up)
      then show ?thesis using assms refl
        by (auto simp: identify_def Let_def intro!: keep_gate split: option.splits if_splits)
    next
      case (Set_session sp)
      then show ?thesis using assms refl
        by (auto simp: setSession_def intro!: keep_gate split: option.splits if_splits)
    next
      case (Consent_answer action r)
      then show ?thesis using assms refl withdraw_gate [OF assms(1)] by (cases r) (auto simp: consent_answer_def)
    next
      case (Accept_consent token)
      then show ?thesis using assms consent_call_anonymous
        by (auto simp: request_consent_def intro!: within_gate_same)
    next
      case (Withdraw_consent token)
      then show ?thesis using assms consent_call_anonymous
        by (auto simp: request_consent_def intro!: within_gate_same)
    qed (use assms refresh_gate [OF assms(1,2)] pageview_gate [OF assms(1,2)] in simp_all)
    then show ?thesis by (simp add: tab_step_def c)
  qed
qed

lemma run_gate:
  assumes "good_jar (jar t)" and "getConsent t \<noteq> Some RESOLVED" and "list_all (\<lambda>e. \<not> gives_consent e) es"
  shows "within_gate t (run es t)"
  using assms
proof (induction es arbitrary: t)
  case Nil
  then show ?case by (auto simp: run_def intro!: within_gate_same [where new = "[]"])
next
  case (Cons e es)
  have step: "within_gate t (fst (tab_step e t))" using tab_step_gate Cons.prems by simp
  moreover have "within_gate (fst (tab_step e t)) (run es (fst (tab_step e t)))"
    using Cons.IH Cons.prems(3) step by (simp add: within_gate_def)
  ultimately show ?case using within_gate_trans by (simp add: run_def)
qed

lemma boot_gate:
  assumes "good_jar (jar t)" and "getConsent t \<noteq> Some RESOLVED" shows "within_gate t (fst (boot t))"
proof -
  have "within_gate t t'" if "jar t' = jar t" "tab_storage t' = tab_storage t" "sent t' = sent t" for t'
    using assms that by (intro within_gate_same [where new = "[]"]) simp_all
  then show ?thesis using pageview_gate [OF assms] by (auto simp: boot_def Let_def)
qed

text \<open>
  C3: the consent gate. From a page where consent is not given, through loading the tracker and any
  sequence of events in which no consent request for giving succeeds, the property cookie and the
  stored session properties never appear or change (a withdrawal may remove them), and every message
  that is sent carries empty session and user properties and no consent header, even if the browser
  already held stored properties.
\<close>

theorem consent_gate:
  assumes "good_jar (jar t)" and "getConsent t \<noteq> Some ''resolved''"
    and "list_all (\<lambda>e. \<not> gives_consent e) es"
  shows "map_of (jar (run es (fst (boot t)))) ''sn_user_props'' \<in> {map_of (jar t) ''sn_user_props'', None}
    \<and> storage_get ''sn_sess_props'' (tab_storage (run es (fst (boot t))))
        \<in> {storage_get ''sn_sess_props'' (tab_storage t), None}
    \<and> (\<exists>new. sent (run es (fst (boot t))) = sent t @ new \<and> list_all anonymous new)"
proof -
  have "within_gate t (fst (boot t))" using boot_gate assms(1,2) by (simp add: RESOLVED_def)
  moreover from this have "within_gate (fst (boot t)) (run es (fst (boot t)))"
    using run_gate assms(3) by (simp add: within_gate_def)
  ultimately have "within_gate t (run es (fst (boot t)))" by (rule within_gate_trans)
  then show ?thesis by (simp add: within_gate_def KU_def KS_def)
qed

theorem consent_gate_witness:
  "storage_get ''sn_sess_props'' (tab_storage (run [Set_session (Some (JObj [(''plan'', JStr ''pro'')]))]
     (fst (boot example_tab)))) = None"
proof -
  have g: "good_jar (jar example_tab)" using example_readable by (simp add: readable_def)
  have "getConsent example_tab \<noteq> Some ''resolved''"
    using ck_get_jar [OF g, of KC] cookie_keys by (simp add: getConsent_def IDLE_def) (simp add: example_tab_def)
  from consent_gate [OF g this, of "[Set_session (Some (JObj [(''plan'', JStr ''pro'')]))]"]
  show ?thesis by (simp add: example_tab_def storage_get_def)
qed

section \<open>Properties travel with consent\<close>

lemma event_body_updates [simp]:
  "event_body c (t\<lparr>sent := x\<rparr>) n h v s u = event_body c t n h v s u"
  "event_body c (t\<lparr>statniveLive := a\<rparr>) n h v s u = event_body c t n h v s u"
  "event_body c (ck_set k w t) n h v s u = event_body c t n h v s u"
  "event_body c (ss_set k w t) n h v s u = event_body c t n h v s u"
  by (simp_all add: event_body_def event_members_def ck_set_def ss_set_def)

lemma getConsent_updates [simp]:
  "getConsent (t\<lparr>sent := x\<rparr>) = getConsent t"
  "getConsent (t\<lparr>statniveLive := a\<rparr>) = getConsent t"
  "getConsent (ss_set k w t) = getConsent t"
  by (simp_all add: getConsent_def)

lemma ss_get_set:
  "tab_storage t \<noteq> None \<Longrightarrow> w \<noteq> [] \<Longrightarrow> ss_get k (ss_set k w t) = w"
  "ss_get k (ss_set k [] t) = []"
  by (cases "tab_storage t"; simp add: ss_get_def ss_set_def storage_get_def storage_set_def
      storage_remove_def map_of_omap_set map_of_omap_delete)+

lemma ss_get_updates [simp]:
  "ss_get k (t\<lparr>sent := x\<rparr>) = ss_get k t"
  "ss_get k (t\<lparr>statniveLive := a\<rparr>) = ss_get k t"
  "ss_get k (ck_set k' w t) = ss_get k t"
  by (simp_all add: ss_get_def)

lemma jp_stringify: "json_ok j \<Longrightarrow> jp (stringify j) = j"
  using json_parse_stringify [of j] stringify_head [of j] by (auto simp: jp_def)

lemma track_body:
  assumes "statniveLive t = Some (Live c)" and "getConsent t = Some cs" and "ck_get KU t = Some u"
  shows "map body_of (sent (run [Track n h v] t)) = map body_of (sent t) @
     [Some (if cs = RESOLVED then event_body c t n h v (jp (ss_get KS t)) (jp u)
            else event_body c t n h v (JObj []) (JObj []))]"
  using assms by (simp add: run_def tab_step_def fire_def keep_def transmit_def)

lemma after_withdraw:
  fixes b :: string
  assumes "good_jar (jar t)" and "ok_status st"
  defines "t' \<equiv> consent_answer ''withdraw'' (Answer st b) t"
  shows "getConsent t' = Some WITHDRAWN" and "ck_get KU t' = Some []" and "statniveLive t' = statniveLive t"
    and "sent t' = sent t"
proof -
  let ?u = "ck_set KC WITHDRAWN t"
  have gu: "good_jar (jar ?u)" using good_ck_set [OF assms(1)] by simp
  have len: "length (encode_uri_component WITHDRAWN) \<le> 4000" by (simp add: WITHDRAWN_def encode_uri_component_def percent_def)
  have ne: "WITHDRAWN \<noteq> []" by (simp add: WITHDRAWN_def)
  have t': "t' = ss_set KS [] (ck_set KU [] ?u)" using assms(2) by (simp add: t'_def consent_answer_def)
  have "ck_get KC (ck_set KU [] ?u) = Some WITHDRAWN"
    using ck_get_set [OF assms(1), of KC WITHDRAWN] ck_get_other [OF gu, of KU KC "[]"] cookie_keys(1) len ne well_formed_states(2)
    by simp
  then show "getConsent t' = Some WITHDRAWN" using ne by (simp add: getConsent_def t')
  show "ck_get KU t' = Some []" using ck_get_clear [OF gu, of KU] by (simp add: t')
qed (simp_all add: assms(2) t'_def consent_answer_def)

text \<open>
  A tracker whose page holds stored properties: what it reads from its two stores, the user id in its
  memory, and that it may send them, or has none to send.
\<close>

definition holds :: "string \<Rightarrow> json \<Rightarrow> json \<Rightarrow> Tab \<Rightarrow> bool" where
  "holds uid sess user t \<longleftrightarrow>
     good_jar (jar t) \<and> (\<exists>c. statniveLive t = Some (Live c) \<and> userId c = uid)
     \<and> (\<exists>u. ck_get KU t = Some u \<and> jp u = user) \<and> jp (ss_get KS t) = sess
     \<and> (getConsent t = Some RESOLVED \<or> getConsent t \<noteq> None \<and> sess = JObj [] \<and> user = JObj [])"

text \<open>An event with these properties and this user id, or a consent call.\<close>

definition carries :: "string \<Rightarrow> json \<Rightarrow> json \<Rightarrow> transmission \<Rightarrow> bool" where
  "carries uid sess user m \<longleftrightarrow>
     (\<exists>c t n h v. userId c = uid \<and> body_of m = Some (event_body c t n h v sess user))
     \<or> (\<exists>b. body_of m = Some b \<and> consent_call b)"

text \<open>What sets properties or the user id, and what an answer may change.\<close>

fun sets_props :: "tracker_event \<Rightarrow> bool" where
  "sets_props (Identify uid up) = True"
| "sets_props (Set_session sp) = True"
| "sets_props e = False"

fun is_consent_answer :: "tracker_event \<Rightarrow> bool" where
  "is_consent_answer (Consent_answer action r) = True"
| "is_consent_answer e = False"

definition keeps_holding :: "string \<Rightarrow> json \<Rightarrow> json \<Rightarrow> Tab \<Rightarrow> Tab \<Rightarrow> bool" where
  "keeps_holding uid sess user t t' \<longleftrightarrow>
     holds uid sess user t' \<and> (\<exists>new. sent t' = sent t @ new \<and> list_all (carries uid sess user) new)"

lemma keeps_holding_trans:
  "keeps_holding uid sess user t t' \<Longrightarrow> keeps_holding uid sess user t' t'' \<Longrightarrow> keeps_holding uid sess user t t''"
  unfolding keeps_holding_def by auto

lemma holds_same:
  "\<lbrakk>holds uid sess user t; jar t' = jar t; tab_storage t' = tab_storage t;
    statniveLive t' = Some (Live c); userId c = uid\<rbrakk> \<Longrightarrow> holds uid sess user t'"
  unfolding holds_def getConsent_def ck_get_def ss_get_def by simp

lemma fire_holding:
  assumes "holds uid sess user t" and "userId c = uid"
  obtains r where "fire c n h v t = Some (transmit c r (event_body c t n h v sess user) t)"
proof -
  obtain u cs where "ck_get KU t = Some u" "jp u = user" "getConsent t = Some cs" "jp (ss_get KS t) = sess"
    and "cs = RESOLVED \<or> sess = JObj [] \<and> user = JObj []"
    using assms(1) by (auto simp: holds_def)
  then show thesis by (intro that [of "cs = RESOLVED"]) (auto simp: fire_def Let_def)
qed

lemma keep_fire_holding:
  assumes "holds uid sess user t" and "userId c = uid"
    and "userId c' = uid"
  shows "keeps_holding uid sess user t (fst (keep c' t (fire c n h v t)))"
proof -
  from fire_holding [OF assms(1,2), of n h v] obtain r
    where f: "fire c n h v t = Some (transmit c r (event_body c t n h v sess user) t)" by blast
  have "\<exists>m. sent (transmit c r b t) = sent t @ [m] \<and> body_of m = Some b" for b by (simp add: transmit_def)
  then obtain m where "sent (transmit c r (event_body c t n h v sess user) t) = sent t @ [m]"
    "carries uid sess user m"
    using assms(2) unfolding carries_def by blast
  moreover have "holds uid sess user ((transmit c r b t)\<lparr>statniveLive := Some (Live c')\<rparr>)" for b
    by (rule holds_same [OF assms(1) _ _ _ assms(3)]) simp_all
  ultimately show ?thesis by (simp add: keeps_holding_def keep_def f)
qed

lemma pageview_holding:
  assumes "holds uid sess user t" and "userId c = uid"
  shows "keeps_holding uid sess user t (fst (pageview c t))"
proof (cases "pageviewed c")
  case True
  have "holds uid sess user (t\<lparr>statniveLive := Some (Live c)\<rparr>)"
    by (rule holds_same [OF assms(1) _ _ _ assms(2)]) simp_all
  then show ?thesis by (simp add: True pageview_def keep_def keeps_holding_def)
next
  case False
  then show ?thesis
    using keep_fire_holding [OF assms(1), of "c\<lparr>pageviewed := True\<rparr>" "c\<lparr>pageviewed := True\<rparr>"] assms(2)
    by (simp add: pageview_def Let_def)
qed

lemma refresh_holding:
  assumes "holds uid sess user t" and "userId c = uid"
  shows "keeps_holding uid sess user t (fst (refresh c (go p s t)))"
proof -
  obtain d where d: "statniveLive t = Some (Live d)" "userId d = uid" using assms(1) by (auto simp: holds_def)
  have "holds uid sess user (go p s t)" by (rule holds_same [OF assms(1) _ _ _ d(2)]) (simp_all add: d)
  from pageview_holding [OF this, of "c\<lparr>q := search_params (loc_search (go p s t)), pageviewed := False\<rparr>"] assms(2)
  show ?thesis by (simp add: refresh_def keeps_holding_def)
qed

text \<open>An answer to a consent call leaves a page without stored properties without them.\<close>

lemma consent_answer_empty:
  assumes "holds uid (JObj []) (JObj []) t"
  shows "holds uid (JObj []) (JObj []) (consent_answer action r t)"
proof (cases "\<exists>st b. r = Answer st b \<and> ok_status st")
  case False
  then show ?thesis using assms by (cases r) (auto simp: consent_answer_def)
next
  case True
  then obtain st b where r: "r = Answer st b" "ok_status st" by blast
  obtain c u where t: "good_jar (jar t)" "statniveLive t = Some (Live c)" "userId c = uid" "ck_get KU t = Some u"
    "jp u = JObj []" "jp (ss_get KS t) = JObj []"
    using assms by (auto simp: holds_def)
  show ?thesis
  proof (cases "action = ''give''")
    case True
    have "getConsent (ck_set KC RESOLVED t) = Some RESOLVED"
      using ck_get_set [OF t(1), of KC RESOLVED] well_formed_states
      by (simp add: getConsent_def RESOLVED_def encode_uri_component_def percent_def)
    moreover have "ck_get KU (ck_set KC RESOLVED t) = Some u"
      using ck_get_other [OF t(1), of KC KU] t(4) cookie_keys(1) by simp
    ultimately show ?thesis
      using t good_ck_set [OF t(1), of KC] by (simp add: r True consent_answer_def holds_def)
  next
    case no: False
    let ?u = "ck_set KC WITHDRAWN t"
    have gu: "good_jar (jar ?u)" using good_ck_set [OF t(1)] by simp
    have "ck_get KC (ck_set KU [] ?u) = Some WITHDRAWN"
      using ck_get_set [OF t(1), of KC WITHDRAWN] ck_get_other [OF gu, of KU KC "[]"] cookie_keys(1) well_formed_states(2)
      by (simp add: WITHDRAWN_def encode_uri_component_def percent_def)
    then have "getConsent (ss_set KS [] (ck_set KU [] ?u)) \<noteq> None" by (simp add: getConsent_def)
    moreover have "ck_get KU (ck_set KU [] ?u) = Some []" using ck_get_clear [OF gu, of KU] by simp
    ultimately show ?thesis
      using t(2,3) good_ck_set [OF gu, of KU "[]"]
      by (simp add: r no consent_answer_def holds_def ss_get_set(2) jp_def)
  qed
qed

lemma step_holding:
  assumes "holds uid sess user t" and "\<not> sets_props e"
    and "is_consent_answer e \<Longrightarrow> sess = JObj [] \<and> user = JObj []"
  shows "keeps_holding uid sess user t (fst (tab_step e t))"
proof -
  obtain c where c: "statniveLive t = Some (Live c)" "userId c = uid" using assms(1) by (auto simp: holds_def)
  have asked: "keeps_holding uid sess user t (fst (request_consent c a tok t))" for a tok
  proof -
    have "holds uid sess user (t\<lparr>sent := x\<rparr>)" for x by (rule holds_same [OF assms(1) _ _ _ c(2)]) (simp_all add: c)
    moreover have "carries uid sess user (Fetched (consent_request c a tok))"
      by (auto simp: carries_def consent_call_def consent_request_def)
    ultimately show ?thesis by (simp add: keeps_holding_def request_consent_def)
  qed
  have "keeps_holding uid sess user t (fst (live_step c e t))"
  proof (cases e)
    case (Track n h v)
    then show ?thesis using keep_fire_holding [OF assms(1) c(2) c(2)] by simp
  next
    case (Consent_answer action r)
    then have "sess = JObj []" "user = JObj []" using assms(3) by simp_all
    moreover have "sent (consent_answer action r t) = sent t" by (cases r) (simp_all add: consent_answer_def)
    ultimately show ?thesis
      using consent_answer_empty assms(1) by (simp add: Consent_answer keeps_holding_def)
  qed (use assms(1,2) asked refresh_holding [OF assms(1) c(2)] pageview_holding [OF assms(1) c(2)] in simp_all)
  then show ?thesis by (simp add: tab_step_def c)
qed

lemma run_holding:
  assumes "holds uid sess user t" and "list_all (\<lambda>e. \<not> sets_props e) es"
    and "list_all (\<lambda>e. \<not> is_consent_answer e) es \<or> sess = JObj [] \<and> user = JObj []"
  shows "keeps_holding uid sess user t (run es t)"
  using assms
proof (induction es arbitrary: t)
  case Nil
  then show ?case by (simp add: run_def keeps_holding_def)
next
  case (Cons e es)
  have step: "keeps_holding uid sess user t (fst (tab_step e t))"
    using Cons.prems by (intro step_holding) auto
  moreover have "keeps_holding uid sess user (fst (tab_step e t)) (run es (fst (tab_step e t)))"
    using Cons.IH [of "fst (tab_step e t)"] Cons.prems step by (auto simp: keeps_holding_def)
  ultimately show ?case by (auto simp: run_def intro: keeps_holding_trans)
qed

text \<open>A page that holds anything, after a successful withdrawal.\<close>

lemma withdraw_holding:
  fixes b :: string
  assumes "holds uid sess user t" and "ok_status st"
  defines "t' \<equiv> run [Consent_answer ''withdraw'' (Answer st b)] t"
  shows "holds uid (JObj []) (JObj []) t'" and "getConsent t' = Some WITHDRAWN" and "sent t' = sent t"
    and "map_of (jar t') KU = None" and "storage_get KS (tab_storage t') = None"
proof -
  obtain c where g: "good_jar (jar t)" and c: "statniveLive t = Some (Live c)" "userId c = uid"
    using assms(1) by (auto simp: holds_def)
  have t': "t' = consent_answer ''withdraw'' (Answer st b) t" by (simp add: t'_def run_def tab_step_def c)
  note w = after_withdraw [OF g assms(2), of b, folded t']
  show "getConsent t' = Some WITHDRAWN" "sent t' = sent t" by (rule w)+
  have jar: "jar t' = jar (ck_set KU [] (ck_set KC WITHDRAWN t))" and st: "tab_storage t' = storage_remove KS (tab_storage t)"
    using assms(2) by (simp_all add: t' consent_answer_def) (simp add: ss_set_def)
  show none: "map_of (jar t') KU = None" by (simp add: jar jar_ck_clear map_of_omap_delete)
  show gone: "storage_get KS (tab_storage t') = None"
    by (cases "tab_storage t") (simp_all add: st storage_get_def storage_remove_def map_of_omap_delete)
  have "good_jar (jar t')" using good_ck_set [OF good_ck_set [OF g]] by (simp add: jar)
  then show "holds uid (JObj []) (JObj []) t'"
    using w c gone by (simp add: holds_def jp_def ss_get_def)
qed

text \<open>
  C6: stored properties. With consent given and storage available, the properties set for the user (in
  a cookie of at most 4000 bytes) and for the session are what every message carries, value for value,
  beside the user id, through every later sequence of events up to the next setter or consent answer; a
  custom event sent right then is exactly the one expected. A successful withdrawal deletes both
  stored values and makes the consent read withdrawn, and from then on, even when consent is given and withdrawn
  again any number of times, every message carries empty properties until new ones are set. But the user
  id given before stays in memory and still goes out with all of them.
\<close>

theorem properties_travel:
  fixes b uid :: string
  assumes "readable t" and "statniveLive t = Some (Live c)" and "getConsent t = Some RESOLVED"
    and "tab_storage t \<noteq> None" and "json_ok (JObj su)" and "json_ok (JObj us)"
    and "well_formed (stringify (JObj us))" and "length (encode_uri_component (stringify (JObj us))) \<le> 4000"
    and "ok_status st" and "list_all (\<lambda>e. \<not> sets_props e \<and> \<not> is_consent_answer e) es"
    and "list_all (\<lambda>e. \<not> sets_props e) es'"
  defines "t1 \<equiv> run [Identify (Some (JStr uid)) (Some (JObj us)), Set_session (Some (JObj su))] t"
  defines "t2 \<equiv> run [Consent_answer ''withdraw'' (Answer st b)] (run es t1)"
  shows "map body_of (sent (run [Track n h v] t1)) = map body_of (sent t)
           @ [Some (event_body (c\<lparr>userId := uid\<rparr>) t n h v (JObj su) (JObj us))]
    \<and> (\<exists>new. sent (run es t1) = sent t @ new \<and> list_all (carries uid (JObj su) (JObj us)) new)
    \<and> getConsent t2 = Some WITHDRAWN
    \<and> map_of (jar t2) ''sn_user_props'' = None \<and> storage_get ''sn_sess_props'' (tab_storage t2) = None
    \<and> (\<exists>new. sent (run es' t2) = sent (run es t1) @ new \<and> list_all (carries uid (JObj []) (JObj [])) new)"
proof -
  let ?c = "c\<lparr>userId := uid\<rparr>"
  have g: "good_jar (jar t)" using assms(1) by (simp add: readable_def)
  have nonempty: "stringify (JObj m) \<noteq> []" for m by simp
  have uid: "(if truthy (Some (JStr uid)) then js_string (JStr uid) else []) = uid" by simp
  let ?u = "ck_set KU (stringify (JObj us)) t"
  have ku: "ck_get KU ?u = Some (stringify (JObj us))"
    using ck_get_set [OF g, of KU] assms(7,8) nonempty by simp
  have kc: "getConsent ?u = Some RESOLVED"
    using ck_get_other [OF g, of KU KC] cookie_keys(1) assms(3) by (simp add: getConsent_def)
  have gu: "good_jar (jar ?u)" using good_ck_set [OF g] by simp
  have t1: "t1 = (ss_set KS (stringify (JObj su)) (?u\<lparr>statniveLive := Some (Live ?c)\<rparr>))\<lparr>statniveLive := Some (Live ?c)\<rparr>"
    using kc assms(2,3) unfolding t1_def run_def
    by (simp add: tab_step_def identify_def setSession_def keep_def Let_def uid del: stringify.simps)
  have live1: "statniveLive t1 = Some (Live ?c)" and c1: "getConsent t1 = Some RESOLVED"
    and u1: "ck_get KU t1 = Some (stringify (JObj us))" and s1: "ss_get KS t1 = stringify (JObj su)"
    and g1: "good_jar (jar t1)" and sent1: "sent t1 = sent t"
    using kc ku gu ss_get_set(1) [of "?u\<lparr>statniveLive := Some (Live ?c)\<rparr>" "stringify (JObj su)" KS] assms(4) nonempty
    by (simp_all add: t1 del: stringify.simps)
  note jps = jp_stringify [OF assms(5)] jp_stringify [OF assms(6)]
  have body1: "event_body ?c t1 n h v x y = event_body ?c t n h v x y" for x y by (simp add: t1)
  have h1: "holds uid (JObj su) (JObj us) t1"
    by (simp add: holds_def g1 live1 u1 s1 c1 jps del: stringify.simps)
  have "list_all (\<lambda>e. \<not> sets_props e) es" "list_all (\<lambda>e. \<not> is_consent_answer e) es"
    using assms(10) by (simp_all add: list_all_iff)
  then have k1: "keeps_holding uid (JObj su) (JObj us) t1 (run es t1)" using run_holding [OF h1] by blast
  then have h2: "holds uid (JObj su) (JObj us) (run es t1)" by (simp add: keeps_holding_def)
  note w = withdraw_holding [OF h2 assms(9), of b, folded t2_def]
  have "keeps_holding uid (JObj []) (JObj []) t2 (run es' t2)" using run_holding [OF w(1) assms(11)] by blast
  then show ?thesis
    using track_body [OF live1 c1 u1, of n h v] k1 w(2-5)
    by (simp add: s1 [unfolded KS_def] sent1 body1 jps keeps_holding_def KU_def KS_def del: stringify.simps)
qed

definition consenting_tab :: Tab where
  "consenting_tab =
     example_tab\<lparr>jar := [(''sn_consent'', ''resolved'')],
       statniveLive := Some (Live \<lparr>endpoint = ''/api/event'', base_url = [], userId = [], q = [], pageviewed = True\<rparr>)\<rparr>"

lemma consenting:
  "readable consenting_tab" "getConsent consenting_tab = Some RESOLVED"
  "ck_get KC consenting_tab = Some ''resolved''"
proof -
  have g: "good_jar (jar consenting_tab)" by (simp add: consenting_tab_def good_jar_def keys_def)
  have "decode_uri_component ''resolved'' = Some ''resolved''"
    using decode_encode_uri [OF well_formed_states(1)]
    by (simp add: RESOLVED_def encode_uri_component_def uri_safe_def is_alnum_def is_lower_def)
  then have k: "ck_get KC consenting_tab = Some ''resolved''"
    using ck_get_jar [OF g, of KC] cookie_keys by (simp add: consenting_tab_def KC_def)
  moreover have "ck_get KU consenting_tab = Some []"
    using ck_get_jar [OF g, of KU] cookie_keys by (simp add: consenting_tab_def KU_def)
  ultimately show "readable consenting_tab" "getConsent consenting_tab = Some RESOLVED"
    "ck_get KC consenting_tab = Some ''resolved''"
    using g by (simp_all add: readable_def getConsent_def RESOLVED_def)
qed

theorem properties_travel_witness:
  "map body_of (sent (run [Track pv None None]
     (run [Identify (Some (JStr ''u1'')) (Some (JObj [])), Set_session (Some (JObj [(''plan'', JStr ''pro'')]))] consenting_tab)))
   = [Some (event_body \<lparr>endpoint = ''/api/event'', base_url = [], userId = ''u1'', q = [], pageviewed = True\<rparr>
        consenting_tab pv None None (JObj [(''plan'', JStr ''pro'')]) (JObj []))]"
proof -
  let ?c = "\<lparr>endpoint = ''/api/event'', base_url = [], userId = [], q = [], pageviewed = True\<rparr>"
  have texts: "well_formed (stringify (JObj []))" by (rule well_formed_ascii) (simp add: is_ascii_def)
  have size: "length (encode_uri_component (stringify (JObj []))) \<le> 4000"
    by (simp add: encode_uri_component_def percent_def)
  have live: "statniveLive consenting_tab = Some (Live ?c)" by (simp add: consenting_tab_def)
  have storage: "tab_storage consenting_tab \<noteq> None" "sent consenting_tab = []"
    by (simp_all add: consenting_tab_def example_tab_def)
  have jsons: "json_ok (JObj [(''plan'', JStr ''pro'')])" "json_ok (JObj [])" by simp_all
  have st: "ok_status 200" by (simp add: ok_status_def)
  have es: "list_all (\<lambda>e. \<not> sets_props e \<and> \<not> is_consent_answer e) [Track pv None None, Push_state ''/a'' []]"
    and es': "list_all (\<lambda>e. \<not> sets_props e) [Consent_answer ''give'' (Answer 200 []), Track pv None None]" by simp_all
  show ?thesis
    using properties_travel [OF consenting(1) live consenting(2) storage(1) jsons texts size st es es',
        where uid = "''u1''" and n = pv and h = None and v = None and b = "[]"]
    by (simp add: storage(2))
qed

section \<open>Unreadable consent\<close>

fun is_consent_call :: "tracker_event \<Rightarrow> bool" where
  "is_consent_call (Accept_consent token) = True"
| "is_consent_call (Withdraw_consent token) = True"
| "is_consent_call e = False"

definition stuck :: "Tab \<Rightarrow> Tab \<Rightarrow> nat \<Rightarrow> bool" where
  "stuck t t' n \<longleftrightarrow> getConsent t' = None \<and> live t' \<and> length (sent t') = length (sent t) + n"

lemma stuck_pageview:
  assumes "getConsent t = None" shows "stuck t (fst (pageview c t)) 0"
  using assms by (auto simp: stuck_def pageview_def Let_def keep_def fire_def live_def)

lemma stuck_step:
  assumes "getConsent t = None" and "live t" and "\<not> is_consent_answer e"
  shows "stuck t (fst (tab_step e t)) (if is_consent_call e then 1 else 0)"
proof -
  from assms(2) obtain c where c: "statniveLive t = Some (Live c)" "pageviewed c" by (auto simp: live_def)
  have moved: "getConsent (go p s t) = None" for p s using assms(1) by (simp add: getConsent_def)
  have nav: "stuck t (fst (refresh c (go p s t))) 0" for p s
    using stuck_pageview [OF moved, of p s "c\<lparr>q := search_params (loc_search (go p s t)), pageviewed := False\<rparr>"]
    by (simp add: refresh_def stuck_def)
  show ?thesis
    using assms c nav stuck_pageview [OF assms(1), of c]
    by (cases e)
       (auto simp: tab_step_def stuck_def keep_def fire_def identify_def setSession_def request_consent_def
          Let_def live_def)
qed

lemma stuck_run:
  assumes "getConsent t = None" and "live t" and "list_all (\<lambda>e. \<not> is_consent_answer e) es"
  shows "stuck t (run es t) (length (filter is_consent_call es))"
  using assms
proof (induction es arbitrary: t)
  case (Cons e es)
  have s: "stuck t (fst (tab_step e t)) (if is_consent_call e then 1 else 0)"
    using stuck_step Cons.prems by simp
  then show ?case using Cons.IH [of "fst (tab_step e t)"] Cons.prems(3) by (simp add: stuck_def run_def)
qed (simp add: run_def stuck_def)

text \<open>
  a consent cookie whose value is no percent-encoding (a stray percent sign, set by anything on
  the site) silences the tracker: loading it throws, no pageview and no event is sent any more,
  whatever is called, until a consent answer rewrites the cookie; only consent requests still go
  out.
\<close>

theorem unreadable_consent_silences:
  assumes "good_jar (jar t)" and "map_of (jar t) ''sn_consent'' = Some v"
    and "decode_uri_component (hd (split_on CHR ''='' v)) = None"
    and "statniveLive t = None" and "\<not> suppressed t" and "list_all (\<lambda>e. \<not> is_consent_answer e) es"
  shows "snd (boot t)
    \<and> length (sent (run es (fst (boot t)))) = length (sent t) + length (filter is_consent_call es)"
proof -
  have c: "getConsent t = None"
    using ck_get_jar [OF assms(1), of KC] cookie_keys assms(2,3) by (simp add: getConsent_def KC_def)
  let ?e = "resolve_endpoint (tracker_script t)"
  let ?c = "\<lparr>endpoint = ?e, base_url = strip_event ?e, userId = [], q = search_params (loc_search t),
              pageviewed = False\<rparr>"
  have b: "boot t = pageview ?c t" using assms(4,5) by (auto simp: boot_def suppressed_def Let_def)
  have "snd (boot t)" by (simp add: b pageview_def Let_def keep_def fire_def c)
  moreover have "stuck t (fst (boot t)) 0" using stuck_pageview [OF c] by (simp add: b)
  ultimately show ?thesis using stuck_run [of "fst (boot t)" es] assms(6) by (simp add: stuck_def)
qed

theorem unreadable_consent_silences_witness:
  "sent (run [Track pv None None, Push_state ''/a'' []] (fst (boot (example_tab\<lparr>jar := [(''sn_consent'', ''%'')]\<rparr>)))) = []"
proof -
  let ?t = "example_tab\<lparr>jar := [(''sn_consent'', ''%'')]\<rparr>"
  have "good_jar (jar ?t)" by (simp add: good_jar_def keys_def)
  moreover have "decode_uri_component (hd (split_on CHR ''='' ''%'')) = None"
    by (simp add: decode_uri_component_def)
  moreover have "\<not> suppressed ?t" using example_free by (simp add: suppressed_def example_tab_def)
  moreover have "statniveLive ?t = None" "map_of (jar ?t) ''sn_consent'' = Some ''%''" "sent ?t = []"
    by (simp_all add: example_tab_def)
  ultimately show ?thesis
    using unreadable_consent_silences [of ?t "''%''" "[Track pv None None, Push_state ''/a'' []]"] by simp
qed

section \<open>Where messages go\<close>

lemma derived_base_append:
  assumes "p \<noteq> []" and "\<not> sublist ''/tracker.js'' (p @ ''/tracker.j'')" and "r = [] \<or> hd r = CHR ''?''"
  shows "derived_base (p @ ''/tracker.js'' @ r) = Some p"
  using assms(1,2)
proof (induction p)
  case (Cons c p)
  show ?case
  proof (cases "p = []")
    case True
    then show ?thesis using assms(3) by (simp add: script_tail_def)
  next
    case False
    have sub: "\<not> sublist ''/tracker.js'' (p @ ''/tracker.j'')" using Cons.prems(2) by (simp add: sublist_Cons_right)
    have "\<not> prefix ''/tracker.js'' (p @ ''/tracker.js'' @ r)"
    proof
      assume "prefix ''/tracker.js'' (p @ ''/tracker.js'' @ r)"
      moreover have "prefix (p @ ''/tracker.j'') (p @ ''/tracker.js'' @ r)" by simp
      moreover have "length ''/tracker.js'' \<le> length (p @ ''/tracker.j'')" using False by (cases p) simp_all
      ultimately have "prefix ''/tracker.js'' (p @ ''/tracker.j'')" by (meson prefix_length_prefix)
      with sub show False by (meson prefix_imp_sublist)
    qed
    then have "\<not> script_tail (p @ ''/tracker.js'' @ r)" by (simp add: script_tail_def)
    then show ?thesis using Cons.IH [OF False sub] by simp
  qed
qed simp

lemma strip_event_append:
  "\<not> sublist ''/api/event'' (p @ ''/api/even'') \<Longrightarrow> strip_event (p @ ''/api/event'' @ r) = p"
proof (induction p)
  case (Cons c p)
  have sub: "\<not> sublist ''/api/event'' (p @ ''/api/even'')" using Cons.prems by (simp add: sublist_Cons_right)
  have "\<not> prefix ''/api/event'' ((c # p) @ ''/api/event'' @ r)"
  proof
    assume "prefix ''/api/event'' ((c # p) @ ''/api/event'' @ r)"
    moreover have "prefix ((c # p) @ ''/api/even'') ((c # p) @ ''/api/event'' @ r)" by simp
    moreover have "length ''/api/event'' \<le> length ((c # p) @ ''/api/even'')" by simp
    ultimately have "prefix ''/api/event'' ((c # p) @ ''/api/even'')" by (meson prefix_length_prefix)
    with Cons.prems show False by (meson prefix_imp_sublist)
  qed
  then show ?case using Cons.IH [OF sub] by simp
qed simp

text \<open>
  where messages go. A nonempty endpoint attribute is used as it is. Otherwise a script served
  from an origin as its tracker.js, with or without a query, sends events to that origin's event
  path and consent requests to the same origin; without a usable address both go to the page's own
  origin.
\<close>

theorem endpoint_resolution:
  assumes "p \<noteq> []" and "\<not> sublist ''/tracker.js'' (p @ ''/tracker.j'')"
    and "\<not> sublist ''/api/event'' (p @ ''/api/even'')" and "r = [] \<or> hd r = CHR ''?''"
    and "src_url s = p @ ''/tracker.js'' @ r"
  shows "(case endpoint_attr s of
            Some (x # xs) \<Rightarrow> resolve_endpoint (Some s) = x # xs
          | _ \<Rightarrow> resolve_endpoint (Some s) = p @ ''/api/event''
                \<and> strip_event (resolve_endpoint (Some s)) = p)
    \<and> resolve_endpoint None = ''/api/event'' \<and> strip_event (resolve_endpoint None) = []"
  using derived_base_append [OF assms(1,2,4)] strip_event_append [OF assms(3), of "[]"]
  by (auto simp: resolve_endpoint_def Let_def assms(5) split: option.split list.split)

theorem endpoint_resolution_witness:
  "resolve_endpoint (Some \<lparr>endpoint_attr = None, src_attr = None,
      src_url = ''https://s.example/tracker.js?v=2'', honour_gpc = None\<rparr>) = ''https://s.example/api/event''"
  using endpoint_resolution [of "''https://s.example''" "''?v=2''"
      "\<lparr>endpoint_attr = None, src_attr = None, src_url = ''https://s.example/tracker.js?v=2'', honour_gpc = None\<rparr>"]
  by (simp add: sublist_Cons_right)

end
