(* ===== verification/CampaignTree.thy ===== *)
theory CampaignTree
  imports Json
begin

text \<open>
  The campaign tree of \<^verbatim>\<open>lib/campaignTree.ts\<close>: the flat rows of the campaign report
  turned into Campaign, Source, Medium and Content levels, finalised, sorted and walked. A node's
  children are paired with the value under which the bucket table knows them; the table and the
  child list always grow together, so one list stands for both. Counts are integers below
  \<open>2 ^ 53\<close>, for which the additions of the source are exact; quotients are rounded to doubles.
\<close>

section \<open>Rows and nodes\<close>

record CampaignRow =
  utm_campaign :: string
  utm_source :: string
  utm_medium :: string
  utm_content :: string
  utm_term :: string
  row_channel :: string
  row_views :: int
  row_visitors :: int
  row_goals :: int
  row_revenue :: int
  row_rpv :: rat

datatype CampaignTreeLevel = Campaign | Source | Medium | Content

record NodeData =
  level :: CampaignTreeLevel
  node_label :: string
  pathKey :: string
  terms :: "string list"
  views :: int
  visitors :: int
  goals :: int
  revenue :: int
  rpv :: rat

datatype CampaignTreeNode = Node NodeData "(string \<times> CampaignTreeNode) list"

type_synonym forest = "(string \<times> CampaignTreeNode) list"

fun data_of :: "CampaignTreeNode \<Rightarrow> NodeData" where
  "data_of (Node d cs) = d"

fun children :: "CampaignTreeNode \<Rightarrow> forest" where
  "children (Node d cs) = cs"

definition NONE_LABEL :: string where
  "NONE_LABEL = ''(none)''"

definition PATH_SEP :: string where
  "PATH_SEP = [CHR 0x00]"

definition label :: "string \<Rightarrow> string" where
  "label v = (if v = [] then NONE_LABEL else v)"

definition rpvOf :: "int \<Rightarrow> int \<Rightarrow> rat" where
  "rpvOf r v = (if v = 0 then 0 else dbl (of_int r / of_int v))"

definition path_key :: "string \<Rightarrow> string \<Rightarrow> string" where
  "path_key parentPath rawValue = (if parentPath = [] then rawValue else parentPath @ PATH_SEP @ rawValue)"

definition emptyNode :: "CampaignTreeLevel \<Rightarrow> string \<Rightarrow> string \<Rightarrow> CampaignTreeNode" where
  "emptyNode lvl rawValue parentPath =
     Node \<lparr>level = lvl, node_label = label rawValue, pathKey = path_key parentPath rawValue, terms = [],
           views = 0, visitors = 0, goals = 0, revenue = 0, rpv = 0\<rparr> []"

fun accumulate :: "CampaignTreeNode \<Rightarrow> CampaignRow \<Rightarrow> CampaignTreeNode" where
  "accumulate (Node d cs) row =
     Node (d\<lparr>views := views d + row_views row, visitors := visitors d + row_visitors row,
             goals := goals d + row_goals row, revenue := revenue d + row_revenue row\<rparr>) cs"

text \<open>The child for a value in the list of a parent with the given path, new if there is none.\<close>

definition findOrCreateChild :: "forest \<Rightarrow> string \<Rightarrow> CampaignTreeLevel \<Rightarrow> string \<Rightarrow> CampaignTreeNode" where
  "findOrCreateChild siblings parentPath lvl rawValue =
     (case map_of siblings rawValue of Some n \<Rightarrow> n | None \<Rightarrow> emptyNode lvl rawValue parentPath)"

fun put_child :: "string \<Rightarrow> CampaignTreeNode \<Rightarrow> CampaignTreeNode \<Rightarrow> CampaignTreeNode" where
  "put_child rawValue c (Node d cs) = Node d (omap_set rawValue c cs)"

fun push_term :: "string \<Rightarrow> CampaignTreeNode \<Rightarrow> CampaignTreeNode" where
  "push_term t (Node d cs) = Node (d\<lparr>terms := terms d @ [t]\<rparr>) cs"

text \<open>
  One row. The source updates the four nodes of the row's path in place; here each is put back into
  its parent.
\<close>

definition add_row :: "CampaignRow \<Rightarrow> forest \<Rightarrow> forest" where
  "add_row row roots =
     (let campaign = accumulate (findOrCreateChild roots [] Campaign (utm_campaign row)) row;
          source = accumulate (findOrCreateChild (children campaign) (pathKey (data_of campaign)) Source (utm_source row)) row;
          medium = accumulate (findOrCreateChild (children source) (pathKey (data_of source)) Medium (utm_medium row)) row;
          content = accumulate (findOrCreateChild (children medium) (pathKey (data_of medium)) Content (utm_content row)) row;
          content = push_term (utm_term row) content;
          medium = put_child (utm_content row) content medium;
          source = put_child (utm_medium row) medium source;
          campaign = put_child (utm_source row) source campaign
      in omap_set (utm_campaign row) campaign roots)"

fun dedupe :: "string list \<Rightarrow> string list \<Rightarrow> string list" where
  "dedupe seen [] = []"
| "dedupe seen (t # ts) = (if t = [] \<or> t \<in> set seen then dedupe seen ts else t # dedupe (t # seen) ts)"

definition dedupeTerms :: "NodeData \<Rightarrow> NodeData" where
  "dedupeTerms d = (if terms d = [] then d else d\<lparr>terms := dedupe [] (terms d)\<rparr>)"

fun finalize :: "CampaignTreeNode \<Rightarrow> CampaignTreeNode" where
  "finalize (Node d cs) =
     Node (dedupeTerms (d\<lparr>rpv := rpvOf (revenue d) (visitors d)\<rparr>)) (map (\<lambda>(k, n). (k, finalize n)) cs)"

definition byRevenueDesc :: "CampaignTreeNode \<Rightarrow> CampaignTreeNode \<Rightarrow> rat" where
  "byRevenueDesc a b =
     (if revenue (data_of b) \<noteq> revenue (data_of a) then of_int (revenue (data_of b) - revenue (data_of a))
      else of_int (views (data_of b) - views (data_of a)))"

text \<open>Sort a list with a comparator, then each element's children.\<close>

definition sort_level :: "(CampaignTreeNode \<Rightarrow> CampaignTreeNode \<Rightarrow> rat) \<Rightarrow> forest \<Rightarrow> forest" where
  "sort_level cmp ts = sort_by (\<lambda>a b. cmp (snd a) (snd b) \<le> 0) ts"

lemma size_child: "(k, n) \<in> set cs \<Longrightarrow> size n < Suc (size_list (size_prod (\<lambda>x. 0) size) cs)"
  by (induction cs) auto

function sort_children :: "(CampaignTreeNode \<Rightarrow> CampaignTreeNode \<Rightarrow> rat) \<Rightarrow> CampaignTreeNode \<Rightarrow> CampaignTreeNode" where
  "sort_children cmp (Node d cs) = Node d (map (\<lambda>(k, n). (k, sort_children cmp n)) (sort_level cmp cs))"
  by pat_completeness auto
termination by (relation "measure (\<lambda>(cmp, n). size n)") (auto simp: sort_level_def size_child)

definition walkSort :: "(CampaignTreeNode \<Rightarrow> CampaignTreeNode \<Rightarrow> rat) \<Rightarrow> forest \<Rightarrow> forest" where
  "walkSort cmp ts = map (\<lambda>(k, n). (k, sort_children cmp n)) (sort_level cmp ts)"

definition buildCampaignTree :: "CampaignRow list \<Rightarrow> forest" where
  "buildCampaignTree rows =
     (let roots = fold add_row rows [];
          roots = map (\<lambda>(k, n). (k, finalize n)) roots
      in walkSort byRevenueDesc roots)"

datatype CampaignSortKey = K_campaign | K_views | K_visitors | K_goals | K_revenue | K_rpv

definition CAMPAIGN_SORT_KEYS :: "(string \<times> CampaignSortKey) list" where
  "CAMPAIGN_SORT_KEYS =
     [(''campaign'', K_campaign), (''views'', K_views), (''visitors'', K_visitors), (''goals'', K_goals),
      (''revenue'', K_revenue), (''rpv'', K_rpv)]"

definition isCampaignSortKey :: "string \<Rightarrow> bool" where
  "isCampaignSortKey s \<longleftrightarrow> s \<in> fst ` set CAMPAIGN_SORT_KEYS"

fun numeric_key :: "CampaignSortKey \<Rightarrow> NodeData \<Rightarrow> rat" where
  "numeric_key K_views d = of_int (views d)"
| "numeric_key K_visitors d = of_int (visitors d)"
| "numeric_key K_goals d = of_int (goals d)"
| "numeric_key K_revenue d = of_int (revenue d)"
| "numeric_key K_rpv d = rpv d"
| "numeric_key K_campaign d = 0"

text \<open>
  The comparator of a requested order. How the engine compares two texts
  (\<^verbatim>\<open>localeCompare\<close>) is a parameter.
\<close>

definition by_key ::
  "(string \<Rightarrow> string \<Rightarrow> rat) \<Rightarrow> CampaignSortKey \<Rightarrow> bool \<Rightarrow> CampaignTreeNode \<Rightarrow> CampaignTreeNode \<Rightarrow> rat" where
  "by_key localeCompare key asc a b =
     (let sign = (if asc then 1 else -1) in
      if key = K_campaign then localeCompare (node_label (data_of a)) (node_label (data_of b)) * sign
      else let diff = numeric_key key (data_of a) - numeric_key key (data_of b) in
        if diff \<noteq> 0 then diff * sign
        else of_int (revenue (data_of b) - revenue (data_of a)))"

definition sortCampaignTree :: "(string \<Rightarrow> string \<Rightarrow> rat) \<Rightarrow> forest \<Rightarrow> CampaignSortKey \<Rightarrow> bool \<Rightarrow> forest" where
  "sortCampaignTree localeCompare tree key asc = walkSort (by_key localeCompare key asc) tree"

fun walk :: "CampaignTreeNode \<Rightarrow> CampaignTreeNode list" where
  "walk (Node d cs) = Node d cs # concat (map (\<lambda>(k, n). walk n) cs)"

definition treeNodes :: "forest \<Rightarrow> CampaignTreeNode list" where
  "treeNodes tree = concat (map (\<lambda>(k, n). walk n) tree)"

definition allPathKeys :: "forest \<Rightarrow> string set" where
  "allPathKeys tree = (\<lambda>n. pathKey (data_of n)) ` set (treeNodes tree)"

section \<open>Adding a row along its path\<close>

definition row_path :: "CampaignRow \<Rightarrow> (CampaignTreeLevel \<times> string) list" where
  "row_path row =
     [(Campaign, utm_campaign row), (Source, utm_source row), (Medium, utm_medium row), (Content, utm_content row)]"

definition row_values :: "CampaignRow \<Rightarrow> string list" where
  "row_values row = [utm_campaign row, utm_source row, utm_medium row, utm_content row]"

text \<open>The same update by recursion on the path.\<close>

fun add_path :: "CampaignRow \<Rightarrow> (CampaignTreeLevel \<times> string) list \<Rightarrow> string \<Rightarrow> forest \<Rightarrow> forest" where
  "add_path row [] pp ts = ts"
| "add_path row ((l, v) # ps) pp ts =
     (let n = accumulate (findOrCreateChild ts pp l v) row in
      omap_set v
        (if ps = [] then push_term (utm_term row) n
         else Node (data_of n) (add_path row ps (pathKey (data_of n)) (children n))) ts)"

lemma put_child_alt: "put_child v c n = Node (data_of n) (omap_set v c (children n))"
  by (cases n) simp

lemma push_term_alt: "push_term t n = Node ((data_of n)\<lparr>terms := terms (data_of n) @ [t]\<rparr>) (children n)"
  by (cases n) simp

lemma accumulate_simps [simp]:
  "children (accumulate n row) = children n"
  "pathKey (data_of (accumulate n row)) = pathKey (data_of n)"
  by (cases n; simp)+

lemma add_row_path: "add_row row roots = add_path row (row_path row) [] roots"
  by (simp add: add_row_def row_path_def Let_def put_child_alt)

lemma row_path_values: "map snd (row_path row) = row_values row"
  by (simp add: row_path_def row_values_def)

fun node_at :: "string list \<Rightarrow> forest \<Rightarrow> CampaignTreeNode option" where
  "node_at [] ts = None"
| "node_at (k # ks) ts =
     (case map_of ts k of
        None \<Rightarrow> None
      | Some n \<Rightarrow> if ks = [] then Some n else node_at ks (children n))"

lemma node_at_empty [simp]: "node_at p [] = None" by (cases p) auto

lemma found_children:
  "children (findOrCreateChild ts pp l v) = (case map_of ts v of Some n \<Rightarrow> children n | None \<Rightarrow> [])"
  by (simp add: findOrCreateChild_def emptyNode_def split: option.split)

lemma node_at_Cons_same:
  "node_at (v # ks) (omap_set v n ts) = (if ks = [] then Some n else node_at ks (children n))"
  by (simp add: map_of_omap_set)

lemma node_at_Cons_other:
  "k \<noteq> v \<Longrightarrow> node_at (k # ks) (omap_set v n ts) = node_at (k # ks) ts"
  by (simp add: map_of_omap_set)

lemma node_at_found:
  "ks \<noteq> [] \<Longrightarrow> node_at ks (children (findOrCreateChild ts pp l v)) = node_at (v # ks) ts"
  by (simp add: found_children split: option.split)

lemma node_exists_add:
  "node_at p (add_path row path pp ts) \<noteq> None \<longleftrightarrow>
     node_at p ts \<noteq> None \<or> p \<noteq> [] \<and> prefix p (map snd path)"
proof (induction path arbitrary: p pp ts)
  case (Cons x path)
  obtain l v where x: "x = (l, v)" by (cases x)
  show ?case
  proof (cases p)
    case (Cons k ks)
    show ?thesis
    proof (cases "k = v")
      case False
      then show ?thesis by (simp add: Cons x Let_def node_at_Cons_other del: node_at.simps not_None_eq)
    next
      case True
      show ?thesis
      proof (cases "ks = [] \<or> path = []")
        case True
        then show ?thesis
          using \<open>k = v\<close>
          by (auto simp: Cons x Let_def node_at_Cons_same push_term_alt node_at_found simp del: node_at.simps not_None_eq)
      next
        case False
        then show ?thesis
          using \<open>k = v\<close> Cons.IH [of ks]
          by (simp add: Cons x Let_def node_at_Cons_same node_at_found del: node_at.simps not_None_eq)
      qed
    qed
  qed simp
qed auto

section \<open>What a tally of a node counts\<close>

text \<open>A number kept in every node that each row of its path adds to.\<close>

locale tally =
  fixes count :: "NodeData \<Rightarrow> int" and weight :: "CampaignRow \<Rightarrow> int"
  assumes count_accumulate: "count (data_of (accumulate n row)) = count (data_of n) + weight row"
    and count_term: "count (d\<lparr>terms := ts\<rparr>) = count d"
    and count_rpv: "count (d\<lparr>rpv := x\<rparr>) = count d"
    and count_empty: "count (data_of (emptyNode l v pp)) = 0"
begin

definition tally_at :: "string list \<Rightarrow> forest \<Rightarrow> int" where
  "tally_at p ts = (case node_at p ts of None \<Rightarrow> 0 | Some n \<Rightarrow> count (data_of n))"

lemma count_found:
  "count (data_of (findOrCreateChild ts pp l v)) = tally_at [v] ts"
  by (simp add: findOrCreateChild_def tally_at_def count_empty split: option.split)

lemma at_add_path:
  "tally_at p (add_path row path pp ts) = tally_at p ts + (if p \<noteq> [] \<and> prefix p (map snd path) then weight row else 0)"
proof (induction path arbitrary: p pp ts)
  case (Cons x path)
  obtain l v where x: "x = (l, v)" by (cases x)
  show ?case
  proof (cases p)
    case (Cons k ks)
    show ?thesis
    proof (cases "k = v")
      case False
      then show ?thesis by (simp add: Cons x tally_at_def Let_def node_at_Cons_other del: node_at.simps)
    next
      case True
      show ?thesis
      proof (cases "ks = []")
        case nil: True
        then show ?thesis
          using True count_found [of ts pp l v]
          by (simp add: Cons x Let_def tally_at_def node_at_Cons_same push_term_alt count_term count_accumulate del: node_at.simps)
      next
        case False
        have found: "tally_at ks (children (findOrCreateChild ts pp l v)) = tally_at (v # ks) ts"
          unfolding tally_at_def using node_at_found [OF False, of ts pp l v] by simp
        show ?thesis
          using True False Cons.IH [of ks] found
          by (simp add: Cons x Let_def tally_at_def [of "v # ks"] node_at_Cons_same push_term_alt del: node_at.simps)
             (simp add: tally_at_def del: node_at.simps)
      qed
    qed
  qed (simp add: tally_at_def)
qed simp

lemma at_rows:
  "p \<noteq> [] \<Longrightarrow> tally_at p (fold add_row rows ts) =
     tally_at p ts + (\<Sum>r \<leftarrow> filter (\<lambda>r. prefix p (row_values r)) rows. weight r)"
  by (induction rows arbitrary: ts) (simp_all add: add_row_path at_add_path row_path_values)

end

lemma data_accumulate:
  "data_of (accumulate n row) = (data_of n)\<lparr>views := views (data_of n) + row_views row,
     visitors := visitors (data_of n) + row_visitors row, goals := goals (data_of n) + row_goals row,
     revenue := revenue (data_of n) + row_revenue row\<rparr>"
  by (cases n) simp

interpretation t_views: tally views row_views
  by unfold_locales (simp_all add: data_accumulate emptyNode_def)

interpretation t_visitors: tally visitors row_visitors
  by unfold_locales (simp_all add: data_accumulate emptyNode_def)

interpretation t_goals: tally goals row_goals
  by unfold_locales (simp_all add: data_accumulate emptyNode_def)

interpretation t_revenue: tally revenue row_revenue
  by unfold_locales (simp_all add: data_accumulate emptyNode_def)

section \<open>Finalising and sorting keep every path\<close>

text \<open>Distinct values among siblings, everywhere.\<close>

fun uniq_node :: "CampaignTreeNode \<Rightarrow> bool" where
  "uniq_node (Node d cs) = (distinct (keys cs) \<and> list_all (\<lambda>(k, n). uniq_node n) cs)"

definition uniq :: "forest \<Rightarrow> bool" where
  "uniq ts \<longleftrightarrow> distinct (keys ts) \<and> list_all (\<lambda>(k, n). uniq_node n) ts"

lemma uniq_node_alt: "uniq_node n \<longleftrightarrow> uniq (children n)"
  by (cases n) (simp add: uniq_def)

lemma uniq_child:
  assumes "uniq ts" and "map_of ts k = Some n" shows "uniq (children n)"
proof -
  have "uniq_node n" using assms by (auto simp: uniq_def list_all_iff dest!: map_of_SomeD)
  then show ?thesis by (simp only: uniq_node_alt)
qed

lemma uniq_omap_set: "uniq ts \<Longrightarrow> uniq_node n \<Longrightarrow> uniq (omap_set k n ts)"
proof -
  have "list_all (\<lambda>(k, n). uniq_node n) ts \<Longrightarrow> uniq_node n \<Longrightarrow> list_all (\<lambda>(k, n). uniq_node n) (omap_set k n ts)" for ts
    by (induction k n ts rule: omap_set.induct) auto
  then show "uniq ts \<Longrightarrow> uniq_node n \<Longrightarrow> uniq (omap_set k n ts)"
    by (simp add: uniq_def distinct_omap_set)
qed

lemma uniq_found: "uniq ts \<Longrightarrow> uniq (children (findOrCreateChild ts pp l v))"
  using uniq_child by (auto simp: found_children uniq_def keys_def split: option.split)

lemma uniq_add_path: "uniq ts \<Longrightarrow> uniq (add_path row path pp ts)"
proof (induction path arbitrary: pp ts)
  case (Cons x path)
  obtain l v where x: "x = (l, v)" by (cases x)
  have f: "uniq (children (findOrCreateChild ts pp l v))" using uniq_found Cons.prems .
  then show ?case
    using Cons.IH [OF f] Cons.prems
    by (auto simp: x Let_def push_term_alt uniq_node_alt intro!: uniq_omap_set)
qed simp

lemma uniq_rows: "uniq ts \<Longrightarrow> uniq (fold add_row rows ts)"
  by (induction rows arbitrary: ts) (simp_all add: add_row_path uniq_add_path)

lemma keys_map_snd: "keys (map (\<lambda>(k, n). (k, f n)) ts) = keys ts"
  by (induction ts) (auto simp: keys_def)

lemma map_of_map_snd: "map_of (map (\<lambda>(k, n). (k, f n)) ts) k = map_option f (map_of ts k)"
  by (induction ts) auto

lemma children_finalize: "children (finalize n) = map (\<lambda>(k, n). (k, finalize n)) (children n)"
  by (cases n) simp

lemma data_finalize: "data_of (finalize n) = dedupeTerms ((data_of n)\<lparr>rpv := rpvOf (revenue (data_of n)) (visitors (data_of n))\<rparr>)"
  by (cases n) simp

lemma uniq_finalize: "uniq_node n \<Longrightarrow> uniq_node (finalize n)"
  by (induction n rule: finalize.induct) (auto simp: keys_map_snd list_all_iff)

lemma node_at_finalize: "node_at p (map (\<lambda>(k, n). (k, finalize n)) ts) = map_option finalize (node_at p ts)"
  by (induction p ts rule: node_at.induct)
     (auto simp: map_of_map_snd children_finalize split: option.split)

lemma map_of_sort_by:
  assumes "distinct (keys ts)" shows "map_of (sort_by le ts) = map_of ts"
proof
  fix k
  have d: "distinct (map fst (sort_by le ts))"
    using assms mset_eq_imp_distinct_iff [of "map fst (sort_by le ts)" "map fst ts"] by (simp add: keys_def)
  have "map_of (sort_by le ts) k = Some n \<longleftrightarrow> map_of ts k = Some n" for n
    using d assms by (simp add: keys_def)
  then show "map_of (sort_by le ts) k = map_of ts k" by (metis option.exhaust)
qed

lemma children_sort: "children (sort_children cmp n) = walkSort cmp (children n)"
  by (cases n) (simp add: walkSort_def)

lemma data_sort [simp]: "data_of (sort_children cmp n) = data_of n"
  by (cases n) simp

lemma set_sort_level: "set (sort_level cmp ts) = set ts"
  by (simp add: sort_level_def)

lemma distinct_keys_sort: "distinct (keys (sort_level cmp ts)) = distinct (keys ts)"
proof -
  have "mset (map fst (sort_level cmp ts)) = mset (map fst ts)" by (simp add: sort_level_def)
  then show ?thesis unfolding keys_def by (rule mset_eq_imp_distinct_iff)
qed

lemma uniq_sort_children: "uniq_node n \<Longrightarrow> uniq_node (sort_children cmp n)"
  by (induction cmp n rule: sort_children.induct)
     (auto simp: keys_map_snd distinct_keys_sort list_all_iff set_sort_level)

lemma uniq_walkSort: "uniq ts \<Longrightarrow> uniq (walkSort cmp ts)"
  unfolding uniq_def walkSort_def
  by (auto simp: keys_map_snd distinct_keys_sort list_all_iff uniq_sort_children set_sort_level)

lemma node_at_walkSort: "uniq ts \<Longrightarrow> node_at p (walkSort cmp ts) = map_option (sort_children cmp) (node_at p ts)"
proof (induction p ts rule: node_at.induct)
  case (2 k ks ts)
  have "map_of (walkSort cmp ts) k = map_option (sort_children cmp) (map_of ts k)"
    using "2.prems" by (simp add: walkSort_def map_of_map_snd sort_level_def map_of_sort_by uniq_def)
  moreover have "uniq (children n)" if "map_of ts k = Some n" for n
    using uniq_child [OF "2.prems" that] .
  ultimately show ?case
    by (cases "map_of ts k"; cases "ks = []") (simp_all add: children_sort "2.IH")
qed simp

lemma tally_finalize:
  "views (data_of (finalize n)) = views (data_of n)" "visitors (data_of (finalize n)) = visitors (data_of n)"
  "goals (data_of (finalize n)) = goals (data_of n)" "revenue (data_of (finalize n)) = revenue (data_of n)"
  "rpv (data_of (finalize n)) = rpvOf (revenue (data_of n)) (visitors (data_of n))"
  by (simp_all add: data_finalize dedupeTerms_def)

lemma uniq_Nil: "uniq []" by (simp add: uniq_def keys_def)

lemma node_at_build:
  "node_at p (buildCampaignTree rows) =
     map_option (\<lambda>n. sort_children byRevenueDesc (finalize n)) (node_at p (fold add_row rows []))"
proof -
  have "uniq (map (\<lambda>(k, n). (k, finalize n)) (fold add_row rows []))"
    using uniq_rows [OF uniq_Nil, of rows] by (auto simp: uniq_def keys_map_snd list_all_iff uniq_finalize)
  then show ?thesis
    by (simp add: buildCampaignTree_def Let_def node_at_walkSort node_at_finalize option.map_comp o_def)
qed

lemma node_exists_rows:
  "p \<noteq> [] \<Longrightarrow> node_at p (fold add_row rows ts) \<noteq> None \<longleftrightarrow>
     node_at p ts \<noteq> None \<or> list_ex (\<lambda>r. prefix p (row_values r)) rows"
proof (induction rows arbitrary: ts)
  case (Cons r rows)
  have "node_at p (add_row r ts) \<noteq> None \<longleftrightarrow> node_at p ts \<noteq> None \<or> prefix p (row_values r)"
    using node_exists_add [of p r "row_path r" "[]" ts] Cons.prems by (simp only: add_row_path row_path_values simp_thms)
  then show ?case using Cons.IH [OF Cons.prems, of "add_row r ts"] by (simp only: fold_simps list_ex_iff list.set bex_simps disj_assoc)
qed simp

text \<open>
  C16: the numbers of the campaign tree. A node exists exactly for the paths (campaign, then source,
  medium, content) some row starts with, and its views, visitors, goals and revenue are the sums
  over exactly the rows under it, so every level adds up to the table; its revenue per visitor is
  that of its own totals, and 0 without visitors.
\<close>

theorem campaign_tree_totals:
  "(case node_at (k # ks) (buildCampaignTree rows) of
      None \<Rightarrow> filter (\<lambda>r. prefix (k # ks) (row_values r)) rows = []
    | Some n \<Rightarrow>
        let under = filter (\<lambda>r. prefix (k # ks) (row_values r)) rows in
        under \<noteq> []
        \<and> views (data_of n) = sum_list (map row_views under)
        \<and> visitors (data_of n) = sum_list (map row_visitors under)
        \<and> goals (data_of n) = sum_list (map row_goals under)
        \<and> revenue (data_of n) = sum_list (map row_revenue under)
        \<and> rpv (data_of n) = rpvOf (revenue (data_of n)) (visitors (data_of n)))"
proof (cases "node_at (k # ks) (fold add_row rows [])")
  case None
  then show ?thesis
    using node_exists_rows [of "k # ks" rows "[]"]
    by (simp add: node_at_build list_ex_iff filter_empty_conv del: node_at.simps)
next
  case (Some n)
  have "filter (\<lambda>r. prefix (k # ks) (row_values r)) rows \<noteq> []"
    using node_exists_rows [of "k # ks" rows "[]"] Some
    by (simp add: list_ex_iff filter_empty_conv del: node_at.simps)
  then show ?thesis
    using t_views.at_rows [of "k # ks" rows "[]"] t_visitors.at_rows [of "k # ks" rows "[]"]
      t_goals.at_rows [of "k # ks" rows "[]"] t_revenue.at_rows [of "k # ks" rows "[]"]
    by (simp add: node_at_build Some tally_finalize t_views.tally_at_def t_visitors.tally_at_def
        t_goals.tally_at_def t_revenue.tally_at_def Let_def del: node_at.simps)
qed

section \<open>Orders and path keys\<close>

text \<open>A property of every list of siblings.\<close>

fun every_level_node :: "(CampaignTreeNode list \<Rightarrow> bool) \<Rightarrow> CampaignTreeNode \<Rightarrow> bool" where
  "every_level_node P (Node d cs) = (P (map snd cs) \<and> list_all (\<lambda>(k, n). every_level_node P n) cs)"

definition every_level :: "(CampaignTreeNode list \<Rightarrow> bool) \<Rightarrow> forest \<Rightarrow> bool" where
  "every_level P ts \<longleftrightarrow> P (map snd ts) \<and> list_all (\<lambda>(k, n). every_level_node P n) ts"

text \<open>
  A comparator that looks at the data of the nodes only, and orders them totally and transitively.
\<close>

definition comparator :: "(CampaignTreeNode \<Rightarrow> CampaignTreeNode \<Rightarrow> rat) \<Rightarrow> bool" where
  "comparator cmp \<longleftrightarrow>
     (\<forall>a b cs ds. cmp (Node a cs) (Node b ds) = cmp (Node a []) (Node b []))
     \<and> (\<forall>a b. cmp a b \<le> 0 \<or> cmp b a \<le> 0)
     \<and> (\<forall>a b c. cmp a b \<le> 0 \<longrightarrow> cmp b c \<le> 0 \<longrightarrow> cmp a c \<le> 0)"

lemma comparator_sort: "comparator cmp \<Longrightarrow> cmp (sort_children cmp a) (sort_children cmp b) = cmp a b"
  unfolding comparator_def by (cases a; cases b) (metis sort_children.simps)

lemma sorted_level:
  assumes "comparator cmp"
  shows "sorted_wrt (\<lambda>a b. cmp a b \<le> 0) (map snd (map (\<lambda>(k, n). (k, sort_children cmp n)) (sort_level cmp cs)))"
proof -
  have "sorted_wrt (\<lambda>a b. cmp (snd a) (snd b) \<le> 0) (sort_level cmp cs)"
    unfolding sort_level_def using assms by (intro sorted_sort_by) (auto simp: comparator_def)
  then show ?thesis
    by (simp add: sorted_wrt_map comparator_sort [OF assms] case_prod_unfold)
qed

lemma sorted_children: "comparator cmp \<Longrightarrow> every_level_node (sorted_wrt (\<lambda>a b. cmp a b \<le> 0)) (sort_children cmp n)"
proof (induction cmp n rule: sort_children.induct)
  case (1 cmp d cs)
  have "list_all (\<lambda>(k, n). every_level_node (sorted_wrt (\<lambda>a b. cmp a b \<le> 0)) n)
      (map (\<lambda>(k, n). (k, sort_children cmp n)) (sort_level cmp cs))"
    using "1.IH" "1.prems" by (fastforce simp: list_all_iff)
  then show ?case using sorted_level [OF "1.prems"] by (simp only: sort_children.simps every_level_node.simps simp_thms)
qed

lemma sorted_walkSort: "comparator cmp \<Longrightarrow> every_level (sorted_wrt (\<lambda>a b. cmp a b \<le> 0)) (walkSort cmp ts)"
  using sorted_level sorted_children by (auto simp: every_level_def walkSort_def list_all_iff simp del: map_map)

lemma revenue_comparator: "comparator byRevenueDesc"
  by (auto simp: comparator_def byRevenueDesc_def split: if_splits)

lemma key_comparator:
  assumes "\<And>x y. lc x y \<le> 0 \<or> lc y x \<le> 0" and "\<And>x y z. lc x y \<le> 0 \<Longrightarrow> lc y z \<le> 0 \<Longrightarrow> lc x z \<le> 0"
    and "\<And>x y. lc x y = - lc y x"
  shows "comparator (by_key lc key asc)"
proof -
  have flip: "0 \<le> lc x y \<longleftrightarrow> lc y x \<le> 0" for x y using assms(3) [of x y] by simp
  show ?thesis
    unfolding comparator_def
  proof (intro conjI allI impI)
    fix a b cs ds show "by_key lc key asc (Node a cs) (Node b ds) = by_key lc key asc (Node a []) (Node b [])"
      by (simp add: by_key_def)
  next
    fix a b show "by_key lc key asc a b \<le> 0 \<or> by_key lc key asc b a \<le> 0"
      using assms(1) flip by (auto simp: by_key_def Let_def)
  next
    fix a b c assume "by_key lc key asc a b \<le> 0" "by_key lc key asc b c \<le> 0"
    then show "by_key lc key asc a c \<le> 0"
      using assms(2) flip by (auto simp: by_key_def Let_def split: if_splits)
  qed
qed

text \<open>
  C25: sorting the tree. The tree as built has every list of siblings in order of falling revenue,
  then falling views; sorting by a requested key orders every list of siblings by it, in the
  requested direction, whatever the order before; and sorting loses, adds and changes no node: each
  path still leads to a node with the same data.
\<close>

theorem campaign_tree_sorted:
  assumes "\<And>x y. lc x y \<le> 0 \<or> lc y x \<le> 0" and "\<And>x y z. lc x y \<le> 0 \<Longrightarrow> lc y z \<le> 0 \<Longrightarrow> lc x z \<le> 0"
    and "\<And>x y. lc x y = - lc y x"
  shows "every_level (sorted_wrt (\<lambda>a b. byRevenueDesc a b \<le> 0)) (buildCampaignTree rows)
    \<and> every_level (sorted_wrt (\<lambda>a b. by_key lc key asc a b \<le> 0)) (sortCampaignTree lc (buildCampaignTree rows) key asc)
    \<and> map_option data_of (node_at p (sortCampaignTree lc (buildCampaignTree rows) key asc))
        = map_option data_of (node_at p (buildCampaignTree rows))"
proof -
  have "uniq (map (\<lambda>(k, n). (k, finalize n)) (fold add_row rows []))"
    using uniq_rows [OF uniq_Nil, of rows] by (auto simp: uniq_def keys_map_snd list_all_iff uniq_finalize)
  then have "uniq (buildCampaignTree rows)" by (simp add: buildCampaignTree_def Let_def uniq_walkSort)
  then have "map_option data_of (node_at p (sortCampaignTree lc (buildCampaignTree rows) key asc))
      = map_option data_of (node_at p (buildCampaignTree rows))"
    by (simp add: sortCampaignTree_def node_at_walkSort option.map_comp o_def)
  moreover have "every_level (sorted_wrt (\<lambda>a b. byRevenueDesc a b \<le> 0)) (buildCampaignTree rows)"
    unfolding buildCampaignTree_def Let_def by (rule sorted_walkSort [OF revenue_comparator])
  moreover have "comparator (by_key lc key asc)" by (rule key_comparator) (fact assms)+
  then have "every_level (sorted_wrt (\<lambda>a b. by_key lc key asc a b \<le> 0)) (sortCampaignTree lc (buildCampaignTree rows) key asc)"
    unfolding sortCampaignTree_def by (rule sorted_walkSort)
  ultimately show ?thesis by simp
qed

definition example_row :: "string \<Rightarrow> string \<Rightarrow> int \<Rightarrow> CampaignRow" where
  "example_row camp src rev' =
     \<lparr>utm_campaign = camp, utm_source = src, utm_medium = ''cpc'', utm_content = [], utm_term = [],
      row_channel = ''Paid'', row_views = 1, row_visitors = 0, row_goals = 0, row_revenue = rev', row_rpv = 0\<rparr>"

theorem campaign_tree_sorted_witness:
  "map_option data_of (node_at [''a''] (sortCampaignTree (\<lambda>x y. of_nat (length x) - of_nat (length y))
      (buildCampaignTree [example_row ''a'' ''x'' 1]) K_campaign True))
   = map_option data_of (node_at [''a''] (buildCampaignTree [example_row ''a'' ''x'' 1]))"
  using campaign_tree_sorted [of "\<lambda>x y. of_nat (length x) - of_nat (length y)" "[example_row ''a'' ''x'' 1]" K_campaign True "[''a'']"]
  by linarith

section \<open>Path keys\<close>

text \<open>The raw values from the root to each node, in the order of \<^verbatim>\<open>treeNodes\<close>.\<close>

fun node_paths :: "string list \<Rightarrow> string \<Rightarrow> CampaignTreeNode \<Rightarrow> string list list" where
  "node_paths pre k (Node d cs) =
     (pre @ [k]) # concat (map (\<lambda>(k', n). node_paths (pre @ [k]) k' n) cs)"

definition forest_paths :: "string list \<Rightarrow> forest \<Rightarrow> string list list" where
  "forest_paths pre ts = concat (map (\<lambda>(k, n). node_paths pre k n) ts)"

text \<open>Every node's key is its parent's key extended by its own value.\<close>

fun keyed_node :: "string \<Rightarrow> string \<Rightarrow> CampaignTreeNode \<Rightarrow> bool" where
  "keyed_node pp k (Node d cs) =
     (pathKey d = path_key pp k \<and> list_all (\<lambda>(k', n). keyed_node (pathKey d) k' n) cs)"

definition keyed :: "string \<Rightarrow> forest \<Rightarrow> bool" where
  "keyed pp ts \<longleftrightarrow> list_all (\<lambda>(k, n). keyed_node pp k n) ts"

lemma node_paths_prefix: "q \<in> set (node_paths pre k n) \<Longrightarrow> \<exists>r. q = pre @ k # r"
proof (induction pre k n rule: node_paths.induct)
  case (1 pre k d cs)
  then show ?case by fastforce
qed

lemma node_paths_distinct: "uniq_node n \<Longrightarrow> distinct (node_paths pre k n)"
  and forest_paths_distinct: "uniq ts \<Longrightarrow> distinct (forest_paths pre ts)"
proof -
  have forest: "distinct (concat (map (\<lambda>(k, n). node_paths pre k n) ts))"
    if "distinct (keys ts)" "\<And>k n. (k, n) \<in> set ts \<Longrightarrow> distinct (node_paths pre k n)" for pre ts
    using that
  proof (induction ts)
    case (Cons x ts)
    obtain k n where x: "x = (k, n)" by (cases x)
    have "set (node_paths pre k n) \<inter> set (concat (map (\<lambda>(k, n). node_paths pre k n) ts)) = {}"
    proof -
      have False if a: "q \<in> set (node_paths pre k n)" and b: "(k', n') \<in> set ts" "q \<in> set (node_paths pre k' n')" for q k' n'
      proof -
        have "k = k'" using node_paths_prefix [OF a] node_paths_prefix [OF b(2)] by auto
        then show False using b(1) Cons.prems(1) by (force simp: x keys_def)
      qed
      then show ?thesis by fastforce
    qed
    then show ?case using Cons by (simp add: x keys_def)
  qed simp
  show one: "distinct (node_paths pre k n)" if "uniq_node n" for pre k n
    using that
  proof (induction pre k n rule: node_paths.induct)
    case (1 pre k d cs)
    have "pre @ [k] \<notin> set (concat (map (\<lambda>(k', n). node_paths (pre @ [k]) k' n) cs))"
      using node_paths_prefix by fastforce
    moreover have "distinct (concat (map (\<lambda>(k', n). node_paths (pre @ [k]) k' n) cs))"
      using "1.prems" "1.IH" by (intro forest) (auto simp: list_all_iff)
    ultimately show ?case by simp
  qed
  show "distinct (forest_paths pre ts)" if "uniq ts" for pre ts
    unfolding forest_paths_def using that one by (intro forest) (auto simp: uniq_def list_all_iff)
qed

lemma path_key_join:
  "(pre = [] \<or> join PATH_SEP pre \<noteq> []) \<Longrightarrow> path_key (join PATH_SEP pre) k = join PATH_SEP (pre @ [k])"
  by (cases "pre = []") (auto simp: path_key_def join_snoc)

lemma keyed_walk:
  "keyed_node (join PATH_SEP pre) k n \<Longrightarrow> join PATH_SEP (pre @ [k]) \<noteq> [] \<Longrightarrow> pre = [] \<or> join PATH_SEP pre \<noteq> [] \<Longrightarrow>
     map (\<lambda>n. pathKey (data_of n)) (walk n) = map (join PATH_SEP) (node_paths pre k n)"
proof (induction pre k n rule: node_paths.induct)
  case (1 pre k d cs)
  have key: "pathKey d = join PATH_SEP (pre @ [k])" using "1.prems"(1) path_key_join [OF "1.prems"(3)] by simp
  have "map (\<lambda>n. pathKey (data_of n)) (walk n) = map (join PATH_SEP) (node_paths (pre @ [k]) k' n)"
    if m: "(k', n) \<in> set cs" for k' n
  proof -
    have "keyed_node (join PATH_SEP (pre @ [k])) k' n" using "1.prems"(1) m by (auto simp: list_all_iff key)
    moreover have "join PATH_SEP ((pre @ [k]) @ [k']) \<noteq> []" using join_snoc [of "pre @ [k]" PATH_SEP k'] by (simp add: PATH_SEP_def)
    ultimately show ?thesis using "1.IH" [OF m refl] "1.prems"(2) by simp
  qed
  then have "map (\<lambda>n. pathKey (data_of n)) (concat (map (\<lambda>(k, n). walk n) cs))
      = map (join PATH_SEP) (concat (map (\<lambda>(k', n). node_paths (pre @ [k]) k' n) cs))"
    by (induction cs) auto
  then show ?case by (simp add: key)
qed

lemma keyed_node_alt:
  "keyed_node pp k n \<longleftrightarrow> pathKey (data_of n) = path_key pp k \<and> keyed (pathKey (data_of n)) (children n)"
  by (cases n) (simp add: keyed_def)

lemma keyed_omap_set: "keyed pp ts \<Longrightarrow> keyed_node pp k n \<Longrightarrow> keyed pp (omap_set k n ts)"
  unfolding keyed_def by (induction k n ts rule: omap_set.induct) auto

lemma keyed_found: "keyed pp ts \<Longrightarrow> keyed_node pp v (findOrCreateChild ts pp l v)"
  by (auto simp: findOrCreateChild_def emptyNode_def keyed_def list_all_iff split: option.split dest!: map_of_SomeD)

lemma keyed_add_path: "keyed pp ts \<Longrightarrow> keyed pp (add_path row path pp ts)"
proof (induction path arbitrary: pp ts)
  case (Cons x path)
  obtain l v where x: "x = (l, v)" by (cases x)
  let ?n = "findOrCreateChild ts pp l v"
  have kn: "pathKey (data_of ?n) = path_key pp v \<and> keyed (pathKey (data_of ?n)) (children ?n)"
    using keyed_found [OF Cons.prems, of v l] unfolding keyed_node_alt .
  note k = kn [THEN conjunct1] kn [THEN conjunct2]
  have "keyed_node pp v (push_term (utm_term row) (accumulate ?n row))"
    using k by (simp only: keyed_node_alt push_term_alt) simp
  moreover have "keyed_node pp v (Node (data_of (accumulate ?n row))
      (add_path row path (pathKey (data_of (accumulate ?n row))) (children (accumulate ?n row))))"
    using k Cons.IH [OF k(2)] by (simp only: keyed_node_alt data_of.simps children.simps accumulate_simps simp_thms)
  ultimately show ?case
    using Cons.prems unfolding x add_path.simps Let_def by (auto intro!: keyed_omap_set simp del: keyed_node.simps)
qed simp

lemma keyed_rows: "keyed [] ts \<Longrightarrow> keyed [] (fold add_row rows ts)"
  by (induction rows arbitrary: ts) (simp_all add: add_row_path keyed_add_path)

lemma keyed_finalize: "keyed_node pp k n \<Longrightarrow> keyed_node pp k (finalize n)"
proof (induction n arbitrary: pp k rule: finalize.induct)
  case (1 d cs)
  have "pathKey (dedupeTerms (d\<lparr>rpv := rpvOf (revenue d) (visitors d)\<rparr>)) = pathKey d" by (simp add: dedupeTerms_def)
  with 1 show ?case by (fastforce simp: list_all_iff)
qed

lemma keyed_sort: "keyed_node pp k n \<Longrightarrow> keyed_node pp k (sort_children cmp n)"
  by (induction cmp n arbitrary: pp k rule: sort_children.induct) (fastforce simp: list_all_iff set_sort_level)

lemma keyed_build: "keyed [] (buildCampaignTree rows)"
proof -
  have "keyed [] (fold add_row rows [])" by (rule keyed_rows) (simp add: keyed_def)
  then show ?thesis
    unfolding keyed_def buildCampaignTree_def walkSort_def Let_def list_all_iff
    using keyed_finalize keyed_sort by (fastforce simp: set_sort_level)
qed

lemma uniq_build: "uniq (buildCampaignTree rows)"
proof -
  have "uniq (map (\<lambda>(k, n). (k, finalize n)) (fold add_row rows []))"
    using uniq_rows [OF uniq_Nil, of rows] by (auto simp: uniq_def keys_map_snd list_all_iff uniq_finalize)
  then show ?thesis by (simp add: buildCampaignTree_def Let_def uniq_walkSort)
qed

lemma path_node_at:
  "uniq_node n \<Longrightarrow> q \<in> set (node_paths pre k n) \<Longrightarrow> \<exists>r. q = pre @ k # r \<and> (r = [] \<or> node_at r (children n) \<noteq> None)"
proof (induction pre k n rule: node_paths.induct)
  case (1 pre k d cs)
  consider "q = pre @ [k]" | k' n' where "(k', n') \<in> set cs" "q \<in> set (node_paths (pre @ [k]) k' n')"
    using "1.prems"(2) by auto
  then show ?case
  proof cases
    case 2
    have u: "uniq_node n'" using "1.prems"(1) 2(1) by (auto simp: list_all_iff)
    obtain r where r: "q = (pre @ [k]) @ k' # r" "r = [] \<or> node_at r (children n') \<noteq> None"
      using "1.IH" [OF 2(1) refl u 2(2)] by blast
    have "map_of cs k' = Some n'" using "1.prems"(1) 2(1) by (simp add: keys_def)
    with r show ?thesis by (intro exI [of _ "k' # r"]) auto
  qed simp
qed

lemma built_path_row:
  assumes "q \<in> set (forest_paths [] (buildCampaignTree rows))"
  shows "\<exists>k r row. q = k # r \<and> row \<in> set rows \<and> prefix q (row_values row)"
proof -
  let ?t = "buildCampaignTree rows"
  obtain k n where m: "(k, n) \<in> set ?t" "q \<in> set (node_paths [] k n)" using assms by (auto simp: forest_paths_def)
  have u: "uniq_node n" "map_of ?t k = Some n" using uniq_build [of rows] m(1) by (auto simp: uniq_def list_all_iff keys_def)
  obtain r where r: "q = k # r" "r = [] \<or> node_at r (children n) \<noteq> None" using path_node_at [OF u(1) m(2)] by auto
  then have "node_at q ?t \<noteq> None" using u(2) by auto
  then have "node_at q (fold add_row rows []) \<noteq> None" by (simp add: node_at_build)
  then have "list_ex (\<lambda>row. prefix q (row_values row)) rows"
    using node_exists_rows [of q rows "[]"] r(1) by (simp del: not_None_eq)
  then show ?thesis using r(1) by (auto simp: list_ex_iff)
qed

lemma map_walk_forest:
  assumes "keyed [] ts" and "\<And>k n. (k, n) \<in> set ts \<Longrightarrow> k \<noteq> []"
  shows "map (\<lambda>n. pathKey (data_of n)) (treeNodes ts) = map (join PATH_SEP) (forest_paths [] ts)"
proof -
  have "map (\<lambda>n. pathKey (data_of n)) (walk n) = map (join PATH_SEP) (node_paths [] k n)" if "(k, n) \<in> set ts" for k n
    using assms that by (intro keyed_walk) (auto simp: keyed_def list_all_iff)
  then show ?thesis unfolding treeNodes_def forest_paths_def by (induction ts) auto
qed

text \<open>
  the keys of the rows on the screen. When no value contains NUL and no row has an empty
  campaign, different nodes of the tree have different path keys. The separator alone does not
  give this: a source under the empty campaign has the key of the campaign of the same name, so
  the two rows share one key and are expanded and collapsed together.
\<close>

theorem path_keys_distinct:
  "(list_all (\<lambda>r. utm_campaign r \<noteq> [] \<and> list_all (\<lambda>v. CHR 0x00 \<notin> set v) (row_values r)) rows \<longrightarrow>
      distinct (map (\<lambda>n. pathKey (data_of n)) (treeNodes (buildCampaignTree rows))))
   \<and> \<not> distinct (map (\<lambda>n. pathKey (data_of n))
        (treeNodes (buildCampaignTree [example_row [] ''news'' 1, example_row ''news'' ''x'' 2])))"
proof
  show "list_all (\<lambda>r. utm_campaign r \<noteq> [] \<and> list_all (\<lambda>v. CHR 0x00 \<notin> set v) (row_values r)) rows \<longrightarrow>
      distinct (map (\<lambda>n. pathKey (data_of n)) (treeNodes (buildCampaignTree rows)))"
  proof
    assume ok: "list_all (\<lambda>r. utm_campaign r \<noteq> [] \<and> list_all (\<lambda>v. CHR 0x00 \<notin> set v) (row_values r)) rows"
    let ?t = "buildCampaignTree rows"
    have path: "q \<noteq> [] \<and> hd q \<noteq> [] \<and> (\<forall>w \<in> set q. CHR 0x00 \<notin> set w)" if q: "q \<in> set (forest_paths [] ?t)" for q
    proof -
      from built_path_row [OF q] obtain k r row where *: "q = k # r" "row \<in> set rows" "prefix q (row_values row)" by blast
      then have "k = utm_campaign row" by (simp add: row_values_def)
      moreover have "set q \<subseteq> set (row_values row)" using *(3) by (simp add: set_mono_prefix)
      ultimately show ?thesis using ok *(1,2) by (fastforce simp: list_all_iff)
    qed
    have roots: "k \<noteq> []" if "(k, n) \<in> set ?t" for k n
    proof -
      have "[k] \<in> set (forest_paths [] ?t)" using that by (cases n) (force simp: forest_paths_def)
      then show ?thesis using path by force
    qed
    have "inj_on (join PATH_SEP) (set (forest_paths [] ?t))"
    proof
      fix p q assume "p \<in> set (forest_paths [] ?t)" "q \<in> set (forest_paths [] ?t)" "join PATH_SEP p = join PATH_SEP q"
      then show "p = q" using path split_on_join [of p "CHR 0x00"] split_on_join [of q "CHR 0x00"]
        by (metis PATH_SEP_def)
    qed
    then have "distinct (map (join PATH_SEP) (forest_paths [] ?t))"
      using forest_paths_distinct [OF uniq_build, of "[]" rows] by (simp add: distinct_map)
    moreover have "map (\<lambda>n. pathKey (data_of n)) (treeNodes ?t) = map (join PATH_SEP) (forest_paths [] ?t)"
      using roots by (intro map_walk_forest keyed_build)
    ultimately show "distinct (map (\<lambda>n. pathKey (data_of n)) (treeNodes ?t))" by (simp only:)
  qed
  show "\<not> distinct (map (\<lambda>n. pathKey (data_of n))
        (treeNodes (buildCampaignTree [example_row [] ''news'' 1, example_row ''news'' ''x'' 2])))"
    by (simp add: buildCampaignTree_def add_row_def example_row_def Let_def findOrCreateChild_def emptyNode_def
        path_key_def walkSort_def sort_level_def byRevenueDesc_def treeNodes_def dedupeTerms_def PATH_SEP_def)
qed

theorem path_keys_distinct_witness:
  "distinct (map (\<lambda>n. pathKey (data_of n))
     (treeNodes (buildCampaignTree [example_row ''a'' ''b'' 1, example_row ''ab'' [] 2])))"
  using path_keys_distinct [of "[example_row ''a'' ''b'' 1, example_row ''ab'' [] 2]"]
  by (simp add: example_row_def row_values_def)

end
