(* ===== verification/Rows.thy ===== *)
theory Rows
  imports Json
begin

text \<open>
  The rows the panels read, as the contract in \<^verbatim>\<open>api/generated.ts\<close> declares them:
  64-bit counts are integers, doubles are rationals, optional members are options. Several records
  share member names; they are told apart by the record's name in front.
\<close>

record OverviewResult =
  pageviews :: int
  visitors :: int
  goals :: int
  revenue :: int
  rpv :: rat

record SourceRow =
  referrer_name :: string
  channel :: string
  views :: int
  visitors :: int
  goals :: int
  revenue :: int
  rpv :: rat

record SourceChannelRow =
  channel :: string
  views :: int
  visitors :: int
  goals :: int
  revenue :: int
  rpv :: rat

record SourcesResponse =
  rows :: "SourceRow list"
  by_channel :: "SourceChannelRow list"

record PageRow =
  pathname :: string
  views :: int
  visitors :: int
  goals :: int
  revenue :: int
  rpv :: rat

record SEORow =
  day :: string
  views :: int
  visitors :: int
  goals :: int
  revenue :: int

record DailyPoint =
  day :: string
  visitors :: int
  pageviews :: int
  goals :: int
  revenue :: int

record RealtimeResult =
  hour_utc :: string
  active_visitors :: int
  pageviews_last_hr :: int

record GeoRow =
  country_code :: string
  province :: string
  city :: string
  views :: int
  visitors :: int
  goals :: int
  revenue :: int
  rpv :: rat

record GeoTopRow =
  country_code :: string
  views :: int
  visitors :: int
  goals :: int
  revenue :: int
  rpv :: rat

record GeoResponse =
  top_rows :: "GeoTopRow list"
  geo_rows :: "GeoRow list"

record PropNameRow =
  prop_name :: string
  sample_values :: "string list"
  last_seen :: string

record VariantRow =
  variant_value :: string
  visitors :: int
  goal_completions :: int
  conversion_rate :: rat
  delta_pp :: "rat option"
  delta_rel :: "rat option"
  p_value :: "rat option"
  significant :: "bool option"
  ci_low :: "rat option"
  ci_high :: "rat option"

record CompareResult =
  dimension :: string
  goal :: string
  control :: string
  variants :: "VariantRow list"

record GoalSummary =
  goal_name :: string
  goal_pattern :: string

end
