(* ===== verification/Chart.thy ===== *)
theory Chart
  imports Filters Format Rows CampaignTree
begin

text \<open>
  The chart options of \<^verbatim>\<open>lib/chart.ts\<close> over the brand tokens of
  \<^verbatim>\<open>state/tokens.ts\<close>. An option is the JSON value handed to the chart library, with
  the tooltip formatter, which is a function, beside it. What the browser computes for a custom
  property or a mixed colour, how it writes a date, and how it formats money are parameters.
  A member whose value is undefined is left out.
\<close>

section \<open>Brand tokens\<close>

text \<open>The document, where there is one: the value of a custom property, and the colour computed for a text.\<close>

record Dom =
  property_value :: "string \<Rightarrow> string"
  computed_color :: "string \<Rightarrow> string"

record BrandTokens =
  green :: string
  greenDark :: string
  greenLight :: string
  ink :: string
  ink2 :: string
  paper :: string
  paper2 :: string
  ochre :: string
  ruleSoft :: string
  ruleHair :: string
  chartVisitors :: string
  chartRevenue :: string
  chartPageviews :: string
  chartConversion :: string
  chartRpv :: string
  chartGoals :: string
  chartVisitorsFillWash :: string

definition FALLBACK :: BrandTokens where
  "FALLBACK =
     \<lparr>green = ''var(--green)'',
      greenDark = ''var(--green-dk)'',
      greenLight = ''var(--green-lt)'',
      ink = ''var(--ink)'',
      ink2 = ''var(--ink-2)'',
      paper = ''var(--paper)'',
      paper2 = ''var(--paper-2)'',
      ochre = ''var(--chart-ochre)'',
      ruleSoft = ''var(--rule-soft)'',
      ruleHair = ''var(--rule-hair)'',
      chartVisitors = ''var(--chart-visitors)'',
      chartRevenue = ''var(--chart-revenue)'',
      chartPageviews = ''var(--chart-pageviews)'',
      chartConversion = ''var(--chart-conversion)'',
      chartRpv = ''var(--chart-rpv)'',
      chartGoals = ''var(--chart-goals)'',
      chartVisitorsFillWash = ''var(--chart-visitors-fill-wash)''\<rparr>"

definition readVar :: "Dom option \<Rightarrow> string \<Rightarrow> string \<Rightarrow> string" where
  "readVar doc name fallback =
     (case doc of
        None \<Rightarrow> fallback
      | Some d \<Rightarrow> let v = js_trim (property_value d name) in if v \<noteq> [] then v else fallback)"

definition readBrandTokens :: "Dom option \<Rightarrow> BrandTokens" where
  "readBrandTokens doc =
     \<lparr>green = readVar doc ''--green'' (green FALLBACK),
      greenDark = readVar doc ''--green-dk'' (greenDark FALLBACK),
      greenLight = readVar doc ''--green-lt'' (greenLight FALLBACK),
      ink = readVar doc ''--ink'' (ink FALLBACK),
      ink2 = readVar doc ''--ink-2'' (ink2 FALLBACK),
      paper = readVar doc ''--paper'' (paper FALLBACK),
      paper2 = readVar doc ''--paper-2'' (paper2 FALLBACK),
      ochre = readVar doc ''--chart-ochre'' (ochre FALLBACK),
      ruleSoft = readVar doc ''--rule-soft'' (ruleSoft FALLBACK),
      ruleHair = readVar doc ''--rule-hair'' (ruleHair FALLBACK),
      chartVisitors = readVar doc ''--chart-visitors'' (chartVisitors FALLBACK),
      chartRevenue = readVar doc ''--chart-revenue'' (chartRevenue FALLBACK),
      chartPageviews = readVar doc ''--chart-pageviews'' (chartPageviews FALLBACK),
      chartConversion = readVar doc ''--chart-conversion'' (chartConversion FALLBACK),
      chartRpv = readVar doc ''--chart-rpv'' (chartRpv FALLBACK),
      chartGoals = readVar doc ''--chart-goals'' (chartGoals FALLBACK),
      chartVisitorsFillWash = readVar doc ''--chart-visitors-fill-wash'' (chartVisitorsFillWash FALLBACK)\<rparr>"

section \<open>The theme\<close>

definition AXIS_FONT :: string where
  "AXIS_FONT = ''11px 'JetBrains Mono', ui-monospace, monospace''"

record EChartsTheme = BrandTokens +
  channels :: "(string, string) omap"
  pies :: "(string, string) omap"
  piesFallback :: "string list"
  piesDark :: "(string, string) omap"
  piesDarkFallback :: "string list"
  pieTrack :: string
  chartDark :: "MetricId \<Rightarrow> string"

definition CHANNEL_TOKEN :: "(string, string) omap" where
  "CHANNEL_TOKEN =
     [(''Direct'', ''--ch-direct''),
      (''Organic Search'', ''--ch-search''),
      (''Social'', ''--ch-social''),
      (''Organic Social'', ''--ch-social''),
      (''Social Media'', ''--ch-social''),
      (''Email'', ''--ch-email''),
      (''Referral'', ''--ch-referral''),
      (''AI'', ''--ch-ai''),
      (''Paid'', ''--ch-paid''),
      (''Video'', ''--ch-search''),
      (''Organic Video'', ''--ch-search'')]"

definition CHANNEL_PIE_TOKEN :: "(string, string) omap" where
  "CHANNEL_PIE_TOKEN =
     [(''Organic Search'', ''--pie-teal''),
      (''Direct'', ''--pie-slate''),
      (''Organic Social'', ''--pie-sky''),
      (''Social'', ''--pie-sky''),
      (''Social Media'', ''--pie-sky''),
      (''Email'', ''--pie-peach''),
      (''AI'', ''--pie-mauve''),
      (''Paid'', ''--pie-violet''),
      (''Referral'', ''--pie-olive''),
      (''Video'', ''--pie-crimson''),
      (''Organic Video'', ''--pie-crimson'')]"

definition PIE_PALETTE_FALLBACK :: "string list" where
  "PIE_PALETTE_FALLBACK =
     [''--pie-teal'', ''--pie-slate'', ''--pie-sky'', ''--pie-peach'', ''--pie-mauve'', ''--pie-violet'',
      ''--pie-olive'', ''--pie-crimson'']"

definition DARKEN_TOWARD_INK_PCT :: int where
  "DARKEN_TOWARD_INK_PCT = 22"

fun CHART_METRIC_TOKEN :: "MetricId \<Rightarrow> string" where
  "CHART_METRIC_TOKEN Visitors = ''--chart-visitors''"
| "CHART_METRIC_TOKEN Pageviews = ''--chart-pageviews''"
| "CHART_METRIC_TOKEN Conversion = ''--chart-conversion''"
| "CHART_METRIC_TOKEN Revenue = ''--chart-revenue''"
| "CHART_METRIC_TOKEN Rpv = ''--chart-rpv''"
| "CHART_METRIC_TOKEN Goals = ''--chart-goals''"

definition var_ref :: "string \<Rightarrow> string" where
  "var_ref cssVar = ''var('' @ cssVar @ '')''"

definition read_prop :: "Dom \<Rightarrow> string \<Rightarrow> string" where
  "read_prop d cssVar =
     (let v = js_trim (property_value d cssVar) in if v \<noteq> [] then v else var_ref cssVar)"

definition darkMix :: "string \<Rightarrow> string" where
  "darkMix cssVar =
     ''color-mix(in oklab, '' @ var_ref cssVar @ '' '' @ show_int (100 - DARKEN_TOWARD_INK_PCT) @ ''%, var(--ink))''"

definition resolveDark :: "Dom \<Rightarrow> string \<Rightarrow> string" where
  "resolveDark d cssVar =
     (let v = computed_color d (darkMix cssVar) in
      if v \<noteq> [] \<and> v \<noteq> ''rgba(0, 0, 0, 0)'' then v else read_prop d cssVar)"

definition map_values :: "('v \<Rightarrow> 'w) \<Rightarrow> ('k, 'v) omap \<Rightarrow> ('k, 'w) omap" where
  "map_values f m = map (\<lambda>(k, v). (k, f v)) m"

text \<open>A token's resting and darkened colour.\<close>

definition light_of :: "Dom option \<Rightarrow> string \<Rightarrow> string" where
  "light_of doc = (case doc of Some d \<Rightarrow> read_prop d | None \<Rightarrow> var_ref)"

definition dark_of :: "Dom option \<Rightarrow> string \<Rightarrow> string" where
  "dark_of doc = (case doc of Some d \<Rightarrow> resolveDark d | None \<Rightarrow> darkMix)"

definition readEChartsTheme :: "Dom option \<Rightarrow> EChartsTheme" where
  "readEChartsTheme doc =
     (let tokens = readBrandTokens doc;
          light = light_of doc;
          dark = dark_of doc
      in BrandTokens.extend tokens
           (EChartsTheme.fields
              (map_values light CHANNEL_TOKEN)
              (map_values light CHANNEL_PIE_TOKEN)
              (map light PIE_PALETTE_FALLBACK)
              (map_values dark CHANNEL_PIE_TOKEN)
              (map dark PIE_PALETTE_FALLBACK)
              (case doc of Some d \<Rightarrow> read_prop d ''--pie-track'' | None \<Rightarrow> ''var(--pie-track)'')
              (\<lambda>m. dark (CHART_METRIC_TOKEN m))))"

section \<open>Hues\<close>

definition pieHueForIndex :: "nat \<Rightarrow> EChartsTheme \<Rightarrow> string" where
  "pieHueForIndex idx theme = piesFallback theme ! (idx mod length (piesFallback theme))"

definition pieHueForChannel :: "string \<Rightarrow> nat \<Rightarrow> EChartsTheme \<Rightarrow> string" where
  "pieHueForChannel ch idx theme =
     (case map_of (pies theme) ch of Some h \<Rightarrow> h | None \<Rightarrow> pieHueForIndex idx theme)"

definition pieHueDarkForChannel :: "string \<Rightarrow> nat \<Rightarrow> EChartsTheme \<Rightarrow> string" where
  "pieHueDarkForChannel ch idx theme =
     (case map_of (piesDark theme) ch of
        Some h \<Rightarrow> h
      | None \<Rightarrow> piesDarkFallback theme ! (idx mod length (piesDarkFallback theme)))"

definition applyReducedMotion :: "bool \<Rightarrow> json \<times> 'f \<Rightarrow> json \<times> 'f" where
  "applyReducedMotion reduced opt =
     (if \<not> reduced then opt
      else (case opt of
              (JObj ms, f) \<Rightarrow> (JObj (omap_set ''animation'' (JBool False) ms), f)
            | _ \<Rightarrow> opt))"

section \<open>Metrics\<close>

type_synonym money_fn = "rat \<Rightarrow> string \<Rightarrow> nat \<Rightarrow> string"

record MetricSpec =
  spec_label :: string
  spec_color :: string
  spec_darkColor :: string
  spec_value :: "DailyPoint \<Rightarrow> rat"
  spec_format :: "rat \<Rightarrow> string"

fun buildMetricSpecs :: "money_fn \<Rightarrow> EChartsTheme \<Rightarrow> string \<Rightarrow> MetricId \<Rightarrow> MetricSpec" where
  "buildMetricSpecs money theme currency Visitors =
     \<lparr>spec_label = ''Visitors'', spec_color = chartVisitors theme, spec_darkColor = chartDark theme Visitors,
      spec_value = (\<lambda>d. of_int (DailyPoint.visitors d)), spec_format = fmtInt\<rparr>"
| "buildMetricSpecs money theme currency Pageviews =
     \<lparr>spec_label = ''Pageviews'', spec_color = chartPageviews theme, spec_darkColor = chartDark theme Pageviews,
      spec_value = (\<lambda>d. of_int (DailyPoint.pageviews d)), spec_format = fmtInt\<rparr>"
| "buildMetricSpecs money theme currency Conversion =
     \<lparr>spec_label = ''Conversion'', spec_color = chartConversion theme, spec_darkColor = chartDark theme Conversion,
      spec_value = (\<lambda>d. if 0 < DailyPoint.visitors d then percent_of (DailyPoint.goals d) (DailyPoint.visitors d) else 0),
      spec_format = fmtPct\<rparr>"
| "buildMetricSpecs money theme currency Revenue =
     \<lparr>spec_label = ''Revenue'', spec_color = chartRevenue theme, spec_darkColor = chartDark theme Revenue,
      spec_value = (\<lambda>d. of_int (DailyPoint.revenue d)), spec_format = (\<lambda>n. money n currency 0)\<rparr>"
| "buildMetricSpecs money theme currency Rpv =
     \<lparr>spec_label = ''RPV'', spec_color = chartRpv theme, spec_darkColor = chartDark theme Rpv,
      spec_value = (\<lambda>d. if 0 < DailyPoint.visitors d
                        then dbl (of_int (DailyPoint.revenue d) / of_int (DailyPoint.visitors d)) else 0),
      spec_format = (\<lambda>n. money n currency 2)\<rparr>"
| "buildMetricSpecs money theme currency Goals =
     \<lparr>spec_label = ''Goals'', spec_color = chartGoals theme, spec_darkColor = chartDark theme Goals,
      spec_value = (\<lambda>d. of_int (DailyPoint.goals d)), spec_format = fmtInt\<rparr>"

section \<open>Shared parts of an option\<close>

definition axisStyle :: "EChartsTheme \<Rightarrow> (string \<times> json) list" where
  "axisStyle theme =
     [(''axisLine'', JObj [(''lineStyle'', JObj [(''color'', JStr (ink2 theme))])]),
      (''axisTick'', JObj [(''show'', JBool False)]),
      (''axisLabel'', JObj [(''color'', JStr (ink2 theme)), (''fontSize'', JNum 11),
         (''fontFamily'', JStr '''JetBrains Mono', ui-monospace, monospace'')])]"

definition splitLineStyle :: "EChartsTheme \<Rightarrow> json" where
  "splitLineStyle theme =
     JObj [(''lineStyle'', JObj [(''color'', JStr (ruleHair theme)), (''width'', JNum 1), (''type'', JStr ''solid'')])]"

text \<open>The tooltip without its formatter; \<open>axis\<close> is the trigger.\<close>

definition tooltipBase :: "EChartsTheme \<Rightarrow> bool \<Rightarrow> json" where
  "tooltipBase theme axis =
     JObj ([(''trigger'', JStr (if axis then ''axis'' else ''item'')),
            (''backgroundColor'', JStr (ink theme)),
            (''borderColor'', JStr (ink theme)),
            (''textStyle'', JObj [(''color'', JStr (paper theme)), (''fontFamily'', JStr AXIS_FONT), (''fontSize'', JNum 11)])]
           @ (if axis then [(''axisPointer'', JObj [(''type'', JStr ''line''), (''lineStyle'', JObj [(''color'', JStr (ink2 theme))])])]
              else []))"

definition aria :: "string \<Rightarrow> json" where
  "aria description =
     JObj [(''show'', JBool True), (''label'', JObj [(''description'', JStr description)])]"

section \<open>Pies\<close>

definition PIE_RADIUS :: json where
  "PIE_RADIUS = JArr [JStr ''55%'', JStr ''85%'']"

record PieData =
  slice_name :: string
  slice_value :: int
  slice_color :: string
  slice_dark :: string

definition slice_json :: "PieData \<Rightarrow> json" where
  "slice_json d =
     JObj [(''name'', JStr (slice_name d)), (''value'', JNum (of_int (slice_value d))),
           (''itemStyle'', JObj [(''color'', JStr (slice_color d))]),
           (''emphasis'', JObj [(''itemStyle'', JObj [(''color'', JStr (slice_dark d))])])]"

record PieParams =
  p_name :: string
  p_number :: rat
  p_percent :: rat

definition pieOption ::
    "EChartsTheme \<Rightarrow> PieData list \<Rightarrow> (PieParams \<Rightarrow> string) \<Rightarrow> string \<Rightarrow> json \<times> (PieParams \<Rightarrow> string)" where
  "pieOption theme slices tooltipFormatter ariaDescription =
     (JObj
        [(''series'', JArr
           [JObj
              [(''type'', JStr ''pie''),
               (''radius'', PIE_RADIUS),
               (''center'', JArr [JStr ''50%'', JStr ''50%'']),
               (''data'', JArr (map slice_json slices)),
               (''label'', JObj [(''show'', JBool False)]),
               (''labelLine'', JObj [(''show'', JBool False)]),
               (''emphasis'', JObj
                  [(''scale'', JBool True),
                   (''scaleSize'', JNum 4),
                   (''itemStyle'', JObj [(''borderWidth'', JNum 2), (''borderColor'', JStr (ink theme))])]),
               (''itemStyle'', JObj [(''borderWidth'', JNum 2), (''borderColor'', JStr (paper2 theme))])]]),
         (''legend'', JObj [(''show'', JBool False)]),
         (''tooltip'', tooltipBase theme False),
         (''aria'', aria ariaDescription)],
      tooltipFormatter)"

definition buildPieData :: "string \<Rightarrow> int \<Rightarrow> nat \<Rightarrow> EChartsTheme \<Rightarrow> PieData" where
  "buildPieData ch v idx theme =
     \<lparr>slice_name = ch, slice_value = v, slice_color = pieHueForChannel ch idx theme,
      slice_dark = pieHueDarkForChannel ch idx theme\<rparr>"

text \<open>\<^verbatim>\<open>rs.map((r, i) => f(r, i))\<close>.\<close>

definition map_index :: "('a \<Rightarrow> nat \<Rightarrow> 'b) \<Rightarrow> 'a list \<Rightarrow> 'b list" where
  "map_index f rs = map (\<lambda>(i, r). f r i) (enumerate 0 rs)"

definition pie_tooltip :: "(rat \<Rightarrow> string) \<Rightarrow> PieParams \<Rightarrow> string" where
  "pie_tooltip format p =
     p_name p @ '': '' @ format (p_number p) @ '' ('' @ to_fixed 1 (p_percent p) @ ''%)''"

definition viewsPieOption :: "SourceChannelRow list \<Rightarrow> EChartsTheme \<Rightarrow> json \<times> (PieParams \<Rightarrow> string)" where
  "viewsPieOption rs theme =
     (let slices = map_index (\<lambda>r i. buildPieData (SourceChannelRow.channel r) (SourceChannelRow.views r) i theme)
                     (filter (\<lambda>r. 0 < SourceChannelRow.views r) rs)
      in pieOption theme slices (pie_tooltip fmtInt) ''Views by channel donut chart'')"

definition revenuePieOption ::
    "money_fn \<Rightarrow> SourceChannelRow list \<Rightarrow> EChartsTheme \<Rightarrow> string \<Rightarrow> json \<times> (PieParams \<Rightarrow> string)" where
  "revenuePieOption money rs theme currency =
     (let slices = map_index (\<lambda>r i. buildPieData (SourceChannelRow.channel r) (SourceChannelRow.revenue r) i theme)
                     (filter (\<lambda>r. 0 < SourceChannelRow.revenue r) rs)
      in pieOption theme slices (pie_tooltip (\<lambda>n. money n currency 0)) ''Revenue by channel donut chart'')"

definition by_channel_totals :: "(CampaignRow \<Rightarrow> int) \<Rightarrow> CampaignRow list \<Rightarrow> (string, int) omap" where
  "by_channel_totals valueOf rs =
     foldl (\<lambda>m r. omap_set (row_channel r)
                    ((case map_of m (row_channel r) of Some x \<Rightarrow> x | None \<Rightarrow> 0) + valueOf r) m) [] rs"

definition campaign_slices :: "CampaignRow list \<Rightarrow> EChartsTheme \<Rightarrow> (CampaignRow \<Rightarrow> int) \<Rightarrow> PieData list" where
  "campaign_slices rs theme valueOf =
     map_index (\<lambda>(ch, v) i. buildPieData ch v i theme)
       (filter (\<lambda>(ch, v). 0 < v) (by_channel_totals valueOf rs))"

definition campaignsPieOption ::
    "CampaignRow list \<Rightarrow> EChartsTheme \<Rightarrow> (CampaignRow \<Rightarrow> int) \<Rightarrow> (rat \<Rightarrow> string) \<Rightarrow> json \<times> (PieParams \<Rightarrow> string)" where
  "campaignsPieOption rs theme valueOf formatValue =
     pieOption theme (campaign_slices rs theme valueOf) (pie_tooltip formatValue)
       ''Revenue or visitors by channel for campaigns''"

section \<open>Lines\<close>

definition grid :: json where
  "grid = JObj [(''left'', JNum 48), (''right'', JNum 16), (''top'', JNum 16), (''bottom'', JNum 28)]"

record LineParams =
  l_day :: string
  l_number :: rat
  l_seriesName :: string
  l_color :: string

definition visitorLineOption ::
    "(string \<Rightarrow> string) \<Rightarrow> SEORow list \<Rightarrow> EChartsTheme \<Rightarrow> json \<times> (LineParams list \<Rightarrow> string)" where
  "visitorLineOption locale_date rs theme =
     (JObj
        [(''grid'', grid),
         (''xAxis'', JObj ((''type'', JStr ''time'') # axisStyle theme)),
         (''yAxis'', JObj ((''type'', JStr ''value'') # axisStyle theme @ [(''splitLine'', splitLineStyle theme)])),
         (''series'', JArr
           [JObj
              [(''type'', JStr ''line''),
               (''name'', JStr ''Visitors''),
               (''data'', JArr (map (\<lambda>r. JArr [JStr (SEORow.day r), JNum (of_int (SEORow.visitors r))]) rs)),
               (''lineStyle'', JObj [(''color'', JStr (chartVisitors theme)), (''width'', JNum 2)]),
               (''itemStyle'', JObj [(''color'', JStr (chartVisitors theme))]),
               (''symbol'', JStr ''none''),
               (''areaStyle'', JObj [(''color'', JStr (chartVisitorsFillWash theme))]),
               (''emphasis'', JObj
                  [(''focus'', JStr ''self''),
                   (''lineStyle'', JObj [(''color'', JStr (chartDark theme Visitors)), (''width'', JNum 3)]),
                   (''itemStyle'', JObj [(''color'', JStr (chartDark theme Visitors))])])]]),
         (''tooltip'', tooltipBase theme True),
         (''aria'', aria ''Daily visitors trend'')],
      \<lambda>arr. case arr of
          [] \<Rightarrow> []
        | p # _ \<Rightarrow> locale_date (l_day p) @ ''<br/>'' @ fmtInt (l_number p) @ '' visitors'')"

definition metric_axis :: "EChartsTheme \<Rightarrow> nat \<Rightarrow> json" where
  "metric_axis theme i =
     JObj ([(''type'', JStr ''value''), (''show'', JBool (i = 0))] @ axisStyle theme @
           [(''splitLine'', if i = 0 then splitLineStyle theme else JObj [(''show'', JBool False)]),
            (''scale'', JBool True)])"

definition metric_series ::
    "DailyPoint list \<Rightarrow> bool \<Rightarrow> EChartsTheme \<Rightarrow> MetricSpec \<Rightarrow> nat \<Rightarrow> json" where
  "metric_series rs isSingleVisitors theme spec i =
     JObj
       ([(''type'', JStr ''line''),
         (''name'', JStr (spec_label spec)),
         (''yAxisIndex'', JNum (of_nat i)),
         (''data'', JArr (map (\<lambda>r. JArr [JStr (DailyPoint.day r), JNum (spec_value spec r)]) rs)),
         (''lineStyle'', JObj [(''color'', JStr (spec_color spec)), (''width'', JNum 2)]),
         (''itemStyle'', JObj [(''color'', JStr (spec_color spec))]),
         (''symbol'', JStr ''none'')]
        @ (if isSingleVisitors then [(''areaStyle'', JObj [(''color'', JStr (chartVisitorsFillWash theme))])] else [])
        @ [(''emphasis'', JObj
              [(''focus'', JStr ''series''),
               (''lineStyle'', JObj [(''color'', JStr (spec_darkColor spec)), (''width'', JNum 3)]),
               (''itemStyle'', JObj [(''color'', JStr (spec_darkColor spec))])]),
           (''blur'', JObj
              [(''lineStyle'', JObj [(''opacity'', JNum (dbl (1 / 4)))]),
               (''areaStyle'', JObj [(''opacity'', JNum (dbl (1 / 10)))])])])"

definition tooltip_dot :: "string \<Rightarrow> string" where
  "tooltip_dot color =
     ''<span style=\"display:inline-block;width:8px;height:8px;border-radius:50%;background:'' @ color
     @ '';margin-right:6px;\"></span>''"

text \<open>\<open>None\<close>: there is a hovered series without a metric, and reading its format throws.\<close>

definition metrics_tooltip ::
    "(string \<Rightarrow> string) \<Rightarrow> MetricId list \<Rightarrow> (MetricId \<Rightarrow> MetricSpec) \<Rightarrow> LineParams list \<Rightarrow> string option" where
  "metrics_tooltip locale_date ms specs arr =
     (case arr of
        [] \<Rightarrow> Some []
      | p # _ \<Rightarrow>
          if length ms < length arr then None
          else Some (locale_date (l_day p) @ ''<br/>'' @
                 join ''<br/>''
                   (map_index (\<lambda>p i. tooltip_dot (l_color p) @ l_seriesName p @ '': ''
                                     @ spec_format (specs (ms ! i)) (l_number p)) arr)))"

definition metricsLineOption ::
    "(string \<Rightarrow> string) \<Rightarrow> DailyPoint list \<Rightarrow> MetricId list \<Rightarrow> (MetricId \<Rightarrow> MetricSpec) \<Rightarrow> EChartsTheme
     \<Rightarrow> json \<times> (LineParams list \<Rightarrow> string option)" where
  "metricsLineOption locale_date rs ms specs theme =
     (let isSingleVisitors = (length ms = 1 \<and> ms ! 0 = Visitors) in
      (JObj
         [(''grid'', grid),
          (''xAxis'', JObj ((''type'', JStr ''time'') # axisStyle theme)),
          (''yAxis'', JArr (map_index (\<lambda>_ i. metric_axis theme i) ms)),
          (''series'', JArr (map_index (\<lambda>m i. metric_series rs isSingleVisitors theme (specs m) i) ms)),
          (''legend'', JObj [(''show'', JBool False)]),
          (''tooltip'', tooltipBase theme True),
          (''aria'', aria ''Multi-metric trend chart'')],
       metrics_tooltip locale_date ms specs))"

section \<open>Ranked campaigns\<close>

record RankedCampaign =
  rank :: nat
  rank_label :: string
  rank_value :: int
  pctOfTop :: rat
  rank_color :: string

definition campaignLabel :: "CampaignRow \<Rightarrow> string" where
  "campaignLabel r =
     (let parts = filter (\<lambda>p. p \<noteq> []) (map js_trim [utm_campaign r, utm_source r, utm_medium r]) in
      if parts = [] then ''(none)'' else join [CHR 0x20, CHR 0xC2, CHR 0xB7, CHR 0x20] parts)"

definition topCampaignsRanked :: "CampaignRow list \<Rightarrow> EChartsTheme \<Rightarrow> nat \<Rightarrow> RankedCampaign list" where
  "topCampaignsRanked rs theme limit =
     (let sorted = take limit (sort_by (\<lambda>a b. row_revenue b - row_revenue a \<le> 0) rs);
          mx = (case sorted of [] \<Rightarrow> 0 | r # _ \<Rightarrow> row_revenue r)
      in map_index (\<lambda>r i.
           \<lparr>rank = i + 1, rank_label = campaignLabel r, rank_value = row_revenue r,
            pctOfTop = (if 0 < mx then percent_of (row_revenue r) mx else 0),
            rank_color = pieHueForChannel (row_channel r) i theme\<rparr>) sorted)"

section \<open>Every slice has a hue of the palette\<close>

lemma theme_fields [simp]:
  "pies (readEChartsTheme doc) = map_values (light_of doc) CHANNEL_PIE_TOKEN"
  "piesDark (readEChartsTheme doc) = map_values (dark_of doc) CHANNEL_PIE_TOKEN"
  "piesFallback (readEChartsTheme doc) = map (light_of doc) PIE_PALETTE_FALLBACK"
  "piesDarkFallback (readEChartsTheme doc) = map (dark_of doc) PIE_PALETTE_FALLBACK"
  by (simp_all add: readEChartsTheme_def Let_def BrandTokens.defs EChartsTheme.defs)

lemma map_of_map_values: "map_of (map_values f m) k = map_option f (map_of m k)"
  by (induction m) (auto simp: map_values_def)

lemma pie_tokens: "map_of CHANNEL_PIE_TOKEN ch = Some tok \<Longrightarrow> tok \<in> set PIE_PALETTE_FALLBACK"
  by (auto simp: CHANNEL_PIE_TOKEN_def PIE_PALETTE_FALLBACK_def split: if_splits)

lemma palette_length: "length PIE_PALETTE_FALLBACK = 8"
  by (simp add: PIE_PALETTE_FALLBACK_def)

lemma palette_nth: "PIE_PALETTE_FALLBACK ! (idx mod 8) \<in> set PIE_PALETTE_FALLBACK"
  using nth_mem [of "idx mod 8" PIE_PALETTE_FALLBACK] by (simp add: palette_length)

lemma light_nonempty: "light_of doc tok \<noteq> []"
  by (cases doc) (simp_all add: light_of_def read_prop_def var_ref_def Let_def)

text \<open>
  slice colours. Whatever the browser says about the tokens, and for every channel text and
  position, a slice's resting and hover colours are the light and the dark rendering of one and the
  same token of the eight-hue palette, and the resting colour is never empty. A channel of the
  taxonomy has its hue at every position; any other channel takes the hue of its position, counted
  modulo eight.
\<close>

theorem slice_hues:
  "(\<exists>tok. tok \<in> set PIE_PALETTE_FALLBACK
        \<and> pieHueForChannel ch i (readEChartsTheme doc) = light_of doc tok
        \<and> pieHueDarkForChannel ch i (readEChartsTheme doc) = dark_of doc tok)
   \<and> pieHueForChannel ch i (readEChartsTheme doc) \<noteq> []
   \<and> (if map_of CHANNEL_PIE_TOKEN ch \<noteq> None
      then pieHueForChannel ch i (readEChartsTheme doc) = pieHueForChannel ch j (readEChartsTheme doc)
      else pieHueForChannel ch i (readEChartsTheme doc) = light_of doc (PIE_PALETTE_FALLBACK ! (i mod 8)))"
proof (cases "map_of CHANNEL_PIE_TOKEN ch")
  case None
  have "i mod 8 < length PIE_PALETTE_FALLBACK" by (simp add: palette_length)
  with None show ?thesis
    using palette_nth [of i] light_nonempty
    by (intro conjI exI [of _ "PIE_PALETTE_FALLBACK ! (i mod 8)"])
       (simp_all add: pieHueForChannel_def pieHueDarkForChannel_def pieHueForIndex_def map_of_map_values palette_length)
next
  case (Some tok)
  then show ?thesis
    using pie_tokens [OF Some] light_nonempty
    by (auto simp: pieHueForChannel_def pieHueDarkForChannel_def map_of_map_values)
qed

section \<open>The campaigns pie\<close>

lemma totals_fold:
  "distinct (keys m) \<Longrightarrow>
     distinct (keys (foldl (\<lambda>m r. omap_set (row_channel r)
         ((case map_of m (row_channel r) of Some x \<Rightarrow> x | None \<Rightarrow> 0) + valueOf r) m) m rs))
   \<and> (case map_of (foldl (\<lambda>m r. omap_set (row_channel r)
         ((case map_of m (row_channel r) of Some x \<Rightarrow> x | None \<Rightarrow> 0) + valueOf r) m) m rs) ch of
        Some x \<Rightarrow> x | None \<Rightarrow> (0::int))
     = (case map_of m ch of Some x \<Rightarrow> x | None \<Rightarrow> 0) + sum_list (map valueOf (filter (\<lambda>r. row_channel r = ch) rs))"
proof (induction rs arbitrary: m)
  case (Cons r rs)
  let ?m = "omap_set (row_channel r) ((case map_of m (row_channel r) of Some x \<Rightarrow> x | None \<Rightarrow> 0) + valueOf r) m"
  have "distinct (keys ?m)" using Cons.prems by (rule distinct_omap_set)
  from Cons.IH [OF this] show ?case by (simp add: map_of_omap_set)
qed simp

definition channel_total :: "(CampaignRow \<Rightarrow> int) \<Rightarrow> CampaignRow list \<Rightarrow> string \<Rightarrow> int" where
  "channel_total valueOf rs ch = sum_list (map valueOf (filter (\<lambda>r. row_channel r = ch) rs))"

lemma totals_spec:
  "distinct (keys (by_channel_totals valueOf rs))"
  "(case map_of (by_channel_totals valueOf rs) ch of Some x \<Rightarrow> x | None \<Rightarrow> 0) = channel_total valueOf rs ch"
  using totals_fold [of "[]" valueOf rs ch] by (simp_all add: by_channel_totals_def channel_total_def keys_def)

lemma map_map_index: "map g (map_index f rs) = map_index (\<lambda>r i. g (f r i)) rs"
  by (simp add: map_index_def case_prod_unfold)

lemma map_index_const: "map_index (\<lambda>r i. f r) rs = map f rs"
proof -
  have "map (\<lambda>(i, r). f r) (enumerate n rs) = map f rs" for n by (induction rs arbitrary: n) simp_all
  then show ?thesis by (simp add: map_index_def)
qed

lemma map_index_positions: "map_index (\<lambda>r i. Suc i) rs = [1..<Suc (length rs)]"
proof -
  have "map (\<lambda>(i, r). Suc i) (enumerate n rs) = [Suc n..<Suc n + length rs]" for n
    by (induction rs arbitrary: n) (simp_all add: upt_rec [of "Suc n" "Suc (Suc (n + length x))" for n x] del: upt_Suc)
  from this [of 0] show ?thesis by (simp add: map_index_def del: upt_Suc)
qed

lemma length_map_index [simp]: "length (map_index f rs) = length rs"
  by (simp add: map_index_def)

lemma nth_map_index: "i < length rs \<Longrightarrow> map_index f rs ! i = f (rs ! i) i"
  by (simp add: map_index_def nth_enumerate_eq)

lemma map_of_filter_values:
  "distinct (map fst m) \<Longrightarrow>
     map_of (filter (\<lambda>(k, v). P v) m) k = (case map_of m k of Some v \<Rightarrow> if P v then Some v else None | None \<Rightarrow> None)"
proof (induction m)
  case (Cons x m)
  obtain k' v where x: "x = (k', v)" by (cases x)
  have "map_of m k' = None" using Cons.prems by (simp add: x map_of_eq_None_iff)
  then show ?case using Cons by (auto simp: x)
qed simp

text \<open>
  the slices of the campaigns pie. Their names are distinct; a channel has a slice exactly when
  its rows add up to more than 0, and the slice's value is that sum; so the slices together are the
  positive part of the table.
\<close>

theorem campaign_slices_spec:
  "distinct (map slice_name (campaign_slices rs theme valueOf))
   \<and> map_of (map (\<lambda>d. (slice_name d, slice_value d)) (campaign_slices rs theme valueOf)) ch
       = (if 0 < channel_total valueOf rs ch then Some (channel_total valueOf rs ch) else None)"
proof -
  let ?t = "by_channel_totals valueOf rs"
  have pairs: "map (\<lambda>d. (slice_name d, slice_value d)) (campaign_slices rs theme valueOf) = filter (\<lambda>(ch, v). 0 < v) ?t"
    unfolding campaign_slices_def map_map_index by (simp add: buildPieData_def case_prod_unfold map_index_const)
  have "map slice_name (campaign_slices rs theme valueOf)
      = map fst (map (\<lambda>d. (slice_name d, slice_value d)) (campaign_slices rs theme valueOf))" by simp
  then have names: "map slice_name (campaign_slices rs theme valueOf) = map fst (filter (\<lambda>(ch, v). 0 < v) ?t)"
    by (simp only: pairs)
  have d: "distinct (map fst ?t)" using totals_spec(1) by (simp add: keys_def)
  have "map_of (filter (\<lambda>(ch, v). 0 < v) ?t) ch = (case map_of ?t ch of Some v \<Rightarrow> if 0 < v then Some v else None | None \<Rightarrow> None)"
    using map_of_filter_values [OF d, of "\<lambda>v. 0 < v"] .
  then show ?thesis
    using totals_spec(2) [of valueOf rs ch] d unfolding pairs names
    by (cases "map_of ?t ch") (simp_all add: distinct_map_filter)
qed

section \<open>The rank list\<close>

lemma sorted_revenue: "sorted_wrt (\<lambda>a b. row_revenue b \<le> row_revenue a) (sort_by (\<lambda>a b. row_revenue b - row_revenue a \<le> 0) rs)"
  by (rule sorted_wrt_mono_rel [OF _ sorted_sort_by]) auto

lemma first_is_largest:
  "sorted_wrt (\<ge>) (map f s @ t) \<Longrightarrow> r \<in> set s \<Longrightarrow> f r \<le> (case s of [] \<Rightarrow> 0 | x # _ \<Rightarrow> f x)" for f :: "'a \<Rightarrow> int"
  by (cases s) auto

lemma case_first: "0 < length s \<Longrightarrow> (case s of [] \<Rightarrow> 0 | x # _ \<Rightarrow> f x) = f (s ! 0)"
  by (cases s) auto

text \<open>
  the best campaigns. The list has the requested number of rows, or all; ranks count from 1; the
  values fall from row to row, and together with some rest that nowhere exceeds them they are the
  revenues of the table; with non-negative revenues every bar is between 0 and 100 per cent, and
  the first is full whenever there is any revenue.
\<close>

theorem ranked_campaigns_spec:
  "let ranked = topCampaignsRanked rs theme limit in
    map rank ranked = [1..<Suc (min limit (length rs))]
    \<and> sorted_wrt (\<ge>) (map rank_value ranked)
    \<and> (\<exists>rest. mset (map rank_value ranked) + mset rest = mset (map row_revenue rs)
          \<and> list_all (\<lambda>x. list_all (\<lambda>y. x \<le> y) (map rank_value ranked)) rest)
    \<and> list_all (\<lambda>r. rank_value r < 0 \<or> 0 \<le> pctOfTop r \<and> pctOfTop r \<le> 100) ranked
    \<and> (case ranked of [] \<Rightarrow> True | r # _ \<Rightarrow> pctOfTop r = (if 0 < rank_value r then 100 else 0))"
proof -
  obtain ranked where ranked_def: "ranked = topCampaignsRanked rs theme limit" by blast
  let ?all = "sort_by (\<lambda>a b. row_revenue b - row_revenue a \<le> 0) rs"
  let ?s = "take limit ?all"
  let ?mx = "case ?s of [] \<Rightarrow> 0 | r # _ \<Rightarrow> row_revenue r"
  have vals: "map rank_value ranked = map row_revenue ?s"
    unfolding ranked_def topCampaignsRanked_def Let_def map_map_index by (simp add: map_index_const)
  have len: "length ranked = min limit (length rs)" by (simp add: ranked_def topCampaignsRanked_def Let_def)
  have row: "i < length ?s \<Longrightarrow> ranked ! i =
      \<lparr>rank = i + 1, rank_label = campaignLabel (?s ! i), rank_value = row_revenue (?s ! i),
       pctOfTop = (if 0 < ?mx then percent_of (row_revenue (?s ! i)) ?mx else 0),
       rank_color = pieHueForChannel (row_channel (?s ! i)) i theme\<rparr>" for i
    by (simp add: ranked_def topCampaignsRanked_def Let_def nth_map_index)
  have ls: "length ranked = length ?s" using len by (simp add: min.commute)
  have "map rank ranked = map_index (\<lambda>r i. Suc i) ?s"
    unfolding ranked_def topCampaignsRanked_def Let_def map_map_index by simp
  then have f1: "map rank ranked = [1..<Suc (min limit (length rs))]"
    using map_index_positions [of ?s] by (simp add: min.commute)
  have "sorted_wrt (\<ge>) (map row_revenue ?all)"
    using sorted_revenue by (simp add: sorted_wrt_map)
  then have sorted: "sorted_wrt (\<ge>) (map row_revenue ?s @ map row_revenue (drop limit ?all))"
    by (metis append_take_drop_id map_append)
  then have f2: "sorted_wrt (\<ge>) (map rank_value ranked)" by (simp only: vals sorted_wrt_append)
  have f3: "mset (map rank_value ranked) + mset (map row_revenue (drop limit ?all)) = mset (map row_revenue rs)"
  proof -
    have "mset (map row_revenue ?s) + mset (map row_revenue (drop limit ?all)) = mset (map row_revenue ?all)"
      by (metis append_take_drop_id map_append mset_append)
    then show ?thesis by (simp add: vals)
  qed
  have f4: "list_all (\<lambda>x. list_all (\<lambda>y. x \<le> y) (map rank_value ranked)) (map row_revenue (drop limit ?all))"
    using sorted unfolding vals sorted_wrt_append list_all_iff by blast
  have le: "row_revenue r \<le> ?mx" if "r \<in> set ?s" for r
    using first_is_largest [OF sorted that] .
  have f5: "list_all (\<lambda>r. rank_value r < 0 \<or> 0 \<le> pctOfTop r \<and> pctOfTop r \<le> 100) ranked"
    unfolding list_all_length
  proof (intro allI impI)
    fix i assume "i < length ranked"
    with ls have i: "i < length ?s" by simp
    have "row_revenue (?s ! i) \<le> ?mx" using le nth_mem [OF i] .
    then show "rank_value (ranked ! i) < 0 \<or> 0 \<le> pctOfTop (ranked ! i) \<and> pctOfTop (ranked ! i) \<le> 100"
      unfolding row [OF i] using percent_of_bounds [of "row_revenue (?s ! i)" ?mx] by auto
  qed
  have f6: "case ranked of [] \<Rightarrow> True | r # _ \<Rightarrow> pctOfTop r = (if 0 < rank_value r then 100 else 0)"
  proof (cases ranked)
    case (Cons r rest)
    then have "length ranked = Suc (length rest)" by simp
    then have z: "0 < length ?s" by (simp only: ls [symmetric])
    then have mx: "?mx = row_revenue (?s ! 0)" by (rule case_first)
    have "pctOfTop (ranked ! 0) = (if 0 < rank_value (ranked ! 0) then 100 else 0)"
      unfolding row [OF z] mx by (simp add: percent_of_def)
    then show ?thesis by (simp add: Cons)
  qed simp
  have f34: "\<exists>rest. mset (map rank_value ranked) + mset rest = mset (map row_revenue rs)
      \<and> list_all (\<lambda>x. list_all (\<lambda>y. x \<le> y) (map rank_value ranked)) rest"
    by (rule exI, rule conjI [OF f3 f4])
  show ?thesis
    unfolding Let_def ranked_def [symmetric] by (rule conjI [OF f1 conjI [OF f2 conjI [OF f34 conjI [OF f5 f6]]]])
qed

end
