(* ===== verification/View.thy ===== *)
theory View
  imports Signals Session Format
begin

text \<open>
  Rendered trees, and the small components of \<^verbatim>\<open>components/\<close> that are functions of
  the shared state: the loading line, the live dot, status and delta pills, the copy button, the
  segment caption, sortable column headers, the property chips, the filter panel, the tabs, the
  footer and the page frame. An element has a tag, attributes, handlers and children; a handler
  takes the value of the event's target and gives the action it performs.
\<close>

section \<open>Trees\<close>

datatype 'a vnode =
    Text string
  | Elem string "(string \<times> string) list" "(string \<times> (string \<Rightarrow> 'a)) list" "'a vnode list"

text \<open>The text of a tree, and all its elements from the root down, in document order.\<close>

fun text_of :: "'a vnode \<Rightarrow> string" where
  "text_of (Text s) = s"
| "text_of (Elem t as hs cs) = concat (map text_of cs)"

fun elements :: "'a vnode \<Rightarrow> 'a vnode list" where
  "elements (Text s) = []"
| "elements (Elem t as hs cs) = Elem t as hs cs # concat (map elements cs)"

fun attr :: "string \<Rightarrow> 'a vnode \<Rightarrow> string option" where
  "attr k (Text s) = None"
| "attr k (Elem t as hs cs) = map_of as k"

text \<open>What a click on each clickable element does, in document order.\<close>

fun clicks :: "'a vnode \<Rightarrow> 'a list" where
  "clicks (Text s) = []"
| "clicks (Elem t as hs cs) =
     (case map_of hs ''click'' of Some h \<Rightarrow> [h []] | None \<Rightarrow> []) @ concat (map clicks cs)"

definition button_attr :: "string \<times> string" where
  "button_attr = (''type'', ''button'')"

definition bool_text :: "bool \<Rightarrow> string" where
  "bool_text b = (if b then ''true'' else ''false'')"

text \<open>An attribute that is left out when its value is undefined.\<close>

definition optional :: "string \<Rightarrow> string option \<Rightarrow> (string \<times> string) list" where
  "optional k v = (case v of None \<Rightarrow> [] | Some x \<Rightarrow> [(k, x)])"

definition hidden :: "string \<times> string" where
  "hidden = (''aria-hidden'', ''true'')"

section \<open>Actions\<close>

text \<open>
  What a handler can do to the page: a writer of the filter, range or hash state, prefetching a
  panel, or signing out.
\<close>

datatype action = Store_action store_event | Prefetch PanelName | Sign_out

section \<open>Pills, pulse and loader\<close>

definition Loader :: "'a vnode" where
  "Loader = Elem ''p'' [(''class'', ''statnive-loading'')] [] [Text (''loading'' @ [CHR 0xE2, CHR 0x80, CHR 0xA6])]"

definition LivePulse :: "string option \<Rightarrow> 'a vnode" where
  "LivePulse label =
     Elem ''span''
       [(''class'', ''statnive-live-pulse''), (''role'', ''status''),
        (''aria-label'', case label of Some l \<Rightarrow> l | None \<Rightarrow> ''Live'')] [] []"

datatype StatusPillState = Live_state | Paused | Active | Disabled

fun STATUS_LABEL :: "StatusPillState \<Rightarrow> string" where
  "STATUS_LABEL Live_state = ''Live''"
| "STATUS_LABEL Active = ''Active''"
| "STATUS_LABEL Paused = ''Paused''"
| "STATUS_LABEL Disabled = ''Disabled''"

definition tone :: "StatusPillState \<Rightarrow> string" where
  "tone st = (if st = Live_state \<or> st = Active then ''on'' else ''off'')"

definition StatusPill :: "StatusPillState \<Rightarrow> 'a vnode" where
  "StatusPill st =
     Elem ''span''
       [(''class'', ''statnive-status-pill is-'' @ tone st), (''aria-label'', ''Status: '' @ STATUS_LABEL st)] []
       [Elem ''span'' [(''class'', ''statnive-status-pill-dot''), hidden] [] [],
        Elem ''span'' [(''class'', ''statnive-status-pill-label'')] [] [Text (STATUS_LABEL st)]]"

datatype trend = Up | Down | Flat

definition direction :: "rat \<Rightarrow> trend" where
  "direction p = (if 1 < p then Up else if p < -1 then Down else Flat)"

fun trend_name :: "trend \<Rightarrow> string" where
  "trend_name Up = ''up''" | "trend_name Down = ''down''" | "trend_name Flat = ''flat''"

fun ARROW :: "trend \<Rightarrow> string" where
  "ARROW Up = [CHR 0xE2, CHR 0x86, CHR 0x91]"
| "ARROW Down = [CHR 0xE2, CHR 0x86, CHR 0x93]"
| "ARROW Flat = [CHR 0xE2, CHR 0x80, CHR 0xA2]"

text \<open>\<open>None\<close> is both the missing percentage and NaN; rendering nothing is \<open>None\<close>.\<close>

definition DeltaPill :: "rat option \<Rightarrow> string option \<Rightarrow> 'a vnode option" where
  "DeltaPill deltaPct vsLabel =
     (case deltaPct of
        None \<Rightarrow> None
      | Some d \<Rightarrow>
          let dr = direction d;
              sign = (if 0 < d then ''+'' else []);
              pct = sign @ to_fixed 1 d @ ''%'';
              vs = (case vsLabel of Some l \<Rightarrow> l | None \<Rightarrow> [])
          in Some (Elem ''span''
               [(''class'', ''statnive-delta''), (''aria-label'', js_trim (trend_name dr @ '' '' @ pct @ '' '' @ vs))] []
               ([Elem ''span'' [(''class'', ''statnive-delta-pill is-'' @ trend_name dr)] []
                   [Elem ''span'' [(''class'', ''delta-arrow''), hidden] [] [Text (ARROW dr)],
                    Elem ''span'' [(''class'', ''delta-pct'')] [] [Text pct]]]
                @ (if vs \<noteq> [] then [Elem ''span'' [(''class'', ''delta-vs'')] [] [Text vs]] else []))))"

section \<open>The copy button\<close>

text \<open>Its state: whether it says copied, and the timer that will reset it.\<close>

record CopyState =
  copied :: bool
  copy_timer :: "nat option"

datatype copy_event = Copy_done nat | Copy_refused | Copy_timeout nat

text \<open>
  A click whose clipboard write succeeds clears the timer and starts a new one (with the given id);
  a timer that was cleared does not fire.
\<close>

fun copy_step :: "copy_event \<Rightarrow> CopyState \<Rightarrow> CopyState" where
  "copy_step (Copy_done i) s = s\<lparr>copied := True, copy_timer := Some i\<rparr>"
| "copy_step Copy_refused s = s"
| "copy_step (Copy_timeout i) s =
     (if copy_timer s = Some i then s\<lparr>copied := False, copy_timer := None\<rparr> else s)"

definition CopyButton :: "string \<Rightarrow> string \<Rightarrow> CopyState \<Rightarrow> unit vnode" where
  "CopyButton label copiedLabel s =
     Elem ''button'' [button_attr, (''class'', ''statnive-chip'')] [(''click'', \<lambda>_. ())]
       [Text (if copied s then copiedLabel else label)]"

section \<open>Segment caption and property chips\<close>

fun SCOPE_LABEL :: "scope \<Rightarrow> string" where
  "SCOPE_LABEL HitProps = ''Hit''"
| "SCOPE_LABEL SessionProps = ''Session''"
| "SCOPE_LABEL UserProps = ''User''"

definition prop_parts :: "Filters \<Rightarrow> (scope \<times> string \<times> string) list" where
  "prop_parts f = concat (map (\<lambda>sc. map (\<lambda>(n, v). (sc, n, v)) (get_scope sc f)) [HitProps, SessionProps, UserProps])"

definition caption_part :: "nat \<Rightarrow> scope \<times> string \<times> string \<Rightarrow> 'a vnode" where
  "caption_part i = (\<lambda>(sc, n, v).
     Elem ''span'' [(''class'', ''seg-caption-part'')] []
       ((if 0 < i then [Elem ''span'' [(''class'', ''seg-caption-sep''), hidden] [] [Text [CHR 0xC2, CHR 0xB7]]] else [])
        @ [Elem ''span'' [(''class'', ''seg-caption-scope'')] [] [Text (SCOPE_LABEL sc)],
           Elem ''span'' [(''class'', ''seg-caption-name'')] [] [Text n],
           Elem ''span'' [(''class'', ''seg-caption-eq''), hidden] [] [Text ''=''],
           Elem ''span'' [(''class'', ''seg-caption-value'')] [] [Text v]]))"

definition SegmentCaption :: "string \<Rightarrow> Filters \<Rightarrow> 'a vnode option" where
  "SegmentCaption lead f =
     (let parts = prop_parts f in
      if parts = [] then None
      else Some (Elem ''p'' [(''class'', ''seg-caption''), (''aria-label'', ''Active property filter'')] []
        (Elem ''span'' [(''class'', ''seg-caption-lead'')] [] [Text lead]
         # map (\<lambda>(i, p). caption_part i p) (enumerate 0 parts))))"

fun scope_name :: "scope \<Rightarrow> string" where
  "scope_name HitProps = ''hitProps''"
| "scope_name SessionProps = ''sessionProps''"
| "scope_name UserProps = ''userProps''"

definition svg :: "'a vnode \<Rightarrow> 'a vnode" where
  "svg shape =
     Elem ''svg'' [(''width'', ''8''), (''height'', ''8''), (''viewBox'', ''0 0 8 8''), hidden, (''class'', ''seg-chip-icon'')] []
       [shape]"

fun ScopeIcon :: "scope \<Rightarrow> 'a vnode" where
  "ScopeIcon HitProps =
     svg (Elem ''circle'' [(''cx'', ''4''), (''cy'', ''4''), (''r'', ''3''), (''fill'', ''currentColor'')] [] [])"
| "ScopeIcon SessionProps =
     svg (Elem ''polygon'' [(''points'', ''4,0 8,4 4,8 0,4''), (''fill'', ''currentColor'')] [] [])"
| "ScopeIcon UserProps =
     svg (Elem ''rect'' [(''x'', ''1''), (''y'', ''1''), (''width'', ''6''), (''height'', ''6''), (''fill'', ''currentColor'')] [] [])"

definition PropFilterChip :: "scope \<Rightarrow> string \<Rightarrow> string \<Rightarrow> action vnode" where
  "PropFilterChip sc name v =
     Elem ''button''
       [button_attr, (''class'', ''seg-chip''), (''data-scope'', scope_name sc),
        (''aria-label'', ''Remove filter: '' @ SCOPE_LABEL sc @ '' scope, '' @ name @ '' equals '' @ v @ ''.'')]
       [(''click'', \<lambda>_. Store_action (RemoveProp sc name))]
       [ScopeIcon sc,
        Elem ''span'' [(''class'', ''seg-chip-scope'')] [] [Text (SCOPE_LABEL sc)],
        Elem ''span'' [(''class'', ''seg-chip-name'')] [] [Text name],
        Elem ''span'' [(''class'', ''seg-chip-sep''), hidden] [] [Text '':''],
        Elem ''span'' [(''class'', ''seg-chip-value'')] [] [Text v],
        Elem ''span'' [(''class'', ''seg-chip-remove''), hidden] [] [Text [CHR 0xC3, CHR 0x97]]]"

section \<open>Sortable headers\<close>

definition ariaSortFor :: "bool \<Rightarrow> string \<Rightarrow> string" where
  "ariaSortFor active d =
     (if \<not> active then ''none'' else if d = ''asc'' then ''ascending'' else ''descending'')"

definition cycleClick :: "string \<Rightarrow> bool \<Rightarrow> string \<Rightarrow> patch" where
  "cycleClick column active d =
     (if \<not> active then [Key Sort column, Key Dir ''desc'']
      else if d = ''desc'' then [Key Sort column, Key Dir ''asc'']
      else [Key Sort [], Key Dir []])"

definition arrowGlyph :: "bool \<Rightarrow> string \<Rightarrow> string" where
  "arrowGlyph active d =
     (if \<not> active then [CHR 0xE2, CHR 0x86, CHR 0x95]
      else if d = ''asc'' then [CHR 0xE2, CHR 0x86, CHR 0x91] else [CHR 0xE2, CHR 0x86, CHR 0x93])"

definition SortGlyph :: "bool \<Rightarrow> string \<Rightarrow> 'a vnode" where
  "SortGlyph active d =
     Elem ''span'' [(''class'', ''statnive-sort-glyph'' @ (if active then '' is-active'' else [])), hidden] []
       [Text (arrowGlyph active d)]"

definition srLabel :: "string \<Rightarrow> bool \<Rightarrow> string \<Rightarrow> string" where
  "srLabel label active d =
     (if \<not> active then ''sort by '' @ label
      else ''sort by '' @ label @ '', currently '' @ (if d = ''asc'' then ''ascending'' else ''descending''))"

definition SortHeader :: "string \<Rightarrow> string \<Rightarrow> Filters \<Rightarrow> action vnode" where
  "SortHeader label column f =
     (if column = [] then Elem ''th'' [(''scope'', ''col'')] [] [Text label]
      else let active = (sort f = column); d = (if active then dir f else []) in
        Elem ''th'' [(''scope'', ''col''), (''aria-sort'', ariaSortFor active d), (''data-sortable'', ''true'')] []
          [Elem ''button'' [button_attr, (''class'', ''statnive-th-btn'')]
             [(''click'', \<lambda>_. Store_action (Update (cycleClick column active d)))]
             [Text label, SortGlyph active d,
              Elem ''span'' [(''class'', ''statnive-sr-only'')] [] [Text (srLabel label active d)]]])"

definition DualSortHeader :: "Filters \<Rightarrow> action vnode" where
  "DualSortHeader f =
     (let column = ''revenue''; active = (sort f = column); d = (if active then dir f else []) in
      Elem ''th'' [(''scope'', ''col''), (''aria-sort'', ariaSortFor active d), (''data-sortable'', ''true'')] []
        [Elem ''button'' [button_attr, (''class'', ''statnive-th-btn statnive-th-dual'')]
           [(''click'', \<lambda>_. Store_action (Update (cycleClick column active d)))]
           [Elem ''span'' [(''class'', ''visitors-row'')] [] [Text ''Visitors''],
            Elem ''span'' [(''class'', ''revenue-row'')] [] [Text ''Revenue'', SortGlyph active d],
            Elem ''span'' [(''class'', ''statnive-sr-only'')] [] [Text (srLabel ''revenue, then visitors'' active d)]]])"

section \<open>The filter panel\<close>

definition CHANNELS :: "string list" where
  "CHANNELS = [''Direct'', ''Organic Search'', ''Social Media'', ''Email'', ''Referral'', ''AI'', ''Paid'']"

definition channel_chip :: "Filters \<Rightarrow> string \<Rightarrow> action vnode" where
  "channel_chip f c =
     Elem ''button''
       [button_attr, (''class'', ''statnive-chip'' @ (if channel f = c then '' is-active'' else [])),
        (''aria-pressed'', bool_text (channel f = c))]
       [(''click'', \<lambda>_. Store_action (Update [Key Channel (if channel f = c then [] else c)]))]
       [Text c]"

text \<open>The add control is given by the caller: it is a component with a state of its own.\<close>

definition FilterPanel :: "Filters \<Rightarrow> PanelName \<Rightarrow> action vnode \<Rightarrow> action vnode" where
  "FilterPanel f pnl add_control =
     (let hasProps = hasAnyPropFilter f;
          anyFilter = (channel f \<noteq> [] \<or> path f \<noteq> [] \<or> hasProps);
          isSEO = (pnl = Seo)
      in Elem ''section'' [(''class'', ''statnive-filterpanel''), (''aria-label'', ''Filters'')] []
        [Elem ''div'' [(''class'', ''statnive-filter-row'')] []
           (Elem ''span'' [(''class'', ''statnive-filter-label'')] [] [Text ''Channel'']
            # (if isSEO
               then [Elem ''span'' [(''class'', ''statnive-filter-note''), (''data-testid'', ''filter-seo-note'')] []
                       [Text ''Showing Organic Search only'']]
               else map (channel_chip f) CHANNELS)),
         Elem ''div'' [(''class'', ''statnive-filter-row'')] []
           ([Elem ''label'' [(''class'', ''statnive-filter-label''), (''htmlFor'', ''flt-path'')] [] [Text ''Path''],
             Elem ''input'' [(''id'', ''flt-path''), (''type'', ''text''), (''placeholder'', ''/blog''), (''value'', path f)]
               [(''change'', \<lambda>v. Store_action (Update [Key Path (js_trim v)]))] []]
            @ (if anyFilter
               then [Elem ''button'' [button_attr, (''class'', ''statnive-chip'')] [(''click'', \<lambda>_. Store_action Clear)]
                       [Text ''Clear all'']]
               else [])),
         Elem ''div'' [(''class'', ''statnive-filter-row seg-chip-row''), (''aria-label'', ''Property filters'')] []
           (map (\<lambda>(sc, n, v). PropFilterChip sc n v) (prop_parts f) @ [add_control])])"

section \<open>The tabs\<close>

datatype tab_id = Real PanelName | Devices | Funnel

record TabDef =
  tab_id :: tab_id
  tab_label :: string
  adminOnly :: bool
  soon :: bool
  live :: bool

definition tab :: "tab_id \<Rightarrow> string \<Rightarrow> TabDef" where
  "tab i l = \<lparr>tab_id = i, tab_label = l, adminOnly = False, soon = False, live = False\<rparr>"

definition TABS :: "TabDef list" where
  "TABS =
     [tab (Real Overview) ''Overview'',
      tab (Real Sources) ''Sources'',
      tab (Real Pages) ''Pages'',
      tab (Real Seo) ''SEO'',
      tab (Real Campaigns) ''Campaigns'',
      tab (Real Geo) ''Geo'',
      tab (Real Compare) ''Compare'',
      (tab (Real Realtime) ''Realtime'')\<lparr>live := True\<rparr>,
      tab (Real Connect) ''Connect'',
      (tab (Real Admin) ''Admin'')\<lparr>adminOnly := True\<rparr>,
      (tab Devices ''Devices'')\<lparr>soon := True\<rparr>,
      (tab Funnel ''Funnel'')\<lparr>soon := True\<rparr>]"

fun tab_name :: "tab_id \<Rightarrow> string" where
  "tab_name (Real p) = panel_name p"
| "tab_name Devices = ''devices''"
| "tab_name Funnel = ''funnel''"

fun isRealPanel :: "tab_id \<Rightarrow> bool" where
  "isRealPanel (Real p) = True"
| "isRealPanel _ = False"

definition user_role :: "json option \<Rightarrow> json option" where
  "user_role u = (case u of Some (JObj ms) \<Rightarrow> map_of ms ''role'' | _ \<Rightarrow> None)"

text \<open>\<open>None\<close> for an action: a tab without a panel does nothing.\<close>

definition tab_action :: "(PanelName \<Rightarrow> action) \<Rightarrow> tab_id \<Rightarrow> action option" where
  "tab_action act i = (case i of Real p \<Rightarrow> Some (act p) | _ \<Rightarrow> None)"

definition nav_tab :: "HashState \<Rightarrow> TabDef \<Rightarrow> action option vnode" where
  "nav_tab h t =
     (if soon t then
        Elem ''span'' [(''role'', ''presentation''), (''aria-disabled'', ''true''), (''class'', ''statnive-nav-tab is-soon'')] []
          [Elem ''span'' [(''class'', ''tab-label'')] [] [Text (tab_label t)],
           Elem ''span'' [(''class'', ''tab-soon-pill'')] [] [Text ''SOON'']]
      else
        let isActive = (tab_id t = Real (panel h));
            classes = [''statnive-nav-tab'']
              @ (if isActive then [''is-active''] else [])
              @ (if tab_id t = Real Admin \<and> panel h = Admin then [''is-active-admin''] else [])
        in Elem ''a''
             [(''role'', ''tab''), (''aria-selected'', bool_text isActive), (''class'', join '' '' classes),
              (''href'', ''#'' @ tab_name (tab_id t))]
             [(''mouseenter'', \<lambda>_. tab_action Prefetch (tab_id t)),
              (''focus'', \<lambda>_. tab_action Prefetch (tab_id t)),
              (''click'', \<lambda>_. tab_action (\<lambda>p. Store_action (Nav (Navigate p (Some (params h))))) (tab_id t))]
             (Elem ''span'' [(''class'', ''tab-label'')] [] [Text (tab_label t)]
              # (if live t \<and> isActive then [LivePulse (Some ''Live'')] else [])))"

definition nav_tabs :: "json option \<Rightarrow> TabDef list" where
  "nav_tabs user = filter (\<lambda>t. \<not> adminOnly t \<or> user_role user = Some (JStr ''admin'')) TABS"

definition Nav_bar :: "HashState \<Rightarrow> json option \<Rightarrow> action option vnode" where
  "Nav_bar h user =
     Elem ''nav'' [(''class'', ''statnive-nav''), (''role'', ''tablist'')] [] (map (nav_tab h) (nav_tabs user))"

section \<open>Footer and frame\<close>

text \<open>The version the footer shows after the answer to its request.\<close>

definition footer_answer :: "answer \<Rightarrow> string \<Rightarrow> string" where
  "footer_answer a version =
     (case a of
        Rejected _ \<Rightarrow> version
      | Answer st body \<Rightarrow>
          if \<not> ok_status st then version
          else (case json_parse body of
                  Some (JObj ms) \<Rightarrow>
                    (case map_of ms ''version'' of Some (JStr v) \<Rightarrow> if v \<noteq> [] then v else version | _ \<Rightarrow> version)
                | _ \<Rightarrow> version))"

definition dot :: string where
  "dot = [CHR 0xC2, CHR 0xB7]"

definition Footer :: "string \<Rightarrow> 'a vnode" where
  "Footer version =
     Elem ''footer'' [(''class'', ''statnive-footer''), (''role'', ''contentinfo'')] []
       [Elem ''span'' [(''class'', ''statnive-footer-brand'')] []
          [Text ''statnive'', Text (if version \<noteq> [] then '' '' @ dot @ '' '' @ version else [])],
        Elem ''span'' [(''class'', ''statnive-footer-sep'')] [] [Text dot],
        Elem ''a'' [(''class'', ''statnive-footer-link''), (''href'', ''/api/about'')] [] [Text ''About''],
        Elem ''span'' [(''class'', ''statnive-footer-sep'')] [] [Text dot],
        Elem ''span'' [(''class'', ''statnive-footer-attribution'')] []
          [Text ''GeoIP by'', Text '' '',
           Elem ''a'' [(''href'', ''https://lite.ip2location.com''), (''rel'', ''noopener noreferrer'')] []
             [Text ''IP2Location LITE'']]]"

definition FALLBACK_TZ :: string where
  "FALLBACK_TZ = ''UTC''"

text \<open>
  The frame around a panel. The parts with a state of their own are given by the caller, and so is
  the short label of the zone; \<open>username\<close> and \<open>email\<close> are texts.
\<close>

definition user_text :: "string \<Rightarrow> json option \<Rightarrow> string option" where
  "user_text k u =
     (case u of Some (JObj ms) \<Rightarrow> (case map_of ms k of Some (JStr s) \<Rightarrow> Some s | _ \<Rightarrow> None) | _ \<Rightarrow> None)"

definition AppShell ::
    "action vnode \<Rightarrow> action vnode \<Rightarrow> action vnode \<Rightarrow> action vnode \<Rightarrow> action vnode \<Rightarrow> (string \<Rightarrow> string)
     \<Rightarrow> action vnode list \<Rightarrow> bool \<Rightarrow> json option \<Rightarrow> Site option \<Rightarrow> action vnode" where
  "AppShell site_switcher date_picker nav filter_panel footer tz_label kids onLogout user site =
     (let activeTZ = (case site of Some a \<Rightarrow> site_tz a | None \<Rightarrow> FALLBACK_TZ);
          name = (case user_text ''username'' user of Some n \<Rightarrow> n
                  | None \<Rightarrow> (case user_text ''email'' user of Some e \<Rightarrow> e | None \<Rightarrow> []));
          role = (case user_text ''role'' user of Some r \<Rightarrow> r | None \<Rightarrow> [])
      in Elem ''div'' [(''class'', ''statnive-shell'')] []
        [Elem ''header'' [(''class'', ''statnive-topbar''), (''role'', ''banner'')] []
           [Elem ''h1'' [(''class'', ''statnive-wordmark'')] []
              [Text ''statnive'', Elem ''em'' [(''class'', ''statnive-wordmark-live'')] [] [Text ''.live'']],
            Elem ''div'' [(''class'', ''statnive-topbar-right'')] []
              ([site_switcher]
               @ (if user \<noteq> None
                  then [Elem ''span'' [(''class'', ''statnive-user-chip''), (''aria-label'', ''signed-in user'')] []
                          [Elem ''span'' [(''class'', ''statnive-user-chip-name'')] [] [Text name],
                           Elem ''span'' [(''class'', ''statnive-user-chip-role'')] [] [Text role]]]
                  else [])
               @ (if user \<noteq> None \<and> onLogout
                  then [Elem ''button'' [button_attr, (''class'', ''statnive-logout''), (''aria-label'', ''Sign out'')]
                          [(''click'', \<lambda>_. Sign_out)] [Text ''Sign out'']]
                  else []))],
         Elem ''div'' [(''class'', ''statnive-datebar''), (''role'', ''region''), (''aria-label'', ''Date range'')] []
           [date_picker,
            Elem ''span''
              [(''class'', ''statnive-tz-chip''), (''aria-label'', ''timezone''), (''title'', activeTZ), (''data-tz'', activeTZ)]
              [] [Text (tz_label activeTZ)]],
         nav, filter_panel,
         Elem ''main'' [(''class'', ''statnive-main'')] [] kids,
         footer])"

section \<open>What the headers do\<close>

text \<open>The header cell's announced order, and the filters after a click on it.\<close>

definition announced :: "string \<Rightarrow> Filters \<Rightarrow> string option" where
  "announced column f = attr ''aria-sort'' (SortHeader [] column f)"

definition clicked :: "string \<Rightarrow> string \<Rightarrow> Filters \<Rightarrow> Filters" where
  "clicked label column f =
     fold (\<lambda>a. case a of Store_action (Update p) \<Rightarrow> merge p | _ \<Rightarrow> id) (clicks (SortHeader label column f)) f"

lemma clicked_merge:
  "column \<noteq> [] \<Longrightarrow> clicked label column f =
     merge (cycleClick column (sort f = column) (if sort f = column then dir f else [])) f"
  by (simp add: clicked_def SortHeader_def Let_def SortGlyph_def)

lemma announced_simp:
  "column \<noteq> [] \<Longrightarrow> announced column f = Some (ariaSortFor (sort f = column) (if sort f = column then dir f else []))"
  by (simp add: announced_def SortHeader_def Let_def)

text \<open>
  a sortable header. Clicking the header of a column that is not the sort column three times
  sorts by it falling, then rising, then not at all, and each time the header announces what is
  requested; every other header announces no order throughout. But a column that is requested
  without a direction, as a link may do, is announced as falling while a click on it drops the sort
  instead of turning it.
\<close>

theorem sort_header_cycle:
  assumes "column \<noteq> []" and "sort f \<noteq> column" and "other \<noteq> []" and "other \<noteq> column"
  shows "(let f1 = clicked label column f; f2 = clicked label column f1; f3 = clicked label column f2 in
      (sort f1, dir f1) = (column, ''desc'') \<and> (sort f2, dir f2) = (column, ''asc'') \<and> (sort f3, dir f3) = ([], [])
      \<and> map (announced column) [f, f1, f2, f3] = map Some [''none'', ''descending'', ''ascending'', ''none'']
      \<and> map (announced other) [f1, f2, f3] = map Some [''none'', ''none'', ''none''])
    \<and> announced column (f\<lparr>sort := column, dir := []\<rparr>) = Some ''descending''
    \<and> dirOf (f\<lparr>sort := column, dir := []\<rparr>) = Desc
    \<and> sort (clicked label column (f\<lparr>sort := column, dir := []\<rparr>)) = []"
  using assms
  by (simp add: clicked_merge announced_simp Let_def cycleClick_def merge_def ariaSortFor_def dirOf_def)

theorem sort_header_cycle_witness:
  "(sort (clicked ''Views'' ''views'' EMPTY_FILTERS), dir (clicked ''Views'' ''views'' EMPTY_FILTERS)) = (''views'', ''desc'')"
  using sort_header_cycle [of "''views''" EMPTY_FILTERS "''rpv''" "''Views''"]
  by (simp add: EMPTY_FILTERS_def Let_def)

section \<open>What the tabs do\<close>

lemma nav_tabs_cases:
  "nav_tabs user = (if user_role user = Some (JStr ''admin'') then TABS
     else filter (\<lambda>t. tab_id t \<noteq> Real Admin) TABS)"
  by (simp add: nav_tabs_def TABS_def tab_def)

definition selected_tabs :: "HashState \<Rightarrow> json option \<Rightarrow> nat" where
  "selected_tabs h user =
     length (filter (\<lambda>e. attr ''aria-selected'' e = Some ''true'') (elements (Nav_bar h user)))"

lemma selected_tab_count:
  "length (filter (\<lambda>e. attr ''aria-selected'' e = Some ''true'') (elements (nav_tab h t)))
     = (if \<not> soon t \<and> tab_id t = Real (panel h) then 1 else 0)"
  by (simp add: nav_tab_def Let_def bool_text_def LivePulse_def)

lemma length_filter_concat: "length (filter P (concat (map f ts))) = sum_list (map (\<lambda>t. length (filter P (f t))) ts)"
  by (induction ts) simp_all

lemma sum_list_indicator: "sum_list (map (\<lambda>t. if P t then 1 else 0) ts) = length (filter P ts)"
  by (induction ts) simp_all

lemma selected_tabs_sum:
  "selected_tabs h user = length (filter (\<lambda>t. \<not> soon t \<and> tab_id t = Real (panel h)) (nav_tabs user))"
  by (simp add: selected_tabs_def Nav_bar_def length_filter_concat comp_def selected_tab_count sum_list_indicator)

text \<open>
  the tabs. The administration tab is there exactly for administrators; the tab of the current
  panel, and no other, is announced as selected, unless it is the administration panel seen by
  someone else, when none is; a click on a panel's tab does nothing but open that panel with the
  parameters of the current address, which leaves the filters equal; the announced but unfinished
  panels do nothing.
\<close>

theorem nav_tabs_spec:
  "(Real Admin \<in> tab_id ` set (nav_tabs user) \<longleftrightarrow> user_role user = Some (JStr ''admin''))
   \<and> selected_tabs h user = (if panel h = Admin \<and> user_role user \<noteq> Some (JStr ''admin'') then 0 else 1)
   \<and> clicks (nav_tab h (tab (Real p) l)) = [Some (Store_action (Nav (Navigate p (Some (params h)))))]
   \<and> clicks (nav_tab h ((tab Devices l)\<lparr>soon := True\<rparr>)) = []
   \<and> hashSignal (nav_step (Navigate p (Some (params h))) b) = \<lparr>panel = p, params = params h\<rparr>"
proof -
  have "length (filter (\<lambda>t. \<not> soon t \<and> tab_id t = Real (panel h)) (nav_tabs user))
      = (if panel h = Admin \<and> user_role user \<noteq> Some (JStr ''admin'') then 0 else 1)"
    unfolding nav_tabs_cases by (cases "panel h") (simp_all add: TABS_def tab_def)
  moreover have "Real Admin \<in> tab_id ` set (nav_tabs user) \<longleftrightarrow> user_role user = Some (JStr ''admin'')"
    unfolding nav_tabs_cases by (simp add: TABS_def tab_def)
  moreover have "clicks (nav_tab h (tab (Real p) l)) = [Some (Store_action (Nav (Navigate p (Some (params h)))))]"
    by (simp add: nav_tab_def tab_def Let_def tab_action_def LivePulse_def)
  moreover have "clicks (nav_tab h ((tab Devices l)\<lparr>soon := True\<rparr>)) = []"
    by (simp add: nav_tab_def tab_def)
  moreover have "hashSignal (nav_step (Navigate p (Some (params h))) b) = \<lparr>panel = p, params = params h\<rparr>"
    by (simp add: navigate_def Let_def)
  ultimately show ?thesis by (simp only: selected_tabs_sum simp_thms)
qed

section \<open>What the filter panel does\<close>

lemma get_scope_removals:
  "get_scope sc (fold (\<lambda>(s, n, v) g. set_scope s (omap_delete n (get_scope s g)) g) ps f)
     = filter (\<lambda>(n, v). (sc, n) \<notin> (\<lambda>(s, n, v). (s, n)) ` set ps) (get_scope sc f)"
proof (induction ps arbitrary: f)
  case (Cons p ps)
  obtain s n v where p: "p = (s, n, v)" by (cases p)
  have "get_scope sc (set_scope s (omap_delete n (get_scope s f)) f)
      = filter (\<lambda>(m, w). (sc, m) \<noteq> (s, n)) (get_scope sc f)"
    by (cases "sc = s") (auto simp: get_set_scope omap_delete_def intro!: filter_cong)
  with Cons.IH show ?case
    by (simp add: p) (auto intro!: filter_cong)
qed simp

lemma prop_parts_member: "(sc, n, v) \<in> set (prop_parts f) \<longleftrightarrow> (n, v) \<in> set (get_scope sc f)"
  by (cases sc) (auto simp: prop_parts_def)

lemma removals_empty:
  "prop_parts (fold (\<lambda>(s, n, v) g. set_scope s (omap_delete n (get_scope s g)) g) (prop_parts f) f) = []"
proof -
  have "get_scope sc (fold (\<lambda>(s, n, v) g. set_scope s (omap_delete n (get_scope s g)) g) (prop_parts f) f) = []" for sc
    unfolding get_scope_removals using prop_parts_member [of sc _ _ f] by (force simp: filter_empty_conv)
  then show ?thesis by (simp add: prop_parts_def)
qed

lemma clicks_chip: "clicks (PropFilterChip sc n v) = [Store_action (RemoveProp sc n)]"
  by (cases sc) (simp_all add: PropFilterChip_def svg_def)

lemma clicks_channel:
  "clicks (channel_chip f c) = [Store_action (Update [Key Channel (if channel f = c then [] else c)])]"
  by (simp add: channel_chip_def)

text \<open>
  the filter panel. What it offers to click, in order: on every panel but SEO one chip per
  channel, which selects the channel or, when it is the selected one, clears it; the clear button,
  exactly when a channel, a path or a property filter is set; and one chip per active property
  filter that removes this filter. The chips removed one after the other leave no property filter.
\<close>

theorem filter_panel_actions:
  "clicks (FilterPanel f pnl (Text [])) =
      (if pnl = Seo then []
       else map (\<lambda>c. Store_action (Update [Key Channel (if channel f = c then [] else c)])) CHANNELS)
      @ (if channel f \<noteq> [] \<or> path f \<noteq> [] \<or> hasAnyPropFilter f then [Store_action Clear] else [])
      @ map (\<lambda>(sc, n, v). Store_action (RemoveProp sc n)) (prop_parts f)
   \<and> channel (merge [Key Channel (if channel f = c then [] else c)] f) = (if channel f = c then [] else c)
   \<and> prop_parts (fold (\<lambda>(sc, n, v) g. set_scope sc (omap_delete n (get_scope sc g)) g) (prop_parts f) f) = []"
proof -
  have chips: "concat (map (\<lambda>x. clicks (case x of (sc, n, v) \<Rightarrow> PropFilterChip sc n v)) ps)
      = map (\<lambda>(sc, n, v). Store_action (RemoveProp sc n)) ps" for ps
    by (induction ps) (auto simp: clicks_chip)
  have channels: "concat (map (\<lambda>c. clicks (channel_chip f c)) cs)
      = map (\<lambda>c. Store_action (Update [Key Channel (if channel f = c then [] else c)])) cs" for cs
    by (induction cs) (auto simp: clicks_channel)
  have "clicks (FilterPanel f pnl (Text [])) =
      (if pnl = Seo then []
       else map (\<lambda>c. Store_action (Update [Key Channel (if channel f = c then [] else c)])) CHANNELS)
      @ (if channel f \<noteq> [] \<or> path f \<noteq> [] \<or> hasAnyPropFilter f then [Store_action Clear] else [])
      @ map (\<lambda>(sc, n, v). Store_action (RemoveProp sc n)) (prop_parts f)"
    by (simp add: FilterPanel_def Let_def chips channels comp_def)
  then show ?thesis by (simp add: removals_empty merge_def)
qed

end
