(* ===== verification/Widgets.thy ===== *)
theory Widgets
  imports View
begin

text \<open>
  Components with a state of their own, as state machines over what can happen to them: the shared
  lazy import of \<^verbatim>\<open>lib/lazy.ts\<close> (used for charts and the calendar)
  and \<^verbatim>\<open>components/LazyPanel.tsx\<close>. A promise that settles is an event; whether it is still wanted then is decided as the source does.
\<close>

section \<open>Lazy imports\<close>

text \<open>
  The module's cache: the loaded value, and what became of the one promise it ever starts. A mounted
  component has a signal and a flag that its cleanup has run.
\<close>

datatype promise = Pending | Fulfilled | Failed_load

record Importer =
  imp_signal :: bool
  cancelled :: bool

record LazyCache =
  cache_value :: bool
  cache_promise :: "promise option"
  importers :: "Importer list"
  loads_started :: nat

definition makeLazyCache :: LazyCache where
  "makeLazyCache = \<lparr>cache_value = False, cache_promise = None, importers = [], loads_started = 0\<rparr>"

text \<open>
  Mounting runs the effect: with a value the signal is set, otherwise the promise is started unless
  there is one, and its continuation is attached; a promise that is already fulfilled runs it.
\<close>

definition mount_importer :: "LazyCache \<Rightarrow> LazyCache" where
  "mount_importer c =
     (if cache_value c then c\<lparr>importers := importers c @ [\<lparr>imp_signal = True, cancelled = False\<rparr>]\<rparr>
      else (case cache_promise c of
              None \<Rightarrow> c\<lparr>cache_promise := Some Pending, loads_started := Suc (loads_started c),
                        importers := importers c @ [\<lparr>imp_signal = False, cancelled = False\<rparr>]\<rparr>
            | Some _ \<Rightarrow> c\<lparr>importers := importers c @ [\<lparr>imp_signal = False, cancelled = False\<rparr>]\<rparr>))"

datatype lazy_event = Mount | Unmount nat | Loaded | Load_failed

text \<open>The promise settles once; every importer that is not cancelled is told of a value.\<close>

fun lazy_step :: "lazy_event \<Rightarrow> LazyCache \<Rightarrow> LazyCache" where
  "lazy_step Mount c = mount_importer c"
| "lazy_step (Unmount i) c =
     (if i < length (importers c) then c\<lparr>importers := (importers c)[i := (importers c ! i)\<lparr>cancelled := True\<rparr>]\<rparr> else c)"
| "lazy_step Loaded c =
     (if cache_promise c = Some Pending
      then c\<lparr>cache_promise := Some Fulfilled, cache_value := True,
             importers := map (\<lambda>m. if cancelled m then m else m\<lparr>imp_signal := True\<rparr>) (importers c)\<rparr>
      else c)"
| "lazy_step Load_failed c =
     (if cache_promise c = Some Pending then c\<lparr>cache_promise := Some Failed_load\<rparr> else c)"

text \<open>What \<^verbatim>\<open>LazyChart\<close> shows for an importer, and whether the calendar is ready.\<close>

definition LazyChart :: "'a vnode \<Rightarrow> Importer \<Rightarrow> 'a vnode" where
  "LazyChart chart m = (if \<not> imp_signal m then Loader else chart)"

definition useCallyReady :: "Importer \<Rightarrow> bool" where
  "useCallyReady m = imp_signal m"

definition lazy_ok :: "LazyCache \<Rightarrow> bool" where
  "lazy_ok c \<longleftrightarrow> (cache_value c \<longleftrightarrow> cache_promise c = Some Fulfilled)
     \<and> loads_started c = (if cache_promise c = None then 0 else 1)
     \<and> list_all (\<lambda>m. (imp_signal m \<longrightarrow> cache_value c) \<and> (cache_value c \<longrightarrow> cancelled m \<or> imp_signal m)) (importers c)"

lemma lazy_step_ok: "lazy_ok c \<Longrightarrow> lazy_ok (lazy_step e c)"
proof (cases e)
  case (Unmount i)
  assume ok: "lazy_ok c"
  show ?thesis
  proof (cases "i < length (importers c)")
    case True
    have "list_all P (xs[i := f (xs ! i)])" if "list_all P xs" "P (xs ! i) \<Longrightarrow> P (f (xs ! i))" "i < length xs"
      for P f and xs :: "Importer list"
      using that by (auto simp: list_all_length nth_list_update)
    then show ?thesis using ok True by (fastforce simp: Unmount lazy_ok_def)
  qed (use ok Unmount in simp)
qed (auto simp: lazy_ok_def mount_importer_def list_all_iff split: option.splits)

lemma lazy_run_ok: "lazy_ok c \<Longrightarrow> lazy_ok (fold lazy_step es c)"
  by (induction es arbitrary: c) (simp_all add: lazy_step_ok)

lemma failed_stays:
  assumes "cache_promise c = Some Failed_load"
  shows "cache_promise (fold lazy_step es c) = Some Failed_load"
  using assms
proof (induction es arbitrary: c)
  case (Cons e es)
  have "cache_promise (lazy_step e c) = Some Failed_load"
    using Cons.prems by (cases e) (simp_all add: mount_importer_def)
  then show ?case using Cons.IH by simp
qed simp

text \<open>
  the shared import. Whatever the order of mounts, unmounts and the promise settling, the module
  is loaded at most once, a component has its value exactly when the load has succeeded and it was
  not unmounted before, and one mounted later has it at once. If the one load fails, no component
  mounted before or after ever shows anything but the loader: the failed promise is kept and
  never tried again until the page is loaded anew.
\<close>

theorem lazy_import_spec:
  "(let c = fold lazy_step es makeLazyCache in
      loads_started c \<le> 1
      \<and> list_all (\<lambda>m. cancelled m \<or> imp_signal m = (cache_promise c = Some Fulfilled)) (importers c)
      \<and> list_all (\<lambda>m. LazyChart chart m = Loader)
          (importers (fold lazy_step fs (lazy_step Load_failed (c\<lparr>cache_promise := Some Pending, cache_value := False,
              importers := [], loads_started := 1\<rparr>)))))"
proof -
  let ?c = "fold lazy_step es makeLazyCache"
  have ok: "lazy_ok ?c" by (rule lazy_run_ok) (simp add: lazy_ok_def makeLazyCache_def)
  let ?f = "lazy_step Load_failed (?c\<lparr>cache_promise := Some Pending, cache_value := False, importers := [], loads_started := 1\<rparr>)"
  have "lazy_ok ?f" by (simp add: lazy_ok_def)
  then have run: "lazy_ok (fold lazy_step fs ?f)" by (rule lazy_run_ok)
  have "cache_promise (fold lazy_step fs ?f) = Some Failed_load" by (rule failed_stays) simp
  with run have "list_all (\<lambda>m. LazyChart chart m = Loader) (importers (fold lazy_step fs ?f))"
    by (auto simp: lazy_ok_def list_all_iff LazyChart_def)
  with ok show ?thesis by (auto simp: Let_def lazy_ok_def list_all_iff)
qed

section \<open>Lazy panels\<close>

text \<open>
  One \<^verbatim>\<open>LazyPanel\<close> stands at the same place of the page for every panel but the
  overview, so its signals outlive a change of its name. A request remembers the panel it loads;
  the component's cleanup makes it deaf to the requests of earlier names.
\<close>

record LazyPanel =
  lp_name :: PanelName
  comp :: "PanelName option"
  lp_err :: "string option"
  current_request :: "nat option"

record Panels =
  loaded :: "PanelName list"
  requests :: "PanelName list"
  mounted :: "LazyPanel option"

definition loaderFor :: "PanelName \<Rightarrow> PanelName option" where
  "loaderFor name = (if name = Overview then None else Some name)"

definition prefetchPanel :: "PanelName \<Rightarrow> Panels \<Rightarrow> Panels" where
  "prefetchPanel name p = (if name \<in> set (loaded p) then p else p\<lparr>requests := requests p @ [name]\<rparr>)"

text \<open>The effect on the name.\<close>

definition lp_effect :: "LazyPanel \<Rightarrow> Panels \<Rightarrow> Panels" where
  "lp_effect l p =
     (if lp_name l \<in> set (loaded p)
      then p\<lparr>mounted := Some (l\<lparr>comp := Some (lp_name l), current_request := None\<rparr>)\<rparr>
      else p\<lparr>mounted := Some (l\<lparr>current_request := Some (length (requests p))\<rparr>),
             requests := requests p @ [lp_name l]\<rparr>)"

datatype panel_event =
    Show PanelName
  | Hover PanelName
  | Panel_loaded nat
  | Panel_failed nat string

text \<open>
  Showing a panel: the overview unmounts the component; another panel mounts it, or gives the
  mounted one a new name, which runs the cleanup and the effect again.
\<close>

definition show_panel :: "PanelName \<Rightarrow> Panels \<Rightarrow> Panels" where
  "show_panel name p =
     (if name = Overview then p\<lparr>mounted := None\<rparr>
      else (case mounted p of
              None \<Rightarrow> lp_effect \<lparr>lp_name = name, comp = (if name \<in> set (loaded p) then Some name else None),
                                lp_err = None, current_request = None\<rparr> p
            | Some l \<Rightarrow> if lp_name l = name then p else lp_effect (l\<lparr>lp_name := name, current_request := None\<rparr>) p))"

fun panel_step :: "panel_event \<Rightarrow> Panels \<Rightarrow> Panels" where
  "panel_step (Show name) p = show_panel name p"
| "panel_step (Hover name) p = prefetchPanel name p"
| "panel_step (Panel_loaded i) p =
     (if i < length (requests p) then
        let p1 = p\<lparr>loaded := requests p ! i # loaded p\<rparr> in
        (case mounted p of
           Some l \<Rightarrow> if current_request l = Some i
                     then p1\<lparr>mounted := Some (l\<lparr>comp := Some (requests p ! i), current_request := None\<rparr>)\<rparr> else p1
         | None \<Rightarrow> p1)
      else p)"
| "panel_step (Panel_failed i e) p =
     (case mounted p of
        Some l \<Rightarrow> if current_request l = Some i then p\<lparr>mounted := Some (l\<lparr>lp_err := Some e, current_request := None\<rparr>)\<rparr> else p
      | None \<Rightarrow> p)"

datatype panel_view = No_panel | Panel_error | Panel_loader | Panel_of PanelName

definition LazyPanel_view :: "Panels \<Rightarrow> panel_view" where
  "LazyPanel_view p =
     (case mounted p of
        None \<Rightarrow> No_panel
      | Some l \<Rightarrow>
          if lp_err l \<noteq> None \<and> lp_err l \<noteq> Some [] then Panel_error
          else (case comp l of None \<Rightarrow> Panel_loader | Some c \<Rightarrow> Panel_of c))"

definition no_panels :: Panels where
  "no_panels = \<lparr>loaded = [], requests = [], mounted = None\<rparr>"

fun fails :: "panel_event \<Rightarrow> bool" where
  "fails (Panel_failed i e) = True"
| "fails e = False"

text \<open>While nothing failed: with nothing on its way the panel that was asked for is the one shown.\<close>

definition panels_ok :: "Panels \<Rightarrow> bool" where
  "panels_ok p \<longleftrightarrow>
     (case mounted p of
        None \<Rightarrow> True
      | Some l \<Rightarrow> lp_name l \<noteq> Overview \<and> lp_err l = None
          \<and> (case current_request l of
               None \<Rightarrow> comp l = Some (lp_name l)
             | Some i \<Rightarrow> i < length (requests p) \<and> requests p ! i = lp_name l))"

lemma panel_step_ok: "panels_ok p \<Longrightarrow> \<not> fails e \<Longrightarrow> panels_ok (panel_step e p)"
proof (cases e)
  case (Show name)
  assume "panels_ok p"
  then show ?thesis
    by (auto simp: Show panels_ok_def show_panel_def lp_effect_def nth_append split: option.splits)
next
  case (Hover name)
  assume "panels_ok p"
  then show ?thesis
    by (auto simp: Hover panels_ok_def prefetchPanel_def nth_append split: option.splits)
next
  case (Panel_loaded i)
  assume "panels_ok p"
  then show ?thesis
    by (auto simp: Panel_loaded panels_ok_def Let_def split: option.splits)
qed simp

lemma panel_run_ok: "panels_ok p \<Longrightarrow> list_all (\<lambda>e. \<not> fails e) es \<Longrightarrow> panels_ok (fold panel_step es p)"
  by (induction es arbitrary: p) (simp_all add: panel_step_ok)

fun keeps_error :: "panel_event \<Rightarrow> bool" where
  "keeps_error (Show name) = (name \<noteq> Overview)"
| "keeps_error (Panel_failed i e) = (e \<noteq> [])"
| "keeps_error e = True"

definition shows_error :: "Panels \<Rightarrow> bool" where
  "shows_error p = (case mounted p of None \<Rightarrow> False | Some l \<Rightarrow> lp_err l \<noteq> None \<and> lp_err l \<noteq> Some [])"

lemma shows_error_view: "LazyPanel_view p = Panel_error \<longleftrightarrow> shows_error p"
  by (auto simp: LazyPanel_view_def shows_error_def split: option.splits)

lemma error_step: "shows_error p \<Longrightarrow> keeps_error e \<Longrightarrow> shows_error (panel_step e p)"
  by (cases e)
     (auto simp: shows_error_def show_panel_def lp_effect_def prefetchPanel_def Let_def split: option.splits)

lemma error_sticks: "shows_error p \<Longrightarrow> list_all keeps_error es \<Longrightarrow> shows_error (fold panel_step es p)"
  by (induction es arbitrary: p) (simp_all add: error_step)

text \<open>
  panels that are loaded when they are first shown. As long as no load fails, whatever is
  shown, hovered and loaded in whatever order, a late answer for an earlier panel never takes the place
  of the one asked for: with nothing on its way, the panel named last is shown. But once
  a load has failed while its panel was shown, the error is shown for every panel until the overview is
  opened, loaded panels included: a new name does not clear it.
\<close>

theorem lazy_panel_spec:
  assumes "list_all (\<lambda>e. \<not> fails e) es" and "shows_error q" and "list_all keeps_error fs"
  shows "(case mounted (fold panel_step es no_panels) of
            None \<Rightarrow> LazyPanel_view (fold panel_step es no_panels) = No_panel
          | Some l \<Rightarrow> current_request l \<noteq> None \<or> LazyPanel_view (fold panel_step es no_panels) = Panel_of (lp_name l))
    \<and> LazyPanel_view (fold panel_step fs q) = Panel_error"
proof
  have "panels_ok (fold panel_step es no_panels)"
    using assms(1) by (intro panel_run_ok) (simp_all add: panels_ok_def no_panels_def)
  then show "case mounted (fold panel_step es no_panels) of
            None \<Rightarrow> LazyPanel_view (fold panel_step es no_panels) = No_panel
          | Some l \<Rightarrow> current_request l \<noteq> None \<or> LazyPanel_view (fold panel_step es no_panels) = Panel_of (lp_name l)"
    by (auto simp: panels_ok_def LazyPanel_view_def split: option.splits)
  show "LazyPanel_view (fold panel_step fs q) = Panel_error"
    using error_sticks [OF assms(2,3)] by (simp add: shows_error_view)
qed

theorem lazy_panel_spec_witness:
  "LazyPanel_view (fold panel_step [Show Pages, Show Seo, Panel_loaded 1, Panel_loaded 0] no_panels) = Panel_of Seo
   \<and> LazyPanel_view (fold panel_step [Show Sources, Hover Geo, Show Pages, Panel_loaded 0]
       (fold panel_step [Show Pages, Panel_loaded 0, Show Seo, Panel_failed 1 ''offline''] no_panels)) = Panel_error"
proof -
  have a: "list_all (\<lambda>e. \<not> fails e) [Show Pages, Show Seo, Panel_loaded 1, Panel_loaded 0]" by simp
  have b: "shows_error (fold panel_step [Show Pages, Panel_loaded 0, Show Seo, Panel_failed 1 ''offline''] no_panels)"
    by (simp add: shows_error_def no_panels_def show_panel_def lp_effect_def)
  have c: "list_all keeps_error [Show Sources, Hover Geo, Show Pages, Panel_loaded 0]" by simp
  show ?thesis
    using lazy_panel_spec [OF a b c]
    by (simp add: no_panels_def show_panel_def lp_effect_def LazyPanel_view_def)
qed

end
