(* ===== verification/Controls.thy ===== *)
theory Controls
  imports View
begin

text \<open>
  The controls of the top bar with a state of their own: the site switcher
  (\<^verbatim>\<open>components/SiteSwitcher.tsx\<close>) and the date picker
  (\<^verbatim>\<open>components/DatePicker.tsx\<close>), each as a state, the steps of its handlers over it
  and the shared state, and its rendered tree. Moving the keyboard focus has no effect on either.
\<close>

section \<open>The site switcher\<close>

record Switcher =
  sw_err :: "string option"
  sw_loading :: bool

definition new_switcher :: Switcher where
  "new_switcher = \<lparr>sw_err = None, sw_loading = True\<rparr>"

text \<open>
  What the request for the sites of its one effect settles with: the list (or no such member), an
  error with its message, or the abort of an unmounted component.
\<close>

datatype sites_reply = Sites_listed "Site list option" | Sites_failed string | Sites_aborted

definition pick_site :: "rat option \<Rightarrow> Site list \<Rightarrow> Site" where
  "pick_site stored ls =
     (let fromPersist = (case stored of None \<Rightarrow> None | Some i \<Rightarrow> find (\<lambda>s. site_id s = i) ls);
          firstEnabled = (case find site_enabled ls of Some s \<Rightarrow> s | None \<Rightarrow> hd ls)
      in (case fromPersist of Some s \<Rightarrow> s | None \<Rightarrow> firstEnabled))"

fun sites_answer :: "sites_reply \<Rightarrow> Switcher \<times> Session \<Rightarrow> Switcher \<times> Session" where
  "sites_answer (Sites_listed r) (w, s) =
     (let ls = (case r of None \<Rightarrow> [] | Some l \<Rightarrow> l);
          s1 = s\<lparr>sitesSignal := ls\<rparr>
      in (w\<lparr>sw_loading := False\<rparr>,
          if length ls = 0 then write_active_site None s1
          else write_active_site (Some (pick_site (loadPersistedSiteId (sessionStorage s1)) ls)) s1))"
| "sites_answer (Sites_failed e) (w, s) = (w\<lparr>sw_err := Some e, sw_loading := False\<rparr>, s)"
| "sites_answer Sites_aborted (w, s) = (w\<lparr>sw_loading := False\<rparr>, s)"

text \<open>The list's change handler, given the text of the chosen option.\<close>

definition switch_site :: "Site list \<Rightarrow> string \<Rightarrow> Session \<Rightarrow> Session" where
  "switch_site ls chosen s =
     (case number_of_string chosen of
        Fin i \<Rightarrow>
          (case find (\<lambda>x. site_id x = i) ls of
             Some nxt \<Rightarrow>
               (let s1 = write_active_site (Some nxt) s
                in s1\<lparr>sessionStorage := persistActiveSite (site_id nxt) (sessionStorage s1)\<rparr>)
           | None \<Rightarrow> s)
      | _ \<Rightarrow> s)"

definition site_option :: "Site \<Rightarrow> 'a vnode" where
  "site_option s =
     Elem ''option'' ((''value'', show_rat (site_id s)) # (if \<not> site_enabled s then [(''disabled'', [])] else [])) []
       [Text (site_hostname s), Text (if site_enabled s then [] else '' (disabled)'')]"

definition SiteSwitcher :: "Switcher \<Rightarrow> Session \<Rightarrow> (Session \<Rightarrow> Session) vnode" where
  "SiteSwitcher w s =
     (if sw_err w \<noteq> None \<and> sw_err w \<noteq> Some [] then
        Elem ''span'' [(''class'', ''statnive-site-switcher statnive-error'')] [] [Text ''sites unavailable'']
      else if sw_loading w then
        Elem ''span'' [(''class'', ''statnive-site-switcher statnive-loading'')] []
          [Text (''loading sites'' @ [CHR 0xE2, CHR 0x80, CHR 0xA6])]
      else
        let ls = sitesSignal s; active = activeSiteSignal s in
        if length ls = 0 then
          (if user_role (userSignal s) = Some (JStr ''admin'')
           then Elem ''a'' [(''class'', ''statnive-site-switcher''), (''href'', ''#admin'')] [] [Text ''no sites yet; add one'']
           else Elem ''span'' [(''class'', ''statnive-site-switcher'')] [] [Text ''no sites''])
        else if length ls = 1 then
          Elem ''span'' [(''class'', ''statnive-site-switcher''), (''data-testid'', ''site-single'')] []
            [Text (case active of Some a \<Rightarrow> site_hostname a | None \<Rightarrow> site_hostname (ls ! 0))]
        else
          Elem ''label'' [(''class'', ''statnive-site-switcher'')] []
            [Elem ''span'' [(''class'', ''statnive-site-label'')] [] [Text ''Site''],
             Elem ''select''
               [(''data-testid'', ''site-select''),
                (''value'', show_rat (case active of Some a \<Rightarrow> site_id a | None \<Rightarrow> site_id (ls ! 0)))]
               [(''change'', switch_site ls)] (map site_option ls)])"

text \<open>The elements with a change handler: what a user can choose with.\<close>

definition selects :: "'a vnode \<Rightarrow> 'a vnode list" where
  "selects v = filter (\<lambda>e. case e of Elem t as hs cs \<Rightarrow> map_of hs ''change'' \<noteq> None | Text _ \<Rightarrow> False) (elements v)"

lemma find_member: "find P xs = Some x \<Longrightarrow> x \<in> set xs \<and> P x"
  by (induction xs) (auto split: if_splits)

lemma find_the: "find P xs \<noteq> None \<Longrightarrow> the (find P xs) \<in> set xs \<and> P (the (find P xs))"
  using find_member by fastforce

lemma pick_site_in: "ls \<noteq> [] \<Longrightarrow> pick_site p ls \<in> set ls"
proof -
  assume ne: "ls \<noteq> []"
  let ?e = "case find site_enabled ls of Some s \<Rightarrow> s | None \<Rightarrow> hd ls"
  have e: "?e \<in> set ls"
    using ne find_the [of site_enabled ls] by (cases "find site_enabled ls") simp_all
  show ?thesis
  proof (cases p)
    case None
    then show ?thesis using e by (simp add: pick_site_def)
  next
    case (Some i)
    then show ?thesis
      using e find_the [of "\<lambda>s. site_id s = i" ls]
      by (cases "find (\<lambda>s. site_id s = i) ls") (simp_all add: pick_site_def)
  qed
qed

lemma write_active_fields:
  "activeSiteSignal (write_active_site a s) = a"
  "siteSignal (write_active_site a s) = (case a of Some x \<Rightarrow> site_id x | None \<Rightarrow> siteSignal s)"
  "sitesSignal (write_active_site a s) = sitesSignal s"
  "sessionStorage (write_active_site a s) = sessionStorage s"
  "userSignal (write_active_site a s) = userSignal s"
  by (auto simp: write_active_site_def site_effect_def split: option.splits)

lemma find_listed: "x \<in> set xs \<Longrightarrow> P x \<Longrightarrow> find P xs \<noteq> None"
  by (auto simp: find_None_iff)

lemma switch_site_known:
  assumes "x \<in> set ls" and "small_id (site_id x)"
  shows "activeSiteSignal (switch_site ls (show_rat (site_id x)) s) = find (\<lambda>y. site_id y = site_id x) ls"
    and "siteSignal (switch_site ls (show_rat (site_id x)) s) = site_id x"
    and "sessionStorage (switch_site ls (show_rat (site_id x)) s) = persistActiveSite (site_id x) (sessionStorage s)"
proof -
  let ?i = "site_id x"
  have v: "of_int \<lfloor>?i\<rfloor> = ?i" "0 < \<lfloor>?i\<rfloor>" "\<lfloor>?i\<rfloor> < 2 ^ 53" using assms(2) by (simp_all add: small_id_def)
  then have "show_rat ?i = show_nonneg \<lfloor>?i\<rfloor>" by (simp add: show_rat_def show_int_def)
  then have num: "number_of_string (show_rat ?i) = Fin ?i" using number_of_nonneg [of "\<lfloor>?i\<rfloor>"] v by simp
  obtain y where y: "find (\<lambda>y. site_id y = ?i) ls = Some y"
    using find_listed [of x ls "\<lambda>y. site_id y = ?i"] assms(1) by auto
  then have "site_id y = ?i" using find_member by fastforce
  with num y show "activeSiteSignal (switch_site ls (show_rat ?i) s) = find (\<lambda>y. site_id y = ?i) ls"
    and "siteSignal (switch_site ls (show_rat ?i) s) = ?i"
    and "sessionStorage (switch_site ls (show_rat ?i) s) = persistActiveSite ?i (sessionStorage s)"
    by (simp_all add: switch_site_def write_active_fields Let_def)
qed

text \<open>
  choosing the site. Once the list of sites has arrived and is not empty, the active site is
  one of them: the remembered one if it is listed, else the first enabled one, and requests carry its id;
  choosing a listed site sends its id with every later request and remembers it for the next page
  load. After the recovery from a revoked grant nothing can be chosen any more: the switcher
  has no list, though requests go on with the old id.
\<close>

theorem site_switcher_spec:
  assumes "ls \<noteq> []" and "x \<in> set ls" and "small_id (site_id x)" and "sessionStorage s \<noteq> None"
    and "t = snd (sites_answer (Sites_listed (Some ls)) (w, s))"
  shows "(\<exists>a \<in> set ls. activeSiteSignal t = Some a \<and> siteSignal t = site_id a
            \<and> (read_site_id (sessionStorage s) = Some (site_id x) \<longrightarrow> site_id a = site_id x)
            \<and> (read_site_id (sessionStorage s) = None \<and> site_enabled x \<longrightarrow> site_enabled a))
    \<and> siteSignal (switch_site ls (show_rat (site_id x)) t) = site_id x
    \<and> bootSiteId (sessionStorage (switch_site ls (show_rat (site_id x)) t)) = site_id x
    \<and> (sw_err w = None \<longrightarrow> selects (SiteSwitcher (w\<lparr>sw_loading := False\<rparr>) (clearStaleActiveSite t)) = [])
    \<and> siteSignal (clearStaleActiveSite t) = siteSignal t"
proof -
  let ?a = "pick_site (read_site_id (sessionStorage s)) ls"
  have t: "activeSiteSignal t = Some ?a" "siteSignal t = site_id ?a" "sessionStorage t = sessionStorage s"
    using assms(1) by (simp_all add: assms(5) Let_def write_active_fields loadPersistedSiteId_def)
  have per: "read_site_id (sessionStorage s) = Some (site_id x) \<longrightarrow> site_id ?a = site_id x"
    using find_listed [OF assms(2), of "\<lambda>y. site_id y = site_id x"]
      find_the [of "\<lambda>y. site_id y = site_id x" ls]
    by (cases "find (\<lambda>y. site_id y = site_id x) ls") (simp_all add: pick_site_def)
  have en: "read_site_id (sessionStorage s) = None \<and> site_enabled x \<longrightarrow> site_enabled ?a"
    using find_listed [OF assms(2), of site_enabled] find_the [of site_enabled ls]
    by (cases "find site_enabled ls") (auto simp: pick_site_def)
  have "bootSiteId (persistActiveSite (site_id x) (sessionStorage t)) = site_id x"
    using read_persisted [OF _ assms(3)] assms(4) t(3) by (simp add: bootSiteId_def)
  then have "bootSiteId (sessionStorage (switch_site ls (show_rat (site_id x)) t)) = site_id x"
    by (simp add: switch_site_known(3) [OF assms(2,3)])
  moreover have "sw_err w = None \<longrightarrow> selects (SiteSwitcher (w\<lparr>sw_loading := False\<rparr>) (clearStaleActiveSite t)) = []"
    by (simp add: SiteSwitcher_def selects_def clearStale_fields Let_def)
  ultimately show ?thesis
    using pick_site_in [OF assms(1)] t per en switch_site_known(2) [OF assms(2,3)] clearStale_fields(4) by blast
qed

definition example_site :: Site where
  "example_site = \<lparr>site_id = 7, site_hostname = ''example.org'', site_enabled = True, site_tz = ''UTC'', site_currency = ''EUR''\<rparr>"

theorem site_switcher_spec_witness:
  "bootSiteId (sessionStorage (switch_site [example_site] (show_rat 7)
     (snd (sites_answer (Sites_listed (Some [example_site])) (new_switcher, boot_session None (Some [])))))) = 7"
proof -
  have "small_id (site_id example_site)" "sessionStorage (boot_session None (Some [])) \<noteq> None"
    by (simp_all add: small_id_def example_site_def boot_session_def)
  then show ?thesis
    using site_switcher_spec [of "[example_site]" example_site "boot_session None (Some [])" _ new_switcher, OF _ _ _ _ refl]
    by (simp add: example_site_def)
qed

section \<open>The date picker\<close>

definition PRESETS :: "(DatePreset \<times> string) list" where
  "PRESETS =
     [(Today, ''Today''), (Yesterday, ''Yesterday''), (Days7, ''Last 7 days''), (Days30, ''Last 30 days''),
      (Days90, ''Last 90 days''), (Custom, ''Custom'')]"

definition DURATION_PRESETS :: "DatePreset list" where
  "DURATION_PRESETS = [Today, Yesterday, Days7, Days30, Days90]"

definition matchPreset :: "int \<Rightarrow> day_range \<Rightarrow> DatePreset" where
  "matchPreset now r =
     (case find (\<lambda>p. presetToRange now p = r) DURATION_PRESETS of Some p \<Rightarrow> p | None \<Rightarrow> Custom)"

datatype picker_mode = Single_day | Day_span

record Picker =
  active :: DatePreset
  is_open :: bool
  picker_mode :: picker_mode
  customFrom :: string
  customTo :: string
  pick_err :: "string option"

definition new_picker :: "int \<Rightarrow> Store \<Rightarrow> Picker" where
  "new_picker now s =
     \<lparr>active = matchPreset now (rangeSignal s), is_open = False, picker_mode = Day_span,
      customFrom = fst (rangeSignal s), customTo = snd (rangeSignal s), pick_err = None\<rparr>"

definition applyPreset :: "int \<Rightarrow> DatePreset \<Rightarrow> Picker \<times> Store \<Rightarrow> Picker \<times> Store" where
  "applyPreset now p ps =
     (case ps of (d, s) \<Rightarrow>
        let d1 = d\<lparr>active := p, pick_err := None\<rparr> in
        if p = Custom
        then (d1\<lparr>customFrom := fst (rangeSignal s), customTo := snd (rangeSignal s), is_open := True\<rparr>, s)
        else let nxt = presetToRange now p in (d1\<lparr>is_open := False\<rparr>, setRange (fst nxt) (snd nxt) s))"

definition order_error :: string where
  "order_error = ''dates must be YYYY-MM-DD and from '' @ [CHR 0xE2, CHR 0x89, CHR 0xA4] @ '' to''"

definition applyCustom :: "int \<Rightarrow> Picker \<times> Store \<Rightarrow> Picker \<times> Store" where
  "applyCustom now ps =
     (case ps of (d, s) \<Rightarrow>
        if \<not> isValidIrstRange (customFrom d) (customTo d) then (d\<lparr>pick_err := Some order_error\<rparr>, s)
        else (d\<lparr>pick_err := None, active := matchPreset now (customFrom d, customTo d), is_open := False\<rparr>,
              setRange (customFrom d) (customTo d) s))"

text \<open>
  The calendar's change handler. Shifting a date the engine cannot read throws after the first
  write, which stays.
\<close>

definition set_exclusive_end :: "(string \<Rightarrow> int option) \<Rightarrow> string \<Rightarrow> string \<Rightarrow> Picker \<Rightarrow> Picker" where
  "set_exclusive_end lenient first last_day d =
     (let d1 = d\<lparr>customFrom := first\<rparr> in
      case addDayIRST lenient last_day 1 of Some t \<Rightarrow> d1\<lparr>customTo := t\<rparr> | None \<Rightarrow> d1)"

definition calendar_change :: "(string \<Rightarrow> int option) \<Rightarrow> string \<Rightarrow> Picker \<Rightarrow> Picker" where
  "calendar_change lenient val d =
     (if val = [] then d
      else if picker_mode d = Single_day then
        (if \<not> date_shape val then d else set_exclusive_end lenient val val d)
      else (case split_on (CHR ''/'') val of
              startDay # endInclusive # _ \<Rightarrow>
                if startDay = [] \<or> endInclusive = [] then d else set_exclusive_end lenient startDay endInclusive d
            | _ \<Rightarrow> d))"

datatype picker_event =
    Chip DatePreset
  | Set_mode picker_mode
  | Calendar string
  | Apply
  | Click_outside
  | Escape_key

text \<open>What is inside the dialog, and the two document listeners, are there only while it is open.\<close>

fun picker_step :: "int \<Rightarrow> (string \<Rightarrow> int option) \<Rightarrow> picker_event \<Rightarrow> Picker \<times> Store \<Rightarrow> Picker \<times> Store" where
  "picker_step now lenient (Chip p) ds = applyPreset now p ds"
| "picker_step now lenient (Set_mode m) (d, s) = (if is_open d then d\<lparr>picker_mode := m\<rparr> else d, s)"
| "picker_step now lenient (Calendar val) (d, s) = (if is_open d then calendar_change lenient val d else d, s)"
| "picker_step now lenient Apply (d, s) = (if is_open d then applyCustom now (d, s) else (d, s))"
| "picker_step now lenient Click_outside (d, s) = (if is_open d then d\<lparr>is_open := False\<rparr> else d, s)"
| "picker_step now lenient Escape_key (d, s) = (if is_open d then d\<lparr>is_open := False\<rparr> else d, s)"

text \<open>The calendar's value; \<open>None\<close> is the exception it throws while rendering.\<close>

definition rangeValue :: "(string \<Rightarrow> int option) \<Rightarrow> Picker \<Rightarrow> string option" where
  "rangeValue lenient d =
     map_option (\<lambda>e. customFrom d @ ''/'' @ e) (addDayIRST lenient (customTo d) (- 1))"

definition CALLY_ATTRS :: "(string \<times> string) list" where
  "CALLY_ATTRS = [(''first-day-of-week'', ''1''), (''locale'', ''en-US''), (''show-outside-days'', ''true'')]"

definition calendar :: "Picker \<Rightarrow> string \<Rightarrow> picker_event vnode" where
  "calendar d rangeVal =
     (let tag = (if picker_mode d = Single_day then ''calendar-date'' else ''calendar-range'');
          val = (if picker_mode d = Single_day then customFrom d else rangeVal)
      in Elem tag ((''value'', val) # CALLY_ATTRS) [(''change'', Calendar)] [Elem ''calendar-month'' [] [] []])"

definition preset_chip :: "Picker \<Rightarrow> DatePreset \<times> string \<Rightarrow> picker_event vnode" where
  "preset_chip d pl =
     (case pl of (p, lab) \<Rightarrow>
        let isActive = (active d = p); isCustom = (p = Custom) in
        Elem ''button''
          ([button_attr, (''class'', ''statnive-chip'' @ (if isActive then '' is-active'' else [])),
            (''aria-pressed'', bool_text isActive)]
           @ optional ''aria-expanded'' (if isCustom then Some (bool_text (is_open d)) else None)
           @ optional ''aria-haspopup'' (if isCustom then Some ''dialog'' else None))
          [(''click'', \<lambda>_. Chip p)]
          (Text lab # (if isCustom \<and> isActive
                       then [Elem ''span'' [hidden] [] [Text ('' '' @ [CHR 0xE2, CHR 0x8C, CHR 0x84])]] else [])))"

definition mode_button :: "Picker \<Rightarrow> picker_mode \<Rightarrow> string \<Rightarrow> picker_event vnode" where
  "mode_button d m lab =
     Elem ''button''
       [button_attr, (''class'', ''statnive-datepicker-mode-btn'' @ (if picker_mode d = m then '' is-active'' else [])),
        (''aria-pressed'', bool_text (picker_mode d = m))]
       [(''click'', \<lambda>_. Set_mode m)] [Text lab]"

definition term_pair :: "string \<Rightarrow> string \<Rightarrow> 'a vnode list" where
  "term_pair k v = [Elem ''dt'' [] [] [Text k], Elem ''dd'' [] [] [Text v]]"

definition picker_echo :: "Picker \<Rightarrow> string \<Rightarrow> 'a vnode" where
  "picker_echo d echoToInclusive =
     Elem ''dl'' [(''class'', ''statnive-datepicker-echo'')] []
       (if picker_mode d = Single_day then term_pair ''Date'' (customFrom d)
        else term_pair ''From'' (customFrom d) @ term_pair ''To'' echoToInclusive)"

definition DatePicker :: "(string \<Rightarrow> int option) \<Rightarrow> bool \<Rightarrow> Picker \<Rightarrow> picker_event vnode option" where
  "DatePicker lenient callyReady d =
     (case (rangeValue lenient d, addDayIRST lenient (customTo d) (- 1)) of
        (Some rv, Some e) \<Rightarrow>
          Some (Elem ''div'' [(''class'', ''statnive-datepicker''), (''data-testid'', ''datepicker'')] []
            (Elem ''div''
               [(''class'', ''statnive-datepicker-presets''), (''role'', ''group''), (''aria-label'', ''Date range preset'')]
               [] (map (preset_chip d) PRESETS)
             # (if is_open d then
                 [Elem ''div''
                    [(''class'', ''statnive-datepicker-popover''), (''role'', ''dialog''),
                     (''aria-label'', ''Custom date range'')] []
                    ([Elem ''div''
                        [(''class'', ''statnive-datepicker-mode''), (''role'', ''group''),
                         (''aria-label'', ''Date selection mode'')] []
                        [mode_button d Day_span ''Range'', mode_button d Single_day ''Single''],
                      (if callyReady then calendar d rv else Loader),
                      picker_echo d (if picker_mode d = Single_day then customFrom d else e),
                      Elem ''button'' [button_attr, (''class'', ''statnive-datepicker-apply'')]
                        [(''click'', \<lambda>_. Apply)] [Text ''Apply'']]
                     @ (case pick_err d of
                          Some m \<Rightarrow> if m \<noteq> [] then [Elem ''span'' [(''class'', ''statnive-error'')] [] [Text m]] else []
                        | None \<Rightarrow> []))]
               else [])))
      | _ \<Rightarrow> None)"

lemma iso_day_text:
  assumes "in_calendar d" shows "CHR ''/'' \<notin> set (iso_day d)" and "iso_day d \<noteq> []"
proof -
  have shape: "date_shape (iso_day d)" using parse_iso_day(1) [OF assms] .
  let ?s = "iso_day d"
  have split: "?s = take 4 ?s @ take 1 (drop 4 ?s) @ take 2 (drop 5 ?s) @ take 1 (drop 7 ?s) @ drop 8 ?s"
    by (simp add: append_take_drop_id take_add [symmetric] flip: append_assoc)
  have no_slash: "CHR ''/'' \<notin> set w" if "digits w" for w
    using that by (auto simp: digits_def list_all_iff is_digit_def)
  have "CHR ''/'' \<notin> set (take 4 ?s) \<union> set (take 1 (drop 4 ?s)) \<union> set (take 2 (drop 5 ?s))
      \<union> set (take 1 (drop 7 ?s)) \<union> set (drop 8 ?s)"
    using shape no_slash by (auto simp: date_shape_def)
  then show "CHR ''/'' \<notin> set ?s" by (subst split) simp
  show "?s \<noteq> []" using shape by (auto simp: date_shape_def)
qed

text \<open>What is applied after a choice in the calendar, in either mode.\<close>

definition choice :: "picker_mode \<Rightarrow> int \<Rightarrow> int \<Rightarrow> string" where
  "choice m a b = (if m = Single_day then iso_day a else iso_day a @ ''/'' @ iso_day b)"

lemma calendar_choice:
  assumes "in_calendar a" and "in_calendar b" and "in_calendar (b + 1)" and "picker_mode d = Single_day \<Longrightarrow> b = a"
  shows "calendar_change lenient (choice (picker_mode d) a b) d
    = d\<lparr>customFrom := iso_day a, customTo := iso_day (b + 1)\<rparr>"
proof -
  have shift: "addDayIRST lenient (iso_day b) 1 = Some (iso_day (b + 1))"
    using parse_iso_day [OF assms(2)] by (simp add: addDayIRST_def IRST_DATE_RE_def)
  show ?thesis
  proof (cases "picker_mode d")
    case Single_day
    then show ?thesis
      using assms(4) shift parse_iso_day(1) [OF assms(1)] iso_day_text(2) [OF assms(1)]
      by (simp add: choice_def calendar_change_def set_exclusive_end_def)
  next
    case Day_span
    have "split_on (CHR ''/'') (iso_day a @ CHR ''/'' # iso_day b) = [iso_day a, iso_day b]"
      using iso_day_text(1) [OF assms(1)] iso_day_text(1) [OF assms(2)] by (simp add: text_simps)
    then show ?thesis
      using Day_span shift iso_day_text(2) [OF assms(1)] iso_day_text(2) [OF assms(2)]
      by (simp add: choice_def calendar_change_def set_exclusive_end_def)
  qed
qed

text \<open>
  choosing dates. For any two days in order (in single mode, the same day), choosing them in the
  open dialog and applying makes the shared range the half-open one from the first day to the day after
  the last, closes the dialog without an error, and the calendar shows the chosen days again. Without a
  choice, applying uses the range the dialog was opened with: also when it was
  switched to single mode and showed only the first day of it. A range whose end has the shape
  of a date that no engine reads makes the picker throw while it renders.
\<close>

theorem date_picker_spec:
  assumes "resting s" and "is_open d" and "in_calendar a" and "in_calendar (b + 1)" and "a \<le> b"
    and "picker_mode d = Single_day \<Longrightarrow> b = a"
    and "p = fold (picker_step now lenient) [Calendar (choice (picker_mode d) a b), Apply] (d, s)"
    and "q = fold (picker_step now lenient) [Chip Custom, Set_mode Single_day, Apply] (d, s)"
  shows "rangeSignal (snd p) = (iso_day a, iso_day (b + 1))
    \<and> \<not> is_open (fst p) \<and> pick_err (fst p) = None
    \<and> rangeValue lenient (fst p) = Some (iso_day a @ ''/'' @ iso_day b)
    \<and> rangeSignal (snd q) = rangeSignal s
    \<and> (date_shape (customTo d) \<and> parse_day (customTo d) = None \<and> lenient (customTo d) = None
        \<longrightarrow> DatePicker lenient ready d = None)"
proof -
  have cal: "in_calendar b"
    using assms(3,4,5) year_of_day_mono [of a b] year_of_day_mono [of b "b + 1"] by (simp add: in_calendar_def)
  have valid: "isValidIrstRange (iso_day a) (iso_day (b + 1))"
    using valid_iso_range [OF assms(3,4)] assms(5) by simp
  have p: "p = (d\<lparr>customFrom := iso_day a, customTo := iso_day (b + 1), pick_err := None,
      active := matchPreset now (iso_day a, iso_day (b + 1)), is_open := False\<rparr>, setRange (iso_day a) (iso_day (b + 1)) s)"
    using assms(2) valid calendar_choice [OF assms(3) cal assms(4,6)]
    by (simp add: assms(7) applyCustom_def)
  have back_shift: "addDayIRST lenient (iso_day (b + 1)) (- 1) = Some (iso_day b)"
    using parse_iso_day [OF assms(4)] by (simp add: addDayIRST_def IRST_DATE_RE_def)
  obtain fr to where r: "rangeSignal s = (fr, to)" by (cases "rangeSignal s")
  have "rangeSignal (snd q) = rangeSignal s"
    using setRange_facts(1) [OF assms(1), of fr to]
    by (simp add: assms(8) applyPreset_def applyCustom_def Let_def r)
  moreover have "date_shape (customTo d) \<and> parse_day (customTo d) = None \<and> lenient (customTo d) = None
        \<longrightarrow> DatePicker lenient ready d = None"
    by (simp add: DatePicker_def rangeValue_def addDayIRST_def IRST_DATE_RE_def)
  ultimately show ?thesis
    using setRange_facts(1) [OF assms(1) valid] by (simp add: p rangeValue_def back_shift)
qed

theorem date_picker_spec_witness:
  "rangeSignal (snd (fold (picker_step 0 (\<lambda>_. None)) [Calendar (choice Day_span 21242 21242), Apply]
     ((new_picker 0 example_store)\<lparr>is_open := True\<rparr>, example_store))) = (iso_day 21242, iso_day 21243)"
proof -
  have cal: "in_calendar 21242" "in_calendar (21242 + 1)" using year_2028 by (simp_all add: in_calendar_def)
  have mode: "picker_mode ((new_picker 0 example_store)\<lparr>is_open := True\<rparr>) = Day_span" by (simp add: new_picker_def)
  show ?thesis
    using date_picker_spec [OF example_resting _ cal, where now = 0 and lenient = "\<lambda>_. None" and d = "(new_picker 0 example_store)\<lparr>is_open := True\<rparr>",
        OF _ _ _ refl refl] mode by simp
qed

end
