(* ===== verification/Login.thy ===== *)
theory Login
  imports View
begin

text \<open>
  The sign-in page (\<^verbatim>\<open>pages/Login.tsx\<close>): the guard on the address to return to, the
  submission as a state machine over the session, and the form. The guard resolves the address with
  the platform's URL parser; it is modelled here for addresses that start with a slash: a path
  on the page's own origin, and an address that names a host of lower-case letters and dots. For
  any other host (with digits, a port, a user, an escape) what the parser gives is the parameter
  \<open>authority\<close>: its origin, path and query, or \<open>None\<close> when it does not parse.
\<close>

section \<open>Resolving a path\<close>

text \<open>The URL parser drops tabs and line ends anywhere, and trailing control characters and blanks.\<close>

definition tab_or_newline :: "char \<Rightarrow> bool" where
  "tab_or_newline c \<longleftrightarrow> c = CHR 0x09 \<or> c = CHR 0x0A \<or> c = CHR 0x0D"

definition control_or_space :: "char \<Rightarrow> bool" where
  "control_or_space c \<longleftrightarrow> (of_char c :: nat) \<le> 32"

definition url_clean :: "string \<Rightarrow> string" where
  "url_clean s = filter (\<lambda>c. \<not> tab_or_newline c) (rev (dropWhile control_or_space (rev s)))"

definition is_slash :: "char \<Rightarrow> bool" where
  "is_slash c \<longleftrightarrow> c = CHR ''/'' \<or> c = CHR 0x5C"

fun split_slashes :: "string \<Rightarrow> string list" where
  "split_slashes [] = [[]]"
| "split_slashes (c # s) =
     (if is_slash c then [] # split_slashes s
      else case split_slashes s of [] \<Rightarrow> [[c]] | w # ws \<Rightarrow> (c # w) # ws)"

definition single_dot :: "string \<Rightarrow> bool" where
  "single_dot w \<longleftrightarrow> ascii_lower w \<in> {''.'', ''%2e''}"

definition double_dot :: "string \<Rightarrow> bool" where
  "double_dot w \<longleftrightarrow> ascii_lower w \<in> {''..'', ''.%2e'', ''%2e.'', ''%2e%2e''}"

definition path_unsafe :: "char \<Rightarrow> bool" where
  "path_unsafe c \<longleftrightarrow>
     (of_char c :: nat) \<le> 32 \<or> 126 < (of_char c :: nat) \<or> c \<in> set ''#<>?`{}^'' \<or> c = CHR 0x22"

definition query_unsafe :: "char \<Rightarrow> bool" where
  "query_unsafe c \<longleftrightarrow>
     (of_char c :: nat) \<le> 32 \<or> 126 < (of_char c :: nat) \<or> c \<in> set ''#<>'' \<or> c = CHR 0x22 \<or> c = CHR 0x27"

definition escape :: "(char \<Rightarrow> bool) \<Rightarrow> string \<Rightarrow> string" where
  "escape unsafe s = concat (map (\<lambda>c. if unsafe c then percent c else [c]) s)"

text \<open>
  The path state: every segment but the last is followed by a slash; a dot segment at the end leaves
  an empty segment.
\<close>

fun push_segments :: "string list \<Rightarrow> string list \<Rightarrow> string list" where
  "push_segments acc [] = acc"
| "push_segments acc [w] =
     (if double_dot w then butlast acc @ [[]]
      else if single_dot w then acc @ [[]]
      else acc @ [escape path_unsafe w])"
| "push_segments acc (w # v # ws) =
     (if double_dot w then push_segments (butlast acc) (v # ws)
      else if single_dot w then push_segments acc (v # ws)
      else push_segments (acc @ [escape path_unsafe w]) (v # ws))"

definition path_text :: "string list \<Rightarrow> string" where
  "path_text ws = concat (map (\<lambda>w. CHR ''/'' # w) ws)"

definition url_path :: "string \<Rightarrow> string" where
  "url_path s =
     takeWhile (\<lambda>c. c \<noteq> CHR ''?'' \<and> c \<noteq> CHR ''#'') s"

definition url_query :: "string \<Rightarrow> string" where
  "url_query s =
     (case dropWhile (\<lambda>c. c \<noteq> CHR ''?'' \<and> c \<noteq> CHR ''#'') s of
        [] \<Rightarrow> []
      | c # q \<Rightarrow> if c = CHR ''?'' then takeWhile (\<lambda>c. c \<noteq> CHR ''#'') q else [])"

record Url =
  url_origin :: string
  pathname :: string
  url_search :: string

definition names_host :: "string \<Rightarrow> bool" where
  "names_host s \<longleftrightarrow> (case s of a # b # _ \<Rightarrow> is_slash a \<and> is_slash b | _ \<Rightarrow> False)"

text \<open>All slashes before a host are skipped; it ends at a slash, a question mark or a number sign.\<close>

definition url_host :: "string \<Rightarrow> string" where
  "url_host s = takeWhile (\<lambda>c. \<not> is_slash c \<and> c \<noteq> CHR ''?'' \<and> c \<noteq> CHR ''#'') (dropWhile is_slash s)"

definition after_host :: "string \<Rightarrow> string" where
  "after_host s = drop (length (url_host s)) (dropWhile is_slash s)"

definition plain_host :: "string \<Rightarrow> bool" where
  "plain_host h \<longleftrightarrow> h \<noteq> [] \<and> is_lower (hd h) \<and> list_all (\<lambda>c. is_lower c \<or> c = CHR ''.'') h"

definition scheme_of :: "string \<Rightarrow> string" where
  "scheme_of origin = takeWhile (\<lambda>c. c \<noteq> CHR '':'') origin"

text \<open>What follows the origin, from the slash that starts the path.\<close>

definition resolve_path :: "string \<Rightarrow> string" where
  "resolve_path s = path_text (push_segments [] (split_slashes (tl (url_path s))))"

definition resolve_query :: "string \<Rightarrow> string" where
  "resolve_query s = (let q = escape query_unsafe (url_query s) in if q = [] then [] else CHR ''?'' # q)"

text \<open>An address that starts with a slash, against the origin of a page; an opaque origin is no base.\<close>

definition new_URL :: "(string \<Rightarrow> Url option) \<Rightarrow> string \<Rightarrow> string \<Rightarrow> Url option" where
  "new_URL authority raw origin =
     (let s = url_clean raw in
      if origin = ''null'' then None
      else if names_host s then
        (if plain_host (url_host s)
         then Some \<lparr>url_origin = scheme_of origin @ ''://'' @ url_host s, pathname = resolve_path (after_host s),
                    url_search = resolve_query (after_host s)\<rparr>
         else authority s)
      else Some \<lparr>url_origin = origin, pathname = resolve_path s, url_search = resolve_query s\<rparr>)"

section \<open>The guard\<close>

definition safeReturnTo :: "(string \<Rightarrow> Url option) \<Rightarrow> string \<Rightarrow> string \<Rightarrow> string" where
  "safeReturnTo authority search origin =
     (let raw = (case params_get ''return_to'' (parse_params search) of Some v \<Rightarrow> v | None \<Rightarrow> []) in
      if \<not> prefix ''/'' raw \<or> prefix ''//'' raw \<or> prefix [CHR ''/'', CHR 0x5C] raw then []
      else (case new_URL authority raw origin of
              None \<Rightarrow> []
            | Some u \<Rightarrow> if url_origin u \<noteq> origin then [] else pathname u @ url_search u))"


lemma escape_append: "escape u (a @ b) = escape u a @ escape u b"
  by (simp add: escape_def)

lemma escape_Nil [simp]: "escape u [] = []"
  by (simp add: escape_def)







lemma split_slashes_nonempty: "split_slashes s \<noteq> []"
  by (induction s) (simp_all split: list.split)








lemma push_nonempty: "ws \<noteq> [] \<Longrightarrow> push_segments acc ws \<noteq> []"
  by (induction acc ws rule: push_segments.induct) simp_all

lemma resolve_path_slash: "prefix ''/'' (resolve_path s @ q)"
  using push_nonempty [OF split_slashes_nonempty, of "[]" "tl (url_path s)"]
  by (cases "push_segments [] (split_slashes (tl (url_path s)))") (simp_all add: resolve_path_def path_text_def)











section \<open>Signing in\<close>

text \<open>
  The form, and what its submission waits for. The next event comes after the form was rendered
  again, so the handler sees the current \<open>submitting\<close>.
\<close>

datatype login_wait = Idle | For_login | For_profile

record LoginForm =
  email_input :: string
  password_input :: string
  login_error :: string
  submitting :: bool
  login_waits :: login_wait

definition new_login :: LoginForm where
  "new_login = \<lparr>email_input = [], password_input = [], login_error = [], submitting = False, login_waits = Idle\<rparr>"

datatype login_event = Type_email string | Type_password string | Submit | Login_reply answer | Profile_reply answer

datatype login_output = Send HttpRequest | Assign string

definition login_request :: "LoginForm \<Rightarrow> HttpRequest" where
  "login_request f =
     \<lparr>rq_method = ''POST'', rq_url = ''/api/login'', rq_headers = [(''Content-Type'', ''application/json'')],
      rq_body = Some (stringify (JObj [(''email'', JStr (email_input f)), (''password'', JStr (password_input f))])),
      rq_credentials = True\<rparr>"

definition login_ends :: "string \<Rightarrow> LoginForm \<Rightarrow> LoginForm" where
  "login_ends err f = f\<lparr>login_error := err, submitting := False, login_waits := Idle\<rparr>"

definition onSubmit :: "LoginForm \<Rightarrow> LoginForm \<times> login_output list" where
  "onSubmit f =
     (if submitting f then (f, [])
      else (f\<lparr>submitting := True, login_error := [], login_waits := For_login\<rparr>, [Send (login_request f)]))"

definition login_reply :: "answer \<Rightarrow> LoginForm \<times> Session \<Rightarrow> (LoginForm \<times> Session) \<times> login_output list" where
  "login_reply a fs =
     (case fs of (f, s) \<Rightarrow>
       (case a of
          Rejected _ \<Rightarrow> ((login_ends ''Network error. Please retry.'' f, s), [])
        | Answer st _ \<Rightarrow>
            if st = 429 then ((login_ends ''Too many attempts. Try again in a minute.'' f, s), [])
            else if \<not> ok_status st then ((login_ends ''Invalid credentials.'' f, s), [])
            else let s1 = s\<lparr>authSignal := []\<rparr> in
              ((f\<lparr>login_waits := For_profile\<rparr>, s1), [Send (loadCurrentUser_request s1)])))"

definition profile_reply ::
    "(string \<Rightarrow> Url option) \<Rightarrow> string \<Rightarrow> string \<Rightarrow> answer \<Rightarrow> LoginForm \<times> Session \<Rightarrow> (LoginForm \<times> Session) \<times> login_output list" where
  "profile_reply authority search origin a fs =
     (case fs of (f, s) \<Rightarrow>
        let s1 = loadCurrentUser_answer a s in
        if userSignal s1 = None
        then ((login_ends ''Signed in but failed to load profile. Refresh the page.'' f, s1), [])
        else let dest = safeReturnTo authority search origin in
          ((login_ends (login_error f) f, s1), if dest \<noteq> [] then [Assign dest] else []))"

text \<open>A step of the page, given the parser's parameter and the page's address.\<close>

fun login_step ::
    "(string \<Rightarrow> Url option) \<Rightarrow> string \<Rightarrow> string \<Rightarrow> login_event \<Rightarrow> LoginForm \<times> Session
     \<Rightarrow> (LoginForm \<times> Session) \<times> login_output list" where
  "login_step authority search origin (Type_email v) (f, s) = ((f\<lparr>email_input := v\<rparr>, s), [])"
| "login_step authority search origin (Type_password v) (f, s) = ((f\<lparr>password_input := v\<rparr>, s), [])"
| "login_step authority search origin Submit (f, s) = (case onSubmit f of (f1, out) \<Rightarrow> ((f1, s), out))"
| "login_step authority search origin (Login_reply a) (f, s) =
     (if login_waits f = For_login then login_reply a (f, s) else ((f, s), []))"
| "login_step authority search origin (Profile_reply a) (f, s) =
     (if login_waits f = For_profile then profile_reply authority search origin a (f, s) else ((f, s), []))"

definition login_field :: "string \<Rightarrow> string \<Rightarrow> string \<Rightarrow> string \<Rightarrow> (string \<Rightarrow> login_event) \<Rightarrow> string \<Rightarrow> login_event vnode" where
  "login_field lab kind nm fill ev v =
     Elem ''label'' [] []
       [Elem ''span'' [] [] [Text lab],
        Elem ''input''
          [(''type'', kind), (''name'', nm), (''autoComplete'', fill), (''required'', []), (''value'', v)]
          [(''input'', ev)] []]"

definition Login :: "string option \<Rightarrow> LoginForm \<Rightarrow> login_event vnode" where
  "Login demoBanner f =
     Elem ''main'' [(''class'', ''statnive-login'')] []
       [Elem ''div'' [(''class'', ''statnive-login-card'')] []
         ([Elem ''h1'' [(''class'', ''statnive-wordmark'')] []
             [Text ''statnive'', Elem ''em'' [(''class'', ''statnive-wordmark-live'')] [] [Text ''.live'']]]
          @ (case demoBanner of
               Some b \<Rightarrow> if b \<noteq> [] then [Elem ''div'' [(''class'', ''statnive-login-demo-banner''), (''role'', ''note'')] [] [Text b]] else []
             | None \<Rightarrow> [])
          @ [Elem ''form'' [(''noValidate'', [])] [(''submit'', \<lambda>_. Submit)]
              ([login_field ''Email'' ''email'' ''email'' ''username'' Type_email (email_input f),
                login_field ''Password'' ''password'' ''password'' ''current-password'' Type_password (password_input f)]
               @ (if login_error f \<noteq> []
                  then [Elem ''p'' [(''class'', ''statnive-login-error''), (''role'', ''alert'')] [] [Text (login_error f)]]
                  else [])
               @ [Elem ''button'' ((''type'', ''submit'') # (if submitting f then [(''disabled'', [])] else [])) []
                    [Text (if submitting f then ''Signing in'' @ [CHR 0xE2, CHR 0x80, CHR 0xA6] else ''Sign in'')]])])]"

text \<open>A run, with everything it sends and where it goes.\<close>

fun login_run ::
    "(string \<Rightarrow> Url option) \<Rightarrow> string \<Rightarrow> string \<Rightarrow> login_event list \<Rightarrow> LoginForm \<times> Session
     \<Rightarrow> (LoginForm \<times> Session) \<times> login_output list" where
  "login_run authority search origin [] fs = (fs, [])"
| "login_run authority search origin (e # es) fs =
     (case login_step authority search origin e fs of (fs1, out) \<Rightarrow>
        (case login_run authority search origin es fs1 of (fs2, out2) \<Rightarrow> (fs2, out @ out2)))"



fun is_submit :: "login_event \<Rightarrow> bool" where
  "is_submit Submit = True"
| "is_submit e = False"





lemma submit_once:
  "login_run authority search origin [Type_email e, Type_password w, Submit, Submit] (new_login, s) =
     ((new_login\<lparr>email_input := e, password_input := w, submitting := True, login_waits := For_login\<rparr>, s),
      [Send (login_request (new_login\<lparr>email_input := e, password_input := w\<rparr>))])"
  by (simp add: new_login_def onSubmit_def login_request_def)



end
