(* ===== verification/Fetching.thy ===== *)
theory Fetching
  imports View
begin

text \<open>
  How the panels load their data. Every panel has the same effect: when one of the values it lists
  has changed since its last run, it aborts the request on its way, clears the error and sends a new
  one; an answer counts only while its request has not been aborted. The lists and the queries are those
  of \<^verbatim>\<open>panels/*.tsx\<close>. The locale says what a list has to cover for the
  panel to show the answer to what the page asks for.
\<close>

section \<open>The effect\<close>

text \<open>The two states of an async read: the last data, and the error of the last failure.\<close>

record ('q, 'd, 'k) Fetch =
  fetch_data :: "'d option"
  fetch_err :: "string option"
  last_deps :: "'k option"
  on_its_way :: "nat option"
  queries :: "'q list"

definition unmounted :: "('q, 'd, 'k) Fetch" where
  "unmounted = \<lparr>fetch_data = None, fetch_err = None, last_deps = None, on_its_way = None, queries = []\<rparr>"

datatype 'v fetch_event = Shown 'v | Answered nat | Failed nat string

text \<open>Rendering with the values \<open>v\<close>, and the two outcomes of the request with a number.\<close>

fun fetch_step ::
    "('v \<Rightarrow> 'k) \<Rightarrow> ('v \<Rightarrow> 'q) \<Rightarrow> ('q \<Rightarrow> 'd) \<Rightarrow> 'v fetch_event \<Rightarrow> ('q, 'd, 'k) Fetch \<Rightarrow> ('q, 'd, 'k) Fetch" where
  "fetch_step deps query server (Shown v) f =
     (if last_deps f = Some (deps v) then f
      else f\<lparr>fetch_err := None, last_deps := Some (deps v), on_its_way := Some (length (queries f)),
             queries := queries f @ [query v]\<rparr>)"
| "fetch_step deps query server (Answered i) f =
     (if on_its_way f = Some i then f\<lparr>fetch_data := Some (server (queries f ! i)), on_its_way := None\<rparr> else f)"
| "fetch_step deps query server (Failed i e) f =
     (if on_its_way f = Some i then f\<lparr>fetch_err := Some e, on_its_way := None\<rparr> else f)"

text \<open>The values of the last rendering.\<close>

fun shown_last :: "'v fetch_event \<Rightarrow> 'v option \<Rightarrow> 'v option" where
  "shown_last (Shown v) w = Some v"
| "shown_last _ w = w"

fun view_ok :: "('v \<Rightarrow> bool) \<Rightarrow> 'v fetch_event \<Rightarrow> bool" where
  "view_ok ok (Shown v) = ok v"
| "view_ok ok _ = True"

text \<open>Whether what is shown answers the question of the last rendering.\<close>

definition fresh :: "('v \<Rightarrow> 'd) \<Rightarrow> 'v option \<Rightarrow> ('q, 'd, 'k) Fetch \<Rightarrow> bool" where
  "fresh reply w f \<longleftrightarrow>
     on_its_way f \<noteq> None \<or> fetch_err f \<noteq> None \<or> fetch_data f = map_option reply w"

locale refetch =
  fixes deps :: "'v \<Rightarrow> 'k" and query :: "'v \<Rightarrow> 'q" and relevant :: "'q \<Rightarrow> 'r" and ok :: "'v \<Rightarrow> bool"
  assumes covered: "ok v \<Longrightarrow> ok w \<Longrightarrow> deps v = deps w \<Longrightarrow> relevant (query v) = relevant (query w)"
begin

definition tracks :: "('r \<Rightarrow> 'd) \<Rightarrow> 'v option \<Rightarrow> ('q, 'd, 'k) Fetch \<Rightarrow> bool" where
  "tracks reply w f \<longleftrightarrow>
     last_deps f = map_option deps w \<and>
     (case w of
        None \<Rightarrow> fetch_data f = None \<and> on_its_way f = None
      | Some v \<Rightarrow> ok v \<and>
          (case on_its_way f of
             Some i \<Rightarrow> i < length (queries f) \<and> relevant (queries f ! i) = relevant (query v)
           | None \<Rightarrow> fetch_err f \<noteq> None \<or> fetch_data f = Some (reply (relevant (query v)))))"

lemma tracks_step:
  assumes "tracks reply w f" and "view_ok ok e"
  shows "tracks reply (shown_last e w) (fetch_step deps query (reply \<circ> relevant) e f)"
proof (cases e)
  case (Shown v)
  show ?thesis
  proof (cases "last_deps f = Some (deps v)")
    case True
    then obtain u where u: "w = Some u" "deps u = deps v" using assms(1) by (cases w) (auto simp: tracks_def)
    then have "relevant (query u) = relevant (query v)"
      using covered [of u v] assms by (simp add: tracks_def Shown)
    then show ?thesis using assms True u by (simp add: tracks_def Shown split: option.splits)
  next
    case False
    then show ?thesis using assms by (auto simp: tracks_def Shown nth_append)
  qed
next
  case (Answered i)
  then show ?thesis using assms by (cases w) (auto simp: tracks_def split: option.splits)
next
  case (Failed i e)
  then show ?thesis using assms by (cases w) (auto simp: tracks_def split: option.splits)
qed

lemma tracks_run:
  "tracks reply w f \<Longrightarrow> list_all (view_ok ok) es \<Longrightarrow>
     tracks reply (fold shown_last es w) (fold (fetch_step deps query (reply \<circ> relevant)) es f)"
  by (induction es arbitrary: w f) (simp_all add: tracks_step)

lemma fresh_run:
  assumes "list_all (view_ok ok) es"
  shows "fresh (reply \<circ> relevant \<circ> query) (fold shown_last es None)
    (fold (fetch_step deps query (reply \<circ> relevant)) es unmounted)"
proof -
  have "tracks reply None unmounted" by (simp add: tracks_def unmounted_def)
  from tracks_run [OF this assms] show ?thesis
    by (auto simp: fresh_def tracks_def split: option.splits)
qed

end

section \<open>What the panels ask\<close>

text \<open>The shared state a panel reads while it renders, with the limits and ticks some of them add.\<close>

record Inputs =
  in_site :: rat
  in_range :: day_range
  in_filters :: Filters
  in_limit :: nat
  in_tick :: int

text \<open>A dependency is a number or a string, compared by value.\<close>

datatype dep = D_num rat | D_str string

definition from_to :: "Inputs \<Rightarrow> props" where
  "from_to i = [(''from'', fst (in_range i)), (''to'', snd (in_range i))]"

definition with_limit :: "Inputs \<Rightarrow> props" where
  "with_limit i = from_to i @ [(''limit'', show_rat (of_nat (in_limit i)))]"

definition range_query :: "Inputs \<Rightarrow> params" where
  "range_query i = apiGet_query (in_site i) (in_filters i) (from_to i)"

definition limit_query :: "Inputs \<Rightarrow> params" where
  "limit_query i = apiGet_query (in_site i) (in_filters i) (with_limit i)"

definition range_deps :: "Inputs \<Rightarrow> dep list" where
  "range_deps i = [D_num (in_site i), D_str (fst (in_range i)), D_str (snd (in_range i))]"

definition Overview_deps :: "Inputs \<Rightarrow> dep list" where
  "Overview_deps i =
     range_deps i @ [D_str (device (in_filters i)), D_str (channel (in_filters i)), D_str (country (in_filters i)),
       D_str (path (in_filters i))]"

definition TrendChart_deps :: "Inputs \<Rightarrow> dep list" where
  "TrendChart_deps i =
     range_deps i @ [D_str (device (in_filters i)), D_str (channel (in_filters i)), D_str (country (in_filters i)),
       D_str (path (in_filters i))]"

definition Pages_deps :: "Inputs \<Rightarrow> dep list" where
  "Pages_deps i =
     range_deps i @ [D_str (path (in_filters i)), D_str (channel (in_filters i)), D_str (device (in_filters i)),
       D_str (country (in_filters i)), D_str (sort (in_filters i)), D_str (dir (in_filters i)),
       D_num (of_nat (in_limit i))]"

definition SEO_deps :: "Inputs \<Rightarrow> dep list" where
  "SEO_deps i =
     range_deps i @ [D_str (device (in_filters i)), D_str (country (in_filters i)), D_str (path (in_filters i))]"

definition Sources_deps :: "Inputs \<Rightarrow> dep list" where
  "Sources_deps i =
     range_deps i @ [D_str (channel (in_filters i)), D_str (device (in_filters i)), D_str (country (in_filters i)),
       D_str (path (in_filters i)), D_str (sort (in_filters i)), D_str (dir (in_filters i))]"

definition Campaigns_deps :: "Inputs \<Rightarrow> dep list" where
  "Campaigns_deps i =
     range_deps i @ [D_str (channel (in_filters i)), D_str (device (in_filters i)), D_str (country (in_filters i)),
       D_str (sort (in_filters i)), D_str (dir (in_filters i))]"

definition Geo_deps :: "Inputs \<Rightarrow> dep list" where
  "Geo_deps i =
     range_deps i @ [D_str (country (in_filters i)), D_str (sort (in_filters i)), D_str (dir (in_filters i)),
       D_num (of_nat (in_limit i))]"

definition Realtime_deps :: "Inputs \<Rightarrow> dep list" where
  "Realtime_deps i = [D_num (of_int (in_tick i)), D_num (in_site i), D_str (channel (in_filters i))]"

definition Realtime_query :: "Inputs \<Rightarrow> params" where
  "Realtime_query i = apiGet_query (in_site i) (in_filters i) []"

text \<open>The effects of the panels.\<close>

type_synonym 'd panel_fetch = "(params, 'd, dep list) Fetch"

definition Overview_fetch :: "(params \<Rightarrow> 'd) \<Rightarrow> Inputs fetch_event \<Rightarrow> 'd panel_fetch \<Rightarrow> 'd panel_fetch" where
  "Overview_fetch = fetch_step Overview_deps range_query"

definition TrendChart_fetch :: "(params \<Rightarrow> 'd) \<Rightarrow> Inputs fetch_event \<Rightarrow> 'd panel_fetch \<Rightarrow> 'd panel_fetch" where
  "TrendChart_fetch = fetch_step TrendChart_deps range_query"

definition Pages_fetch :: "(params \<Rightarrow> 'd) \<Rightarrow> Inputs fetch_event \<Rightarrow> 'd panel_fetch \<Rightarrow> 'd panel_fetch" where
  "Pages_fetch = fetch_step Pages_deps limit_query"

definition SEO_fetch :: "(params \<Rightarrow> 'd) \<Rightarrow> Inputs fetch_event \<Rightarrow> 'd panel_fetch \<Rightarrow> 'd panel_fetch" where
  "SEO_fetch = fetch_step SEO_deps range_query"

definition Sources_fetch :: "(params \<Rightarrow> 'd) \<Rightarrow> Inputs fetch_event \<Rightarrow> 'd panel_fetch \<Rightarrow> 'd panel_fetch" where
  "Sources_fetch = fetch_step Sources_deps range_query"

definition Campaigns_fetch :: "(params \<Rightarrow> 'd) \<Rightarrow> Inputs fetch_event \<Rightarrow> 'd panel_fetch \<Rightarrow> 'd panel_fetch" where
  "Campaigns_fetch = fetch_step Campaigns_deps range_query"

definition Geo_fetch :: "(params \<Rightarrow> 'd) \<Rightarrow> Inputs fetch_event \<Rightarrow> 'd panel_fetch \<Rightarrow> 'd panel_fetch" where
  "Geo_fetch = fetch_step Geo_deps limit_query"

definition Realtime_fetch :: "(params \<Rightarrow> 'd) \<Rightarrow> Inputs fetch_event \<Rightarrow> 'd panel_fetch \<Rightarrow> 'd panel_fetch" where
  "Realtime_fetch = fetch_step Realtime_deps Realtime_query"

section \<open>What the lists cover\<close>

text \<open>The values a query carries under some names.\<close>

definition read_names :: "string list \<Rightarrow> params \<Rightarrow> string list list" where
  "read_names ns q = map (\<lambda>n. params_get_all n q) ns"

definition scope_names :: "string list" where
  "scope_names = map PROP_PARAM_NAMES SCOPES"

text \<open>The names a panel's list answers for: the site, the range, some filters, the properties.\<close>

definition names_of :: "filter_key list \<Rightarrow> string list" where
  "names_of ks = [''site'', ''from'', ''to''] @ map key_name ks @ scope_names"

lemma get_all_apiGet:
  assumes "distinct (keys explicit)"
  shows "params_get_all k (apiGet_query site f explicit) =
      (case map_of explicit k of
         Some v \<Rightarrow> [v]
       | None \<Rightarrow> (if k = ''site'' then [show_rat site] else []) @ params_get_all k (filtersToQuery f))"
proof (cases "map_of explicit k")
  case None
  have "params_get_all k (params_set ''site'' (show_rat site) []) = (if k = ''site'' then [show_rat site] else [])"
    by (simp add: params_get_all_def)
  with None show ?thesis by (simp add: apiGet_query_def get_all_set_fold [OF assms] get_all_filters_fold)
next
  case (Some v)
  then show ?thesis by (simp add: apiGet_query_def get_all_set_fold [OF assms])
qed

lemma get_all_map_filter:
  "params_get_all n (map (\<lambda>k. (key_name k, g k)) (filter (\<lambda>k. g k \<noteq> []) ks))
    = map g (filter (\<lambda>k. g k \<noteq> [] \<and> key_name k = n) ks)"
  by (induction ks) (auto simp: params_get_all_def)

lemma get_all_scalar_key:
  "params_get_all (key_name k) (scalar_params f) = (if get_key k f = [] then [] else [get_key k f])"
  unfolding scalar_params_def get_all_map_filter by (cases k) (simp_all add: KEYS_def key_name_inj)

lemma get_all_scope_other: "n \<noteq> PROP_PARAM_NAMES s \<Longrightarrow> params_get_all n (scope_params s f) = []"
  by (auto simp: scope_params_def params_get_all_def filter_empty_conv)

lemma get_all_scope_key: "params_get_all (key_name k) (scope_params s f) = []"
  by (rule get_all_scope_other) (rule key_name_scope)

lemma get_all_filters_key:
  "wf_filters f \<Longrightarrow>
     params_get_all (key_name k) (filtersToQuery f) = (if get_key k f = [] then [] else [get_key k f])"
  by (simp add: filtersToQuery_eq params_get_all_append get_all_scalar_key get_all_scope_key)

lemma get_all_filters_site: "wf_filters f \<Longrightarrow> params_get_all ''site'' (filtersToQuery f) = []"
proof -
  have "params_get_all ''site'' (scalar_params f) = []"
    unfolding scalar_params_def get_all_map_filter by (simp add: KEYS_def)
  moreover have "PROP_PARAM_NAMES s \<noteq> ''site''" for s by (cases s) simp_all
  ultimately show "wf_filters f \<Longrightarrow> params_get_all ''site'' (filtersToQuery f) = []"
    by (simp add: filtersToQuery_eq params_get_all_append get_all_scope_other)
qed

text \<open>Views with the same property filters, all well formed.\<close>

definition same_props :: "Filters \<Rightarrow> Inputs \<Rightarrow> bool" where
  "same_props P i \<longleftrightarrow>
     wf_filters (in_filters i) \<and> list_all (\<lambda>s. get_scope s (in_filters i) = get_scope s P) SCOPES"

lemma names_agree:
  assumes "same_props P i" and "same_props P j" and "distinct (keys xi)" and "distinct (keys xj)" and "xi = xj"
    and "in_site i = in_site j" and "map_of xi ''site'' = None"
    and "map_of xi ''from'' \<noteq> None" and "map_of xi ''to'' \<noteq> None"
    and "list_all (\<lambda>k. get_key k (in_filters i) = get_key k (in_filters j)) ks"
  shows "read_names (names_of ks) (apiGet_query (in_site i) (in_filters i) xi)
    = read_names (names_of ks) (apiGet_query (in_site j) (in_filters j) xj)"
proof -
  let ?q = "\<lambda>i x. apiGet_query (in_site i) (in_filters i) x"
  have wf: "wf_filters (in_filters i)" "wf_filters (in_filters j)" using assms by (simp_all add: same_props_def)
  have scope: "params_get_all (PROP_PARAM_NAMES s) (?q i xi) = params_get_all (PROP_PARAM_NAMES s) (?q j xj)" for s
  proof -
    have "get_scope s (in_filters i) = get_scope s (in_filters j)"
      using assms(1,2) by (cases s) (simp_all add: same_props_def SCOPES_def)
    moreover have "PROP_PARAM_NAMES s \<noteq> ''site''" by (cases s) simp_all
    ultimately show ?thesis
      using assms by (simp add: get_all_apiGet params_get_all_filtersToQuery wf split: option.split)
  qed
  have key: "params_get_all (key_name k) (?q i xi) = params_get_all (key_name k) (?q j xj)" if "k \<in> set ks" for k
    using assms that wf by (cases "map_of xi (key_name k)") (simp_all add: get_all_apiGet get_all_filters_key list_all_iff)
  show ?thesis
    using assms scope key wf
    by (auto simp: read_names_def names_of_def scope_names_def get_all_apiGet get_all_filters_site)
qed

lemma range_names_agree:
  assumes "same_props P i" and "same_props P j" and "range_deps i = range_deps j"
    and "list_all (\<lambda>k. get_key k (in_filters i) = get_key k (in_filters j)) ks"
  shows "read_names (names_of ks) (range_query i) = read_names (names_of ks) (range_query j)"
  unfolding range_query_def
  using assms by (intro names_agree [OF assms(1,2)]) (auto simp: from_to_def keys_def range_deps_def)

lemma limit_names_agree:
  assumes "same_props P i" and "same_props P j" and "range_deps i = range_deps j" and "in_limit i = in_limit j"
    and "list_all (\<lambda>k. get_key k (in_filters i) = get_key k (in_filters j)) ks"
  shows "read_names (''limit'' # names_of ks) (limit_query i) = read_names (''limit'' # names_of ks) (limit_query j)"
proof -
  have "read_names (names_of ks) (limit_query i) = read_names (names_of ks) (limit_query j)"
    unfolding limit_query_def
    using assms by (intro names_agree [OF assms(1,2)]) (auto simp: with_limit_def from_to_def keys_def range_deps_def)
  moreover have "params_get_all ''limit'' (limit_query k) = [show_rat (of_nat (in_limit k))]" for k
    unfolding limit_query_def by (subst get_all_apiGet) (simp_all add: with_limit_def from_to_def keys_def)
  ultimately show ?thesis using assms(4) by (simp add: read_names_def)
qed

interpretation overview: refetch Overview_deps range_query "read_names (names_of [Device, Channel, Country, Path])" "same_props P"
  for P
  by unfold_locales (rule range_names_agree; auto simp: Overview_deps_def range_deps_def)

interpretation trend: refetch TrendChart_deps range_query "read_names (names_of [Device, Channel, Country, Path])" "same_props P"
  for P
  by unfold_locales (rule range_names_agree; auto simp: TrendChart_deps_def range_deps_def)

interpretation pages: refetch Pages_deps limit_query
    "read_names (''limit'' # names_of [Device, Channel, Country, Path, Sort, Dir])" "same_props P" for P
  by unfold_locales (rule limit_names_agree; auto simp: Pages_deps_def range_deps_def)

interpretation seo: refetch SEO_deps range_query "read_names (names_of [Device, Country, Path])" "same_props P" for P
  by unfold_locales (rule range_names_agree; auto simp: SEO_deps_def range_deps_def)

interpretation sources: refetch Sources_deps range_query
    "read_names (names_of [Device, Channel, Country, Path, Sort, Dir])" "same_props P" for P
  by unfold_locales (rule range_names_agree; auto simp: Sources_deps_def range_deps_def)

interpretation campaigns: refetch Campaigns_deps range_query
    "read_names (names_of [Device, Channel, Country, Sort, Dir])" "same_props P" for P
  by unfold_locales (rule range_names_agree; auto simp: Campaigns_deps_def range_deps_def)

interpretation geo: refetch Geo_deps limit_query "read_names (''limit'' # names_of [Country, Sort, Dir])" "same_props P" for P
  by unfold_locales (rule limit_names_agree; auto simp: Geo_deps_def range_deps_def)

text \<open>A panel after a run against a server that answers from the values under some names.\<close>

definition after_run ::
    "((params \<Rightarrow> 'd) \<Rightarrow> Inputs fetch_event \<Rightarrow> 'd panel_fetch \<Rightarrow> 'd panel_fetch) \<Rightarrow> string list
     \<Rightarrow> (string list list \<Rightarrow> 'd) \<Rightarrow> Inputs fetch_event list \<Rightarrow> 'd panel_fetch" where
  "after_run fetch ns reply es = fold (fetch (reply \<circ> read_names ns)) es unmounted"

text \<open>Whether it shows the answer to the question of its last rendering.\<close>

definition up_to_date ::
    "((params \<Rightarrow> 'd) \<Rightarrow> Inputs fetch_event \<Rightarrow> 'd panel_fetch \<Rightarrow> 'd panel_fetch) \<Rightarrow> (Inputs \<Rightarrow> params) \<Rightarrow> string list
     \<Rightarrow> (string list list \<Rightarrow> 'd) \<Rightarrow> Inputs fetch_event list \<Rightarrow> bool" where
  "up_to_date fetch query ns reply es =
     fresh (reply \<circ> read_names ns \<circ> query) (fold shown_last es None) (after_run fetch ns reply es)"

lemma props_not_listed:
  "\<lbrakk>d \<in> {Overview_deps, TrendChart_deps, Pages_deps, SEO_deps, Sources_deps, Campaigns_deps, Geo_deps, Realtime_deps}\<rbrakk>
     \<Longrightarrow> d (i\<lparr>in_filters := set_scope sc m (in_filters i)\<rparr>) = d i"
  by (cases sc) (auto simp: Overview_deps_def TrendChart_deps_def Pages_deps_def SEO_deps_def Sources_deps_def
      Campaigns_deps_def Geo_deps_def Realtime_deps_def range_deps_def)

lemma ignored_change:
  "deps w = deps v \<Longrightarrow> fetch_step deps query server (Shown w) (fetch_step deps query server (Shown v) f)
    = fetch_step deps query server (Shown v) f"
  by simp

text \<open>
  C22: what a panel shows. While the property filters stay the same, whatever is changed, answered late,
  aborted or failed, in whatever order: with nothing on its way and no error, each panel shows the
  server's answer to the values its last rendering has for the site, the range, the properties and the
  filters it lists (and its limit), never that to an earlier question. But no panel lists the property
  filters: changing one changes the query, yet sends nothing, and the panel goes on
  showing the numbers of the old one.
\<close>

theorem panel_freshness:
  assumes "list_all (view_ok (same_props P)) es"
  shows "up_to_date Overview_fetch range_query (names_of [Device, Channel, Country, Path]) reply es
    \<and> up_to_date TrendChart_fetch range_query (names_of [Device, Channel, Country, Path]) reply es
    \<and> up_to_date Pages_fetch limit_query (''limit'' # names_of [Device, Channel, Country, Path, Sort, Dir]) reply es
    \<and> up_to_date SEO_fetch range_query (names_of [Device, Country, Path]) reply es
    \<and> up_to_date Sources_fetch range_query (names_of [Device, Channel, Country, Path, Sort, Dir]) reply es
    \<and> up_to_date Campaigns_fetch range_query (names_of [Device, Channel, Country, Sort, Dir]) reply es
    \<and> up_to_date Geo_fetch limit_query (''limit'' # names_of [Country, Sort, Dir]) reply es
    \<and> list_all (\<lambda>fetch. fetch server (Shown (i\<lparr>in_filters := set_scope sc m (in_filters i)\<rparr>)) (fetch server (Shown i) f)
          = fetch server (Shown i) f)
        [Overview_fetch, TrendChart_fetch, Pages_fetch, SEO_fetch, Sources_fetch, Campaigns_fetch, Geo_fetch, Realtime_fetch]"
  unfolding up_to_date_def after_run_def Overview_fetch_def TrendChart_fetch_def Pages_fetch_def SEO_fetch_def
    Sources_fetch_def Campaigns_fetch_def Geo_fetch_def Realtime_fetch_def
proof (intro conjI)
  show "list_all (\<lambda>fetch. fetch server (Shown (i\<lparr>in_filters := set_scope sc m (in_filters i)\<rparr>)) (fetch server (Shown i) f)
          = fetch server (Shown i) f)
        [fetch_step Overview_deps range_query, fetch_step TrendChart_deps range_query, fetch_step Pages_deps limit_query,
         fetch_step SEO_deps range_query, fetch_step Sources_deps range_query, fetch_step Campaigns_deps range_query,
         fetch_step Geo_deps limit_query, fetch_step Realtime_deps Realtime_query]"
    by (simp only: list.pred_inject ignored_change props_not_listed insert_iff simp_thms)
qed (rule overview.fresh_run [OF assms] trend.fresh_run [OF assms] pages.fresh_run [OF assms] seo.fresh_run [OF assms]
      sources.fresh_run [OF assms] campaigns.fresh_run [OF assms] geo.fresh_run [OF assms])+

definition example_inputs :: Inputs where
  "example_inputs =
     \<lparr>in_site = 1, in_range = (''2026-01-01'', ''2026-01-08''), in_filters = EMPTY_FILTERS, in_limit = 20, in_tick = 0\<rparr>"

theorem panel_freshness_witness:
  "fetch_data (after_run Overview_fetch (names_of [Device, Channel, Country, Path]) length
     [Shown example_inputs, Shown (example_inputs\<lparr>in_site := 2\<rparr>), Answered 0, Answered 1]) = Some 10
   \<and> up_to_date Overview_fetch range_query (names_of [Device, Channel, Country, Path]) length
     [Shown example_inputs, Shown (example_inputs\<lparr>in_site := 2\<rparr>), Answered 0, Answered 1]"
proof -
  have "list_all (view_ok (same_props EMPTY_FILTERS))
      [Shown example_inputs, Shown (example_inputs\<lparr>in_site := 2\<rparr>), Answered 0, Answered 1]"
    by (simp add: same_props_def example_inputs_def wf_filters_def SCOPES_def EMPTY_FILTERS_def keys_def)
  note run = panel_freshness [OF this, of length, THEN conjunct1]
  have "fetch_data (after_run Overview_fetch (names_of [Device, Channel, Country, Path]) length
     [Shown example_inputs, Shown (example_inputs\<lparr>in_site := 2\<rparr>), Answered 0, Answered 1]) = Some 10"
    by (simp add: after_run_def Overview_fetch_def unmounted_def Overview_deps_def range_deps_def example_inputs_def
        read_names_def names_of_def scope_names_def SCOPES_def)
  then show ?thesis using run by (rule conjI)
qed

end
