(* ===== verification/Html.thy ===== *)
theory Html
  imports View AdminApi
begin

text \<open>
  Shorthands for the trees of the larger panels, the rows of the administration's tables, and the
  pieces several panels share: the error alert, helper sentences, and the selection of a closed list.
\<close>

section \<open>Trees\<close>

text \<open>An element without handlers; a paragraph of help; a word of code.\<close>

definition el :: "string \<Rightarrow> (string \<times> string) list \<Rightarrow> 'a vnode list \<Rightarrow> 'a vnode" where
  "el t as cs = Elem t as [] cs"

definition in_class :: "string \<Rightarrow> (string \<times> string) list" where
  "in_class c = [(''class'', c)]"

definition code_el :: "string \<Rightarrow> 'a vnode" where
  "code_el s = el ''code'' [] [Text s]"

definition strong_el :: "string \<Rightarrow> 'a vnode" where
  "strong_el s = el ''strong'' [] [Text s]"

definition helper :: "'a vnode list \<Rightarrow> 'a vnode" where
  "helper cs = el ''p'' (in_class ''statnive-admin-modal-helper'') cs"

definition alert_helper :: "string \<Rightarrow> 'a vnode" where
  "alert_helper s = el ''p'' [(''class'', ''statnive-admin-modal-helper''), (''role'', ''alert'')] [Text s]"

text \<open>A child that is there only when its condition is.\<close>

definition only_if :: "bool \<Rightarrow> 'a vnode \<Rightarrow> 'a vnode list" where
  "only_if b v = (if b then [v] else [])"

definition flag :: "string \<Rightarrow> bool \<Rightarrow> (string \<times> string) list" where
  "flag k b = (if b then [(k, [])] else [])"

definition ellipsis :: string where "ellipsis = [CHR 0xE2, CHR 0x80, CHR 0xA6]"
definition middot :: string where "middot = [CHR 0xC2, CHR 0xB7]"
definition times_sign :: string where "times_sign = [CHR 0xC3, CHR 0x97]"
definition small_square :: string where "small_square = [CHR 0xE2, CHR 0x96, CHR 0xAA]"

text \<open>The two lines of a failed panel and of one that is loading.\<close>

definition panel_note :: "string \<Rightarrow> string \<Rightarrow> string \<Rightarrow> 'a vnode" where
  "panel_note title cls note =
     el ''section'' (in_class ''statnive-section'')
       [el ''h2'' (in_class ''statnive-h2'') [Text title], el ''p'' (in_class cls) [Text note]]"

definition error_note :: "string \<Rightarrow> 'a vnode" where
  "error_note title = panel_note title ''statnive-error'' ''could not load; see logs''"

definition loading_note :: "string \<Rightarrow> 'a vnode" where
  "loading_note title = panel_note title ''statnive-loading'' (''loading'' @ ellipsis)"

definition error_alert :: "string \<Rightarrow> 'a vnode" where
  "error_alert err =
     el ''p'' [(''class'', ''statnive-admin-alert is-error''), (''role'', ''alert'')]
       [el ''span'' [(''class'', ''statnive-admin-alert-glyph''), hidden] [Text small_square],
        el ''span'' []
          [el ''span'' (in_class ''statnive-admin-alert-label'') [Text ''Error''],
           el ''span'' (in_class ''statnive-admin-alert-body'') [Text err]]]"

text \<open>A string that is truthy.\<close>

definition truthy :: "string option \<Rightarrow> bool" where
  "truthy e \<longleftrightarrow> e \<noteq> None \<and> e \<noteq> Some []"

text \<open>The elements that submit a form.\<close>

fun submits :: "'a vnode \<Rightarrow> 'a list" where
  "submits (Text s) = []"
| "submits (Elem t as hs cs) =
     (case map_of hs ''submit'' of Some h \<Rightarrow> [h []] | None \<Rightarrow> []) @ concat (map submits cs)"

text \<open>A tree whose events are wrapped.\<close>

fun map_events :: "('a \<Rightarrow> 'b) \<Rightarrow> 'a vnode \<Rightarrow> 'b vnode" where
  "map_events f (Text s) = Text s"
| "map_events f (Elem t as hs cs) = Elem t as (map (\<lambda>(k, h). (k, f \<circ> h)) hs) (map (map_events f) cs)"

section \<open>Rows of the administration\<close>

record CurrencyOption =
  cur_code :: string
  cur_symbol :: string
  cur_name :: string

record TimezoneOption =
  iana :: string
  tz_label :: string
  tz_offset :: string

record AdminSite =
  as_site_id :: rat
  as_hostname :: string
  as_slug :: string
  as_plan :: string
  as_enabled :: bool
  as_tz :: string
  as_currency :: string
  as_created_at :: rat
  as_allowed_origins :: "string list option"
  as_respect_dnt :: bool
  as_respect_gpc :: bool
  as_track_bots :: bool
  as_jurisdiction :: "string option"
  as_consent_mode :: "string option"
  as_event_allowlist :: "string list option"

record AdminUserSiteRef =
  ref_site_id :: rat
  ref_hostname :: string
  ref_role :: string

record AdminUser =
  user_id :: string
  au_site_id :: rat
  au_email :: string
  au_username :: string
  au_role :: string
  disabled :: bool
  au_sites :: "AdminUserSiteRef list option"
  au_created_at :: rat
  au_updated_at :: rat

record AdminGoal =
  goal_id :: string
  ag_site_id :: rat
  ag_hostname :: string
  ag_name :: string
  ag_match_type :: string
  ag_pattern :: string
  ag_value :: rat
  ag_enabled :: bool
  ag_created_at :: rat
  ag_updated_at :: rat

definition or_default :: "'a \<Rightarrow> 'a option \<Rightarrow> 'a" where
  "or_default d v = (case v of Some x \<Rightarrow> x | None \<Rightarrow> d)"

definition DEFAULT_JURISDICTION :: string where
  "DEFAULT_JURISDICTION = ''OTHER-NON-EU''"

definition DEFAULT_MODE :: string where
  "DEFAULT_MODE = ''permissive''"

text \<open>
  The labels and the derived mode on the strings themselves, the form in which a value from the
  server or a selection arrives; an unknown string has no label in the source's table.
\<close>

definition jurisdiction_of :: "string \<Rightarrow> Jurisdiction option" where
  "jurisdiction_of s = find (\<lambda>j. jurisdiction_code j = s) JURISDICTIONS"

definition derived_mode :: "string \<Rightarrow> string" where
  "derived_mode s =
     (case jurisdiction_of s of Some j \<Rightarrow> consent_code (derivedConsentMode j) | None \<Rightarrow> consent_code Consent_free)"

lemma jurisdiction_of_code: "jurisdiction_of (jurisdiction_code j) = Some j"
  by (cases j) (simp_all add: jurisdiction_of_def JURISDICTIONS_def)

end
