(* ===== verification/Trim.thy ===== *)
theory Trim
  imports Session
begin

text \<open>
  What \<^verbatim>\<open>trim\<close> does: its result is trimmed, trimming a trimmed text changes nothing, and a
  blank before a text or after a trimmed one is dropped.
\<close>

lemma strip_one_SomeE: "strip_one ws s = Some t \<Longrightarrow> \<exists>w \<in> set ws. prefix w s \<and> t = drop (length w) s"
  by (induction ws) (auto split: if_splits)

lemma strip_one_shorter:
  assumes "[] \<notin> set ws" and "strip_one ws s = Some t" shows "length t < length s"
proof -
  obtain w where w: "w \<in> set ws" "prefix w s" "t = drop (length w) s" using strip_one_SomeE [OF assms(2)] by blast
  then obtain r where "s = w @ r" by (auto simp: prefix_def)
  with w assms(1) show ?thesis by (cases w) auto
qed

lemma strip_one_None_iff: "strip_one ws s = None \<longleftrightarrow> list_all (\<lambda>w. \<not> prefix w s) ws"
  by (induction ws) auto

lemma strip_start_suffix: "\<exists>u. s = u @ strip_start_fuel n ws s"
proof (induction n arbitrary: s)
  case (Suc n)
  show ?case
  proof (cases "strip_one ws s")
    case (Some t)
    then obtain w where "prefix w s" "t = drop (length w) s" using strip_one_SomeE by blast
    then have "s = w @ t" by (auto simp: prefix_def)
    with Suc.IH [of t] Some show ?thesis by (metis append.assoc strip_start_fuel.simps(2) option.simps(5))
  qed simp
qed simp

lemma strip_fuel_stuck:
  assumes "[] \<notin> set ws" and "length s \<le> n"
  shows "strip_one ws (strip_start_fuel n ws s) = None"
  using assms(2)
proof (induction n arbitrary: s)
  case 0
  with assms(1) show ?case by (auto simp: strip_one_None_iff list_all_iff)
next
  case (Suc n)
  show ?case
  proof (cases "strip_one ws s")
    case (Some t)
    have "length t \<le> n" using strip_one_shorter [OF assms(1) Some] Suc.prems by simp
    with Suc.IH Some show ?thesis by simp
  qed simp
qed

lemma strip_fuel_plain: "strip_one ws s = None \<Longrightarrow> strip_start_fuel n ws s = s"
  by (cases n) simp_all

lemma strip_fuel_more:
  assumes "[] \<notin> set ws" and "length s \<le> n" and "length s \<le> m"
  shows "strip_start_fuel n ws s = strip_start_fuel m ws s"
  using assms(2,3)
proof (induction n arbitrary: s m)
  case 0
  with assms(1) have "strip_one ws s = None" by (auto simp: strip_one_None_iff list_all_iff)
  then show ?case by (simp add: strip_fuel_plain)
next
  case (Suc n)
  show ?case
  proof (cases "strip_one ws s")
    case None
    then show ?thesis by (simp add: strip_fuel_plain)
  next
    case (Some t)
    note l = strip_one_shorter [OF assms(1) Some]
    then obtain k where k: "m = Suc k" using Suc.prems(2) by (cases m) auto
    have "length t \<le> n" "length t \<le> k" using Suc.prems l k by simp_all
    from Suc.IH [OF this] Some k show ?thesis by (simp del: strip_one.simps)
  qed
qed

lemma strip_start_step: "[] \<notin> set ws \<Longrightarrow> strip_one ws s = Some t \<Longrightarrow> strip_start ws s = strip_start ws t"
proof -
  assume ne: "[] \<notin> set ws" and st: "strip_one ws s = Some t"
  note l = strip_one_shorter [OF ne st]
  then obtain k where k: "length s = Suc k" by (cases "length s") auto
  have "length t \<le> k" using l k by simp
  then show "strip_start ws s = strip_start ws t"
    using st k strip_fuel_more [OF ne, of t k "length t"] by (simp add: strip_start_def)
qed

lemma strip_start_stuck: "[] \<notin> set ws \<Longrightarrow> strip_one ws (strip_start ws s) = None"
  by (simp add: strip_start_def strip_fuel_stuck)

lemma whitespace_nonempty: "[] \<notin> set whitespace" "[] \<notin> set (map rev whitespace)"
  by (auto simp: whitespace_def utf8_char_def)

text \<open>A text that trimming leaves alone.\<close>

definition trimmed :: "string \<Rightarrow> bool" where
  "trimmed s \<longleftrightarrow> strip_one whitespace s = None \<and> strip_one (map rev whitespace) (rev s) = None"

lemma js_trim_Nil: "js_trim [] = []"
  by (simp add: js_trim_def strip_start_def)

lemma js_trim_trimmed: "trimmed (js_trim s)"
proof -
  let ?a = "strip_start whitespace s"
  let ?b = "strip_start (map rev whitespace) (rev ?a)"
  obtain u where "rev ?a = u @ ?b" unfolding strip_start_def by (metis strip_start_suffix)
  then have "?a = rev ?b @ rev u" by (metis rev_append rev_rev_ident)
  then have "prefix (rev ?b) ?a" by (rule prefixI)
  then have "strip_one whitespace (rev ?b) = None"
    using strip_start_stuck [OF whitespace_nonempty(1), of s]
    unfolding strip_one_None_iff list_all_iff by (metis prefix_order.trans)
  then show ?thesis
    using strip_start_stuck [OF whitespace_nonempty(2), of "rev ?a"] by (simp add: trimmed_def js_trim_def)
qed

lemma js_trim_id: "trimmed s \<Longrightarrow> js_trim s = s"
  by (simp add: trimmed_def js_trim_def strip_start_def strip_fuel_plain)

lemma js_trim_idem: "js_trim (js_trim s) = js_trim s"
  by (rule js_trim_id) (rule js_trim_trimmed)

text \<open>A blank before or after a trimmed text.\<close>

lemma utf8_blank:
  assumes "n < 2097152" and "n \<noteq> 32"
  shows "\<not> prefix (utf8_char n) (CHR '' '' # s)" and "\<not> prefix (rev (utf8_char n)) (CHR '' '' # s)"
proof -
  have ne: "char_of k \<noteq> CHR '' ''" if "k < 256" "k \<noteq> 32" for k :: nat
  proof
    assume "char_of k = CHR '' ''"
    then have "of_char (CHR '' '') = k mod 256" by (metis of_char_of)
    with that show False by simp
  qed
  consider "n < 128" | "128 \<le> n" "n < 2048" | "2048 \<le> n" "n < 65536" | "65536 \<le> n" by linarith
  then have "hd (utf8_char n) \<noteq> CHR '' '' \<and> last (utf8_char n) \<noteq> CHR '' ''"
  proof cases
    case 1 with assms(2) show ?thesis using ne [of n] by (simp add: utf8_char_def)
  next
    case 2
    then have "n div 64 < 64" by (simp add: less_mult_imp_div_less)
    with 2 show ?thesis using ne [of "192 + n div 64"] ne [of "128 + n mod 64"] by (simp add: utf8_char_def)
  next
    case 3
    then have "n div 4096 < 32" by (simp add: less_mult_imp_div_less)
    with 3 show ?thesis using ne [of "224 + n div 4096"] ne [of "128 + n mod 64"] by (simp add: utf8_char_def)
  next
    case 4
    then have "n div 262144 < 16" using assms(1) by (simp add: less_mult_imp_div_less)
    with 4 show ?thesis using ne [of "240 + n div 262144"] ne [of "128 + n mod 64"] by (simp add: utf8_char_def)
  qed
  moreover have "utf8_char n \<noteq> []" by (simp add: utf8_char_def)
  moreover have "w \<noteq> [] \<Longrightarrow> hd w \<noteq> c \<Longrightarrow> \<not> prefix w (c # s)" for w :: string and c by (cases w) auto
  ultimately show "\<not> prefix (utf8_char n) (CHR '' '' # s)" and "\<not> prefix (rev (utf8_char n)) (CHR '' '' # s)"
    by (auto simp: hd_rev)
qed

lemma whitespace_codes: "w \<in> set whitespace \<Longrightarrow> \<exists>n. w = utf8_char n \<and> n < 2097152"
  by (auto simp: whitespace_def)

lemma strip_one_filter:
  "list_all (\<lambda>w. w = b \<or> \<not> prefix w s) ws \<Longrightarrow> b \<in> set ws \<Longrightarrow> prefix b s \<Longrightarrow>
     strip_one ws s = Some (drop (length b) s)"
  by (induction ws) auto

lemma strip_blank:
  "strip_one whitespace (CHR '' '' # s) = Some s" "strip_one (map rev whitespace) (CHR '' '' # s) = Some s"
proof -
  have "of_char (CHR '' '') = (32 :: nat)" by simp
  then have "char_of (32 :: nat) = CHR '' ''" by (metis char_of_char)
  then have b: "utf8_char 32 = '' ''" by (simp add: utf8_char_def)
  have "'' '' \<in> set whitespace" using b by (simp add: whitespace_def)
  moreover have "w = '' '' \<or> \<not> prefix w (CHR '' '' # s) \<and> \<not> prefix (rev w) (CHR '' '' # s)"
    if "w \<in> set whitespace" for w
    using whitespace_codes [OF that] utf8_blank b by metis
  then have "list_all (\<lambda>w. w = '' '' \<or> \<not> prefix w (CHR '' '' # s)) whitespace"
    "list_all (\<lambda>w. w = '' '' \<or> \<not> prefix w (CHR '' '' # s)) (map rev whitespace)"
    unfolding list_all_iff by fastforce+
  ultimately show "strip_one whitespace (CHR '' '' # s) = Some s" "strip_one (map rev whitespace) (CHR '' '' # s) = Some s"
    using strip_one_filter [of "'' ''" "CHR '' '' # s" whitespace]
      strip_one_filter [of "'' ''" "CHR '' '' # s" "map rev whitespace"] by force+
qed

lemma js_trim_blank: "js_trim (CHR '' '' # s) = js_trim s"
  by (simp add: js_trim_def strip_start_step [OF whitespace_nonempty(1) strip_blank(1)])

lemma js_trim_blank_end:
  assumes "trimmed s" shows "js_trim (s @ '' '') = s"
proof (cases "s = []")
  case True
  have "strip_start whitespace '' '' = []"
    using strip_start_step [OF whitespace_nonempty(1) strip_blank(1) [of "[]"]] by (simp add: strip_start_def)
  with True show ?thesis by (simp add: js_trim_def strip_start_def)
next
  case False
  have front: "strip_start whitespace (s @ '' '') = s @ '' ''"
  proof -
    have "\<not> prefix w (s @ '' '')" if "w \<in> set whitespace" for w
    proof
      assume "prefix w (s @ '' '')"
      then have "prefix w s \<or> w = s @ '' ''" by (simp add: prefix_snoc disj_commute)
      moreover have "\<not> prefix w s" using assms that by (auto simp: trimmed_def strip_one_None_iff list_all_iff)
      ultimately have w: "w = s @ '' ''" by simp
      obtain n where n: "w = utf8_char n" "n < 2097152" using \<open>w \<in> set whitespace\<close> whitespace_codes by blast
      have "prefix (rev w) (CHR '' '' # rev s)" by (simp add: w)
      then have "n = 32" using utf8_blank(2) [OF n(2)] n(1) by blast
      then show False using w n(1) False by (simp add: utf8_char_def)
    qed
    then have "strip_one whitespace (s @ '' '') = None" unfolding strip_one_None_iff list_all_iff by blast
    then show ?thesis unfolding strip_start_def by (rule strip_fuel_plain)
  qed
  have "strip_start (map rev whitespace) (CHR '' '' # rev s) = strip_start (map rev whitespace) (rev s)"
    by (rule strip_start_step [OF whitespace_nonempty(2) strip_blank(2)])
  also have "\<dots> = rev s" using assms by (simp add: trimmed_def strip_start_def strip_fuel_plain)
  finally show ?thesis by (simp add: js_trim_def front)
qed

end
