(* ===== verification/SiteConfig.thy ===== *)
theory SiteConfig
  imports Html Trim
begin

text \<open>
  The dialog that configures a site (\<^verbatim>\<open>panels/admin/SiteConfigureModal.tsx\<close>): the
  draft, the patch it amounts to, the validation of every field, the handlers, saving as a request
  and the handling of its answer, the focus trap, and the rendered dialog.
\<close>

section \<open>Drafts and patches\<close>

definition MAX_ALLOWED_ORIGINS :: nat where
  "MAX_ALLOWED_ORIGINS = 10"

record Draft =
  d_currency :: string
  d_tz :: string
  d_respect_gpc :: bool
  d_respect_dnt :: bool
  d_track_bots :: bool
  d_jurisdiction :: string
  d_consent_mode :: string
  d_event_allowlist :: "string list"

definition toDraft :: "AdminSite \<Rightarrow> Draft" where
  "toDraft site =
     \<lparr>d_currency = as_currency site, d_tz = as_tz site, d_respect_gpc = as_respect_gpc site,
      d_respect_dnt = as_respect_dnt site, d_track_bots = as_track_bots site,
      d_jurisdiction = or_default DEFAULT_JURISDICTION (as_jurisdiction site),
      d_consent_mode = or_default DEFAULT_MODE (as_consent_mode site),
      d_event_allowlist = or_default [] (as_event_allowlist site)\<rparr>"

text \<open>The members of the patch, in the order they are assigned.\<close>

datatype patch_entry =
    P_currency string
  | P_tz string
  | P_respect_gpc bool
  | P_respect_dnt bool
  | P_track_bots bool
  | P_jurisdiction string
  | P_consent_mode string
  | P_event_allowlist "string list"
  | P_allowed_origins "string list"

text \<open>Two lists differ in length or at an index.\<close>

definition lists_differ :: "string list \<Rightarrow> string list \<Rightarrow> bool" where
  "lists_differ xs ys \<longleftrightarrow>
     length xs \<noteq> length ys \<or> list_ex (\<lambda>i. xs ! i \<noteq> ys ! i) [0..<length xs]"

definition buildPatch :: "AdminSite \<Rightarrow> Draft \<Rightarrow> string list \<Rightarrow> patch_entry list" where
  "buildPatch site draft nextOrigins =
     (let currentJ = or_default DEFAULT_JURISDICTION (as_jurisdiction site);
          currentM = or_default DEFAULT_MODE (as_consent_mode site);
          currentAllow = or_default [] (as_event_allowlist site);
          currentOrigins = or_default [] (as_allowed_origins site)
      in (if d_currency draft \<noteq> as_currency site then [P_currency (d_currency draft)] else [])
       @ (if d_tz draft \<noteq> as_tz site then [P_tz (d_tz draft)] else [])
       @ (if d_respect_gpc draft \<noteq> as_respect_gpc site then [P_respect_gpc (d_respect_gpc draft)] else [])
       @ (if d_respect_dnt draft \<noteq> as_respect_dnt site then [P_respect_dnt (d_respect_dnt draft)] else [])
       @ (if d_track_bots draft \<noteq> as_track_bots site then [P_track_bots (d_track_bots draft)] else [])
       @ (if d_jurisdiction draft \<noteq> currentJ then [P_jurisdiction (d_jurisdiction draft)] else [])
       @ (if d_consent_mode draft \<noteq> currentM then [P_consent_mode (d_consent_mode draft)] else [])
       @ (if lists_differ (d_event_allowlist draft) currentAllow
          then [P_event_allowlist (d_event_allowlist draft)] else [])
       @ (if lists_differ nextOrigins currentOrigins then [P_allowed_origins nextOrigins] else []))"

text \<open>The body that is sent.\<close>

fun entry_json :: "patch_entry \<Rightarrow> string \<times> json" where
  "entry_json (P_currency v) = (''currency'', JStr v)"
| "entry_json (P_tz v) = (''tz'', JStr v)"
| "entry_json (P_respect_gpc b) = (''respect_gpc'', JBool b)"
| "entry_json (P_respect_dnt b) = (''respect_dnt'', JBool b)"
| "entry_json (P_track_bots b) = (''track_bots'', JBool b)"
| "entry_json (P_jurisdiction v) = (''jurisdiction'', JStr v)"
| "entry_json (P_consent_mode v) = (''consent_mode'', JStr v)"
| "entry_json (P_event_allowlist vs) = (''event_allowlist'', JArr (map JStr vs))"
| "entry_json (P_allowed_origins vs) = (''allowed_origins'', JArr (map JStr vs))"

definition patch_json :: "patch_entry list \<Rightarrow> json" where
  "patch_json p = JObj (map entry_json p)"

text \<open>What the contract says a patch does: every member present replaces the site's, the others stay.\<close>

fun apply_entry :: "patch_entry \<Rightarrow> AdminSite \<Rightarrow> AdminSite" where
  "apply_entry (P_currency v) s = s\<lparr>as_currency := v\<rparr>"
| "apply_entry (P_tz v) s = s\<lparr>as_tz := v\<rparr>"
| "apply_entry (P_respect_gpc b) s = s\<lparr>as_respect_gpc := b\<rparr>"
| "apply_entry (P_respect_dnt b) s = s\<lparr>as_respect_dnt := b\<rparr>"
| "apply_entry (P_track_bots b) s = s\<lparr>as_track_bots := b\<rparr>"
| "apply_entry (P_jurisdiction v) s = s\<lparr>as_jurisdiction := Some v\<rparr>"
| "apply_entry (P_consent_mode v) s = s\<lparr>as_consent_mode := Some v\<rparr>"
| "apply_entry (P_event_allowlist vs) s = s\<lparr>as_event_allowlist := Some vs\<rparr>"
| "apply_entry (P_allowed_origins vs) s = s\<lparr>as_allowed_origins := Some vs\<rparr>"

definition apply_patch :: "patch_entry list \<Rightarrow> AdminSite \<Rightarrow> AdminSite" where
  "apply_patch p s = fold apply_entry p s"

definition apply_if :: "bool \<Rightarrow> patch_entry \<Rightarrow> AdminSite \<Rightarrow> AdminSite" where
  "apply_if c e s = (if c then apply_entry e s else s)"

lemma apply_patch_append: "apply_patch (p @ q) s = apply_patch q (apply_patch p s)"
  by (simp add: apply_patch_def)

lemma apply_patch_if: "apply_patch (if c then [e] else []) s = apply_if c e s"
  by (simp add: apply_patch_def apply_if_def)

lemma apply_if_fields:
  "as_currency (apply_if c e s) = (case e of P_currency v \<Rightarrow> if c then v else as_currency s | _ \<Rightarrow> as_currency s)"
  "as_tz (apply_if c e s) = (case e of P_tz v \<Rightarrow> if c then v else as_tz s | _ \<Rightarrow> as_tz s)"
  "as_respect_gpc (apply_if c e s) = (case e of P_respect_gpc v \<Rightarrow> if c then v else as_respect_gpc s | _ \<Rightarrow> as_respect_gpc s)"
  "as_respect_dnt (apply_if c e s) = (case e of P_respect_dnt v \<Rightarrow> if c then v else as_respect_dnt s | _ \<Rightarrow> as_respect_dnt s)"
  "as_track_bots (apply_if c e s) = (case e of P_track_bots v \<Rightarrow> if c then v else as_track_bots s | _ \<Rightarrow> as_track_bots s)"
  "as_jurisdiction (apply_if c e s) =
     (case e of P_jurisdiction v \<Rightarrow> if c then Some v else as_jurisdiction s | _ \<Rightarrow> as_jurisdiction s)"
  "as_consent_mode (apply_if c e s) =
     (case e of P_consent_mode v \<Rightarrow> if c then Some v else as_consent_mode s | _ \<Rightarrow> as_consent_mode s)"
  "as_event_allowlist (apply_if c e s) =
     (case e of P_event_allowlist v \<Rightarrow> if c then Some v else as_event_allowlist s | _ \<Rightarrow> as_event_allowlist s)"
  "as_allowed_origins (apply_if c e s) =
     (case e of P_allowed_origins v \<Rightarrow> if c then Some v else as_allowed_origins s | _ \<Rightarrow> as_allowed_origins s)"
  by (cases e; simp add: apply_if_def)+

lemma subseq_distinct: "subseq xs ys \<Longrightarrow> distinct ys \<Longrightarrow> distinct xs"
  by (induction rule: list_emb.induct) (auto elim: list_emb_set)

text \<open>
  The reference: all nine members of a policy, in the order of the contract, and the difference of two
  such objects, the members of the new one that the old one does not have with the same value.
\<close>

definition policy_members :: "Draft \<Rightarrow> string list \<Rightarrow> (string \<times> json) list" where
  "policy_members d origins =
     [(''currency'', JStr (d_currency d)), (''tz'', JStr (d_tz d)), (''respect_gpc'', JBool (d_respect_gpc d)),
      (''respect_dnt'', JBool (d_respect_dnt d)), (''track_bots'', JBool (d_track_bots d)),
      (''jurisdiction'', JStr (d_jurisdiction d)), (''consent_mode'', JStr (d_consent_mode d)),
      (''event_allowlist'', JArr (map JStr (d_event_allowlist d))), (''allowed_origins'', JArr (map JStr origins))]"

definition members_changed :: "(string \<times> json) list \<Rightarrow> (string \<times> json) list \<Rightarrow> (string \<times> json) list" where
  "members_changed old new = filter (\<lambda>(k, v). map_of old k \<noteq> Some v) new"

lemma lists_differ_iff: "lists_differ xs ys \<longleftrightarrow> xs \<noteq> ys"
  by (auto simp: lists_differ_def list_ex_iff intro!: nth_equalityI)

lemma filter_one: "filter P (x # xs) = (if P x then [x] else []) @ filter P xs"
  by simp

lemma patch_members:
  "map entry_json (buildPatch site draft origins)
     = members_changed (policy_members (toDraft site) (or_default [] (as_allowed_origins site))) (policy_members draft origins)"
proof -
  have m: "map f (if c then [e] else []) = (if c then [f e] else [])" for c e and f :: "patch_entry \<Rightarrow> string \<times> json"
    by simp
  have str: "map JStr xs = map JStr ys \<longleftrightarrow> xs = ys" for xs ys by (simp add: inj_map_eq_map inj_on_def)
  show ?thesis
    unfolding buildPatch_def Let_def map_append m members_changed_def policy_members_def filter_one lists_differ_iff
      entry_json.simps toDraft_def
    by (simp add: str eq_commute cong: if_cong)
qed

text \<open>
  C9: the patch of the dialog. Its members are the members of the draft that differ from the site's, what
  the site leaves out taken as its default, each once and in the order of the contract, with the draft's
  values; so it is empty exactly when nothing was changed. Applied to the site, it gives a site with exactly
  the draft and the origins entered; and the server reads from the request's body the object that was
  built.
\<close>

theorem configure_patch_spec:
  "map entry_json (buildPatch site draft origins)
     = members_changed (policy_members (toDraft site) (or_default [] (as_allowed_origins site))) (policy_members draft origins)
   \<and> distinct (map (fst \<circ> entry_json) (buildPatch site draft origins))
   \<and> (buildPatch site draft origins = [] \<longleftrightarrow> draft = toDraft site \<and> origins = or_default [] (as_allowed_origins site))
   \<and> toDraft (apply_patch (buildPatch site draft origins) site) = draft
   \<and> or_default [] (as_allowed_origins (apply_patch (buildPatch site draft origins) site)) = origins
   \<and> json_parse (stringify (patch_json (buildPatch site draft origins))) = Some (patch_json (buildPatch site draft origins))"
proof -
  let ?p = "buildPatch site draft origins"
  have "subseq (map fst (map entry_json ?p)) (map fst (policy_members draft origins))"
    unfolding patch_members members_changed_def by (intro subseq_map) simp
  moreover have "distinct (map fst (policy_members draft origins))" by (simp add: policy_members_def)
  ultimately have d: "distinct (map (fst \<circ> entry_json) ?p)" using subseq_distinct by simp blast
  have ok: "json_ok (snd (entry_json e))" for e by (cases e) (simp_all add: list_all_iff)
  have "json_ok (patch_json ?p)" using d ok by (simp add: patch_json_def list_all_iff)
  then have parse: "json_parse (stringify (patch_json ?p)) = Some (patch_json ?p)" by (rule json_parse_stringify)
  have fields: "toDraft (apply_patch ?p site) = draft"
    "or_default [] (as_allowed_origins (apply_patch ?p site)) = origins"
    unfolding buildPatch_def Let_def apply_patch_append apply_patch_if toDraft_def lists_differ_iff
    by (simp_all add: or_default_def apply_if_fields)
  have "?p = [] \<longleftrightarrow> draft = toDraft site \<and> origins = or_default [] (as_allowed_origins site)"
    by (cases draft) (auto simp: toDraft_def buildPatch_def Let_def lists_differ_iff)
  with d parse fields patch_members show ?thesis by blast
qed

section \<open>The dialog's state\<close>

text \<open>Inputs show origins without the scheme, which is put back for the check and the patch.\<close>

definition scheme :: string where
  "scheme = ''https://''"

definition withScheme :: "string \<Rightarrow> string" where
  "withScheme host = (if prefix scheme host then host else scheme @ host)"

definition withoutScheme :: "string \<Rightarrow> string" where
  "withoutScheme origin = (if ascii_lower (take 8 origin) = scheme then drop 8 origin else origin)"

datatype save_phase = Save_idle | Saving_patch | Saving_refresh

record Modal =
  draft :: Draft
  originHosts :: "string list"
  saving :: bool
  topError :: string
  save_phase :: save_phase

definition open_modal :: "AdminSite \<Rightarrow> Modal" where
  "open_modal site =
     \<lparr>draft = toDraft site, originHosts = map withoutScheme (or_default [] (as_allowed_origins site)),
      saving = False, topError = [], save_phase = Save_idle\<rparr>"

definition nextOrigins :: "Modal \<Rightarrow> string list" where
  "nextOrigins m = filter (\<lambda>o'. o' \<noteq> scheme) (map (\<lambda>h. withScheme (js_trim h)) (originHosts m))"

section \<open>Validation\<close>

definition origin_row_error :: "string \<Rightarrow> string option" where
  "origin_row_error host =
     (let candidate = withScheme (js_trim host) in
      if js_trim host = [] then Some ''Enter the address or remove this row.'' else httpsOrigin (Str candidate))"

definition allowlist_error :: "string list \<Rightarrow> string option" where
  "allowlist_error names =
     (if 50 < length names then Some ''Maximum 50 event names.''
      else (case find (\<lambda>n. eventName (Str n) \<noteq> None) names of
              None \<Rightarrow> None
            | Some bad \<Rightarrow>
                Some (''Event names use lowercase letters, numbers, and underscores only, up to 128 characters. You entered `''
                  @ bad @ ''`.'')))"

definition origins_any :: "string list \<Rightarrow> string option" where
  "origins_any hosts =
     (let originErrors = map origin_row_error hosts;
          e = (if list_ex (\<lambda>x. x \<noteq> None) originErrors
               then (case find (\<lambda>x. x \<noteq> None) originErrors of Some v \<Rightarrow> v | None \<Rightarrow> None) else None)
      in if MAX_ALLOWED_ORIGINS < length hosts
         then Some (''You can register up to '' @ show_nonneg (int MAX_ALLOWED_ORIGINS) @ '' addresses per site.'')
         else e)"

definition origin_key :: "nat \<Rightarrow> string" where
  "origin_key i = ''origin_'' @ show_nonneg (int i)"

text \<open>The errors by field, in the order they are written; \<open>None\<close> is null.\<close>

definition config_errors ::
    "CurrencyOption list \<Rightarrow> TimezoneOption list \<Rightarrow> Modal \<Rightarrow> (string \<times> string option) list" where
  "config_errors currencies timezones m =
     (let d = draft m in
      [(''currency'', if length currencies = 0 \<or> list_ex (\<lambda>c. cur_code c = d_currency d) currencies then None
                      else Some ''We don't recognize that currency. Pick one from the list.''),
       (''tz'', if length timezones = 0 \<or> list_ex (\<lambda>t. iana t = d_tz d) timezones then None
                else Some ''We don't recognize that timezone. Pick one from the list.''),
       (''jurisdiction'', if d_jurisdiction d \<in> set (map jurisdiction_code JURISDICTIONS) then None
                          else Some ''Pick a jurisdiction from the list.''),
       (''consent_mode'', if d_consent_mode d \<in> set (map consent_code CONSENT_MODES) then None
                          else Some ''Pick a consent mode from the list.''),
       (''event_allowlist'', allowlist_error (d_event_allowlist d)),
       (''_origins_any'', origins_any (originHosts m))]
      @ map (\<lambda>i. (origin_key i, origin_row_error (originHosts m ! i))) [0..<length (originHosts m)])"

definition is_invalid :: "CurrencyOption list \<Rightarrow> TimezoneOption list \<Rightarrow> Modal \<Rightarrow> bool" where
  "is_invalid currencies timezones m \<longleftrightarrow>
     list_ex (\<lambda>(_, v). v \<noteq> None) (config_errors currencies timezones m)
     \<or> MAX_ALLOWED_ORIGINS < length (originHosts m)"

definition modal_patch :: "AdminSite \<Rightarrow> Modal \<Rightarrow> patch_entry list" where
  "modal_patch site m = buildPatch site (draft m) (nextOrigins m)"

section \<open>Handlers\<close>

definition onChangeJurisdiction :: "string \<Rightarrow> Modal \<Rightarrow> Modal" where
  "onChangeJurisdiction nxt m =
     (let nextMode = (if d_consent_mode (draft m) = ''hybrid'' then ''hybrid'' else derived_mode nxt) in
      m\<lparr>draft := (draft m)\<lparr>d_jurisdiction := nxt, d_consent_mode := nextMode\<rparr>\<rparr>)"

definition allowlist_parts :: "string \<Rightarrow> string list" where
  "allowlist_parts raw = filter (\<lambda>w. w \<noteq> []) (map js_trim (split_on (CHR '','') raw))"

definition onChangeEventAllowlist :: "string \<Rightarrow> Modal \<Rightarrow> Modal" where
  "onChangeEventAllowlist raw m = m\<lparr>draft := (draft m)\<lparr>d_event_allowlist := allowlist_parts raw\<rparr>\<rparr>"

text \<open>What the controlled input shows of the list.\<close>

definition allowlist_text :: "Modal \<Rightarrow> string" where
  "allowlist_text m = join '', '' (d_event_allowlist (draft m))"

definition setOriginAt :: "nat \<Rightarrow> string \<Rightarrow> Modal \<Rightarrow> Modal" where
  "setOriginAt idx v m = m\<lparr>originHosts := map (\<lambda>(h, i). if i = idx then v else h) (zip (originHosts m) [0..<length (originHosts m)])\<rparr>"

definition addOrigin :: "Modal \<Rightarrow> Modal" where
  "addOrigin m =
     (if MAX_ALLOWED_ORIGINS \<le> length (originHosts m) then m else m\<lparr>originHosts := originHosts m @ [[]]\<rparr>)"

definition removeOrigin :: "nat \<Rightarrow> Modal \<Rightarrow> Modal" where
  "removeOrigin idx m =
     m\<lparr>originHosts := map fst (filter (\<lambda>(_, i). i \<noteq> idx) (zip (originHosts m) [0..<length (originHosts m)]))\<rparr>"

text \<open>
  Where Tab moves the focus among \<open>n\<close> focusable elements when one is focused, if the dialog and not the
  browser moves it.
\<close>

definition trap_tab :: "nat \<Rightarrow> nat option \<Rightarrow> bool \<Rightarrow> nat option" where
  "trap_tab n focused shift =
     (if n = 0 then None
      else if shift \<and> focused = Some 0 then Some (n - 1)
      else if \<not> shift \<and> focused = Some (n - 1) then Some 0
      else None)"

datatype modal_event =
    Set_currency string
  | Set_tz string
  | Set_gpc bool
  | Set_dnt bool
  | Set_bots bool
  | Pick_jurisdiction string
  | Pick_mode string
  | Type_allowlist string
  | Set_origin nat string
  | Add_origin
  | Remove_origin nat
  | Save
  | Close
  | Patched answer
  | Refreshed "thrown option"

datatype modal_output = Send_patch HttpRequest | Refresh_sites | Close_modal

text \<open>
  \<^verbatim>\<open>onSave\<close>: the guard, the request; after its answer the table is refreshed, and
  after that the dialog closes. An exception at either point ends in the alert.
\<close>

definition onSave ::
    "string \<Rightarrow> AdminSite \<Rightarrow> CurrencyOption list \<Rightarrow> TimezoneOption list \<Rightarrow> Modal \<Rightarrow> Modal \<times> modal_output list" where
  "onSave token site currencies timezones m =
     (let pt = modal_patch site m in
      if is_invalid currencies timezones m \<or> saving m \<or> \<not> 0 < length pt then (m, [])
      else (m\<lparr>saving := True, topError := [], save_phase := Saving_patch\<rparr>,
            [Send_patch (send token (updateSitePolicy (as_site_id site) (patch_json pt)))]))"

definition save_fails :: "thrown \<Rightarrow> Modal \<Rightarrow> Modal" where
  "save_fails e m =
     m\<lparr>topError := errorMessage e ''Couldn't save your changes.'', saving := False, save_phase := Save_idle\<rparr>"

definition on_patched :: "rat \<Rightarrow> answer \<Rightarrow> Modal \<Rightarrow> Modal \<times> modal_output list" where
  "on_patched i a m =
     (case receive (updateSitePolicy i JNull) a of
        Failed e \<Rightarrow> (save_fails e m, [])
      | Returned _ \<Rightarrow> (m\<lparr>save_phase := Saving_refresh\<rparr>, [Refresh_sites]))"

definition on_refreshed :: "thrown option \<Rightarrow> Modal \<Rightarrow> Modal \<times> modal_output list" where
  "on_refreshed r m =
     (case r of
        Some e \<Rightarrow> (save_fails e m, [])
      | None \<Rightarrow> (m\<lparr>saving := False, save_phase := Save_idle\<rparr>, [Close_modal]))"

fun modal_step ::
    "string \<Rightarrow> AdminSite \<Rightarrow> CurrencyOption list \<Rightarrow> TimezoneOption list \<Rightarrow> modal_event \<Rightarrow> Modal \<Rightarrow> Modal \<times> modal_output list" where
  "modal_step token site cs ts (Set_currency v) m = (m\<lparr>draft := (draft m)\<lparr>d_currency := v\<rparr>\<rparr>, [])"
| "modal_step token site cs ts (Set_tz v) m = (m\<lparr>draft := (draft m)\<lparr>d_tz := v\<rparr>\<rparr>, [])"
| "modal_step token site cs ts (Set_gpc b) m = (m\<lparr>draft := (draft m)\<lparr>d_respect_gpc := b\<rparr>\<rparr>, [])"
| "modal_step token site cs ts (Set_dnt b) m = (m\<lparr>draft := (draft m)\<lparr>d_respect_dnt := b\<rparr>\<rparr>, [])"
| "modal_step token site cs ts (Set_bots b) m = (m\<lparr>draft := (draft m)\<lparr>d_track_bots := b\<rparr>\<rparr>, [])"
| "modal_step token site cs ts (Pick_jurisdiction v) m = (onChangeJurisdiction v m, [])"
| "modal_step token site cs ts (Pick_mode v) m = (m\<lparr>draft := (draft m)\<lparr>d_consent_mode := v\<rparr>\<rparr>, [])"
| "modal_step token site cs ts (Type_allowlist v) m = (onChangeEventAllowlist v m, [])"
| "modal_step token site cs ts (Set_origin i v) m = (setOriginAt i (js_trim v) m, [])"
| "modal_step token site cs ts Add_origin m = (addOrigin m, [])"
| "modal_step token site cs ts (Remove_origin i) m = (removeOrigin i m, [])"
| "modal_step token site cs ts Save m = onSave token site cs ts m"
| "modal_step token site cs ts Close m = (m, [Close_modal])"
| "modal_step token site cs ts (Patched a) m = (if save_phase m = Saving_patch then on_patched (as_site_id site) a m else (m, []))"
| "modal_step token site cs ts (Refreshed r) m = (if save_phase m = Saving_refresh then on_refreshed r m else (m, []))"

section \<open>Typing a list of events\<close>

definition clean_names :: "string list \<Rightarrow> bool" where
  "clean_names ns \<longleftrightarrow> list_all (\<lambda>n. n \<noteq> [] \<and> trimmed n \<and> CHR '','' \<notin> set n) ns"

lemma strip_start_set: "set (strip_start ws s) \<subseteq> set s"
proof -
  obtain u where "s = u @ strip_start ws s" unfolding strip_start_def by (metis strip_start_suffix)
  then show ?thesis by (metis Un_upper2 set_append)
qed

lemma js_trim_set: "set (js_trim s) \<subseteq> set s"
  using strip_start_set [of "map rev whitespace" "rev (strip_start whitespace s)"] strip_start_set [of whitespace s]
  by (auto simp: js_trim_def)

lemma parts_clean: "clean_names (allowlist_parts raw)"
proof -
  have "CHR '','' \<notin> set (js_trim w)" if "w \<in> set (split_on (CHR '','') raw)" for w
    using split_on_pieces [OF that] js_trim_set [of w] by blast
  then show ?thesis by (auto simp: clean_names_def allowlist_parts_def list_all_iff js_trim_trimmed)
qed

lemma join_push: "s @ join sep (n # ns) = join sep ((s @ n) # ns)"
  by (cases ns) simp_all

lemma join_blank: "join (c # s) (n # ns) = join [c] (n # map (\<lambda>m. s @ m) ns)"
  by (induction ns arbitrary: n) (simp_all add: join_push)

text \<open>The pieces of the text of a clean list with something after it.\<close>

lemma parts_of_text:
  assumes "clean_names (n # ns)" and "CHR '','' \<notin> set e"
  shows "allowlist_parts (join '', '' (n # ns) @ CHR '','' # e) =
     (n # ns) @ (if js_trim e = [] then [] else [js_trim e])"
proof -
  let ?p = "n # map (\<lambda>m. CHR '' '' # m) ns"
  have eq: "join '', '' (n # ns) @ CHR '','' # e = join [CHR '',''] (?p @ [e])"
    using join_blank [of "CHR '',''" "'' ''" n ns] join_snoc [of ?p "[CHR '','']" e] by simp
  have "split_on (CHR '','') (join [CHR '',''] (?p @ [e])) = ?p @ [e]"
    using assms by (intro split_on_join) (auto simp: clean_names_def list_all_iff)
  then have "allowlist_parts (join '', '' (n # ns) @ CHR '','' # e) = filter (\<lambda>w. w \<noteq> []) (map js_trim (?p @ [e]))"
    by (simp only: eq allowlist_parts_def)
  moreover have "map js_trim ?p = n # ns"
    using assms(1) by (auto simp: clean_names_def list_all_iff js_trim_id js_trim_blank intro!: map_idI)
  moreover have "filter (\<lambda>w. w \<noteq> []) (n # ns) = n # ns"
    using assms(1) by (auto simp: clean_names_def list_all_iff filter_id_conv)
  ultimately have "allowlist_parts (join '', '' (n # ns) @ CHR '','' # e)
      = (n # ns) @ filter (\<lambda>w. w \<noteq> []) [js_trim e]"
    by (simp only: map_append filter_append list.map)
  then show ?thesis by (simp split: if_splits)
qed

lemma parts_single:
  assumes "CHR '','' \<notin> set e" shows "allowlist_parts e = (if js_trim e = [] then [] else [js_trim e])"
  using assms by (simp add: allowlist_parts_def text_simps)

lemma parts_of_text_end:
  assumes "clean_names ns" and "u = [] \<or> u = '' ''"
  shows "allowlist_parts (join '', '' ns @ u) = ns"
proof (cases ns rule: rev_cases)
  case Nil
  have "js_trim u = []" using assms(2) js_trim_blank [of "[]"] by (auto simp: js_trim_Nil)
  moreover have "CHR '','' \<notin> set u" using assms(2) by auto
  ultimately show ?thesis using parts_single [of u] by (simp add: Nil)
next
  case (snoc ms m)
  have m: "trimmed m" "m \<noteq> []" "CHR '','' \<notin> set m" "clean_names ms"
    using assms(1) by (simp_all add: snoc clean_names_def)
  have t: "js_trim (m @ u) = m" using assms(2) m(1) by (auto simp: js_trim_id js_trim_blank_end)
  have c: "CHR '','' \<notin> set (m @ u)" using m(3) assms(2) by auto
  show ?thesis
  proof (cases ms)
    case Nil
    then show ?thesis using parts_single [OF c] t m(2) by (simp add: snoc)
  next
    case (Cons n ns')
    have "join '', '' ns @ u = join '', '' ms @ CHR '','' # CHR '' '' # m @ u"
      using join_snoc [of ms "'', ''" m] Cons by (simp add: snoc)
    moreover have "CHR '','' \<notin> set (CHR '' '' # m @ u)" using c by simp
    ultimately show ?thesis
      using parts_of_text [of n ns' "CHR '' '' # m @ u"] m t by (simp add: Cons snoc js_trim_blank)
  qed
qed

lemma parts_of_text_comma: "clean_names ns \<Longrightarrow> allowlist_parts (join '', '' ns @ '','') = ns"
proof (cases ns)
  case Nil
  then show ?thesis by (simp add: allowlist_parts_def js_trim_Nil)
next
  case (Cons n ms)
  assume "clean_names ns"
  then show ?thesis using parts_of_text [of n ms "[]"] by (simp add: Cons js_trim_Nil)
qed

text \<open>
  typing the list of events. Whatever was typed or pasted, the names kept are non-empty, trimmed
  and free of commas, and the text shown for them reads back as the same names. But that text takes the
  place of what was typed after every key, so a comma or a blank typed after the last name is
  undone at once: from the keyboard a second name cannot be started.
\<close>

theorem allowlist_typing:
  "(let m' = onChangeEventAllowlist raw m in
      clean_names (d_event_allowlist (draft m'))
      \<and> onChangeEventAllowlist (allowlist_text m') m' = m'
      \<and> onChangeEventAllowlist (allowlist_text m' @ '','') m' = m'
      \<and> onChangeEventAllowlist (allowlist_text m' @ '' '') m' = m')"
proof -
  have "clean_names (allowlist_parts raw)" by (rule parts_clean)
  then show ?thesis
    using parts_of_text_end [of "allowlist_parts raw" "[]"] parts_of_text_end [of "allowlist_parts raw" "'' ''"]
      parts_of_text_comma [of "allowlist_parts raw"]
    by (simp add: onChangeEventAllowlist_def allowlist_text_def)
qed

section \<open>What is saved\<close>

definition valid_draft :: "CurrencyOption list \<Rightarrow> TimezoneOption list \<Rightarrow> Modal \<Rightarrow> bool" where
  "valid_draft currencies timezones m \<longleftrightarrow>
     (currencies = [] \<or> d_currency (draft m) \<in> cur_code ` set currencies)
     \<and> (timezones = [] \<or> d_tz (draft m) \<in> iana ` set timezones)
     \<and> d_jurisdiction (draft m) \<in> range jurisdiction_code
     \<and> d_consent_mode (draft m) \<in> range consent_code
     \<and> length (d_event_allowlist (draft m)) \<le> 50
     \<and> list_all (\<lambda>n. eventName (Str n) = None) (d_event_allowlist (draft m))
     \<and> length (nextOrigins m) \<le> MAX_ALLOWED_ORIGINS
     \<and> list_all (\<lambda>o'. httpsOrigin (Str o') = None) (nextOrigins m)
     \<and> length (nextOrigins m) = length (originHosts m)"

lemma listed: "list_ex (\<lambda>c. f c = x) cs \<Longrightarrow> x \<in> f ` set cs"
  by (auto simp: list_ex_iff)

lemma origin_row_ok:
  "origin_row_error h = None \<Longrightarrow> js_trim h \<noteq> [] \<and> httpsOrigin (Str (withScheme (js_trim h))) = None"
  unfolding origin_row_error_def Let_def by (cases "js_trim h = []") simp_all

lemma scheme_alone: "httpsOrigin (Str scheme) \<noteq> None"
proof -
  have "scheme \<noteq> a @ h @ p" if w: "ascii_lower a = scheme" "h \<noteq> []" for a h p
  proof -
    have "length a = length scheme" using arg_cong [OF w(1), of length] by (simp add: ascii_lower_def)
    then have "length (a @ h @ p) \<noteq> length scheme" using w(2) by simp
    then show ?thesis by metis
  qed
  then have "scheme \<notin> lang HTTPS_ORIGIN_RE" unfolding lang_origin scheme_def by blast
  then show ?thesis by (simp add: httpsOrigin_def re_test_lang)
qed

lemma valid_when_shown:
  assumes "\<not> is_invalid currencies timezones m"
  shows "valid_draft currencies timezones m"
proof -
  have len: "length (originHosts m) \<le> MAX_ALLOWED_ORIGINS" using assms by (simp add: is_invalid_def)
  have if_None: "(if c then None else Some x) = None \<longleftrightarrow> c" for c and x :: string by simp
  have "list_all (\<lambda>(_, v). v = None) (config_errors currencies timezones m)"
    using assms by (auto simp: is_invalid_def list_ex_iff list_all_iff)
  then have "(currencies = [] \<or> list_ex (\<lambda>c. cur_code c = d_currency (draft m)) currencies)
     \<and> (timezones = [] \<or> list_ex (\<lambda>t. iana t = d_tz (draft m)) timezones)
     \<and> d_jurisdiction (draft m) \<in> set (map jurisdiction_code JURISDICTIONS)
     \<and> d_consent_mode (draft m) \<in> set (map consent_code CONSENT_MODES)
     \<and> allowlist_error (d_event_allowlist (draft m)) = None
     \<and> list_all (\<lambda>(_, v). v = None) (map (\<lambda>i. (origin_key i, origin_row_error (originHosts m ! i))) [0..<length (originHosts m)])"
    unfolding config_errors_def Let_def
    by (simp only: list_all_append list.pred_inject prod.case if_None length_0_conv)
  then have cur: "currencies = [] \<or> d_currency (draft m) \<in> cur_code ` set currencies"
    and tz: "timezones = [] \<or> d_tz (draft m) \<in> iana ` set timezones"
    and j: "d_jurisdiction (draft m) \<in> range jurisdiction_code"
    and md: "d_consent_mode (draft m) \<in> range consent_code"
    and al: "allowlist_error (d_event_allowlist (draft m)) = None"
    and all_rows: "list_all (\<lambda>i. origin_row_error (originHosts m ! i) = None) [0..<length (originHosts m)]"
    using listed [of cur_code "d_currency (draft m)"] listed [of iana "d_tz (draft m)"]
    by (auto simp: list_all_iff)
  have rows: "origin_row_error h = None" if "h \<in> set (originHosts m)" for h
    using all_rows that by (auto simp: list_all_iff in_set_conv_nth)
  have row: "js_trim h \<noteq> [] \<and> httpsOrigin (Str (withScheme (js_trim h))) = None" if "h \<in> set (originHosts m)" for h
    by (rule origin_row_ok [OF rows [OF that]])
  have "httpsOrigin (Str scheme) \<noteq> None" by (rule scheme_alone)
  then have "withScheme (js_trim h) \<noteq> scheme" if "h \<in> set (originHosts m)" for h
    using row [OF that] by (cases "withScheme (js_trim h) = scheme") simp_all
  then have keep: "nextOrigins m = map (\<lambda>h. withScheme (js_trim h)) (originHosts m)"
    unfolding nextOrigins_def filter_map o_def by (simp add: filter_True)
  show ?thesis
    using cur tz j md al len row
    by (auto simp: valid_draft_def keep list_all_iff allowlist_error_def find_None_iff split: if_splits option.splits)
qed

definition example_site :: AdminSite where
  "example_site =
     \<lparr>as_site_id = 7, as_hostname = ''a.example'', as_slug = ''a'', as_plan = ''free'', as_enabled = True,
      as_tz = ''UTC'', as_currency = ''EUR'', as_created_at = 0, as_allowed_origins = None, as_respect_dnt = False,
      as_respect_gpc = False, as_track_bots = True, as_jurisdiction = None, as_consent_mode = None,
      as_event_allowlist = None\<rparr>"

section \<open>The dialog\<close>

text \<open>
  The error of a field, and whether it is one. A checkbox hands its handler the text of its checked
  state.
\<close>

definition field_error :: "string \<Rightarrow> (string \<times> string option) list \<Rightarrow> string option" where
  "field_error k errs = (case map_of errs k of Some v \<Rightarrow> v | None \<Rightarrow> None)"

definition error_line :: "string \<Rightarrow> (string \<times> string option) list \<Rightarrow> 'a vnode list" where
  "error_line k errs =
     (case field_error k errs of Some e \<Rightarrow> only_if (e \<noteq> []) (alert_helper e) | None \<Rightarrow> [])"

definition invalid_class :: "string \<Rightarrow> (string \<times> string option) list \<Rightarrow> string \<times> string" where
  "invalid_class k errs = (''class'', if truthy (field_error k errs) then ''is-invalid'' else [])"

definition option_el :: "string \<Rightarrow> 'a vnode list \<Rightarrow> 'a vnode" where
  "option_el v cs = el ''option'' [(''value'', v)] cs"

definition modal_field :: "'a vnode list \<Rightarrow> 'a vnode" where
  "modal_field cs = el ''div'' (in_class ''statnive-admin-modal-field'') cs"

definition section_title :: "string \<Rightarrow> 'a vnode" where
  "section_title t = el ''h3'' (in_class ''statnive-admin-modal-section'') [Text t]"

definition currency_option :: "CurrencyOption \<Rightarrow> 'a vnode" where
  "currency_option c =
     option_el (cur_code c) [Text (cur_code c), Text '' '', Text middot, Text '' '', Text (cur_symbol c), Text '' '', Text (cur_name c)]"

definition timezone_option :: "TimezoneOption \<Rightarrow> 'a vnode" where
  "timezone_option t = option_el (iana t) [Text (tz_label t), Text '' ('', Text (tz_offset t), Text '')'']"

definition identity_part :: "AdminSite \<Rightarrow> 'a vnode list" where
  "identity_part site =
     [section_title ''Identity'',
      el ''dl'' (in_class ''statnive-admin-modal-ident'')
        [el ''dt'' [] [Text ''Hostname''], el ''dd'' [] [Text (as_hostname site)],
         el ''dt'' [] [Text ''Slug''], el ''dd'' [] [code_el (as_slug site)],
         el ''dt'' [] [Text ''Plan''], el ''dd'' [] [Text (as_plan site)],
         el ''dt'' [] [Text ''Site ID''], el ''dd'' [] [code_el (show_rat (as_site_id site))],
         el ''dt'' [] [Text ''Status''], el ''dd'' [] [StatusPill (if as_enabled site then Live_state else Paused)]],
      helper [Text ''Hostname, slug, and site ID are fixed at creation. To change a hostname without losing tracking continuity, contact support. Status flips with the Pause / Resume button on the Sites table row.'']]"

definition currency_part :: "CurrencyOption list \<Rightarrow> (string \<times> string option) list \<Rightarrow> Draft \<Rightarrow> modal_event vnode" where
  "currency_part currencies errs d =
     modal_field
       ([el ''label'' [(''for'', ''cfg-currency'')] [Text ''Currency''],
         Elem ''select'' [(''id'', ''cfg-currency''), invalid_class ''currency'' errs, (''value'', d_currency d)]
           [(''change'', Set_currency)]
           (only_if (length currencies = 0) (option_el (d_currency d) [Text (d_currency d)])
            @ map currency_option currencies),
         helper [Text ''How revenue is labeled. Does not convert stored values.'']]
        @ error_line ''currency'' errs)"

definition timezone_part :: "TimezoneOption list \<Rightarrow> (string \<times> string option) list \<Rightarrow> Draft \<Rightarrow> modal_event vnode" where
  "timezone_part timezones errs d =
     modal_field
       ([el ''label'' [(''for'', ''cfg-tz'')] [Text ''Timezone''],
         Elem ''select'' [(''id'', ''cfg-tz''), invalid_class ''tz'' errs, (''value'', d_tz d)] [(''change'', Set_tz)]
           (only_if (length timezones = 0) (option_el (d_tz d) [Text (d_tz d)]) @ map timezone_option timezones),
         helper [Text (''Which zone the dashboard uses for '' @ [CHR 0xE2, CHR 0x80, CHR 0x98] @ ''today''
           @ [CHR 0xE2, CHR 0x80, CHR 0x99] @ '' and '' @ [CHR 0xE2, CHR 0x80, CHR 0x98] @ ''yesterday''
           @ [CHR 0xE2, CHR 0x80, CHR 0x99] @ ''.'')]]
        @ error_line ''tz'' errs)"

definition checkbox_part :: "string \<Rightarrow> bool \<Rightarrow> (bool \<Rightarrow> modal_event) \<Rightarrow> string \<Rightarrow> modal_event vnode list \<Rightarrow> modal_event vnode" where
  "checkbox_part i checked ev title help =
     el ''div'' (in_class ''statnive-admin-modal-field statnive-admin-modal-field-checkbox'')
       [Elem ''input'' ([(''id'', i), (''type'', ''checkbox'')] @ flag ''checked'' checked)
          [(''change'', \<lambda>v. ev (v = ''true''))] [],
        el ''label'' [(''for'', i)] [Text title, helper help]]"

definition gpc_part :: "Draft \<Rightarrow> modal_event vnode" where
  "gpc_part d =
     checkbox_part ''cfg-gpc'' (d_respect_gpc d) Set_gpc ''Respect Sec-GPC: 1''
       [Text ''When a visitor's browser sends the Global Privacy Control signal, hide their identity from analytics.'',
        strong_el '' EU operators must enable this.'']"

definition dnt_part :: "Draft \<Rightarrow> modal_event vnode" where
  "dnt_part d =
     checkbox_part ''cfg-dnt'' (d_respect_dnt d) Set_dnt ''Respect DNT: 1''
       [Text ''Same as GPC, for the older Do-Not-Track header.'', strong_el '' EU operators must enable this.'']"

definition bots_part :: "Draft \<Rightarrow> modal_event vnode" where
  "bots_part d =
     checkbox_part ''cfg-bots'' (d_track_bots d) Set_bots ''Count bots''
       [Text ''Bot traffic is recorded with '', code_el ''is_bot=1'',
        Text '' so you can split it from human traffic in reports. Turn this off to drop bot events entirely.'']"

definition jurisdiction_part :: "(string \<times> string option) list \<Rightarrow> Draft \<Rightarrow> modal_event vnode" where
  "jurisdiction_part errs d =
     modal_field
       ([el ''label'' [(''for'', ''cfg-jurisdiction'')] [Text ''Jurisdiction''],
         Elem ''select'' [(''id'', ''cfg-jurisdiction''), invalid_class ''jurisdiction'' errs, (''value'', d_jurisdiction d)]
           [(''change'', Pick_jurisdiction)]
           (map (\<lambda>j. option_el (jurisdiction_code j) [Text (jurisdictionLabel j)]) JURISDICTIONS),
         helper [Text ''Which legal regime applies to your visitors. Picking'', code_el '' EU-GDPR'',
           Text '' switches the consent flow to consent-free by default.'']]
        @ error_line ''jurisdiction'' errs)"

definition mode_part :: "(string \<times> string option) list \<Rightarrow> Draft \<Rightarrow> modal_event vnode" where
  "mode_part errs d =
     modal_field
       ([el ''label'' [(''for'', ''cfg-mode'')] [Text ''Consent mode''],
         Elem ''select'' [(''id'', ''cfg-mode''), invalid_class ''consent_mode'' errs, (''value'', d_consent_mode d)]
           [(''change'', Pick_mode)]
           (map (\<lambda>md. option_el (consent_code md) [Text (consent_code md)]) CONSENT_MODES),
         helper [code_el ''consent-free'', Text '' means no banner; identity stays anonymous. '', code_el ''hybrid'',
           Text '' means a banner asks; we hash identity only after consent. '', code_el ''permissive'',
           Text '' is legacy mode; it sets cookies and counts everyone.'',
           strong_el '' EU operators should pick consent-free or hybrid.'']]
        @ error_line ''consent_mode'' errs)"

definition allowlist_part :: "(string \<times> string option) list \<Rightarrow> Modal \<Rightarrow> modal_event vnode list" where
  "allowlist_part errs m =
     only_if (d_consent_mode (draft m) = ''consent-free'' \<or> d_consent_mode (draft m) = ''hybrid'')
       (modal_field
         ([el ''label'' [(''for'', ''cfg-allowlist'')] [Text ''Event allowlist''],
           Elem ''input''
             [(''id'', ''cfg-allowlist''), (''type'', ''text''), invalid_class ''event_allowlist'' errs,
              (''placeholder'', ''pageview, click, scroll''), (''value'', allowlist_text m)]
             [(''input'', Type_allowlist)] [],
           helper [Text ''Only events with these names are accepted. Separate names with commas. Leave empty to accept every event.'']]
          @ error_line ''event_allowlist'' errs))"

definition origin_row :: "(string \<times> string option) list \<Rightarrow> nat \<times> string \<Rightarrow> modal_event vnode" where
  "origin_row errs ih =
     (case ih of (idx, host) \<Rightarrow>
       modal_field
         ([el ''div''
             (in_class (''statnive-input-group'' @ (if truthy (field_error (origin_key idx) errs) then '' is-invalid'' else [])))
             [el ''span'' [(''class'', ''statnive-input-prefix''), hidden] [Text scheme],
              Elem ''input''
                [(''type'', ''text''), (''aria-label'', ''allowed origin '' @ show_nonneg (int idx + 1)),
                 (''placeholder'', ''www.example.com''), (''value'', host)]
                [(''input'', Set_origin idx)] [],
              Elem ''button''
                [button_attr, (''class'', ''statnive-input-remove''),
                 (''aria-label'', ''remove allowed origin '' @ show_nonneg (int idx + 1))]
                [(''click'', \<lambda>_. Remove_origin idx)] [Text times_sign]]]
          @ error_line (origin_key idx) errs))"

definition origins_part :: "(string \<times> string option) list \<Rightarrow> Modal \<Rightarrow> modal_event vnode list" where
  "origins_part errs m =
     (let cap = (MAX_ALLOWED_ORIGINS \<le> length (originHosts m)) in
      [section_title ''Allowed origins'',
       modal_field
         ([helper [Text ''Which web addresses can send events to this site. Must start with '', code_el scheme,
             Text ''. No trailing slash, no path. Maximum '', Text (show_nonneg (int MAX_ALLOWED_ORIGINS)),
             Text '' entries. The same address cannot be on two different sites; you'll see a conflict error if it is.'']]
          @ map (origin_row errs) (zip [0..<length (originHosts m)] (originHosts m))
          @ [Elem ''button'' ([button_attr, (''class'', ''statnive-chip'')] @ flag ''disabled'' cap)
               [(''click'', \<lambda>_. Add_origin)] [Text ''+ Add another'']]
          @ only_if cap
              (alert_helper (''You've reached the cap of '' @ show_nonneg (int MAX_ALLOWED_ORIGINS)
                @ '' addresses per site. Remove one to add another.'')))])"

definition footer_part :: "bool \<Rightarrow> bool \<Rightarrow> modal_event vnode" where
  "footer_part dis busy =
     el ''div'' (in_class ''statnive-admin-modal-footer'')
       [Elem ''button'' [button_attr, (''class'', ''is-ghost'')] [(''click'', \<lambda>_. Close)] [Text ''Cancel''],
        el ''button'' ([(''type'', ''submit''), (''class'', ''is-primary'')] @ flag ''disabled'' dis)
          [Text (if busy then ''Saving'' @ ellipsis else ''Save'')]]"

definition SiteConfigureModal ::
    "AdminSite \<Rightarrow> CurrencyOption list \<Rightarrow> TimezoneOption list \<Rightarrow> Modal \<Rightarrow> modal_event vnode" where
  "SiteConfigureModal site currencies timezones m =
     (let errs = config_errors currencies timezones m;
          isDirty = (0 < length (modal_patch site m));
          dis = (is_invalid currencies timezones m \<or> saving m \<or> \<not> isDirty)
      in Elem ''div'' [(''class'', ''statnive-admin-modal-backdrop''), (''role'', ''presentation'')]
           [(''click'', \<lambda>_. Close)]
           [el ''div''
              [(''class'', ''statnive-admin-modal''), (''role'', ''dialog''), (''aria-modal'', ''true''),
               (''aria-labelledby'', ''statnive-configure-h'')]
              ([Elem ''button'' [button_attr, (''class'', ''statnive-admin-modal-close''), (''aria-label'', ''Close'')]
                  [(''click'', \<lambda>_. Close)] [Text times_sign],
                el ''header'' (in_class ''statnive-admin-modal-header'')
                  [el ''span'' (in_class ''statnive-admin-modal-eyebrow'') [Text ''Configure site''],
                   el ''h2'' [(''id'', ''statnive-configure-h'')] [Text (as_hostname site)]]]
               @ only_if (topError m \<noteq> []) (error_alert (topError m))
               @ [Elem ''form'' [(''noValidate'', [])] [(''submit'', \<lambda>_. Save)]
                    (identity_part site
                     @ [section_title ''Locale'', currency_part currencies errs (draft m), timezone_part timezones errs (draft m),
                        section_title ''Privacy'', gpc_part (draft m), dnt_part (draft m), bots_part (draft m),
                        section_title ''Compliance'', jurisdiction_part errs (draft m), mode_part errs (draft m)]
                     @ allowlist_part errs m
                     @ origins_part errs m
                     @ [footer_part dis (saving m)])])])"

end
