(* ===== verification/Admin_Table.thy ===== *)
theory Admin_Table
  imports SiteConfig
begin

text \<open>
  What the three tabs of the administration share: a table filled by a listing request, the requests
  on their way with what waits for each, an error line, and a form that is busy while it waits. At the
  end the contract of such a form, as a locale: what it sends is what makes it busy.
\<close>

section \<open>Tables\<close>

text \<open>
  A request on its way: a listing of the site a handler was created for, with what waits for it (the
  form, or the dialog with a number), the creation the form waits for, a change of one row, its
  deletion, or a dialog's patch of a site.
\<close>

datatype waiter = Nobody | The_form | The_dialog nat

datatype call = Listing rat waiter | Creating rat | Row_change rat string | Row_delete rat string | Patching nat rat

record 'r Table =
  tab_rows :: "'r list option"
  tab_err :: string
  tab_site :: "rat option"
  tab_calls :: "(nat \<times> call) list"
  next_call :: nat
  form_busy :: bool

definition issue :: "call \<Rightarrow> ('r, 'z) Table_scheme \<Rightarrow> ('r, 'z) Table_scheme" where
  "issue c t = t\<lparr>tab_calls := tab_calls t @ [(next_call t, c)], next_call := next_call t + 1\<rparr>"

definition settled :: "nat \<Rightarrow> ('r, 'z) Table_scheme \<Rightarrow> ('r, 'z) Table_scheme" where
  "settled i t = t\<lparr>tab_calls := filter (\<lambda>(j, _). j \<noteq> i) (tab_calls t)\<rparr>"

definition form_rests :: "waiter \<Rightarrow> ('r, 'z) Table_scheme \<Rightarrow> ('r, 'z) Table_scheme" where
  "form_rests w t = (if w = The_form then t\<lparr>form_busy := False\<rparr> else t)"

text \<open>The site of the last rendering, 0 when there is none.\<close>

definition site_now :: "('r, 'z) Table_scheme \<Rightarrow> rat" where
  "site_now t = or_default 0 (tab_site t)"

text \<open>
  \<^verbatim>\<open>refresh\<close>, as the handlers of a rendering with this site call it: nothing without a
  site. What waits for it goes on at once then.
\<close>

definition refresh_table ::
    "(rat \<Rightarrow> json endpoint) \<Rightarrow> string \<Rightarrow> rat \<Rightarrow> waiter \<Rightarrow> ('r, 'z) Table_scheme \<Rightarrow> ('r, 'z) Table_scheme \<times> HttpRequest list" where
  "refresh_table list token s w t =
     (if s = 0 then (form_rests w t, []) else (issue (Listing s w) t, [send token (list s)]))"

text \<open>A rendering: the effect runs after the first one and whenever the site changed.\<close>

definition show_table ::
    "(rat \<Rightarrow> json endpoint) \<Rightarrow> string \<Rightarrow> rat \<Rightarrow> ('r, 'z) Table_scheme \<Rightarrow> ('r, 'z) Table_scheme \<times> HttpRequest list" where
  "show_table list token s t =
     (if tab_site t = Some s then (t, []) else refresh_table list token s Nobody (t\<lparr>tab_site := Some s\<rparr>))"

text \<open>The answer of a listing: the rows, or the sentence for the error; then what waited goes on.\<close>

definition listed_rows ::
    "(thrown \<Rightarrow> string) \<Rightarrow> waiter \<Rightarrow> 'r list outcome \<Rightarrow> ('r, 'z) Table_scheme \<Rightarrow> ('r, 'z) Table_scheme" where
  "listed_rows sentence w r t =
     form_rests w (case r of Returned rs \<Rightarrow> t\<lparr>tab_rows := Some rs\<rparr> | Failed e \<Rightarrow> t\<lparr>tab_err := sentence e\<rparr>)"

lemma table_fields [simp]:
  "tab_rows (issue c t) = tab_rows t" "tab_err (issue c t) = tab_err t" "tab_site (issue c t) = tab_site t"
  "form_busy (issue c t) = form_busy t" "tab_calls (issue c t) = tab_calls t @ [(next_call t, c)]"
  "next_call (issue c t) = next_call t + 1"
  "tab_rows (settled i t) = tab_rows t" "tab_err (settled i t) = tab_err t" "tab_site (settled i t) = tab_site t"
  "form_busy (settled i t) = form_busy t" "tab_calls (settled i t) = filter (\<lambda>(j, _). j \<noteq> i) (tab_calls t)"
  "next_call (settled i t) = next_call t"
  "tab_rows (form_rests w t) = tab_rows t" "tab_err (form_rests w t) = tab_err t" "tab_site (form_rests w t) = tab_site t"
  "form_busy (form_rests w t) = (form_busy t \<and> w \<noteq> The_form)" "tab_calls (form_rests w t) = tab_calls t"
  "next_call (form_rests w t) = next_call t"
  by (simp_all add: issue_def settled_def form_rests_def)

text \<open>The calls a form waits for.\<close>

fun form_call :: "call \<Rightarrow> bool" where
  "form_call (Listing s w) = (w = The_form)"
| "form_call (Creating s) = True"
| "form_call (Row_change s i) = False"
| "form_call (Row_delete s i) = False"
| "form_call (Patching n s) = False"

definition form_calls :: "('r, 'z) Table_scheme \<Rightarrow> nat" where
  "form_calls t = length (filter (\<lambda>(_, c). form_call c) (tab_calls t))"

text \<open>Numbers of calls are fresh, and the form is busy exactly while one call is on its way for it.\<close>

definition table_ok :: "('r, 'z) Table_scheme \<Rightarrow> bool" where
  "table_ok t \<longleftrightarrow>
     distinct (keys (tab_calls t)) \<and> list_all (\<lambda>(i, _). i < next_call t) (tab_calls t)
     \<and> form_calls t = (if form_busy t then 1 else 0)"

lemma form_calls_simps [simp]:
  "form_calls (issue c t) = form_calls t + (if form_call c then 1 else 0)"
  "form_calls (form_rests w t) = form_calls t"
  by (simp_all add: form_calls_def)

lemma count_without:
  "\<lbrakk>distinct (map fst xs); map_of xs i = Some c\<rbrakk>
     \<Longrightarrow> length (filter (\<lambda>(_, c). P c) (filter (\<lambda>(j, _). j \<noteq> i) xs)) + (if P c then 1 else 0)
         = length (filter (\<lambda>(_, c). P c) xs)"
proof (induction xs)
  case (Cons x xs)
  obtain j d where x: "x = (j, d)" by (cases x)
  show ?case
  proof (cases "j = i")
    case True
    with Cons.prems have "filter (\<lambda>(j, _). j \<noteq> i) xs = xs" by (intro filter_True) (force simp: x)
    then show ?thesis using Cons.prems True by (auto simp: x)
  next
    case False
    then show ?thesis using Cons by (auto simp: x)
  qed
qed simp

lemma form_calls_settled:
  "\<lbrakk>table_ok t; map_of (tab_calls t) i = Some c\<rbrakk>
     \<Longrightarrow> form_calls (settled i t) + (if form_call c then 1 else 0) = form_calls t"
  using count_without [of "tab_calls t" i c form_call] by (simp add: table_ok_def form_calls_def keys_def)

text \<open>The five ways the calls and the busy flag change together.\<close>

lemma table_ok_same:
  "\<lbrakk>table_ok t; tab_calls u = tab_calls t; next_call u = next_call t; form_busy u = form_busy t\<rbrakk> \<Longrightarrow> table_ok u"
  by (simp add: table_ok_def form_calls_def)

lemma table_ok_issue: "table_ok t \<Longrightarrow> \<not> form_call c \<Longrightarrow> table_ok (issue c t)"
  by (auto simp: table_ok_def keys_def list_all_iff)

lemma table_ok_submit: "table_ok t \<Longrightarrow> \<not> form_busy t \<Longrightarrow> form_call c \<Longrightarrow> table_ok (issue c (t\<lparr>form_busy := True\<rparr>))"
  by (auto simp: table_ok_def keys_def list_all_iff form_calls_def)

lemma settled_distinct: "table_ok t \<Longrightarrow> distinct (keys (tab_calls (settled i t)))
    \<and> list_all (\<lambda>(i, _). i < next_call t) (tab_calls (settled i t))"
  by (auto simp: table_ok_def keys_def list_all_iff distinct_map inj_on_def)

lemma table_ok_settled:
  "\<lbrakk>table_ok t; map_of (tab_calls t) i = Some c; \<not> form_call c\<rbrakk> \<Longrightarrow> table_ok (settled i t)"
  using form_calls_settled [of t i c] settled_distinct [of t i] by (simp add: table_ok_def)

lemma form_call_busy: "\<lbrakk>table_ok t; map_of (tab_calls t) i = Some c; form_call c\<rbrakk> \<Longrightarrow> form_busy t"
  using form_calls_settled [of t i c] by (auto simp: table_ok_def split: if_splits)

lemma form_call_last:
  assumes "table_ok t" and "map_of (tab_calls t) i = Some c" and "form_call c"
  shows "form_calls (settled i t) = 0"
proof -
  have "form_calls t \<le> 1" using assms(1) by (simp add: table_ok_def)
  then show ?thesis using form_calls_settled [OF assms(1,2)] assms(3) by simp
qed

lemma table_ok_rests:
  assumes "table_ok t" and "map_of (tab_calls t) i = Some c" and "form_call c"
  shows "table_ok ((settled i t)\<lparr>form_busy := False\<rparr>)"
proof -
  have "form_calls ((settled i t)\<lparr>form_busy := False\<rparr>) = form_calls (settled i t)" by (simp add: form_calls_def)
  then show ?thesis
    using settled_distinct [OF assms(1), of i] unfolding table_ok_def form_call_last [OF assms] by simp
qed

lemma table_ok_goes_on:
  assumes "table_ok t" and "map_of (tab_calls t) i = Some c" and "form_call c" and "form_call d"
  shows "table_ok (issue d (settled i t))"
proof -
  have "form_calls (issue d (settled i t)) = 1" by (simp add: form_call_last [OF assms(1-3)] assms(4))
  moreover have "form_busy (issue d (settled i t))" using form_call_busy [OF assms(1-3)] by simp
  moreover have "distinct (keys (tab_calls (issue d (settled i t))))
      \<and> list_all (\<lambda>(j, _). j < next_call (issue d (settled i t))) (tab_calls (issue d (settled i t)))"
    using settled_distinct [OF assms(1), of i] by (force simp: keys_def list_all_iff)
  ultimately show ?thesis unfolding table_ok_def by presburger
qed

text \<open>The answers, as the tabs handle them.\<close>

lemma refreshed_ok: "table_ok t \<Longrightarrow> table_ok (fst (refresh_table list token s Nobody t))"
  by (simp add: refresh_table_def form_rests_def table_ok_issue)

lemma shown_ok: "table_ok t \<Longrightarrow> table_ok (fst (show_table list token s t))"
  using refreshed_ok [of "t\<lparr>tab_site := Some s\<rparr>" list token s] table_ok_same [of t "t\<lparr>tab_site := Some s\<rparr>"]
  by (simp add: show_table_def)

lemma listed_ok:
  assumes "table_ok t" and "map_of (tab_calls t) i = Some (Listing s w)"
  shows "table_ok (listed_rows sentence w r (settled i t))"
proof -
  have ok: "table_ok (form_rests w (settled i t))"
    using table_ok_settled [OF assms] table_ok_rests [OF assms] by (auto simp: form_rests_def)
  show ?thesis by (rule table_ok_same [OF ok]) (simp_all add: listed_rows_def split: outcome.split)
qed

lemma created_ok:
  assumes "table_ok t" and "map_of (tab_calls t) i = Some (Creating s)"
    and "tab_calls u = tab_calls (settled i t)" and "next_call u = next_call t" and "form_busy u = form_busy t"
  shows "table_ok (issue (Listing s' The_form) u)" and "table_ok (u\<lparr>form_busy := False\<rparr>)"
    and "table_ok (fst (refresh_table list token s' The_form u))"
proof -
  show i: "table_ok (issue (Listing s' The_form) u)"
    by (rule table_ok_same [OF table_ok_goes_on [OF assms(1,2), where d = "Listing s' The_form"]]) (simp_all add: assms(3-5))
  show r: "table_ok (u\<lparr>form_busy := False\<rparr>)"
    by (rule table_ok_same [OF table_ok_rests [OF assms(1,2)]]) (simp_all add: assms(3-5))
  show "table_ok (fst (refresh_table list token s' The_form u))"
    using i r by (simp add: refresh_table_def form_rests_def)
qed

lemma row_answer_ok:
  assumes "table_ok t" and "map_of (tab_calls t) i = Some c" and "\<not> form_call c"
    and "tab_calls u = tab_calls (settled i t)" and "next_call u = next_call t" and "form_busy u = form_busy t"
  shows "table_ok u"
  by (rule table_ok_same [OF table_ok_settled [OF assms(1-3)]]) (simp_all add: assms(4-6))

text \<open>When nothing is on its way, the form is ready.\<close>

lemma ready_when_answered: "table_ok t \<Longrightarrow> tab_calls t = [] \<Longrightarrow> \<not> form_busy t"
  by (auto simp: table_ok_def form_calls_def split: if_splits)

text \<open>A run with what it sends, and how often the form came to rest in it.\<close>

fun tab_run ::
    "('e \<Rightarrow> ('r, 'z) Table_scheme \<Rightarrow> ('r, 'z) Table_scheme \<times> 'o list) \<Rightarrow> 'e list \<Rightarrow> ('r, 'z) Table_scheme
     \<Rightarrow> ('r, 'z) Table_scheme \<times> 'o list" where
  "tab_run step [] t = (t, [])"
| "tab_run step (e # es) t =
     (case step e t of (t1, out) \<Rightarrow> case tab_run step es t1 of (t2, out2) \<Rightarrow> (t2, out @ out2))"

fun falls ::
    "('e \<Rightarrow> ('r, 'z) Table_scheme \<Rightarrow> ('r, 'z) Table_scheme \<times> 'o list) \<Rightarrow> 'e list \<Rightarrow> ('r, 'z) Table_scheme \<Rightarrow> nat" where
  "falls step [] t = 0"
| "falls step (e # es) t =
     (if form_busy t \<and> \<not> form_busy (fst (step e t)) then 1 else 0) + falls step es (fst (step e t))"

section \<open>The contract of a tab\<close>

locale admin_tab =
  fixes step :: "'e \<Rightarrow> ('r, 'z) Table_scheme \<Rightarrow> ('r, 'z) Table_scheme \<times> 'o list"
    and creates :: "'o \<Rightarrow> bool"
  assumes keeps_ok: "table_ok t \<Longrightarrow> table_ok (fst (step e t))"
    and creates_once: "table_ok t \<Longrightarrow>
      length (filter creates (snd (step e t))) = (if form_busy (fst (step e t)) \<and> \<not> form_busy t then 1 else 0)"
begin

lemma run_ok: "table_ok t \<Longrightarrow> table_ok (fst (tab_run step es t))"
proof (induction es arbitrary: t)
  case (Cons e es)
  then show ?case using Cons.IH [of "fst (step e t)"] keeps_ok [OF Cons.prems, of e] by (simp add: split_def)
qed simp

lemma run_creates:
  "table_ok t \<Longrightarrow>
     length (filter creates (snd (tab_run step es t))) + (if form_busy t then 1 else 0)
       = falls step es t + (if form_busy (fst (tab_run step es t)) then 1 else 0)"
proof (induction es arbitrary: t)
  case (Cons e es)
  let ?u = "fst (step e t)"
  have ok: "table_ok ?u" by (rule keeps_ok [OF Cons.prems])
  show ?case
    using Cons.IH [OF ok] creates_once [OF Cons.prems, of e] by (simp add: split_def split: if_splits)
qed simp

lemma run_ready:
  "table_ok t \<Longrightarrow> tab_calls (fst (tab_run step es t)) = [] \<Longrightarrow> \<not> form_busy (fst (tab_run step es t))"
  by (rule ready_when_answered) (rule run_ok)

end

end
