(* ===== verification/Users_Tab.thy ===== *)
theory Users_Tab
  imports Admin_Table
begin

text \<open>
  The tab of users (\<^verbatim>\<open>panels/admin/UsersTab.tsx\<close>): the table of the active site's users,
  the two-step deletion in a row, and the form for a new user. Every request is a numbered call; what
  it settles with is an event. The state of a row's actions belongs to the row, by the key its user has.
\<close>

section \<open>State\<close>

definition deleteErrorMessage :: "thrown \<Rightarrow> string" where
  "deleteErrorMessage e =
     (case e of
        Http h \<Rightarrow>
          if status h = 403 then
            (if sublist ''your own'' (serverMessage h)
             then ''You can't delete your own account. Ask another admin to remove it.''
             else ''You can only delete users on a site where you're an admin.'')
          else if status h = 409 then
            ''This is the last enabled admin on the site. Promote another admin first, then delete this one.''
          else errorMessage e ''Couldn't delete this user.''
      | _ \<Rightarrow> errorMessage e ''Couldn't delete this user.'')"

record RowUI =
  confirming :: bool
  deleting :: bool

definition idle_row :: RowUI where
  "idle_row = \<lparr>confirming = False, deleting = False\<rparr>"

record UserTouched =
  t_email :: bool
  t_username :: bool
  t_password :: bool
  t_role :: bool

definition all_users_touched :: "bool \<Rightarrow> UserTouched" where
  "all_users_touched b = \<lparr>t_email = b, t_username = b, t_password = b, t_role = b\<rparr>"

record Users = "AdminUser Table" +
  row_ui :: "string \<Rightarrow> RowUI"
  nu_email :: string
  nu_username :: string
  nu_password :: string
  nu_role :: string
  nu_touched :: UserTouched

definition new_users_tab :: Users where
  "new_users_tab =
     \<lparr>tab_rows = None, tab_err = [], tab_site = None, tab_calls = [], next_call = 0, form_busy = False,
      row_ui = (\<lambda>_. idle_row), nu_email = [], nu_username = [], nu_password = [], nu_role = ''viewer'',
      nu_touched = all_users_touched False\<rparr>"

definition ROLES :: "string list" where
  "ROLES = [''admin'', ''viewer'', ''api'']"

definition emailErr :: "Users \<Rightarrow> error_sentence" where
  "emailErr t = email (Str (nu_email t))"

definition usernameErr :: "Users \<Rightarrow> error_sentence" where
  "usernameErr t = username (Str (nu_username t))"

definition passwordErr :: "Users \<Rightarrow> error_sentence" where
  "passwordErr t = password (Str (nu_password t))"

definition roleErr :: "Users \<Rightarrow> error_sentence" where
  "roleErr t = oneOf ROLES (nu_role t)"

definition anyInvalid :: "Users \<Rightarrow> bool" where
  "anyInvalid t \<longleftrightarrow> truthy (emailErr t) \<or> truthy (usernameErr t) \<or> truthy (passwordErr t) \<or> truthy (roleErr t)"

section \<open>Steps\<close>

datatype users_event =
    Users_shown rat
  | Users_listed nat "AdminUser list outcome"
  | User_change nat "unit outcome"
  | User_created nat "json option outcome"
  | Type_user_email string
  | Type_username string
  | Type_user_password string
  | Pick_role string
  | Leave_user_email
  | Leave_username
  | Leave_user_password
  | Submit_user
  | Disable_user string
  | Ask_delete string
  | Cancel_delete string
  | Delete_forever string

definition refresh_users :: "string \<Rightarrow> rat \<Rightarrow> waiter \<Rightarrow> Users \<Rightarrow> Users \<times> HttpRequest list" where
  "refresh_users = refresh_table listUsers"

text \<open>A row that is gone takes its state with it.\<close>

definition keep_rows :: "Users \<Rightarrow> Users" where
  "keep_rows t =
     t\<lparr>row_ui := (\<lambda>i. case tab_rows t of
        Some rs \<Rightarrow> if list_ex (\<lambda>u. user_id u = i) rs then row_ui t i else idle_row
      | None \<Rightarrow> idle_row)\<rparr>"

definition user_body :: "rat \<Rightarrow> Users \<Rightarrow> json" where
  "user_body siteID t =
     JObj [(''email'', JStr (nu_email t)), (''username'', JStr (nu_username t)), (''password'', JStr (nu_password t)),
       (''sites'', JArr (if 0 < siteID then [JObj [(''site_id'', JNum siteID), (''role'', JStr (nu_role t))]] else []))]"

definition submit_user :: "string \<Rightarrow> Users \<Rightarrow> Users \<times> HttpRequest list" where
  "submit_user token t =
     (if form_busy t then (t, [])
      else if anyInvalid t then (t\<lparr>nu_touched := all_users_touched True\<rparr>, [])
      else (issue (Creating (site_now t)) (t\<lparr>form_busy := True\<rparr>),
            [send token (createUser (site_now t) (user_body (site_now t) t))]))"

definition clear_user_form :: "Users \<Rightarrow> Users" where
  "clear_user_form t =
     t\<lparr>nu_email := [], nu_username := [], nu_password := [], nu_role := ''viewer'',
       nu_touched := all_users_touched False\<rparr>"

definition user_created :: "string \<Rightarrow> rat \<Rightarrow> json option outcome \<Rightarrow> Users \<Rightarrow> Users \<times> HttpRequest list" where
  "user_created token s r t =
     (case r of
        Returned _ \<Rightarrow> refresh_users token s The_form (clear_user_form t)
      | Failed e \<Rightarrow> (t\<lparr>tab_err := errorMessage e ''Couldn't create user.'', form_busy := False\<rparr>, []))"

definition user_disabled :: "string \<Rightarrow> rat \<Rightarrow> unit outcome \<Rightarrow> Users \<Rightarrow> Users \<times> HttpRequest list" where
  "user_disabled token s r t =
     (case r of
        Returned _ \<Rightarrow> refresh_users token s Nobody t
      | Failed e \<Rightarrow> (t\<lparr>tab_err := errorMessage e ''Couldn't disable user.''\<rparr>, []))"

definition user_deleted :: "string \<Rightarrow> rat \<Rightarrow> string \<Rightarrow> unit outcome \<Rightarrow> Users \<Rightarrow> Users \<times> HttpRequest list" where
  "user_deleted token s i r t =
     (case r of
        Returned _ \<Rightarrow> refresh_users token s Nobody t
      | Failed e \<Rightarrow> (t\<lparr>tab_err := deleteErrorMessage e, row_ui := (row_ui t)(i := idle_row)\<rparr>, []))"

definition row_of :: "string \<Rightarrow> Users \<Rightarrow> AdminUser option" where
  "row_of i t = (case tab_rows t of Some rs \<Rightarrow> find (\<lambda>u. user_id u = i) rs | None \<Rightarrow> None)"

text \<open>
  A control acts when it is on the page: the two buttons of a row that is not asking, and the two of one
  that is, as long as its deletion is not under way.
\<close>

fun users_step :: "string \<Rightarrow> users_event \<Rightarrow> Users \<Rightarrow> Users \<times> HttpRequest list" where
  "users_step token (Users_shown s) t = show_table listUsers token s t"
| "users_step token (Users_listed i r) t =
     (case map_of (tab_calls t) i of
        Some (Listing s w) \<Rightarrow>
          (keep_rows (listed_rows (\<lambda>e. errorMessage e ''Couldn't load users.'') w r (settled i t)), [])
      | _ \<Rightarrow> (t, []))"
| "users_step token (User_change i r) t =
     (case map_of (tab_calls t) i of
        Some (Row_change s u) \<Rightarrow> user_disabled token s r (settled i t)
      | Some (Row_delete s u) \<Rightarrow> user_deleted token s u r (settled i t)
      | _ \<Rightarrow> (t, []))"
| "users_step token (User_created i r) t =
     (case map_of (tab_calls t) i of
        Some (Creating s) \<Rightarrow> user_created token s r (settled i t)
      | _ \<Rightarrow> (t, []))"
| "users_step token (Type_user_email v) t = (t\<lparr>nu_email := v\<rparr>, [])"
| "users_step token (Type_username v) t = (t\<lparr>nu_username := v\<rparr>, [])"
| "users_step token (Type_user_password v) t = (t\<lparr>nu_password := v\<rparr>, [])"
| "users_step token (Pick_role v) t = (t\<lparr>nu_role := v, nu_touched := (nu_touched t)\<lparr>t_role := True\<rparr>\<rparr>, [])"
| "users_step token Leave_user_email t = (t\<lparr>nu_touched := (nu_touched t)\<lparr>t_email := True\<rparr>\<rparr>, [])"
| "users_step token Leave_username t = (t\<lparr>nu_touched := (nu_touched t)\<lparr>t_username := True\<rparr>\<rparr>, [])"
| "users_step token Leave_user_password t = (t\<lparr>nu_touched := (nu_touched t)\<lparr>t_password := True\<rparr>\<rparr>, [])"
| "users_step token Submit_user t = submit_user token t"
| "users_step token (Disable_user i) t =
     (case row_of i t of
        Some u \<Rightarrow>
          if disabled u \<or> confirming (row_ui t i) then (t, [])
          else (issue (Row_change (site_now t) i) t, [send token (disableUser i)])
      | None \<Rightarrow> (t, []))"
| "users_step token (Ask_delete i) t =
     (if row_of i t = None \<or> confirming (row_ui t i) then (t, [])
      else (t\<lparr>row_ui := (row_ui t)(i := (row_ui t i)\<lparr>confirming := True\<rparr>)\<rparr>, []))"
| "users_step token (Cancel_delete i) t =
     (if row_of i t = None \<or> \<not> confirming (row_ui t i) \<or> deleting (row_ui t i) then (t, [])
      else (t\<lparr>row_ui := (row_ui t)(i := (row_ui t i)\<lparr>confirming := False\<rparr>)\<rparr>, []))"
| "users_step token (Delete_forever i) t =
     (if row_of i t = None \<or> \<not> confirming (row_ui t i) \<or> deleting (row_ui t i) then (t, [])
      else (issue (Row_delete (site_now t) i) (t\<lparr>row_ui := (row_ui t)(i := (row_ui t i)\<lparr>deleting := True\<rparr>)\<rparr>),
            [send token (deleteUser i)]))"

section \<open>The contract of the tab\<close>

definition creates_user :: "HttpRequest \<Rightarrow> bool" where
  "creates_user r \<longleftrightarrow> rq_method r = ''POST'' \<and> prefix ''/api/admin/users?'' (rq_url r)"

lemmas users_defs =
  submit_user_def user_created_def user_disabled_def user_deleted_def refresh_users_def refresh_table_def
  show_table_def listed_rows_def keep_rows_def clear_user_form_def

lemma users_requests [simp]:
  "\<not> creates_user (send token (listUsers s))"
  "\<not> creates_user (send token (disableUser i))"
  "\<not> creates_user (send token (deleteUser i))"
  "creates_user (send token (createUser s b))"
  by (simp_all add: creates_user_def send_def api_request_def listUsers_def disableUser_def deleteUser_def createUser_def Let_def)

lemma users_keep_ok:
  assumes ok: "table_ok t" shows "table_ok (fst (users_step token e t))"
proof (cases e)
  case (Users_listed i r)
  have "table_ok (keep_rows u)" if "table_ok u" for u
    by (rule table_ok_same [OF that]) (simp_all add: keep_rows_def)
  then show ?thesis using listed_ok [OF ok] ok by (auto simp: Users_listed split: option.split call.split)
next
  case (User_created i r)
  then show ?thesis
    using ok by (auto simp: user_created_def refresh_users_def clear_user_form_def
        intro!: created_ok [OF ok] split: option.split call.split outcome.split)
next
  case (User_change i r)
  then show ?thesis
    using ok by (auto simp: user_disabled_def user_deleted_def refresh_users_def
        intro!: refreshed_ok intro: row_answer_ok [OF ok] table_ok_settled [OF ok] split: option.split call.split outcome.split)
next
  case (Submit_user)
  then show ?thesis using ok by (auto simp: submit_user_def intro: table_ok_same table_ok_submit)
next
  case (Disable_user i)
  then show ?thesis using ok by (auto intro: table_ok_issue split: option.split)
next
  case (Delete_forever i)
  have "table_ok (t\<lparr>row_ui := f\<rparr>)" for f by (rule table_ok_same [OF ok]) simp_all
  then show ?thesis using ok by (auto simp: Delete_forever intro!: table_ok_issue)
qed (use ok in \<open>auto intro: shown_ok table_ok_same\<close>)

lemma users_create_once:
  assumes "table_ok t"
  shows "length (filter creates_user (snd (users_step token e t)))
    = (if form_busy (fst (users_step token e t)) \<and> \<not> form_busy t then 1 else 0)"
  using assms by (cases e) (auto simp: users_defs form_rests_def split: option.split call.split outcome.split)

interpretation users: admin_tab "users_step token" creates_user for token
  by unfold_locales (rule users_keep_ok, assumption, rule users_create_once)

section \<open>The tab\<close>

text \<open>The error of a field that was left, and the attributes that go with it.\<close>

definition shown_error :: "bool \<Rightarrow> error_sentence \<Rightarrow> bool" where
  "shown_error touched err \<longleftrightarrow> touched \<and> truthy err"

definition invalid_attrs :: "bool \<Rightarrow> (string \<times> string) list" where
  "invalid_attrs bad = (if bad then [(''class'', ''is-invalid''), (''aria-invalid'', ''true'')] else [])"

definition field_note :: "bool \<Rightarrow> error_sentence \<Rightarrow> 'a vnode list \<Rightarrow> 'a vnode" where
  "field_note bad err help = (if bad then alert_helper (or_default [] err) else helper help)"

definition user_field ::
    "string \<Rightarrow> string \<Rightarrow> string \<Rightarrow> bool \<Rightarrow> error_sentence \<Rightarrow> (string \<Rightarrow> users_event) \<Rightarrow> users_event \<Rightarrow> string \<Rightarrow> users_event vnode" where
  "user_field lab kind v touched err ev leave help =
     (let bad = shown_error touched err in
      el ''label'' []
        [Text lab,
         Elem ''input'' ([(''type'', kind), (''required'', []), (''value'', v)] @ invalid_attrs bad)
           [(''input'', ev), (''blur'', \<lambda>_. leave)] [],
         field_note bad err [Text help]])"

definition role_field :: "Users \<Rightarrow> users_event vnode" where
  "role_field t =
     (let bad = shown_error (t_role (nu_touched t)) (roleErr t) in
      el ''label'' []
        [Text ''Role on this site'',
         Elem ''select'' ([(''value'', nu_role t)] @ invalid_attrs bad) [(''change'', Pick_role)]
           (map (\<lambda>r. option_el r [Text r]) ROLES),
         field_note bad (roleErr t)
           [Text ''admin can edit sites, users, and goals. viewer has read-only access to dashboards. api is token-based programmatic access only; no dashboard.'']])"

definition NewUserForm :: "Users \<Rightarrow> users_event vnode" where
  "NewUserForm t =
     Elem ''form'' [(''class'', ''statnive-admin-new''), (''noValidate'', [])] [(''submit'', \<lambda>_. Submit_user)]
       [el ''h3'' [] [Text ''New user''],
        user_field ''Email'' ''email'' (nu_email t) (t_email (nu_touched t)) (emailErr t) Type_user_email Leave_user_email
          ''The email this user signs in with.'',
        user_field ''Username'' ''text'' (nu_username t) (t_username (nu_touched t)) (usernameErr t) Type_username
          Leave_username
          ''What appears in the dashboard's user chip. Letters, numbers, dots, hyphens, and underscores. Up to 32 characters.'',
        user_field ''Password'' ''password'' (nu_password t) (t_password (nu_touched t)) (passwordErr t) Type_user_password
          Leave_user_password ''At least 12 characters. The user can change it after their first sign-in.'',
        role_field t,
        el ''button'' ([(''type'', ''submit'')] @ flag ''disabled'' (form_busy t \<or> anyInvalid t))
          [Text (if form_busy t then ''Creating'' @ ellipsis else ''Create user'')]]"

text \<open>The actions of a row; a disabled button has no effect, so it gets no handler.\<close>

definition button_when :: "bool \<Rightarrow> (string \<times> string) list \<Rightarrow> 'a \<Rightarrow> 'a vnode list \<Rightarrow> 'a vnode" where
  "button_when enabled as ev cs =
     Elem ''button'' ([button_attr] @ as @ flag ''disabled'' (\<not> enabled))
       (if enabled then [(''click'', \<lambda>_. ev)] else []) cs"

definition UserActions :: "AdminUser \<Rightarrow> RowUI \<Rightarrow> users_event vnode" where
  "UserActions u ui =
     (if confirming ui
      then el ''div'' [(''class'', ''statnive-admin-confirm''), (''role'', ''group''), (''aria-label'', ''Confirm permanent delete'')]
        [el ''p'' (in_class ''statnive-admin-alert is-error'')
           [el ''span'' [(''class'', ''statnive-admin-alert-glyph''), hidden] [Text small_square],
            el ''span'' (in_class ''statnive-admin-alert-body'')
              [Text ''Permanently delete this account? Sessions, API tokens, and connected-assistant access are erased. This cannot be undone.'']],
         el ''div'' (in_class ''statnive-admin-confirm-actions'')
           [button_when (\<not> deleting ui) [] (Cancel_delete (user_id u)) [Text ''Cancel''],
            button_when (\<not> deleting ui) (in_class ''is-destructive-confirm'') (Delete_forever (user_id u))
              [Text (if deleting ui then ''Deleting'' @ ellipsis else ''Delete forever'')]]]
      else el ''div'' (in_class ''statnive-admin-row-actions'')
        ((if disabled u then [] else [button_when True (in_class ''is-destructive'') (Disable_user (user_id u)) [Text ''Disable user'']])
         @ [button_when True (in_class ''is-destructive'') (Ask_delete (user_id u)) [Text ''Delete'']]))"

definition site_chip :: "AdminUserSiteRef \<Rightarrow> 'a vnode" where
  "site_chip s =
     el ''span'' (in_class ''statnive-site-chip'')
       [Text (ref_hostname s), Text '' '', el ''em'' [] [Text ''('', Text (ref_role s), Text '')'']]"

definition user_sites :: "AdminUser \<Rightarrow> 'a vnode list" where
  "user_sites u =
     (case au_sites u of
        Some (s # ss) \<Rightarrow> map site_chip (s # ss)
      | _ \<Rightarrow> [el ''em'' [] [Text (au_role u), Text '' '', Text middot, Text '' site '', Text (show_rat (au_site_id u))]])"

definition user_row :: "Users \<Rightarrow> AdminUser \<Rightarrow> users_event vnode" where
  "user_row t u =
     el ''tr'' []
       [el ''td'' [] [Text (au_email u)],
        el ''td'' [] [Text (au_username u)],
        el ''td'' [] (user_sites u),
        el ''td'' [] [StatusPill (if disabled u then Disabled else Active)],
        el ''td'' [] [UserActions u (row_ui t (user_id u))]]"

definition admin_table_view :: "string \<Rightarrow> string list \<Rightarrow> 'a vnode list \<Rightarrow> 'a vnode" where
  "admin_table_view test_id heads body =
     el ''table'' [(''class'', ''statnive-admin-table''), (''data-testid'', test_id)]
       [el ''thead'' [] [el ''tr'' [] (map (\<lambda>h. el ''th'' [] [Text h]) heads)], el ''tbody'' [] body]"

definition UsersTab :: "Users \<Rightarrow> users_event vnode" where
  "UsersTab t =
     el ''div'' (in_class ''statnive-admin-users'')
       ([NewUserForm t] @ only_if (tab_err t \<noteq> []) (error_alert (tab_err t))
        @ [case tab_rows t of
             None \<Rightarrow> el ''p'' [] [Text (''Loading'' @ ellipsis)]
           | Some [] \<Rightarrow> el ''p'' [] [Text ''No users yet.'']
           | Some (u # us) \<Rightarrow>
               admin_table_view ''admin-users-table'' [''Email'', ''Username'', ''Sites + Roles'', ''Status'', []]
                 (map (user_row t) (u # us))])"

section \<open>What the tab guarantees\<close>

definition deletes_user :: "string \<Rightarrow> HttpRequest \<Rightarrow> bool" where
  "deletes_user i r \<longleftrightarrow> rq_method r = ''DELETE'' \<and> rq_url r = ''/api/admin/users/'' @ i"

definition armed :: "string \<Rightarrow> Users \<Rightarrow> nat" where
  "armed i t = (if confirming (row_ui t i) \<and> \<not> deleting (row_ui t i) then 1 else 0)"

lemma delete_requests [simp]:
  "\<not> deletes_user i (send token (listUsers s))"
  "\<not> deletes_user i (send token (disableUser j))"
  "\<not> deletes_user i (send token (createUser s b))"
  "deletes_user i (send token (deleteUser j)) \<longleftrightarrow> j = i"
  by (auto simp: deletes_user_def send_def api_request_def listUsers_def disableUser_def deleteUser_def createUser_def Let_def)

lemma row_ui_fields [simp]:
  "row_ui (issue c t) = row_ui t" "row_ui (settled k t) = row_ui t" "row_ui (form_rests w t) = row_ui t"
  "row_ui (listed_rows f w r t) = row_ui t" "row_ui (clear_user_form t) = row_ui t"
  by (simp_all add: issue_def settled_def form_rests_def listed_rows_def clear_user_form_def split: outcome.split)

lemma armed_step:
  "length (filter (deletes_user i) (snd (users_step token e t))) + armed i (fst (users_step token e t))
     \<le> armed i t + (if e = Ask_delete i then 1 else 0)"
  by (cases e) (auto simp: users_defs armed_def idle_row_def split: option.split call.split outcome.split)

lemma armed_run:
  "length (filter (deletes_user i) (snd (tab_run (users_step token) es t)))
     \<le> armed i t + length (filter (\<lambda>e. e = Ask_delete i) es)"
proof (induction es arbitrary: t)
  case (Cons e es)
  obtain u out where u: "users_step token e t = (u, out)" by (cases "users_step token e t")
  have "length (filter (deletes_user i) out) + armed i u \<le> armed i t + (if e = Ask_delete i then 1 else 0)"
    using armed_step [of i token e t] by (simp only: u fst_conv snd_conv)
  then show ?case using Cons.IH [of u] unfolding tab_run.simps u by (simp add: split_def split: if_splits)
qed simp

text \<open>
  C15: deleting a user. In every run of the tab, whatever is clicked and answered in whatever order, there
  are at most as many requests to delete a user as there were clicks on Delete in that user's row: each
  needs its own question. The row offers the deletion only while it asks, and nothing at all while
  a deletion is under way.
\<close>

theorem deletion_asks_first:
  "length (filter (deletes_user i) (snd (tab_run (users_step token) es new_users_tab)))
       \<le> length (filter (\<lambda>e. e = Ask_delete i) es)
   \<and> clicks (UserActions u ui)
       = (if confirming ui
          then (if deleting ui then [] else [Cancel_delete (user_id u), Delete_forever (user_id u)])
          else (if disabled u then [] else [Disable_user (user_id u)]) @ [Ask_delete (user_id u)])"
  using armed_run [of i token es new_users_tab]
  by (simp add: armed_def new_users_tab_def idle_row_def UserActions_def button_when_def el_def)

end
