(* ===== verification/Goals_Tab.thy ===== *)
theory Goals_Tab
  imports Users_Tab
begin

text \<open>
  The tab of goals (\<^verbatim>\<open>panels/admin/GoalsTab.tsx\<close>): the table of the active site's goals
  with the snippet of each, and the form for a new goal, over the same numbered calls as the users.
\<close>

section \<open>State\<close>

record GoalTouched =
  t_name :: bool
  t_pattern :: bool
  t_value :: bool

definition all_goals_touched :: "bool \<Rightarrow> GoalTouched" where
  "all_goals_touched b = \<lparr>t_name = b, t_pattern = b, t_value = b\<rparr>"

record Goals = "AdminGoal Table" +
  open_snippets :: "string list"
  ng_name :: string
  ng_pattern :: string
  ng_value :: number
  ng_touched :: GoalTouched

definition new_goals_tab :: Goals where
  "new_goals_tab =
     \<lparr>tab_rows = None, tab_err = [], tab_site = None, tab_calls = [], next_call = 0, form_busy = False,
      open_snippets = [], ng_name = [], ng_pattern = [], ng_value = Fin 0, ng_touched = all_goals_touched False\<rparr>"

definition goalNameError :: "string \<Rightarrow> error_sentence" where
  "goalNameError value =
     (let v = js_trim value in
      if js_length v = 0 then Some ''Goal name is required (up to 128 characters).''
      else if 128 < js_length v then Some ''Goal name is required (up to 128 characters).''
      else None)"

definition nameError :: "Goals \<Rightarrow> error_sentence" where
  "nameError t = goalNameError (ng_name t)"

definition patternError :: "Goals \<Rightarrow> error_sentence" where
  "patternError t = eventName (Str (ng_pattern t))"

definition valueError :: "Goals \<Rightarrow> error_sentence" where
  "valueError t = goalValue (Num (ng_value t))"

definition formInvalid :: "Goals \<Rightarrow> bool" where
  "formInvalid t \<longleftrightarrow> nameError t \<noteq> None \<or> patternError t \<noteq> None \<or> valueError t \<noteq> None"

section \<open>Steps\<close>

datatype goals_event =
    Goals_shown rat
  | Goals_listed nat "AdminGoal list outcome"
  | Goal_disabled nat "unit outcome"
  | Goal_created nat "json option outcome"
  | Type_goal_name string
  | Type_goal_pattern string
  | Type_goal_value string
  | Leave_goal_name
  | Leave_goal_pattern
  | Leave_goal_value
  | Submit_goal
  | Disable_goal string
  | Flip_snippet string

definition refresh_goals :: "string \<Rightarrow> rat \<Rightarrow> waiter \<Rightarrow> Goals \<Rightarrow> Goals \<times> HttpRequest list" where
  "refresh_goals = refresh_table listGoals"

text \<open>JSON has no number for a value that is not finite.\<close>

definition json_number :: "number \<Rightarrow> json" where
  "json_number n = (case n of Fin x \<Rightarrow> JNum x | _ \<Rightarrow> JNull)"

definition goal_body :: "Goals \<Rightarrow> json" where
  "goal_body t =
     JObj [(''name'', JStr (js_trim (ng_name t))), (''match_type'', JStr ''event_name_equals''),
       (''pattern'', JStr (ng_pattern t)), (''value'', json_number (ng_value t)), (''enabled'', JBool True)]"

definition submit_goal :: "string \<Rightarrow> Goals \<Rightarrow> Goals \<times> HttpRequest list" where
  "submit_goal token t =
     (if form_busy t \<or> formInvalid t then (t, [])
      else (issue (Creating (site_now t)) (t\<lparr>form_busy := True\<rparr>),
            [send token (createGoal (site_now t) (goal_body t))]))"

definition clear_goal_form :: "Goals \<Rightarrow> Goals" where
  "clear_goal_form t =
     t\<lparr>ng_name := [], ng_pattern := [], ng_value := Fin 0, ng_touched := all_goals_touched False\<rparr>"

definition goal_created :: "string \<Rightarrow> rat \<Rightarrow> json option outcome \<Rightarrow> Goals \<Rightarrow> Goals \<times> HttpRequest list" where
  "goal_created token s r t =
     (case r of
        Returned _ \<Rightarrow> refresh_goals token s The_form (clear_goal_form t)
      | Failed e \<Rightarrow> (t\<lparr>tab_err := errorMessage e ''Couldn't create the goal. Try again.'', form_busy := False\<rparr>, []))"

definition goal_disabled :: "string \<Rightarrow> rat \<Rightarrow> unit outcome \<Rightarrow> Goals \<Rightarrow> Goals \<times> HttpRequest list" where
  "goal_disabled token s r t =
     (case r of
        Returned _ \<Rightarrow> refresh_goals token s Nobody t
      | Failed e \<Rightarrow> (t\<lparr>tab_err := errorMessage e ''Couldn't disable this goal. Try again.''\<rparr>, []))"

definition goal_row_of :: "string \<Rightarrow> Goals \<Rightarrow> AdminGoal option" where
  "goal_row_of i t = (case tab_rows t of Some rs \<Rightarrow> find (\<lambda>g. goal_id g = i) rs | None \<Rightarrow> None)"

text \<open>A row that is gone takes its open snippet with it.\<close>

definition keep_snippets :: "Goals \<Rightarrow> Goals" where
  "keep_snippets t = t\<lparr>open_snippets := filter (\<lambda>i. goal_row_of i t \<noteq> None) (open_snippets t)\<rparr>"

fun goals_step :: "string \<Rightarrow> goals_event \<Rightarrow> Goals \<Rightarrow> Goals \<times> HttpRequest list" where
  "goals_step token (Goals_shown s) t = show_table listGoals token s t"
| "goals_step token (Goals_listed i r) t =
     (case map_of (tab_calls t) i of
        Some (Listing s w) \<Rightarrow>
          (keep_snippets (listed_rows (\<lambda>e. errorMessage e ''Couldn't load goals.'') w r (settled i t)), [])
      | _ \<Rightarrow> (t, []))"
| "goals_step token (Goal_disabled i r) t =
     (case map_of (tab_calls t) i of
        Some (Row_change s g) \<Rightarrow> goal_disabled token s r (settled i t)
      | _ \<Rightarrow> (t, []))"
| "goals_step token (Goal_created i r) t =
     (case map_of (tab_calls t) i of
        Some (Creating s) \<Rightarrow> goal_created token s r (settled i t)
      | _ \<Rightarrow> (t, []))"
| "goals_step token (Type_goal_name v) t = (t\<lparr>ng_name := v\<rparr>, [])"
| "goals_step token (Type_goal_pattern v) t = (t\<lparr>ng_pattern := v\<rparr>, [])"
| "goals_step token (Type_goal_value v) t = (t\<lparr>ng_value := number_of_string v\<rparr>, [])"
| "goals_step token Leave_goal_name t = (t\<lparr>ng_touched := (ng_touched t)\<lparr>t_name := True\<rparr>\<rparr>, [])"
| "goals_step token Leave_goal_pattern t = (t\<lparr>ng_touched := (ng_touched t)\<lparr>t_pattern := True\<rparr>\<rparr>, [])"
| "goals_step token Leave_goal_value t = (t\<lparr>ng_touched := (ng_touched t)\<lparr>t_value := True\<rparr>\<rparr>, [])"
| "goals_step token Submit_goal t = submit_goal token t"
| "goals_step token (Disable_goal i) t =
     (case goal_row_of i t of
        Some g \<Rightarrow>
          if ag_enabled g then (issue (Row_change (site_now t) i) t, [send token (disableGoal (ag_site_id g) i)])
          else (t, [])
      | None \<Rightarrow> (t, []))"
| "goals_step token (Flip_snippet i) t =
     (if goal_row_of i t = None then (t, [])
      else (t\<lparr>open_snippets :=
        (if i \<in> set (open_snippets t) then removeAll i (open_snippets t) else i # open_snippets t)\<rparr>, []))"

section \<open>The contract of the tab\<close>

definition creates_goal :: "HttpRequest \<Rightarrow> bool" where
  "creates_goal r \<longleftrightarrow> rq_method r = ''POST'' \<and> prefix ''/api/admin/goals?'' (rq_url r)"

lemmas goals_defs =
  submit_goal_def goal_created_def goal_disabled_def refresh_goals_def refresh_table_def
  show_table_def listed_rows_def keep_snippets_def clear_goal_form_def

lemma goals_requests [simp]:
  "\<not> creates_goal (send token (listGoals s))"
  "\<not> creates_goal (send token (disableGoal s i))"
  "creates_goal (send token (createGoal s b))"
  by (simp_all add: creates_goal_def send_def api_request_def listGoals_def disableGoal_def createGoal_def Let_def)

lemma goals_keep_ok:
  assumes ok: "table_ok t" shows "table_ok (fst (goals_step token e t))"
proof (cases e)
  case (Goals_listed i r)
  have "table_ok (keep_snippets u)" if "table_ok u" for u
    by (rule table_ok_same [OF that]) (simp_all add: keep_snippets_def)
  then show ?thesis using listed_ok [OF ok] ok by (auto simp: Goals_listed split: option.split call.split)
next
  case (Goal_created i r)
  then show ?thesis
    using ok by (auto simp: goal_created_def refresh_goals_def clear_goal_form_def
        intro!: created_ok [OF ok] split: option.split call.split outcome.split)
next
  case (Goal_disabled i r)
  then show ?thesis
    using ok by (auto simp: goal_disabled_def refresh_goals_def
        intro!: refreshed_ok intro: row_answer_ok [OF ok] table_ok_settled [OF ok] split: option.split call.split outcome.split)
next
  case (Submit_goal)
  then show ?thesis using ok by (auto simp: submit_goal_def intro: table_ok_submit)
next
  case (Disable_goal i)
  then show ?thesis using ok by (auto intro: table_ok_issue split: option.split)
qed (use ok in \<open>auto intro: shown_ok table_ok_same\<close>)

lemma goals_create_once:
  assumes "table_ok t"
  shows "length (filter creates_goal (snd (goals_step token e t)))
    = (if form_busy (fst (goals_step token e t)) \<and> \<not> form_busy t then 1 else 0)"
  using assms by (cases e) (auto simp: goals_defs form_rests_def split: option.split call.split outcome.split)

interpretation goals: admin_tab "goals_step token" creates_goal for token
  by unfold_locales (rule goals_keep_ok, assumption, rule goals_create_once)

section \<open>The tab\<close>

definition help_item :: "'a vnode list \<Rightarrow> 'a vnode" where
  "help_item cs = el ''li'' [] cs"

definition help_par :: "'a vnode list \<Rightarrow> 'a vnode" where
  "help_par cs = el ''p'' [] cs"

definition single_quote :: string where "single_quote = [CHR 0x27]"
definition double_quote :: string where "double_quote = [CHR 0x22]"
definition newline :: string where "newline = [CHR 0x0A]"

definition single_quoted :: "string \<Rightarrow> string" where
  "single_quoted s = single_quote @ s @ single_quote"

definition arguments_help :: "'a vnode list" where
  "arguments_help =
     [help_par [Text ''Every visit fires a pageview automatically. For a custom event (click, form submit, video play):''],
      el ''pre'' [] [code_el ''window.statniveLive.track(name, props, value)''],
      el ''ul'' []
        [help_item [strong_el ''name'', Text '' is required. Becomes '', code_el ''event_name'', Text ''.''],
         help_item [strong_el ''props'', Text '' is optional. Default '', code_el ''{}'', Text ''.''],
         help_item [strong_el ''value'', Text '' is optional. Defaults to '', code_el ''0'', Text ''.'']]]"

definition goals_help :: "'a vnode list" where
  "goals_help =
     [help_par [strong_el ''When is an event also a goal?'', Text '' Define a goal below. When '', code_el ''event_name'',
        Text '' matches a goal pattern, the server sets '', code_el ''is_goal=1'', Text ''. The revenue card sums goal events.''],
      help_par [strong_el ''Goal value (fixed vs dynamic):''],
      el ''ul'' []
        [help_item [strong_el ''Value > 0'', Text '' (e.g. '', code_el ''1'', Text '' for a signup, '', code_el ''50'',
           Text '' for a lead) becomes a fixed-revenue goal. The server overrides whatever the tracker sent. Every goal hit counts the same.''],
         help_item [strong_el ''Value = 0'', Text '' is dynamic passthrough. The tracker-supplied value flows through untouched. Use this for e-commerce: '',
           code_el (''window.statniveLive.track('' @ single_quoted ''purchase'' @ '', {order_id: '' @ single_quoted ''X-1234'' @ ''}, 4999)''),
           Text '' records $49.99 in revenue (send minor units / integer to keep cents).'']],
      help_par [strong_el ''Edge cases:''],
      el ''ul'' []
        [help_item [Text ''No matching goal: stored as a regular custom event ('', code_el ''is_goal=0'', Text ''). Not in the revenue card.''],
         help_item [Text ''Disabled goal: behaves as if it does not exist. Re-enabling does NOT backfill past events.''],
         help_item [Text ''Tracker loaded on an unregistered hostname: server returns 204, event silently dropped.'']]]"

definition EventApiHelpCard :: "'a vnode" where
  "EventApiHelpCard =
     el ''details'' (in_class ''statnive-admin-help-card'')
       [el ''summary'' [] [strong_el ''How to fire custom events''], el ''div'' [] (arguments_help @ goals_help)]"

definition goal_snippet :: "AdminGoal \<Rightarrow> string" where
  "goal_snippet g =
     (let p = ag_pattern g in
      join newline
       [''// Direct call:'',
        ''window.statniveLive.track('' @ single_quoted p @ '', {'',
        ''  page: window.location.pathname,'',
        ''});'',
        [],
        ''// Delegated click listener (install once):'',
        ''document.addEventListener('' @ single_quoted ''click'' @ '', function (e) {'',
        ''  var a = e.target.closest('' @ single_quoted (''[data-statnive-goal='' @ double_quote @ p @ double_quote @ '']'') @ '');'',
        ''  if (!a || !window.statniveLive) return;'',
        ''  window.statniveLive.track('' @ single_quoted p @ '', {'',
        ''    page: window.location.pathname,'',
        ''    href: a.href || '' @ single_quoted [] @ '','',
        ''  });'',
        ''}, true);'',
        [],
        ''// Mark your element:'',
        ''// <a href='' @ double_quote @ ''...'' @ double_quote @ '' data-statnive-goal='' @ double_quote @ p @ double_quote @ ''>Click me</a>''])"

text \<open>
  A row's snippet; the copy button's own state is not the tab's, its click has no effect on the tab.
\<close>

definition GoalSnippetButton :: "AdminGoal \<Rightarrow> bool \<Rightarrow> goals_event vnode" where
  "GoalSnippetButton g open' =
     el ''span'' []
       ([Elem ''button'' [button_attr, (''class'', ''statnive-chip'')] [(''click'', \<lambda>_. Flip_snippet (goal_id g))]
           [Text (if open' then ''Hide'' else ''Show snippet'')]]
        @ only_if open'
            (el ''span'' (in_class ''statnive-admin-snippet'')
              [el ''pre'' [] [code_el (goal_snippet g)],
               el ''button'' [button_attr, (''class'', ''statnive-chip'')] [Text ''Copy'']]))"

definition goal_row :: "Goals \<Rightarrow> AdminGoal \<Rightarrow> goals_event vnode" where
  "goal_row t g =
     el ''tr'' []
       [el ''td'' [] [Text (if ag_hostname g \<noteq> [] then ag_hostname g else middot), Text '' '',
          el ''code'' [] [Text ''('', Text (show_rat (ag_site_id g)), Text '')'']],
        el ''td'' [] [Text (ag_name g)],
        el ''td'' [] [code_el (ag_pattern g)],
        el ''td'' [] [el ''span'' (in_class ''statnive-num-cell'') [Text (show_rat (ag_value g))]],
        el ''td'' [] [StatusPill (if ag_enabled g then Active else Disabled)],
        el ''td'' [] [GoalSnippetButton g (goal_id g \<in> set (open_snippets t))],
        el ''td'' [] (only_if (ag_enabled g) (button_when True [] (Disable_goal (goal_id g)) [Text ''Disable'']))]"

definition goal_field ::
    "string \<Rightarrow> (string \<times> string) list \<Rightarrow> string \<Rightarrow> bool \<Rightarrow> error_sentence \<Rightarrow> (string \<Rightarrow> goals_event) \<Rightarrow> goals_event
     \<Rightarrow> goals_event vnode list \<Rightarrow> goals_event vnode" where
  "goal_field lab as v touched err ev leave help =
     (let bad = (touched \<and> err \<noteq> None) in
      el ''label'' (in_class ''statnive-admin-field'')
        ([el ''span'' [] [Text lab],
          Elem ''input''
            (as @ (if bad then [(''class'', ''is-invalid'')] else []) @ [(''aria-invalid'', bool_text bad), (''value'', v)])
            [(''input'', ev), (''blur'', \<lambda>_. leave)] [],
          helper help]
         @ only_if bad
             (el ''p'' [(''class'', ''statnive-admin-field-error''), (''role'', ''alert'')] [Text (or_default [] err)])))"

definition NewGoalForm :: "Goals \<Rightarrow> goals_event vnode" where
  "NewGoalForm t =
     Elem ''form'' [(''class'', ''statnive-admin-new''), (''noValidate'', [])] [(''submit'', \<lambda>_. Submit_goal)]
       [el ''h3'' [] [Text ''New goal''],
        goal_field ''Name'' [(''type'', ''text''), (''required'', []), (''maxLength'', ''128'')] (ng_name t)
          (t_name (ng_touched t)) (nameError t) Type_goal_name Leave_goal_name
          [Text ''What you'll see this goal called in reports. Free text.''],
        goal_field ''Event name (exact match)'' [(''type'', ''text''), (''required'', []), (''maxLength'', ''128'')] (ng_pattern t)
          (t_pattern (ng_touched t)) (patternError t) Type_goal_pattern Leave_goal_pattern
          [Text ''The exact '', code_el ''event_name'', Text '' your tracker sends. For example '', code_el ''signup'',
           Text '' or '', code_el ''add_to_cart'', Text ''. Must match what '', code_el ''window.statniveLive.track(...)'',
           Text '' posts.''],
        goal_field ''Value'' [(''type'', ''number''), (''min'', ''0'')] (show_number (ng_value t))
          (t_value (ng_touched t)) (valueError t) Type_goal_value Leave_goal_value
          [Text ''Revenue this goal is worth. '', strong_el ''0'',
           Text '' means the tracker's own value flows through (use this for e-commerce purchases). '', strong_el ''> 0'',
           Text '' means every goal hit counts the same amount.''],
        el ''button'' ([(''type'', ''submit'')] @ flag ''disabled'' (form_busy t \<or> formInvalid t))
          [Text (if form_busy t then ''Creating'' @ ellipsis else ''Create goal'')]]"

definition GoalsTab :: "Goals \<Rightarrow> goals_event vnode" where
  "GoalsTab t =
     el ''div'' (in_class ''statnive-admin-goals'')
       ([EventApiHelpCard, NewGoalForm t] @ only_if (tab_err t \<noteq> []) (error_alert (tab_err t))
        @ [case tab_rows t of
             None \<Rightarrow> el ''p'' [] [Text (''Loading'' @ ellipsis)]
           | Some [] \<Rightarrow> el ''p'' [] [Text ''No goals yet for this site.'']
           | Some (g # gs) \<Rightarrow>
               admin_table_view ''admin-goals-table''
                 [''Site'', ''Name'', ''Pattern (event_name)'', ''Value'', ''Status'', ''Snippet'', []]
                 (map (goal_row t) (g # gs))])"

end
