(* ===== verification/Sites_Tab.thy ===== *)
theory Sites_Tab
  imports Goals_Tab
begin

text \<open>
  The tab of sites (\<^verbatim>\<open>panels/admin/SitesTab.tsx\<close>): the table of all sites, pausing and
  resuming one, the closed lists of currencies and zones fetched once, the jurisdiction notice, the form
  for a new site, and the configuration dialog with the save that refreshes the table and closes it.
  Dialogs are numbered: what waits for a save belongs to the dialog it was started in, but closing
  closes whichever is open.
\<close>

section \<open>State\<close>

definition FALLBACK_CURRENCY :: string where
  "FALLBACK_CURRENCY = ''EUR''"

definition FALLBACK_TIMEZONE :: string where
  "FALLBACK_TIMEZONE = ''Europe/Berlin''"

record SiteTouched =
  t_hostname :: bool
  t_slug :: bool
  t_currency :: bool
  t_tz :: bool

definition all_sites_touched :: "bool \<Rightarrow> SiteTouched" where
  "all_sites_touched b = \<lparr>t_hostname = b, t_slug = b, t_currency = b, t_tz = b\<rparr>"

record Sites = "AdminSite Table" +
  currencies :: "CurrencyOption list"
  timezones :: "TimezoneOption list"
  options_wait :: "(CurrencyOption list option \<times> TimezoneOption list option) option"
  configuringSiteID :: "rat option"
  dialog :: "(nat \<times> Modal) option"
  next_dialog :: nat
  notice :: "bool option"
  ns_hostname :: string
  ns_slug :: string
  ns_tz :: string
  ns_currency :: string
  ns_touched :: SiteTouched

definition new_sites_tab :: Sites where
  "new_sites_tab =
     \<lparr>tab_rows = None, tab_err = [], tab_site = None, tab_calls = [], next_call = 0, form_busy = False,
      currencies = [], timezones = [], options_wait = None, configuringSiteID = None, dialog = None, next_dialog = 0,
      notice = None, ns_hostname = [], ns_slug = [], ns_tz = FALLBACK_TIMEZONE, ns_currency = FALLBACK_CURRENCY,
      ns_touched = all_sites_touched False\<rparr>"

definition hostnameError :: "Sites \<Rightarrow> error_sentence" where
  "hostnameError t = hostname (Str (ns_hostname t))"

definition slugError :: "Sites \<Rightarrow> error_sentence" where
  "slugError t = slug (Str (ns_slug t))"

definition currencyError :: "Sites \<Rightarrow> error_sentence" where
  "currencyError t =
     (if length (currencies t) = 0 \<or> list_ex (\<lambda>c. cur_code c = ns_currency t) (currencies t) then None
      else Some ''We don't recognize that currency code. Pick one from the list.'')"

definition tzError :: "Sites \<Rightarrow> error_sentence" where
  "tzError t =
     (if length (timezones t) = 0 \<or> list_ex (\<lambda>z. iana z = ns_tz t) (timezones t) then None
      else Some ''We don't recognize that timezone. Pick one from the list.'')"

definition site_form_invalid :: "Sites \<Rightarrow> bool" where
  "site_form_invalid t \<longleftrightarrow>
     hostnameError t \<noteq> None \<or> slugError t \<noteq> None \<or> currencyError t \<noteq> None \<or> tzError t \<noteq> None"

text \<open>The site the dialog is for, and the dialog that goes with it: it is a component of its own.\<close>

definition site_row_of :: "rat \<Rightarrow> Sites \<Rightarrow> AdminSite option" where
  "site_row_of i t = (case tab_rows t of Some rs \<Rightarrow> find (\<lambda>s. as_site_id s = i) rs | None \<Rightarrow> None)"

definition configuringSite :: "Sites \<Rightarrow> AdminSite option" where
  "configuringSite t = (case configuringSiteID t of None \<Rightarrow> None | Some i \<Rightarrow> site_row_of i t)"

definition sync_dialog :: "Sites \<Rightarrow> Sites" where
  "sync_dialog t =
     (case configuringSite t of
        None \<Rightarrow> t\<lparr>dialog := None\<rparr>
      | Some s \<Rightarrow>
          (case dialog t of
             None \<Rightarrow> t\<lparr>dialog := Some (next_dialog t, open_modal s), next_dialog := next_dialog t + 1\<rparr>
           | Some _ \<Rightarrow> t))"

section \<open>Steps\<close>

datatype site_field = Site_hostname | Site_slug | Site_currency | Site_tz

datatype sites_event =
    Sites_mounted
  | Sites_listed nat "AdminSite list outcome"
  | Currencies_in "CurrencyOption list outcome"
  | Timezones_in "TimezoneOption list outcome"
  | Notice_in "json option outcome"
  | Site_toggled nat "json option outcome"
  | Site_created nat "json option outcome"
  | Site_patched nat answer
  | Type_site site_field string
  | Leave_site site_field
  | Submit_site
  | Toggle_site rat
  | Configure rat
  | Dialog modal_event
  | Dismiss_notice

text \<open>
  \<^verbatim>\<open>e instanceof Error ? e.message : String(e)\<close>; what the requests throw is always an Error.
\<close>

definition thrown_text :: "thrown \<Rightarrow> string" where
  "thrown_text e = (case e of Http h \<Rightarrow> message h | Error m \<Rightarrow> m | Thrown_value \<Rightarrow> [])"

definition refresh_sites :: "string \<Rightarrow> waiter \<Rightarrow> Sites \<Rightarrow> Sites \<times> HttpRequest list" where
  "refresh_sites token w t = (issue (Listing 0 w) t, [send token listSites])"

definition mount_sites :: "string \<Rightarrow> Sites \<Rightarrow> Sites \<times> HttpRequest list" where
  "mount_sites token t =
     (case refresh_sites token Nobody (t\<lparr>options_wait := Some (None, None)\<rparr>) of
        (t1, out) \<Rightarrow>
          (t1, [send token getJurisdictionNotice] @ out @ [send token listCurrencies, send token listTimezones]))"

text \<open>The two lists arrive together; the first failure settles the pair, and the other answer is lost.\<close>

definition options_in ::
    "(CurrencyOption list option \<times> TimezoneOption list option) outcome \<Rightarrow> Sites \<Rightarrow> Sites" where
  "options_in r t =
     (case options_wait t of
        None \<Rightarrow> t
      | Some (c, z) \<Rightarrow>
          (case r of
             Failed e \<Rightarrow> t\<lparr>tab_err := thrown_text e, options_wait := None\<rparr>
           | Returned (c', z') \<Rightarrow>
               let c1 = (if c = None then c' else c); z1 = (if z = None then z' else z) in
               (case (c1, z1) of
                  (Some cs, Some zs) \<Rightarrow> t\<lparr>currencies := cs, timezones := zs, options_wait := None\<rparr>
                | _ \<Rightarrow> t\<lparr>options_wait := Some (c1, z1)\<rparr>)))"

fun json_truthy :: "json \<Rightarrow> bool" where
  "json_truthy JNull = False"
| "json_truthy (JBool b) = b"
| "json_truthy (JNum n) = (n \<noteq> 0)"
| "json_truthy (JStr s) = (s \<noteq> [])"
| "json_truthy (JArr xs) = True"
| "json_truthy (JObj ms) = True"

definition notice_visible :: "json option outcome \<Rightarrow> bool" where
  "notice_visible r =
     (case r of
        Failed e \<Rightarrow> False
      | Returned None \<Rightarrow> False
      | Returned (Some JNull) \<Rightarrow> False
      | Returned (Some (JObj ms)) \<Rightarrow> (case map_of ms ''dismissed'' of Some v \<Rightarrow> \<not> json_truthy v | None \<Rightarrow> True)
      | Returned (Some _) \<Rightarrow> True)"

definition site_body :: "Sites \<Rightarrow> json" where
  "site_body t =
     JObj ([(''hostname'', JStr (ns_hostname t))]
       @ (if ns_slug t \<noteq> [] then [(''slug'', JStr (ns_slug t))] else [])
       @ (if ns_tz t \<noteq> [] then [(''tz'', JStr (ns_tz t))] else [])
       @ (if ns_currency t \<noteq> [] then [(''currency'', JStr (ns_currency t))] else []))"

definition submit_site :: "string \<Rightarrow> Sites \<Rightarrow> Sites \<times> HttpRequest list" where
  "submit_site token t =
     (let t1 = t\<lparr>ns_touched := all_sites_touched True\<rparr> in
      if form_busy t \<or> site_form_invalid t then (t1, [])
      else (issue (Creating 0) (t1\<lparr>form_busy := True\<rparr>), [send token (createSite (site_body t))]))"

definition site_created :: "string \<Rightarrow> json option outcome \<Rightarrow> Sites \<Rightarrow> Sites \<times> HttpRequest list" where
  "site_created token r t =
     (case r of
        Returned _ \<Rightarrow>
          refresh_sites token The_form
            (t\<lparr>ns_hostname := [], ns_slug := [], ns_tz := FALLBACK_TIMEZONE, ns_currency := FALLBACK_CURRENCY,
               ns_touched := all_sites_touched False\<rparr>)
      | Failed e \<Rightarrow> (t\<lparr>tab_err := thrown_text e, form_busy := False\<rparr>, []))"

definition site_toggled :: "string \<Rightarrow> json option outcome \<Rightarrow> Sites \<Rightarrow> Sites \<times> HttpRequest list" where
  "site_toggled token r t =
     (case r of Returned _ \<Rightarrow> refresh_sites token Nobody t | Failed e \<Rightarrow> (t\<lparr>tab_err := thrown_text e\<rparr>, []))"

text \<open>The rows have arrived: the form rests, or the dialog is closed.\<close>

definition sites_listed :: "waiter \<Rightarrow> AdminSite list outcome \<Rightarrow> Sites \<Rightarrow> Sites" where
  "sites_listed w r t =
     (let t1 = listed_rows thrown_text w r t in
      case w of The_dialog n \<Rightarrow> t1\<lparr>configuringSiteID := None\<rparr> | _ \<Rightarrow> t1)"

text \<open>The answer to the patch of the dialog with a number, of the site with an id.\<close>

definition site_patched :: "string \<Rightarrow> nat \<Rightarrow> rat \<Rightarrow> answer \<Rightarrow> Sites \<Rightarrow> Sites \<times> HttpRequest list" where
  "site_patched token n i a t =
     (let dl = (case dialog t of
                  Some (k, m) \<Rightarrow> if k = n then Some (k, fst (on_patched i a m)) else dialog t
                | None \<Rightarrow> None)
      in case receive (updateSitePolicy i JNull) a of
           Failed e \<Rightarrow> (t\<lparr>dialog := dl\<rparr>, [])
         | Returned _ \<Rightarrow> refresh_sites token (The_dialog n) (t\<lparr>dialog := dl\<rparr>))"

text \<open>What a control of the dialog does to the tab.\<close>

fun from_user :: "modal_event \<Rightarrow> bool" where
  "from_user (Patched a) = False"
| "from_user (Refreshed r) = False"
| "from_user _ = True"

fun dialog_output :: "nat \<Rightarrow> rat \<Rightarrow> modal_output \<Rightarrow> Sites \<Rightarrow> Sites \<times> HttpRequest list" where
  "dialog_output n i (Send_patch r) t = (issue (Patching n i) t, [r])"
| "dialog_output n i Refresh_sites t = (t, [])"
| "dialog_output n i Close_modal t = (t\<lparr>configuringSiteID := None\<rparr>, [])"

definition in_dialog :: "string \<Rightarrow> modal_event \<Rightarrow> Sites \<Rightarrow> Sites \<times> HttpRequest list" where
  "in_dialog token e t =
     (case (dialog t, configuringSite t) of
        (Some (n, m), Some s) \<Rightarrow>
          (case modal_step token s (currencies t) (timezones t) e m of
             (m', out) \<Rightarrow>
               (case out of
                  [] \<Rightarrow> (t\<lparr>dialog := Some (n, m')\<rparr>, [])
                | x # _ \<Rightarrow> dialog_output n (as_site_id s) x (t\<lparr>dialog := Some (n, m')\<rparr>)))
      | _ \<Rightarrow> (t, []))"

fun type_site :: "site_field \<Rightarrow> string \<Rightarrow> Sites \<Rightarrow> Sites" where
  "type_site Site_hostname v t = t\<lparr>ns_hostname := v\<rparr>"
| "type_site Site_slug v t = t\<lparr>ns_slug := v\<rparr>"
| "type_site Site_currency v t = t\<lparr>ns_currency := v\<rparr>"
| "type_site Site_tz v t = t\<lparr>ns_tz := v\<rparr>"

fun leave_site :: "site_field \<Rightarrow> Sites \<Rightarrow> Sites" where
  "leave_site Site_hostname t = t\<lparr>ns_touched := (ns_touched t)\<lparr>t_hostname := True\<rparr>\<rparr>"
| "leave_site Site_slug t = t\<lparr>ns_touched := (ns_touched t)\<lparr>t_slug := True\<rparr>\<rparr>"
| "leave_site Site_currency t = t\<lparr>ns_touched := (ns_touched t)\<lparr>t_currency := True\<rparr>\<rparr>"
| "leave_site Site_tz t = t\<lparr>ns_touched := (ns_touched t)\<lparr>t_tz := True\<rparr>\<rparr>"

fun sites_react :: "string \<Rightarrow> sites_event \<Rightarrow> Sites \<Rightarrow> Sites \<times> HttpRequest list" where
  "sites_react token Sites_mounted t = mount_sites token t"
| "sites_react token (Sites_listed i r) t =
     (case map_of (tab_calls t) i of
        Some (Listing s w) \<Rightarrow> (sites_listed w r (settled i t), [])
      | _ \<Rightarrow> (t, []))"
| "sites_react token (Currencies_in r) t =
     (options_in (case r of Returned cs \<Rightarrow> Returned (Some cs, None) | Failed e \<Rightarrow> Failed e) t, [])"
| "sites_react token (Timezones_in r) t =
     (options_in (case r of Returned zs \<Rightarrow> Returned (None, Some zs) | Failed e \<Rightarrow> Failed e) t, [])"
| "sites_react token (Notice_in r) t = (t\<lparr>notice := Some (notice_visible r)\<rparr>, [])"
| "sites_react token (Site_toggled i r) t =
     (case map_of (tab_calls t) i of
        Some (Row_change s u) \<Rightarrow> site_toggled token r (settled i t)
      | _ \<Rightarrow> (t, []))"
| "sites_react token (Site_created i r) t =
     (case map_of (tab_calls t) i of
        Some (Creating s) \<Rightarrow> site_created token r (settled i t)
      | _ \<Rightarrow> (t, []))"
| "sites_react token (Site_patched i a) t =
     (case map_of (tab_calls t) i of
        Some (Patching n s) \<Rightarrow> site_patched token n s a (settled i t)
      | _ \<Rightarrow> (t, []))"
| "sites_react token (Type_site f v) t = (type_site f v t, [])"
| "sites_react token (Leave_site f) t = (leave_site f t, [])"
| "sites_react token Submit_site t = submit_site token t"
| "sites_react token (Toggle_site i) t =
     (case site_row_of i t of
        Some s \<Rightarrow>
          (issue (Row_change i []) t, [send token (updateSiteEnabled (as_site_id s) (\<not> as_enabled s))])
      | None \<Rightarrow> (t, []))"
| "sites_react token (Configure i) t =
     (if site_row_of i t = None then (t, []) else (t\<lparr>configuringSiteID := Some i\<rparr>, []))"
| "sites_react token (Dialog e) t = (if from_user e then in_dialog token e t else (t, []))"
| "sites_react token Dismiss_notice t =
     (if notice t = Some True then (t\<lparr>notice := Some False\<rparr>, [send token dismissJurisdictionNotice]) else (t, []))"

definition sites_step :: "string \<Rightarrow> sites_event \<Rightarrow> Sites \<Rightarrow> Sites \<times> HttpRequest list" where
  "sites_step token e t = (case sites_react token e t of (t1, out) \<Rightarrow> (sync_dialog t1, out))"

section \<open>The contract of the tab\<close>

definition creates_site :: "HttpRequest \<Rightarrow> bool" where
  "creates_site r \<longleftrightarrow> rq_method r = ''POST'' \<and> rq_url r = ''/api/admin/sites''"

lemma sites_requests [simp]:
  "\<not> creates_site (send token listSites)"
  "\<not> creates_site (send token listCurrencies)"
  "\<not> creates_site (send token listTimezones)"
  "\<not> creates_site (send token getJurisdictionNotice)"
  "\<not> creates_site (send token dismissJurisdictionNotice)"
  "\<not> creates_site (send token (updateSiteEnabled i b))"
  "\<not> creates_site (send token (updateSitePolicy i p))"
  "creates_site (send token (createSite body))"
  by (simp_all add: creates_site_def send_def api_request_def listSites_def listCurrencies_def listTimezones_def
      getJurisdictionNotice_def dismissJurisdictionNotice_def updateSiteEnabled_def updateSitePolicy_def createSite_def Let_def)

lemma refresh_sites_ok: "table_ok t \<Longrightarrow> w \<noteq> The_form \<Longrightarrow> table_ok (fst (refresh_sites token w t))"
  by (simp add: refresh_sites_def table_ok_issue)

lemma sync_table [simp]:
  "tab_calls (sync_dialog t) = tab_calls t" "next_call (sync_dialog t) = next_call t"
  "form_busy (sync_dialog t) = form_busy t" "tab_rows (sync_dialog t) = tab_rows t"
  "configuringSiteID (sync_dialog t) = configuringSiteID t"
  by (simp_all add: sync_dialog_def split: option.split)

lemma sync_ok: "table_ok t \<Longrightarrow> table_ok (sync_dialog t)"
  by (erule table_ok_same) simp_all

lemma options_table:
  "tab_calls (options_in r t) = tab_calls t" "next_call (options_in r t) = next_call t"
  "form_busy (options_in r t) = form_busy t"
  by (auto simp: options_in_def Let_def split: option.split outcome.split prod.split)

lemma in_dialog_ok:
  assumes ok: "table_ok t" shows "table_ok (fst (in_dialog token e t))"
proof -
  have same: "table_ok (t\<lparr>dialog := d\<rparr>)" "table_ok (t\<lparr>dialog := d, configuringSiteID := c\<rparr>)" for d c
    by (rule table_ok_same [OF ok]; simp)+
  have "table_ok (fst (dialog_output n i x (t\<lparr>dialog := d\<rparr>)))" for n i x d
    by (cases x) (simp_all add: same table_ok_issue)
  then show ?thesis
    by (auto simp: in_dialog_def ok same split: option.split prod.split list.split)
qed

lemma site_patched_ok:
  assumes "table_ok t" and "map_of (tab_calls t) i = Some (Patching n s)"
  shows "table_ok (fst (site_patched token n s' a (settled i t)))"
proof -
  have "table_ok ((settled i t)\<lparr>dialog := d\<rparr>)" for d
    by (rule table_ok_same [OF table_ok_settled [OF assms]]) simp_all
  then show ?thesis by (auto simp: site_patched_def Let_def intro: refresh_sites_ok split: outcome.split)
qed

lemma sites_listed_ok:
  assumes "table_ok t" and "map_of (tab_calls t) i = Some (Listing s w)"
  shows "table_ok (sites_listed w r (settled i t))"
proof -
  have ok: "table_ok (listed_rows thrown_text w r (settled i t))" by (rule listed_ok [OF assms])
  have "table_ok ((listed_rows thrown_text w r (settled i t))\<lparr>configuringSiteID := c\<rparr>)" for c
    by (rule table_ok_same [OF ok]) simp_all
  then show ?thesis using ok by (cases w) (simp_all add: sites_listed_def)
qed

lemma sites_react_ok:
  assumes ok: "table_ok t" shows "table_ok (fst (sites_react token e t))"
proof (cases e)
  case Sites_mounted
  have "table_ok (t\<lparr>options_wait := x\<rparr>)" for x by (rule table_ok_same [OF ok]) simp_all
  then show ?thesis by (simp add: Sites_mounted mount_sites_def refresh_sites_def table_ok_issue)
next
  case (Sites_listed i r)
  then show ?thesis using sites_listed_ok [OF ok] ok by (auto split: option.split call.split)
next
  case (Currencies_in r)
  then show ?thesis by (auto intro: table_ok_same [OF ok] simp: options_table)
next
  case (Timezones_in r)
  then show ?thesis by (auto intro: table_ok_same [OF ok] simp: options_table)
next
  case (Site_toggled i r)
  then show ?thesis
    using ok by (auto simp: site_toggled_def intro!: refresh_sites_ok
        intro: row_answer_ok [OF ok] table_ok_settled [OF ok] split: option.split call.split outcome.split)
next
  case (Site_created i r)
  then show ?thesis
    using ok by (auto simp: site_created_def refresh_sites_def
        intro!: created_ok [OF ok] split: option.split call.split outcome.split)
next
  case (Site_patched i a)
  then show ?thesis using site_patched_ok [OF ok] ok by (auto split: option.split call.split)
next
  case (Type_site f v)
  then show ?thesis using ok by (cases f) (auto intro: table_ok_same)
next
  case (Leave_site f)
  then show ?thesis using ok by (cases f) (auto intro: table_ok_same)
next
  case Submit_site
  have "table_ok (t\<lparr>ns_touched := x\<rparr>)" for x by (rule table_ok_same [OF ok]) simp_all
  then show ?thesis using Submit_site by (auto simp: submit_site_def Let_def intro: table_ok_submit)
next
  case (Toggle_site i)
  then show ?thesis using ok by (auto intro: table_ok_issue split: option.split)
next
  case (Dialog e)
  then show ?thesis using ok in_dialog_ok by simp
qed (use ok in \<open>auto intro: table_ok_same\<close>)

lemma sites_keep_ok: "table_ok t \<Longrightarrow> table_ok (fst (sites_step token e t))"
  using sites_react_ok [of t token e] sync_ok [of "fst (sites_react token e t)"] by (simp add: sites_step_def split_def)

lemma dialog_sends: "set (snd (modal_step token s cs ts e m)) \<subseteq> {x. \<forall>r. x = Send_patch r \<longrightarrow> \<not> creates_site r}"
  by (cases e) (auto simp: onSave_def on_patched_def on_refreshed_def Let_def split: outcome.split option.split)

lemma in_dialog_quiet:
  "filter creates_site (snd (in_dialog token e t)) = [] \<and> form_busy (fst (in_dialog token e t)) = form_busy t"
proof (cases "dialog t")
  case (Some nm)
  obtain n m where d: "dialog t = Some (n, m)" using Some by (cases nm) simp
  show ?thesis
  proof (cases "configuringSite t")
    case (Some s)
    obtain m' out where st: "modal_step token s (currencies t) (timezones t) e m = (m', out)"
      by (cases "modal_step token s (currencies t) (timezones t) e m")
    show ?thesis
    proof (cases out)
      case (Cons x xs)
      then show ?thesis
        using dialog_sends [of token s "currencies t" "timezones t" e m] by (cases x) (simp_all add: in_dialog_def d Some st)
    qed (simp add: in_dialog_def d Some st)
  qed (simp add: in_dialog_def d)
qed (simp add: in_dialog_def)

lemma sites_create_once:
  assumes "table_ok t"
  shows "length (filter creates_site (snd (sites_step token e t)))
    = (if form_busy (fst (sites_step token e t)) \<and> \<not> form_busy t then 1 else 0)"
proof -
  have "length (filter creates_site (snd (sites_react token e t)))
    = (if form_busy (fst (sites_react token e t)) \<and> \<not> form_busy t then 1 else 0)"
  proof (cases e)
    case (Dialog d)
    then show ?thesis using in_dialog_quiet [of token d t] by simp
  next
    case (Type_site f v)
    then show ?thesis by (cases f) simp_all
  next
    case (Leave_site f)
    then show ?thesis by (cases f) simp_all
  qed (auto simp: mount_sites_def refresh_sites_def sites_listed_def listed_rows_def options_table site_toggled_def
      site_created_def site_patched_def submit_site_def Let_def form_rests_def
      split: option.split call.split outcome.split waiter.split)
  then show ?thesis by (simp add: sites_step_def split_def)
qed

interpretation sites: admin_tab "sites_step token" creates_site for token
  by unfold_locales (rule sites_keep_ok, assumption, rule sites_create_once)

section \<open>Saving in a dialog\<close>

text \<open>A call on its way for a save of the dialog with a number.\<close>

fun for_dialog :: "nat \<Rightarrow> call \<Rightarrow> bool" where
  "for_dialog n (Patching k i) = (k = n)"
| "for_dialog n (Listing s w) = (w = The_dialog n)"
| "for_dialog n (Creating s) = False"
| "for_dialog n (Row_change s i) = False"
| "for_dialog n (Row_delete s i) = False"

definition saves_of :: "nat \<Rightarrow> Sites \<Rightarrow> nat" where
  "saves_of n t = length (filter (\<lambda>(_, c). for_dialog n c) (tab_calls t))"

text \<open>
  The steps of a run that count: a save that sends its request, a patch that is accepted, and a dialog that
  goes away although the user did not close it and its site is still listed.
\<close>

definition save_sent :: "string \<Rightarrow> sites_event \<Rightarrow> Sites \<Rightarrow> bool" where
  "save_sent token e t \<longleftrightarrow> e = Dialog Save \<and> snd (sites_step token e t) \<noteq> []"

definition patch_accepted :: "string \<Rightarrow> sites_event \<Rightarrow> Sites \<Rightarrow> bool" where
  "patch_accepted token e t \<longleftrightarrow>
     (case e of
        Site_patched i a \<Rightarrow>
          (case map_of (tab_calls t) i of
             Some (Patching n s) \<Rightarrow> (case receive (updateSitePolicy s JNull) a of Returned _ \<Rightarrow> True | Failed _ \<Rightarrow> False)
           | _ \<Rightarrow> False)
      | _ \<Rightarrow> False)"

definition site_unlisted :: "sites_event \<Rightarrow> Sites \<Rightarrow> bool" where
  "site_unlisted e t \<longleftrightarrow>
     (case e of Sites_listed i (Returned rs) \<Rightarrow> configuringSiteID t \<notin> Some ` as_site_id ` set rs | _ \<Rightarrow> False)"

definition closed_by_save :: "string \<Rightarrow> sites_event \<Rightarrow> Sites \<Rightarrow> bool" where
  "closed_by_save token e t \<longleftrightarrow>
     dialog t \<noteq> None \<and> dialog (fst (sites_step token e t)) = None \<and> e \<noteq> Dialog Close \<and> \<not> site_unlisted e t"

fun step_count :: "(string \<Rightarrow> sites_event \<Rightarrow> Sites \<Rightarrow> bool) \<Rightarrow> string \<Rightarrow> sites_event list \<Rightarrow> Sites \<Rightarrow> nat" where
  "step_count P token [] t = 0"
| "step_count P token (e # es) t =
     (if P token e t then 1 else 0) + step_count P token es (fst (sites_step token e t))"

text \<open>Calls that will refresh the table for a dialog, and calls that wait for the answer to a patch.\<close>

fun refreshes_dialog :: "call \<Rightarrow> bool" where
  "refreshes_dialog (Listing s (The_dialog n)) = True"
| "refreshes_dialog c = False"

fun patches :: "call \<Rightarrow> bool" where
  "patches (Patching n s) = True"
| "patches c = False"

definition calls_that :: "(call \<Rightarrow> bool) \<Rightarrow> Sites \<Rightarrow> nat" where
  "calls_that P t = length (filter (\<lambda>(_, c). P c) (tab_calls t))"

lemma calls_that_simps [simp]:
  "calls_that P (issue c t) = calls_that P t + (if P c then 1 else 0)"
  "calls_that P (sync_dialog t) = calls_that P t"
  by (simp_all add: calls_that_def)

lemma calls_that_same: "tab_calls u = tab_calls t \<Longrightarrow> calls_that P u = calls_that P t"
  by (simp add: calls_that_def)

lemma calls_that_settled:
  "\<lbrakk>table_ok t; map_of (tab_calls t) i = Some c\<rbrakk>
     \<Longrightarrow> calls_that P (settled i t) + (if P c then 1 else 0) = calls_that P t"
  using count_without [of "tab_calls t" i c P] by (simp add: table_ok_def calls_that_def keys_def)

lemma calls_that_updates [simp]:
  fixes t :: Sites
  shows "calls_that P (t\<lparr>tab_err := a\<rparr>) = calls_that P t" "calls_that P (t\<lparr>tab_rows := b\<rparr>) = calls_that P t"
    "calls_that P (t\<lparr>form_busy := c\<rparr>) = calls_that P t" "calls_that P (t\<lparr>dialog := d\<rparr>) = calls_that P t"
    "calls_that P (t\<lparr>configuringSiteID := x\<rparr>) = calls_that P t" "calls_that P (t\<lparr>ns_touched := h\<rparr>) = calls_that P t"
    "calls_that P (t\<lparr>ns_hostname := e, ns_slug := f, ns_tz := g, ns_currency := y\<rparr>) = calls_that P t"
  by (simp_all add: calls_that_def)

lemma saves_calls: "saves_of n = calls_that (for_dialog n)"
  by (intro ext) (simp add: saves_of_def calls_that_def)


text \<open>Predicates that only calls of dialogs satisfy, and the events that concern no dialog.\<close>

definition only_dialogs :: "(call \<Rightarrow> bool) \<Rightarrow> bool" where
  "only_dialogs P \<longleftrightarrow>
     (\<forall>s i. \<not> P (Listing s Nobody) \<and> \<not> P (Listing s The_form) \<and> \<not> P (Creating s) \<and> \<not> P (Row_change s i) \<and> \<not> P (Row_delete s i))"

lemma only_dialogs_kinds: "only_dialogs (for_dialog n)" "only_dialogs refreshes_dialog" "only_dialogs patches"
  by (simp_all add: only_dialogs_def)

fun no_dialog_event :: "sites_event \<Rightarrow> bool" where
  "no_dialog_event (Dialog e) = False"
| "no_dialog_event (Site_patched i a) = False"
| "no_dialog_event (Sites_listed i r) = False"
| "no_dialog_event e = True"

lemma configuring_same:
  "\<lbrakk>tab_rows u = tab_rows t; configuringSiteID u = configuringSiteID t\<rbrakk> \<Longrightarrow> configuringSite u = configuringSite t"
  by (simp add: configuringSite_def site_row_of_def split: option.split)

lemma options_in_dialog:
  "dialog (options_in r t) = dialog t" "next_dialog (options_in r t) = next_dialog t" "tab_calls (options_in r t) = tab_calls t"
  "tab_rows (options_in r t) = tab_rows t" "configuringSiteID (options_in r t) = configuringSiteID t"
  by (auto simp: options_in_def Let_def split: option.split outcome.split prod.split)

lemma settled_dialog [simp]:
  "dialog (settled i t) = dialog t" "next_dialog (settled i t) = next_dialog t"
  "configuringSiteID (settled i t) = configuringSiteID t"
  "dialog (issue c t) = dialog t" "next_dialog (issue c t) = next_dialog t"
  "configuringSiteID (issue c t) = configuringSiteID t"
  by (simp_all add: settled_def issue_def)

lemma form_rests_dialog [simp]:
  "dialog (form_rests w t) = dialog t" "next_dialog (form_rests w t) = next_dialog t"
  "configuringSiteID (form_rests w t) = configuringSiteID t"
  by (simp_all add: form_rests_def)

definition dialogs_same :: "Sites \<Rightarrow> Sites \<Rightarrow> bool" where
  "dialogs_same t u \<longleftrightarrow>
     dialog u = dialog t \<and> next_dialog u = next_dialog t \<and> (\<forall>P. only_dialogs P \<longrightarrow> calls_that P u = calls_that P t)
     \<and> (configuringSite t \<noteq> None \<longrightarrow> configuringSite u \<noteq> None)"

lemma dialogs_sameI:
  assumes "dialog u = dialog t" and "next_dialog u = next_dialog t" and "tab_rows u = tab_rows t"
    and "configuringSiteID u = configuringSiteID t" and "\<And>P. only_dialogs P \<Longrightarrow> calls_that P u = calls_that P t"
  shows "dialogs_same t u"
  using assms configuring_same [of u t] by (simp add: dialogs_same_def)

lemma settled_only:
  assumes "table_ok t" and "map_of (tab_calls t) i = Some c" and "only_dialogs P" and "\<not> P c"
  shows "calls_that P (settled i t) = calls_that P t"
  using calls_that_settled [OF assms(1,2), of P] assms(4) by simp

lemma issue_only: "tab_calls u = tab_calls t \<Longrightarrow> \<not> P c \<Longrightarrow> calls_that P (issue c u) = calls_that P t"
  by (simp add: calls_that_def)

lemma no_dialog_same:
  assumes ok: "table_ok t" and e: "no_dialog_event e"
  shows "dialogs_same t (fst (sites_react token e t))"
proof (cases e)
  case Sites_mounted
  then show ?thesis
    by (auto simp: mount_sites_def refresh_sites_def only_dialogs_def intro!: dialogs_sameI issue_only)
next
  case (Currencies_in r)
  then show ?thesis by (auto intro!: dialogs_sameI calls_that_same simp: options_in_dialog)
next
  case (Timezones_in r)
  then show ?thesis by (auto intro!: dialogs_sameI calls_that_same simp: options_in_dialog)
next
  case (Site_toggled i r)
  have "calls_that P (settled i t) = calls_that P t"
    if "map_of (tab_calls t) i = Some (Row_change s u)" "only_dialogs P" for s u P
    using that by (intro settled_only [OF ok]) (auto simp: only_dialogs_def)
  then show ?thesis
    by (auto simp: Site_toggled site_toggled_def refresh_sites_def only_dialogs_def
        intro!: dialogs_sameI split: option.split call.split outcome.split)
next
  case (Site_created i r)
  have "calls_that P (settled i t) = calls_that P t"
    if "map_of (tab_calls t) i = Some (Creating s)" "only_dialogs P" for s P
    using that by (intro settled_only [OF ok]) (auto simp: only_dialogs_def)
  then show ?thesis
    by (auto simp: Site_created site_created_def refresh_sites_def only_dialogs_def
        intro!: dialogs_sameI split: option.split call.split outcome.split)
next
  case (Type_site f v)
  then show ?thesis by (cases f) (auto intro!: dialogs_sameI calls_that_same)
next
  case (Leave_site f)
  then show ?thesis by (cases f) (auto intro!: dialogs_sameI calls_that_same)
next
  case Submit_site
  then show ?thesis
    by (auto simp: submit_site_def Let_def only_dialogs_def intro!: dialogs_sameI)
next
  case (Toggle_site i)
  then show ?thesis
    by (auto simp: only_dialogs_def intro!: dialogs_sameI split: option.split)
next
  case (Configure i)
  then show ?thesis
    by (auto simp: dialogs_same_def calls_that_def configuringSite_def site_row_of_def split: option.splits)
qed (use e in \<open>auto intro!: dialogs_sameI calls_that_same\<close>)

text \<open>
  In every run: the open dialog has a call on its way exactly while it says that it is saving, and then just
  one; numbers of later dialogs have none.
\<close>

definition dialog_ok :: "Sites \<Rightarrow> bool" where
  "dialog_ok t \<longleftrightarrow>
     (\<forall>k. next_dialog t \<le> k \<longrightarrow> saves_of k t = 0)
     \<and> (case dialog t of None \<Rightarrow> True | Some (n, m) \<Rightarrow> n < next_dialog t \<and> saves_of n t = (if saving m then 1 else 0))"

definition sites_ok :: "Sites \<Rightarrow> bool" where
  "sites_ok t \<longleftrightarrow> table_ok t \<and> dialog_ok t \<and> (dialog t = None \<longleftrightarrow> configuringSite t = None)"

lemma dialog_ok_same: "dialog_ok t \<Longrightarrow> dialogs_same t u \<Longrightarrow> dialog_ok u"
  using only_dialogs_kinds(1) by (auto simp: dialog_ok_def dialogs_same_def saves_calls split: option.split)

lemma sync_configuring [simp]: "configuringSite (sync_dialog t) = configuringSite t"
  by (rule configuring_same) simp_all

lemma sync_dialog_ok:
  assumes "dialog_ok t" shows "dialog_ok (sync_dialog t)"
    and "dialog (sync_dialog t) = None \<longleftrightarrow> configuringSite t = None"
proof -
  have "saves_of k (sync_dialog t) = saves_of k t" for k by (simp add: saves_calls)
  then show "dialog_ok (sync_dialog t)"
    using assms by (auto simp: dialog_ok_def sync_dialog_def open_modal_def split: option.split)
  show "dialog (sync_dialog t) = None \<longleftrightarrow> configuringSite t = None"
    by (auto simp: sync_dialog_def split: option.split)
qed

text \<open>When the listing a dialog waits for is there, whatever was open is closed.\<close>

lemma sync_closed:
  assumes "\<And>k. next_dialog t \<le> k \<Longrightarrow> saves_of k t = 0" and "configuringSiteID t = None"
  shows "dialog_ok (sync_dialog t)" and "dialog (sync_dialog t) = None" and "configuringSite t = None"
proof -
  show c: "configuringSite t = None" using assms(2) by (simp add: configuringSite_def)
  show "dialog (sync_dialog t) = None" by (simp add: sync_dialog_def c)
  have "saves_of k (sync_dialog t) = saves_of k t" for k by (simp add: saves_calls)
  then show "dialog_ok (sync_dialog t)" using assms(1) by (simp add: dialog_ok_def) (simp add: sync_dialog_def c)
qed

text \<open>What the controls of the dialog can do besides saving.\<close>

lemma modal_user:
  assumes "from_user e" and "e \<noteq> Save"
  shows "saving (fst (modal_step token s cs ts e m)) = saving m"
    and "snd (modal_step token s cs ts e m) = (if e = Close then [Close_modal] else [])"
  using assms by (cases e; simp add: onChangeJurisdiction_def onChangeEventAllowlist_def setOriginAt_def addOrigin_def
      removeOrigin_def Let_def)+

lemma modal_save:
  "(snd (modal_step token s cs ts Save m) = [] \<and> fst (modal_step token s cs ts Save m) = m
     \<and> (saving m \<or> modal_patch s m = [] \<or> is_invalid cs ts m))
   \<or> (snd (modal_step token s cs ts Save m) = [Send_patch (send token (updateSitePolicy (as_site_id s) (patch_json (modal_patch s m))))]
     \<and> \<not> saving m \<and> saving (fst (modal_step token s cs ts Save m)) \<and> draft (fst (modal_step token s cs ts Save m)) = draft m
     \<and> originHosts (fst (modal_step token s cs ts Save m)) = originHosts m
     \<and> modal_patch s m \<noteq> [] \<and> valid_draft cs ts m)"
  using valid_when_shown [of cs ts m] by (auto simp: onSave_def Let_def)

text \<open>Saving in the tab: nothing happens, or one request goes out and the dialog is busy.\<close>

lemma dialog_save:
  assumes "dialog t = Some (n, m)" and "configuringSite t = Some s"
  shows "(in_dialog token Save t = (t, []) \<and> (saving m \<or> modal_patch s m = [] \<or> is_invalid (currencies t) (timezones t) m))
    \<or> (\<exists>m'. in_dialog token Save t
             = (issue (Patching n (as_site_id s)) (t\<lparr>dialog := Some (n, m')\<rparr>),
                [send token (updateSitePolicy (as_site_id s) (patch_json (modal_patch s m)))])
         \<and> \<not> saving m \<and> saving m' \<and> draft m' = draft m \<and> originHosts m' = originHosts m
         \<and> modal_patch s m \<noteq> [] \<and> valid_draft (currencies t) (timezones t) m)"
proof -
  have same: "t\<lparr>dialog := Some (n, m)\<rparr> = t" using assms(1) by simp
  show ?thesis
    using modal_save [of token s "currencies t" "timezones t" m] assms same
    by (auto simp: in_dialog_def split_def simp del: modal_step.simps)
qed

text \<open>One step keeps the invariant, and pays for what it counts with calls on their way.\<close>

definition pays :: "string \<Rightarrow> sites_event \<Rightarrow> Sites \<Rightarrow> Sites \<Rightarrow> bool" where
  "pays token e t u \<longleftrightarrow>
     (if closed_by_save token e t then 1 else 0) + calls_that refreshes_dialog u
       \<le> (if patch_accepted token e t then 1 else 0) + calls_that refreshes_dialog t
     \<and> (if patch_accepted token e t then 1 else 0) + calls_that patches u
       \<le> (if save_sent token e t then 1 else 0) + calls_that patches t"

lemma still_open:
  assumes "sites_ok t" and "configuringSite t \<noteq> None \<Longrightarrow> configuringSite (fst (sites_react token e t)) \<noteq> None"
    and "dialog_ok (fst (sites_react token e t))"
  shows "\<not> closed_by_save token e t"
  using assms sync_dialog_ok(2) [of "fst (sites_react token e t)"]
  by (auto simp: closed_by_save_def sites_ok_def sites_step_def split_def)

lemma step_ok_dialogs:
  assumes "sites_ok t" and "dialog_ok (fst (sites_react token e t))"
  shows "sites_ok (fst (sites_step token e t))"
  using assms sites_keep_ok [of t token e] sync_dialog_ok [of "fst (sites_react token e t)"]
  by (simp add: sites_ok_def sites_step_def split_def)

lemma step_from:
  assumes "sites_ok t" and "fst (sites_react token e t) = u" and "dialog_ok u"
    and "configuringSite t \<noteq> None \<Longrightarrow> configuringSite u \<noteq> None"
    and "calls_that refreshes_dialog u \<le> (if patch_accepted token e t then 1 else 0) + calls_that refreshes_dialog t"
    and "(if patch_accepted token e t then 1 else 0) + calls_that patches u
      \<le> (if save_sent token e t then 1 else 0) + calls_that patches t"
  shows "sites_ok (fst (sites_step token e t)) \<and> pays token e t (fst (sites_step token e t))"
proof -
  have "fst (sites_step token e t) = sync_dialog u" using assms(2) by (simp add: sites_step_def split_def)
  moreover have "\<not> closed_by_save token e t" using still_open [of t token e] assms(1-4) by simp
  ultimately show ?thesis using step_ok_dialogs [of t token e] assms by (simp add: pays_def)
qed

lemma step_idle:
  assumes "sites_ok t" and "fst (sites_react token e t) = t" and "\<not> patch_accepted token e t"
  shows "sites_ok (fst (sites_step token e t)) \<and> pays token e t (fst (sites_step token e t))"
  using assms by (intro step_from [OF assms(1,2)]) (simp_all add: sites_ok_def)

lemma step_no_dialog:
  assumes ok: "sites_ok t" and e: "no_dialog_event e"
  shows "sites_ok (fst (sites_step token e t)) \<and> pays token e t (fst (sites_step token e t))"
proof -
  let ?u = "fst (sites_react token e t)"
  have same: "dialogs_same t ?u" using no_dialog_same e ok by (simp add: sites_ok_def)
  then have d: "dialog_ok ?u" using ok by (intro dialog_ok_same [OF _ same]) (simp add: sites_ok_def)
  have "\<not> patch_accepted token e t" using e by (cases e) (simp_all add: patch_accepted_def)
  moreover have "calls_that refreshes_dialog ?u = calls_that refreshes_dialog t" "calls_that patches ?u = calls_that patches t"
    using same only_dialogs_kinds(2,3) by (simp_all add: dialogs_same_def)
  ultimately show ?thesis using same by (intro step_from [OF ok refl d]) (simp_all add: dialogs_same_def)
qed

lemma step_dialog:
  assumes ok: "sites_ok t"
  shows "sites_ok (fst (sites_step token (Dialog e) t)) \<and> pays token (Dialog e) t (fst (sites_step token (Dialog e) t))"
proof -
  have no: "\<not> patch_accepted token (Dialog e) t" by (simp add: patch_accepted_def)
  show ?thesis
  proof (cases "from_user e \<and> dialog t \<noteq> None")
    case False
    then have "fst (sites_react token (Dialog e) t) = t" by (auto simp: in_dialog_def split: option.split)
    then show ?thesis using no by (rule step_idle [OF ok])
  next
    case True
    then obtain n m where d: "dialog t = Some (n, m)" by auto
    obtain s where s: "configuringSite t = Some s" using ok d by (auto simp: sites_ok_def)
    have k: "n < next_dialog t" "saves_of n t = (if saving m then 1 else 0)" "\<And>k. next_dialog t \<le> k \<Longrightarrow> saves_of k t = 0"
      using ok d by (auto simp: sites_ok_def dialog_ok_def)
    consider "e = Save" | "e = Close" | "e \<noteq> Save" "e \<noteq> Close" by blast
    then show ?thesis
    proof cases
      case 1
      show ?thesis
      proof (cases "in_dialog token Save t = (t, [])")
        case True
        then show ?thesis by (intro step_idle [OF ok _ no]) (simp add: 1)
      next
        case False
        then obtain m' where r: "in_dialog token Save t = (issue (Patching n (as_site_id s)) (t\<lparr>dialog := Some (n, m')\<rparr>),
            [send token (updateSitePolicy (as_site_id s) (patch_json (modal_patch s m)))])" and f: "\<not> saving m" "saving m'"
          using dialog_save [OF d s, of token] by blast
        let ?u = "issue (Patching n (as_site_id s)) (t\<lparr>dialog := Some (n, m')\<rparr>)"
        have "dialog_ok ?u" using k f by (auto simp: dialog_ok_def saves_calls)
        moreover have "configuringSite ?u = configuringSite t" by (rule configuring_same) simp_all
        moreover have "save_sent token (Dialog e) t" by (simp add: 1 save_sent_def sites_step_def split_def r)
        moreover have "fst (sites_react token (Dialog e) t) = ?u" by (simp add: 1 r)
        ultimately show ?thesis using no unfolding 1 by (intro step_from [OF ok, where u = ?u]) simp_all
      qed
    next
      case 2
      let ?u = "t\<lparr>dialog := Some (n, m), configuringSiteID := None\<rparr>"
      have r: "fst (sites_react token (Dialog e) t) = ?u" by (simp add: 2 in_dialog_def d s)
      have calls: "calls_that P ?u = calls_that P t" for P by (simp add: calls_that_def)
      then have "dialog_ok (sync_dialog ?u)" "dialog (sync_dialog ?u) = None" "configuringSite ?u = None"
        using sync_closed [of ?u] k(3) by (simp_all add: saves_calls)
      then show ?thesis
        using ok sites_keep_ok [of t token "Dialog e"] r calls no
        by (simp add: sites_ok_def pays_def closed_by_save_def 2 sites_step_def split_def del: sites_react.simps)
    next
      case 3
      then have st: "saving (fst (modal_step token s (currencies t) (timezones t) e m)) = saving m"
        "snd (modal_step token s (currencies t) (timezones t) e m) = []"
        using modal_user [of e] True by simp_all
      obtain m' where m': "fst (modal_step token s (currencies t) (timezones t) e m) = m'" "saving m' = saving m"
        using st(1) by blast
      let ?u = "t\<lparr>dialog := Some (n, m')\<rparr>"
      have r: "fst (sites_react token (Dialog e) t) = ?u" using True st(2) m'(1) by (simp add: in_dialog_def d s split_def)
      have "dialog_ok ?u" using k m'(2) by (auto simp: dialog_ok_def saves_calls)
      moreover have "configuringSite ?u = configuringSite t" by (rule configuring_same) simp_all
      ultimately show ?thesis using no by (intro step_from [OF ok r]) simp_all
    qed
  qed
qed

lemma for_one_dialog: "calls_that (for_dialog n) t = 0 \<Longrightarrow> map_of (tab_calls t) i = Some c \<Longrightarrow> \<not> for_dialog n c"
  by (auto simp: calls_that_def filter_empty_conv dest!: map_of_SomeD)

lemma step_patched:
  assumes ok: "sites_ok t"
  shows "sites_ok (fst (sites_step token (Site_patched i a) t))
    \<and> pays token (Site_patched i a) t (fst (sites_step token (Site_patched i a) t))"
proof (cases "\<exists>n s. map_of (tab_calls t) i = Some (Patching n s)")
  case False
  then have "fst (sites_react token (Site_patched i a) t) = t" "\<not> patch_accepted token (Site_patched i a) t"
    by (auto simp: patch_accepted_def split: option.split call.split)
  then show ?thesis by (rule step_idle [OF ok])
next
  case True
  then obtain n s where c: "map_of (tab_calls t) i = Some (Patching n s)" by blast
  have tab: "table_ok t" and d: "dialog_ok t" using ok by (simp_all add: sites_ok_def)
  have less: "calls_that P (settled i t) + (if P (Patching n s) then 1 else 0) = calls_that P t" for P
    by (rule calls_that_settled [OF tab c])
  let ?dl = "case dialog t of Some (k, m) \<Rightarrow> if k = n then Some (k, fst (on_patched s a m)) else dialog t | None \<Rightarrow> None"
  let ?v = "(settled i t)\<lparr>dialog := ?dl\<rparr>"
  have n: "n < next_dialog t"
    using d for_one_dialog [OF _ c, of n] by (auto simp: dialog_ok_def saves_calls not_less [symmetric])
  have others: "saves_of k (settled i t) = saves_of k t" if "k \<noteq> n" for k
    using less [of "for_dialog k"] that by (simp add: saves_calls)
  have one: "saves_of n (settled i t) + 1 = saves_of n t"
    using less [of "for_dialog n"] by (simp add: saves_calls)
  have conf: "configuringSite u = configuringSite t"
    if "u = ?v \<or> u = issue (Listing 0 (The_dialog n)) ?v" for u
    using that by (intro configuring_same) auto
  show ?thesis
  proof (cases "receive (updateSitePolicy s JNull) a")
    case (Failed e)
    have u: "fst (sites_react token (Site_patched i a) t) = ?v"
      using c Failed by (auto simp: site_patched_def split: option.split)
    have "dialog_ok ?v"
      using d n others one Failed
      by (auto simp: dialog_ok_def on_patched_def save_fails_def saves_calls split: option.splits if_splits)
    moreover have "\<not> patch_accepted token (Site_patched i a) t" using c Failed by (simp add: patch_accepted_def)
    ultimately show ?thesis
      using conf [of ?v] less [of patches] less [of refreshes_dialog] by (intro step_from [OF ok u]) simp_all
  next
    case (Returned j)
    let ?w = "issue (Listing 0 (The_dialog n)) ?v"
    have u: "fst (sites_react token (Site_patched i a) t) = ?w"
      using c Returned by (auto simp: site_patched_def refresh_sites_def split: option.split)
    have "dialog_ok ?w"
      using d n others one Returned
      by (auto simp: dialog_ok_def on_patched_def saves_calls split: option.splits if_splits)
    moreover have "patch_accepted token (Site_patched i a) t" using c Returned by (simp add: patch_accepted_def)
    ultimately show ?thesis
      using conf [of ?w] less [of patches] less [of refreshes_dialog] by (intro step_from [OF ok u]) simp_all
  qed
qed

lemma step_listed:
  assumes ok: "sites_ok t"
  shows "sites_ok (fst (sites_step token (Sites_listed i r) t))
    \<and> pays token (Sites_listed i r) t (fst (sites_step token (Sites_listed i r) t))"
proof (cases "\<exists>s w. map_of (tab_calls t) i = Some (Listing s w)")
  case False
  then have "fst (sites_react token (Sites_listed i r) t) = t" "\<not> patch_accepted token (Sites_listed i r) t"
    by (auto simp: patch_accepted_def split: option.split call.split)
  then show ?thesis by (rule step_idle [OF ok])
next
  case True
  then obtain s w where c: "map_of (tab_calls t) i = Some (Listing s w)" by blast
  have tab: "table_ok t" and d: "dialog_ok t" using ok by (simp_all add: sites_ok_def)
  have less: "calls_that P (settled i t) + (if P (Listing s w) then 1 else 0) = calls_that P t" for P
    by (rule calls_that_settled [OF tab c])
  let ?v = "listed_rows thrown_text w r (settled i t)"
  have v: "calls_that P ?v = calls_that P (settled i t)" "dialog ?v = dialog t" "next_dialog ?v = next_dialog t"
    "configuringSiteID ?v = configuringSiteID t" for P
    by (cases r; simp add: listed_rows_def calls_that_def)+
  have no: "\<not> patch_accepted token (Sites_listed i r) t" by (simp add: patch_accepted_def)
  show ?thesis
  proof (cases "\<exists>n. w = The_dialog n")
    case True
    then obtain n where n: "w = The_dialog n" by blast
    let ?u = "?v\<lparr>configuringSiteID := None\<rparr>"
    have u: "fst (sites_react token (Sites_listed i r) t) = ?u" using c n by (simp add: sites_listed_def)
    have "saves_of k ?u = 0" if "next_dialog t \<le> k" for k
      using d less [of "for_dialog k"] that v(1) by (auto simp: dialog_ok_def saves_calls)
    then have "dialog_ok (sync_dialog ?u)" "dialog (sync_dialog ?u) = None" "configuringSite ?u = None"
      using sync_closed [of ?u] v(3) by simp_all
    moreover have "calls_that refreshes_dialog ?u + 1 = calls_that refreshes_dialog t" "calls_that patches ?u = calls_that patches t"
      using less [of refreshes_dialog] less [of patches] v(1) n by simp_all
    ultimately show ?thesis
      using sites_keep_ok [OF tab, of token "Sites_listed i r"] no
      by (simp add: sites_ok_def pays_def sites_step_def split_def u del: sites_react.simps)
  next
    case other: False
    then have u: "fst (sites_react token (Sites_listed i r) t) = ?v" using c by (cases w) (simp_all add: sites_listed_def)
    have calls: "calls_that P ?v = calls_that P t" if "only_dialogs P" for P
      using less [of P] that other v(1) by (cases w) (auto simp: only_dialogs_def)
    have dv: "dialog_ok ?v"
      using d v calls only_dialogs_kinds(1) by (auto simp: dialog_ok_def saves_calls split: option.split)
    have "\<not> closed_by_save token (Sites_listed i r) t"
    proof (cases r)
      case (Returned rs)
      have "configuringSite ?v \<noteq> None" if "configuringSiteID t \<in> Some ` as_site_id ` set rs"
        using that Returned find_None_iff [of "\<lambda>s. Some (as_site_id s) = configuringSiteID t" rs]
        by (auto simp: configuringSite_def site_row_of_def listed_rows_def find_None_iff simp del: not_None_eq split: option.splits)
      then show ?thesis
        using sync_dialog_ok(2) [OF dv] Returned u
        by (auto simp: closed_by_save_def site_unlisted_def sites_step_def split_def simp del: sites_react.simps)
    next
      case (Failed e)
      have "configuringSite ?v = configuringSite t" using v(4) Failed by (intro configuring_same) (simp_all add: listed_rows_def)
      then show ?thesis using still_open [OF ok, of token "Sites_listed i r"] u dv by (simp del: sites_react.simps)
    qed
    moreover have "fst (sites_step token (Sites_listed i r) t) = sync_dialog ?v" using u by (simp add: sites_step_def split_def)
    ultimately show ?thesis
      using step_ok_dialogs [OF ok, of token "Sites_listed i r"] dv calls only_dialogs_kinds(2,3) no u
      by (simp add: pays_def del: sites_react.simps)
  qed
qed

lemma step_pays:
  assumes "sites_ok t"
  shows "sites_ok (fst (sites_step token e t)) \<and> pays token e t (fst (sites_step token e t))"
  using assms step_no_dialog step_dialog step_patched step_listed by (cases "no_dialog_event e") (auto elim: no_dialog_event.elims)

lemma run_pays:
  assumes "sites_ok t"
  shows "sites_ok (fst (tab_run (sites_step token) es t))
    \<and> step_count closed_by_save token es t + calls_that refreshes_dialog (fst (tab_run (sites_step token) es t))
        \<le> step_count patch_accepted token es t + calls_that refreshes_dialog t
    \<and> step_count patch_accepted token es t + calls_that patches (fst (tab_run (sites_step token) es t))
        \<le> step_count save_sent token es t + calls_that patches t"
  using assms
proof (induction es arbitrary: t)
  case (Cons e es)
  show ?case
    using step_pays [OF Cons.prems, of token e] Cons.IH [of "fst (sites_step token e t)"]
    by (simp add: pays_def split_def)
qed simp

lemma new_sites_ok: "sites_ok new_sites_tab" and new_sites_calls: "calls_that P new_sites_tab = 0"
  by (simp_all add: sites_ok_def dialog_ok_def saves_of_def table_ok_def form_calls_def new_sites_tab_def configuringSite_def
      calls_that_def keys_def)

text \<open>
  C10: saving in the dialog of a site. In every run of the tab, a save that is under way is one call of the
  open dialog, and the dialog says that it is saving exactly then. Save does nothing while one is under
  way, when nothing differs or when any field is invalid; otherwise it sends one request, to this
  site, whose body is the non-empty patch of the draft, and every value of the draft passed its
  check: listed currency and zone (when the lists have arrived), a known jurisdiction and mode, at most
  50 valid event names and at most ten valid origins, one for each row. A refusal leaves the dialog open with
  the draft, the sentence for the error and the button ready. Besides the user's own closing and a table
  that no longer lists the site, a dialog goes away at most once for every accepted patch, and
  patches are accepted at most as often as saves were sent. (It then goes away when the listing after the patch is
  answered, with rows or with an error.)
\<close>

theorem configure_save_gate:
  fixes token :: string and es :: "sites_event list"
  defines "tab_at \<equiv> fst (tab_run (sites_step token) es new_sites_tab)"
  shows "(\<forall>n m. dialog tab_at = Some (n, m) \<longrightarrow> saves_of n tab_at = (if saving m then 1 else 0))
    \<and> (\<forall>n m s. dialog tab_at = Some (n, m) \<and> configuringSite tab_at = Some s \<longrightarrow>
         (let t = tab_at; (t', out) = sites_step token (Dialog Save) t in
          out = [] \<and> t' = t \<and> (saving m \<or> modal_patch s m = [] \<or> is_invalid (currencies t) (timezones t) m)
          \<or> out = [send token (updateSitePolicy (as_site_id s) (patch_json (modal_patch s m)))]
            \<and> \<not> saving m \<and> modal_patch s m \<noteq> [] \<and> valid_draft (currencies t) (timezones t) m
            \<and> (\<exists>m'. dialog t' = Some (n, m') \<and> saving m' \<and> draft m' = draft m \<and> originHosts m' = originHosts m)))
    \<and> (\<forall>i n m s a e. dialog tab_at = Some (n, m) \<and> map_of (tab_calls tab_at) i = Some (Patching n s)
         \<and> receive (updateSitePolicy s JNull) a = Failed e \<longrightarrow>
         (let (t', out) = sites_step token (Site_patched i a) tab_at in
          out = [] \<and> dialog t' = Some (n, m\<lparr>topError := errorMessage e ''Couldn't save your changes.'', saving := False, save_phase := Save_idle\<rparr>)))
    \<and> step_count closed_by_save token es new_sites_tab \<le> step_count patch_accepted token es new_sites_tab
    \<and> step_count patch_accepted token es new_sites_tab \<le> step_count save_sent token es new_sites_tab"
proof -
  let ?t = "tab_at"
  have ok: "sites_ok ?t" using run_pays [OF new_sites_ok] by (simp add: tab_at_def)
  have one: "saves_of n ?t = (if saving m then 1 else 0)" if "dialog ?t = Some (n, m)" for n m
    using ok that by (simp add: sites_ok_def dialog_ok_def)
  have sync: "sync_dialog u = u" if "configuringSite u \<noteq> None" "dialog u \<noteq> None" for u
    using that by (auto simp: sync_dialog_def)
  have save: "let (t', out) = sites_step token (Dialog Save) ?t in
          out = [] \<and> t' = ?t \<and> (saving m \<or> modal_patch s m = [] \<or> is_invalid (currencies ?t) (timezones ?t) m)
          \<or> out = [send token (updateSitePolicy (as_site_id s) (patch_json (modal_patch s m)))]
            \<and> \<not> saving m \<and> modal_patch s m \<noteq> [] \<and> valid_draft (currencies ?t) (timezones ?t) m
            \<and> (\<exists>m'. dialog t' = Some (n, m') \<and> saving m' \<and> draft m' = draft m \<and> originHosts m' = originHosts m)"
    if "dialog ?t = Some (n, m)" "configuringSite ?t = Some s" for n m s
  proof -
    have "sync_dialog (issue c (?t\<lparr>dialog := Some (n, m')\<rparr>)) = issue c (?t\<lparr>dialog := Some (n, m')\<rparr>)" for c m'
      using that configuring_same [of "issue c (?t\<lparr>dialog := Some (n, m')\<rparr>)" ?t] by (intro sync) simp_all
    then show ?thesis
      using dialog_save [OF that, of token] sync [of ?t] that by (auto simp: sites_step_def)
  qed
  have refusal: "let (t', out) = sites_step token (Site_patched i a) ?t in
          out = [] \<and> dialog t' = Some (n, m\<lparr>topError := errorMessage e ''Couldn't save your changes.'', saving := False, save_phase := Save_idle\<rparr>)"
    if "dialog ?t = Some (n, m)" "map_of (tab_calls ?t) i = Some (Patching n s)" "receive (updateSitePolicy s JNull) a = Failed e"
    for i n m s a e
  proof -
    let ?u = "(settled i ?t)\<lparr>dialog := Some (n, save_fails e m)\<rparr>"
    have "configuringSite ?u = configuringSite ?t" by (rule configuring_same) simp_all
    then have "sync_dialog ?u = ?u" using ok that(1) by (intro sync) (simp_all add: sites_ok_def)
    then show ?thesis using that by (simp add: sites_step_def site_patched_def on_patched_def save_fails_def)
  qed
  show ?thesis
    using one save refusal run_pays [OF new_sites_ok, of token es] new_sites_calls unfolding Let_def by auto
qed

definition configure_events :: "sites_event list" where
  "configure_events =
     [Sites_mounted, Sites_listed 0 (Returned [example_site]), Configure 7, Dialog (Set_tz ''Asia/Tehran''), Dialog Save]"

lemma configured:
  "let t = fst (tab_run (sites_step ''t'') configure_events new_sites_tab) in
     dialog t = Some (0, (open_modal example_site)\<lparr>draft := (toDraft example_site)\<lparr>d_tz := ''Asia/Tehran''\<rparr>,
       saving := True, topError := [], save_phase := Saving_patch\<rparr>)
     \<and> map_of (tab_calls t) 1 = Some (Patching 0 7) \<and> configuringSite t = Some example_site"
  by (simp add: configure_events_def new_sites_tab_def sites_step_def mount_sites_def refresh_sites_def issue_def settled_def
      sites_listed_def listed_rows_def form_rests_def sync_dialog_def configuringSite_def site_row_of_def example_site_def
      in_dialog_def onSave_def open_modal_def toDraft_def modal_patch_def buildPatch_def nextOrigins_def is_invalid_def
      config_errors_def allowlist_error_def origins_any_def lists_differ_def or_default_def Let_def
      DEFAULT_JURISDICTION_def DEFAULT_MODE_def JURISDICTIONS_def CONSENT_MODES_def MAX_ALLOWED_ORIGINS_def)

theorem configure_save_gate_witness:
  "(let t = fst (tab_run (sites_step ''t'') configure_events new_sites_tab) in
     saves_of 0 t = 1 \<and> snd (sites_step ''t'' (Dialog Save) t) = []
     \<and> map_option (d_tz \<circ> draft \<circ> snd) (dialog (fst (sites_step ''t'' (Site_patched 1 (Rejected ''Failed to fetch'')) t)))
         = Some ''Asia/Tehran'')"
proof -
  have r: "receive (updateSitePolicy 7 JNull) (Rejected ''Failed to fetch'') = Failed (Error ''Failed to fetch'')"
    by (simp add: receive_def api_answer_def)
  have "saves_of 0 t = 1 \<and> snd (sites_step ''t'' (Dialog Save) t) = []
      \<and> map_option (d_tz \<circ> draft \<circ> snd) (dialog (fst (sites_step ''t'' (Site_patched 1 (Rejected ''Failed to fetch'')) t)))
          = Some ''Asia/Tehran''"
    if t: "t = fst (tab_run (sites_step ''t'') configure_events new_sites_tab)" for t
  proof -
    note g = configure_save_gate [where token = "''t''" and es = configure_events, folded t]
    note c = configured [folded t, unfolded Let_def]
    obtain m where m: "dialog t = Some (0, m)" "saving m" "d_tz (draft m) = ''Asia/Tehran''" using c by auto
    have "snd (sites_step ''t'' (Dialog Save) t) = []"
      using conjunct1 [OF conjunct2 [OF g], rule_format, of 0 m example_site] m c by (auto simp: Let_def split_def)
    moreover have "map_option (d_tz \<circ> draft \<circ> snd)
        (dialog (fst (sites_step ''t'' (Site_patched 1 (Rejected ''Failed to fetch'')) t))) = Some ''Asia/Tehran''"
      using conjunct1 [OF conjunct2 [OF conjunct2 [OF g]], rule_format, of 0 m 1 7 "Rejected ''Failed to fetch''"] m c r
      by (auto simp: Let_def split_def)
    ultimately show ?thesis using conjunct1 [OF g] m by simp
  qed
  then show ?thesis by (simp add: Let_def)
qed

section \<open>The tab\<close>

definition dot_sep :: string where
  "dot_sep = '' '' @ middot @ '' ''"

definition jurisdictionSummary :: "AdminSite \<Rightarrow> string" where
  "jurisdictionSummary s =
     (let j = or_default DEFAULT_JURISDICTION (as_jurisdiction s);
          label = (case jurisdiction_of j of Some k \<Rightarrow> jurisdictionLabel k | None \<Rightarrow> [])
      in join dot_sep ([label]
           @ (if as_currency s \<noteq> [] \<and> as_currency s \<noteq> FALLBACK_CURRENCY then [as_currency s] else [])
           @ (if as_tz s \<noteq> [] \<and> as_tz s \<noteq> FALLBACK_TIMEZONE then [as_tz s] else [])))"

definition modeSummary :: "AdminSite \<Rightarrow> string" where
  "modeSummary s =
     (let mode = or_default DEFAULT_MODE (as_consent_mode s);
          origins = length (or_default [] (as_allowed_origins s));
          allowlistEntries = length (or_default [] (as_event_allowlist s))
      in join dot_sep ([mode]
           @ (if 0 < origins
              then [show_nonneg (int origins) @ '' '' @ (if origins = 1 then ''origin'' else ''origins'')] else [])
           @ (if 0 < allowlistEntries
              then [show_nonneg (int allowlistEntries) @ '' allowed '' @ (if allowlistEntries = 1 then ''event'' else ''events'')]
              else [])))"

definition link_el :: "string \<Rightarrow> string \<Rightarrow> 'a vnode" where
  "link_el href label = el ''a'' [(''href'', href), (''target'', ''_blank''), (''rel'', ''noopener'')] [Text label]"

definition JurisdictionNoticeBanner :: "bool option \<Rightarrow> sites_event vnode list" where
  "JurisdictionNoticeBanner visible =
     only_if (visible = Some True)
       (el ''aside'' [(''class'', ''statnive-admin-alert is-notice''), (''role'', ''status'')]
         [el ''span'' [(''class'', ''statnive-admin-alert-glyph''), hidden] [Text [CHR 0xE2, CHR 0x96, CHR 0xB4]],
          el ''span'' []
            [el ''span'' (in_class ''statnive-admin-alert-label'') [Text ''Notice''],
             el ''span'' (in_class ''statnive-admin-alert-body'')
               [strong_el ''Set your jurisdiction.'', Text '' This site runs in the legacy '', code_el ''OTHER-NON-EU'',
                Text '' + '', code_el ''permissive'', Text '' '',
                Text ''backfill: every visit is counted, identifier cookies are set, no rounding. To operate under the EU consent-free or hybrid flow, open the row's '',
                strong_el ''Configure'', Text '' button on the Sites table below. See '', link_el ''/legal/lia'' ''/legal/lia'',
                Text '' '', Text ''and '', link_el ''/legal/privacy-policy/en'' ''/legal/privacy-policy'', Text '' '',
                Text ''for the disclosure surfaces that pair with each mode.''],
             button_when True (in_class ''statnive-chip'') Dismiss_notice [Text ''Got it, don't show again'']]])"

definition class_if :: "bool \<Rightarrow> (string \<times> string) list" where
  "class_if bad = [(''class'', if bad then ''is-invalid'' else [])] @ (if bad then [(''aria-invalid'', ''true'')] else [])"

definition site_input :: "string \<Rightarrow> (string \<times> string) list \<Rightarrow> string \<Rightarrow> site_field \<Rightarrow> bool \<Rightarrow> error_sentence \<Rightarrow> sites_event vnode list \<Rightarrow> sites_event vnode" where
  "site_input lab as v f touched err help =
     (let bad = shown_error touched err in
      el ''label'' []
        [Text lab,
         Elem ''input'' ([(''type'', ''text'')] @ as @ class_if bad @ [(''value'', v)])
           [(''input'', Type_site f), (''blur'', \<lambda>_. Leave_site f)] [],
         field_note bad err help])"

definition site_select ::
    "string \<Rightarrow> string \<Rightarrow> string \<Rightarrow> site_field \<Rightarrow> bool \<Rightarrow> error_sentence \<Rightarrow> sites_event vnode list \<Rightarrow> sites_event vnode list
     \<Rightarrow> sites_event vnode" where
  "site_select lab name v f touched err options help =
     (let bad = shown_error touched err in
      el ''label'' []
        [Text lab,
         Elem ''select'' ([(''aria-label'', name)] @ class_if bad @ [(''value'', v)])
           [(''change'', Type_site f), (''blur'', \<lambda>_. Leave_site f)] options,
         field_note bad err help])"

definition NewSiteForm :: "Sites \<Rightarrow> sites_event vnode" where
  "NewSiteForm t =
     Elem ''form'' [(''class'', ''statnive-admin-new''), (''noValidate'', [])] [(''submit'', \<lambda>_. Submit_site)]
       [el ''h3'' [] [Text ''Add site''],
        site_input ''Hostname'' [(''required'', []), (''placeholder'', ''example.com'')] (ns_hostname t) Site_hostname
          (t_hostname (ns_touched t)) (hostnameError t)
          [Text ''The web address that will load the tracker, for example '', code_el ''example.com'', Text ''. No '',
           code_el ''https://'', Text '', no trailing slash, no path.''],
        site_input ''Slug (optional)'' [(''maxLength'', ''32''), (''placeholder'', ''auto-generated'')] (ns_slug t) Site_slug
          (t_slug (ns_touched t)) (slugError t)
          [Text ''Short identifier used in URLs and exports. Letters, numbers, and hyphens only. Leave empty and we'll generate one from the hostname.''],
        site_select ''Currency'' ''currency'' (ns_currency t) Site_currency (t_currency (ns_touched t)) (currencyError t)
          (only_if (length (currencies t) = 0) (option_el FALLBACK_CURRENCY [Text FALLBACK_CURRENCY])
           @ map currency_option (currencies t))
          [Text ''How revenue numbers are labeled. A display label only; switching does not convert stored values.''],
        site_select ''Timezone'' ''timezone'' (ns_tz t) Site_tz (t_tz (ns_touched t)) (tzError t)
          (only_if (length (timezones t) = 0) (option_el FALLBACK_TIMEZONE [Text FALLBACK_TIMEZONE])
           @ map timezone_option (timezones t))
          [Text ''The zone the date-range picker uses for midnights. Defaults to '', code_el ''Europe/Berlin'', Text ''.''],
        el ''button'' ([(''type'', ''submit'')] @ flag ''disabled'' (form_busy t \<or> site_form_invalid t))
          [Text (if form_busy t then ''Adding'' @ ellipsis else ''Add site'')]]"

definition site_row :: "AdminSite \<Rightarrow> sites_event vnode" where
  "site_row s =
     el ''tr'' []
       [el ''td'' [] [Text (as_hostname s)],
        el ''td'' [] [StatusPill (if as_enabled s then Live_state else Paused)],
        el ''td'' (in_class ''statnive-num-cell'') [Text (as_plan s)],
        el ''td'' [] [Text (jurisdictionSummary s)],
        el ''td'' [] [Text (modeSummary s)],
        el ''td'' []
          [button_when True [] (Toggle_site (as_site_id s)) [Text (if as_enabled s then ''Pause site'' else ''Resume site'')],
           Text '' '',
           button_when True [] (Configure (as_site_id s)) [Text ''Configure '', Text [CHR 0xE2, CHR 0x96, CHR 0xB8]]]]"

definition TrackerInstallCard :: "string \<Rightarrow> 'a vnode" where
  "TrackerInstallCard origin =
     (let snippet = ''<script src='' @ double_quote @ origin @ ''/tracker.js'' @ double_quote @ '' data-statnive-endpoint=''
            @ double_quote @ origin @ ''/api/event'' @ double_quote @ '' async defer></script>''
      in el ''section'' [(''class'', ''statnive-admin-new''), (''aria-labelledby'', ''statnive-tracker-install-h'')]
        [el ''h3'' [(''id'', ''statnive-tracker-install-h'')] [Text ''Tracker install''],
         el ''p'' (in_class ''statnive-admin-hint'')
           [Text ''Paste this once into every site's '', code_el ''<head>'',
            Text ''. The same snippet works for all sites on this installation; the server resolves '', code_el ''site_id'',
            Text '' from the payload hostname.''],
         el ''pre'' (in_class ''statnive-admin-snippet'') [code_el snippet],
         el ''button'' [button_attr, (''class'', ''statnive-chip'')] [Text ''Copy snippet'']])"

definition sites_table_head :: "'a vnode" where
  "sites_table_head =
     el ''thead'' []
       [el ''tr'' [] (map (\<lambda>h. el ''th'' [] [Text h]) [''Hostname'', ''Status'', ''Plan'', ''Jurisdiction'', ''Mode'']
          @ [el ''th'' [(''aria-label'', ''row actions'')] []])]"

definition SitesTab :: "string \<Rightarrow> Sites \<Rightarrow> sites_event vnode" where
  "SitesTab origin t =
     el ''div'' (in_class ''statnive-admin-sites'')
       (JurisdictionNoticeBanner (notice t)
        @ [TrackerInstallCard origin, NewSiteForm t]
        @ only_if (tab_err t \<noteq> []) (error_alert (tab_err t))
        @ [case tab_rows t of
             None \<Rightarrow> el ''p'' [] [Text (''Loading'' @ ellipsis)]
           | Some [] \<Rightarrow> el ''p'' [] [Text ''No sites yet. Add one above; the tracker snippet above already works for it.'']
           | Some (s # ss) \<Rightarrow>
               el ''table'' [(''class'', ''statnive-admin-table''), (''data-testid'', ''admin-sites-table'')]
                 [sites_table_head, el ''tbody'' [] (map site_row (s # ss))]]
        @ (case (configuringSite t, dialog t) of
             (Some s, Some (n, m)) \<Rightarrow> [map_events Dialog (SiteConfigureModal s (currencies t) (timezones t) m)]
           | _ \<Rightarrow> []))"

end
