(* ===== verification/Admin_Panel.thy ===== *)
theory Admin_Panel
  imports Sites_Tab
begin

text \<open>
  The administration panel (\<^verbatim>\<open>panels/Admin.tsx\<close>): its three tabs, of which one is
  mounted, and what their forms, tables and dialog guarantee together.
\<close>

section \<open>The panel\<close>

datatype admin_tab_name = Sites_tab | Users_tab | Goals_tab

datatype admin_event =
    Pick_tab admin_tab_name
  | In_sites sites_event
  | In_users users_event
  | In_goals goals_event

definition tab_button :: "admin_tab_name \<Rightarrow> admin_tab_name \<Rightarrow> string \<Rightarrow> admin_event vnode" where
  "tab_button cur k label =
     Elem ''button''
       [button_attr, (''role'', ''tab''), (''aria-selected'', bool_text (cur = k)),
        (''class'', if cur = k then ''is-active'' else [])]
       [(''click'', \<lambda>_. Pick_tab k)] [Text label]"

definition Admin :: "string \<Rightarrow> Site option \<Rightarrow> admin_tab_name \<Rightarrow> Sites \<Rightarrow> Users \<Rightarrow> Goals \<Rightarrow> admin_event vnode" where
  "Admin origin activeSite tb ss us gs =
     el ''section'' (in_class ''statnive-admin'')
       ((case activeSite of
           Some a \<Rightarrow>
             [el ''div'' [(''class'', ''statnive-admin-context''), (''data-testid'', ''admin-active-site'')]
               [strong_el ''Managing site:'', Text '' '', Text (site_hostname a), Text '' '',
                el ''code'' [] [Text ''(site_id='', Text (show_rat (site_id a)), Text '')'']]]
         | None \<Rightarrow> [])
        @ [el ''div'' [(''class'', ''statnive-admin-tabs''), (''role'', ''tablist'')]
             [tab_button tb Sites_tab ''Sites'', tab_button tb Users_tab ''Users'', tab_button tb Goals_tab ''Goals''],
           if tb = Sites_tab then map_events In_sites (SitesTab origin ss)
           else if tb = Users_tab then map_events In_users (UsersTab us) else map_events In_goals (GoalsTab gs)])"

section \<open>The forms\<close>

lemma new_tabs_ok: "table_ok new_users_tab" "table_ok new_goals_tab" "table_ok new_sites_tab"
  by (simp_all add: table_ok_def form_calls_def new_users_tab_def new_goals_tab_def new_sites_tab_def keys_def)

lemma new_tabs_rest: "\<not> form_busy new_users_tab" "\<not> form_busy new_goals_tab" "\<not> form_busy new_sites_tab"
  by (simp_all add: new_users_tab_def new_goals_tab_def new_sites_tab_def)

text \<open>A tab after a run, against the contract: what was created, and what the form still waits for.\<close>

definition form_contract ::
    "('e \<Rightarrow> ('r, 'z) Table_scheme \<Rightarrow> ('r, 'z) Table_scheme \<times> HttpRequest list) \<Rightarrow> (HttpRequest \<Rightarrow> bool)
     \<Rightarrow> 'e list \<Rightarrow> ('r, 'z) Table_scheme \<Rightarrow> bool" where
  "form_contract step creates es t \<longleftrightarrow>
     (case tab_run step es t of (u, out) \<Rightarrow>
        length (filter creates out) = falls step es t + (if form_busy u then 1 else 0)
        \<and> form_calls u = (if form_busy u then 1 else 0))"

text \<open>
  C14: the three forms of the administration. In every run of a tab, whatever is typed, clicked and
  answered in whatever order: creations are sent one at a time, each after the one before
  it and the listing that follows it were answered; and a form is busy exactly while one request is on
  its way for it, so once everything is answered it can be used again. Each form sends a
  creation only when all its fields are valid.
\<close>

theorem admin_forms_settle:
  "form_contract (users_step token) creates_user ues new_users_tab
   \<and> form_contract (goals_step token) creates_goal ges new_goals_tab
   \<and> form_contract (sites_step token) creates_site ses new_sites_tab
   \<and> snd (submit_user token ut)
       = (if form_busy ut \<or> anyInvalid ut then [] else [send token (createUser (site_now ut) (user_body (site_now ut) ut))])
   \<and> snd (submit_goal token gt)
       = (if form_busy gt \<or> formInvalid gt then [] else [send token (createGoal (site_now gt) (goal_body gt))])
   \<and> snd (submit_site token st)
       = (if form_busy st \<or> site_form_invalid st then [] else [send token (createSite (site_body st))])"
  using users.run_creates [OF new_tabs_ok(1), of token ues] users.run_ok [OF new_tabs_ok(1), of token ues]
    goals.run_creates [OF new_tabs_ok(2), of token ges] goals.run_ok [OF new_tabs_ok(2), of token ges]
    sites.run_creates [OF new_tabs_ok(3), of token ses] sites.run_ok [OF new_tabs_ok(3), of token ses]
  by (simp add: form_contract_def split_def new_tabs_rest table_ok_def submit_user_def submit_goal_def submit_site_def Let_def)

section \<open>Late answers\<close>

text \<open>
  late listings. The tabs do not drop the answer to the listing of a site that is no longer active:
  when it arrives after the current site's, its rows replace the current site's, and stay there
  with nothing more on its way.
\<close>

theorem late_listing_wins:
  assumes "a \<noteq> 0" and "b \<noteq> 0" and "a \<noteq> b"
  shows "(let t = fst (tab_run (users_step token)
              [Users_shown a, Users_shown b, Users_listed 1 (Returned us), Users_listed 0 (Returned vs)] new_users_tab)
          in site_now t = b \<and> tab_rows t = Some vs \<and> tab_calls t = [])
       \<and> (let t = fst (tab_run (goals_step token)
              [Goals_shown a, Goals_shown b, Goals_listed 1 (Returned gs), Goals_listed 0 (Returned hs)] new_goals_tab)
          in site_now t = b \<and> tab_rows t = Some hs \<and> tab_calls t = [])"
  using assms
  by (simp add: new_users_tab_def new_goals_tab_def users_defs keep_snippets_def form_rests_def issue_def settled_def
      site_now_def or_default_def)

theorem late_listing_wins_witness:
  "site_now (fst (tab_run (users_step ''t'')
      [Users_shown 1, Users_shown 2, Users_listed 1 (Returned []), Users_listed 0 (Returned [])] new_users_tab)) = 2"
  using late_listing_wins [of 1 2 "''t''" "[]" "[]" "[]" "[]"] by (simp add: Let_def)

text \<open>
  A save that outlives its dialog. When the patch of one dialog is accepted after it was closed and
  the dialog of another site was opened, that dialog stays as it is only until the refreshed table
  arrives: then it is closed and its draft is lost.
\<close>

theorem late_save_closes:
  assumes "table_ok t" and "map_of (tab_calls t) i = Some (Patching n s)"
    and "dialog t = Some (k, m)" and "k \<noteq> n" and "configuringSite t = Some x"
    and "receive (updateSitePolicy s JNull) a = Returned v"
  shows "(let u = fst (sites_step token (Site_patched i a) t);
              w = fst (sites_step token (Sites_listed (next_call t) r) u)
          in dialog u = Some (k, m) \<and> dialog w = None \<and> configuringSiteID w = None)"
proof -
  have fresh: "map_of (filter (\<lambda>(j, _). j \<noteq> i) (tab_calls t)) (next_call t) = None"
    using assms(1) by (force simp: table_ok_def list_all_iff map_of_eq_None_iff)
  let ?u = "issue (Listing 0 (The_dialog n)) ((settled i t)\<lparr>dialog := Some (k, m)\<rparr>)"
  have "configuringSite ?u = Some x"
    using assms(5) by (cases "configuringSiteID t") (simp_all add: configuringSite_def site_row_of_def issue_def settled_def)
  then have u: "fst (sites_step token (Site_patched i a) t) = ?u"
    using assms(2-4,6) by (simp add: sites_step_def site_patched_def refresh_sites_def sync_dialog_def Let_def
        settled_def issue_def split: option.split)
  have call: "map_of (tab_calls ?u) (next_call t) = Some (Listing 0 (The_dialog n))"
    using fresh by (simp add: map_add_def)
  have d: "dialog ?u = Some (k, m)" by (simp add: issue_def)
  have "dialog (fst (sites_step token (Sites_listed (next_call t) r) ?u)) = None
      \<and> configuringSiteID (fst (sites_step token (Sites_listed (next_call t) r) ?u)) = None"
    unfolding sites_step_def sites_react.simps call
    by (simp add: sites_listed_def sync_dialog_def configuringSite_def Let_def)
  then show ?thesis unfolding Let_def u using d by blast
qed

end
