(* ===== verification/Tables.thy ===== *)
theory Tables
  imports Html Widgets Chart
begin

text \<open>
  The panels that show their answer as tables and tiles: the overview
  (\<^verbatim>\<open>panels/Overview.tsx\<close>) with its trend (\<^verbatim>\<open>TrendChart.tsx\<close>), the pages
  (\<^verbatim>\<open>Pages.tsx\<close>), the search days (\<^verbatim>\<open>SEO.tsx\<close>), the sources
  (\<^verbatim>\<open>Sources.tsx\<close>, \<^verbatim>\<open>SourcesByChannelChart.tsx\<close>,
  \<^verbatim>\<open>PieSummaryList.tsx\<close>) and the realtime counters (\<^verbatim>\<open>Realtime.tsx\<close>), as
  functions of the state their requests are in. How a currency is written is a parameter, and so is the
  drawing of a chart.
\<close>

section \<open>Charts and bars\<close>

text \<open>
  The chart component: one instance for the life of the element, which gets every new option. Options
  are told apart by a number, as the source tells them apart by identity.
\<close>

record ChartState =
  instance_live :: bool
  option_given :: "nat option"

datatype chart_event = Chart_shown nat json | Chart_resized nat | Chart_unmounted

datatype chart_call = Init_chart | Set_option json | Resize_chart | Dispose_chart

fun chart_step :: "chart_event \<Rightarrow> ChartState \<Rightarrow> ChartState \<times> chart_call list" where
  "chart_step (Chart_shown i opt) c =
     (\<lparr>instance_live = True, option_given = Some i\<rparr>,
      (if instance_live c then [] else [Init_chart]) @ (if option_given c = Some i then [] else [Set_option opt]))"
| "chart_step (Chart_resized width) c = (c, if instance_live c \<and> 0 < width then [Resize_chart] else [])"
| "chart_step Chart_unmounted c =
     (\<lparr>instance_live = False, option_given = None\<rparr>, if instance_live c then [Dispose_chart] else [])"

definition Chart_box :: "nat option \<Rightarrow> 'a vnode" where
  "Chart_box height =
     el ''div''
       [(''class'', ''statnive-chart''), (''style'', ''height:'' @ show_nonneg (int (or_default 220 height)) @ ''px'')] []"

definition lazy_chart :: "Importer \<Rightarrow> nat \<Rightarrow> 'a vnode" where
  "lazy_chart imp height = LazyChart (Chart_box (Some height)) imp"

definition bar_row :: "string \<Rightarrow> string \<Rightarrow> string \<Rightarrow> 'a vnode" where
  "bar_row kind width lab =
     el ''div'' (in_class ''statnive-dualbar-row'')
       [el ''span'' (in_class ''statnive-dualbar-track'')
          [el ''span'' [(''class'', ''statnive-dualbar-fill '' @ kind), (''style'', ''width:'' @ width)] []],
        el ''span'' (in_class ''statnive-dualbar-value'') [Text lab]]"

definition int_text :: "int \<Rightarrow> string" where
  "int_text n = fmtInt (of_int n)"

definition DualBar :: "money_fn \<Rightarrow> int \<Rightarrow> int \<Rightarrow> int \<Rightarrow> int \<Rightarrow> string \<Rightarrow> 'a vnode" where
  "DualBar money vs rv maxVisitors maxRevenue cur =
     el ''div'' (in_class ''statnive-dualbar'')
       [bar_row ''is-visitors'' (pctOfMax vs maxVisitors) (int_text vs),
        bar_row ''is-revenue'' (pctOfMax rv maxRevenue) (money (of_int rv) cur 0)]"

definition captioned :: "Filters \<Rightarrow> 'a vnode list" where
  "captioned f = (case SegmentCaption ''Showing'' f of Some v \<Rightarrow> [v] | None \<Rightarrow> [])"

definition th_plain :: "string \<Rightarrow> 'a vnode" where
  "th_plain t = el ''th'' [(''scope'', ''col'')] [Text t]"

definition td :: "'a vnode list \<Rightarrow> 'a vnode" where
  "td cs = el ''td'' [] cs"

definition td_int :: "int \<Rightarrow> 'a vnode" where
  "td_int n = td [Text (int_text n)]"

text \<open>What a panel shows without rows: an error, that it is loading, or its own sentence.\<close>

definition empty_note :: "string \<Rightarrow> string \<Rightarrow> 'a vnode" where
  "empty_note title note = panel_note title ''statnive-empty'' note"

definition with_data :: "string \<Rightarrow> string option \<Rightarrow> 'd option \<Rightarrow> ('d \<Rightarrow> 'a vnode) \<Rightarrow> 'a vnode" where
  "with_data title err data body =
     (if truthy err then error_note title else (case data of None \<Rightarrow> loading_note title | Some d \<Rightarrow> body d))"

text \<open>\<^verbatim>\<open>s.includes(p)\<close>.\<close>

fun has_substring :: "string \<Rightarrow> string \<Rightarrow> bool" where
  "has_substring p [] = (p = [])"
| "has_substring p (c # s) = (prefix p (c # s) \<or> has_substring p s)"

section \<open>The overview\<close>

definition conversionPct :: "OverviewResult \<Rightarrow> rat" where
  "conversionPct d =
     (if 0 < OverviewResult.visitors d then percent_of (OverviewResult.goals d) (OverviewResult.visitors d) else 0)"

text \<open>The label of a tile, and the tile; its number grows or shrinks when the server says by how much.\<close>

definition kpi_label :: "string \<Rightarrow> 'a vnode" where
  "kpi_label lab =
     el ''div'' (in_class ''statnive-label'')
       [el ''span'' [(''class'', ''statnive-card-dot''), hidden] [], Text lab]"

definition KpiCard :: "MetricId \<Rightarrow> string \<Rightarrow> string \<Rightarrow> bool \<Rightarrow> rat option \<Rightarrow> MetricId list \<Rightarrow> action vnode" where
  "KpiCard i lab v primary deltaPct selected =
     (let isActive = (i \<in> set selected) in
      Elem ''button''
        [button_attr, (''class'', ''statnive-card'' @ (if isActive then '' is-active'' else [])),
         (''data-kpi'', metric_name i), (''aria-pressed'', bool_text isActive),
         (''aria-label'', ''Toggle '' @ lab @ '' on chart'')]
        [(''click'', \<lambda>_. Store_action (Toggle i))]
        [if primary
         then el ''div'' (in_class ''statnive-card-head'')
           (kpi_label lab # (case DeltaPill deltaPct None of Some p \<Rightarrow> [p] | None \<Rightarrow> []))
         else kpi_label lab,
         el ''div'' (in_class (if primary then ''statnive-num-primary'' else ''statnive-num-secondary'')) [Text v]])"

definition TrendChart ::
    "Importer \<Rightarrow> string option \<Rightarrow> DailyPoint list option \<Rightarrow> 'a vnode list" where
  "TrendChart imp err data =
     (if truthy err then []
      else (case data of
              None \<Rightarrow> []
            | Some _ \<Rightarrow>
                [el ''div'' [(''data-testid'', ''overview-trend''), (''style'', ''margin-top:var(--s-3)'')]
                   [lazy_chart imp 180]]))"

text \<open>The option the chart of the trend gets.\<close>

definition trend_option ::
    "(string \<Rightarrow> string) \<Rightarrow> money_fn \<Rightarrow> bool \<Rightarrow> EChartsTheme \<Rightarrow> string \<Rightarrow> Filters \<Rightarrow> DailyPoint list option
     \<Rightarrow> (json \<times> (LineParams list \<Rightarrow> string option)) option" where
  "trend_option locale_date money reduced theme currency f data =
     map_option (\<lambda>rs. applyReducedMotion reduced
       (metricsLineOption locale_date rs (selectedMetrics f) (buildMetricSpecs money theme currency) theme)) data"

definition active_currency :: "Site option \<Rightarrow> string" where
  "active_currency a = (case a of Some s \<Rightarrow> site_currency s | None \<Rightarrow> ''EUR'')"

definition overview_body ::
    "money_fn \<Rightarrow> Importer \<Rightarrow> (MetricId \<Rightarrow> rat option) \<Rightarrow> Site option \<Rightarrow> rat \<Rightarrow> string \<times> string \<Rightarrow> Filters
     \<Rightarrow> action vnode list \<Rightarrow> OverviewResult \<Rightarrow> action vnode" where
  "overview_body money imp deltas site siteId rg f trend d =
     (let selected = selectedMetrics f; cur = active_currency site in
      el ''section'' (in_class ''statnive-section'')
        ([el ''h2'' (in_class ''statnive-h2'') [Text ''Overview'']] @ captioned f
         @ [el ''div'' [(''data-testid'', ''kpi-primary''), (''class'', ''statnive-kpi-grid-primary'')]
              [KpiCard Visitors ''Visitors'' (int_text (OverviewResult.visitors d)) True (deltas Visitors) selected,
               KpiCard Conversion ''Conversion'' (fmtPct (conversionPct d)) True (deltas Conversion) selected,
               KpiCard Revenue ''Revenue'' (money (of_int (OverviewResult.revenue d)) cur 0) True (deltas Revenue) selected,
               KpiCard Rpv ''RPV'' (money (OverviewResult.rpv d) cur 2) True (deltas Rpv) selected],
            el ''div'' [(''data-testid'', ''kpi-secondary''), (''class'', ''statnive-kpi-grid-secondary'')]
              [KpiCard Pageviews ''Pageviews'' (int_text (OverviewResult.pageviews d)) False None selected,
               KpiCard Goals ''Goals'' (int_text (OverviewResult.goals d)) False None selected]]
         @ trend
         @ [el ''p'' (in_class ''statnive-meta'')
              [Text ''site='', Text (show_rat siteId), Text '' '', Text middot, Text '' '', Text (fst rg), Text '' '',
               Text [CHR 0xE2, CHR 0x86, CHR 0x92], Text '' '', Text (snd rg), Text '' '', Text middot,
               Text '' refresh page to reload'']]))"

definition Overview ::
    "money_fn \<Rightarrow> Importer \<Rightarrow> (MetricId \<Rightarrow> rat option) \<Rightarrow> Site option \<Rightarrow> rat \<Rightarrow> string \<times> string \<Rightarrow> Filters
     \<Rightarrow> action vnode list \<Rightarrow> string option \<Rightarrow> OverviewResult option \<Rightarrow> action vnode" where
  "Overview money imp deltas site siteId rg f trend err data =
     with_data ''Overview'' err data (overview_body money imp deltas site siteId rg f trend)"

section \<open>Pages\<close>

definition page_row :: "money_fn \<Rightarrow> string \<Rightarrow> int \<Rightarrow> int \<Rightarrow> PageRow \<Rightarrow> action vnode" where
  "page_row money cur maxVisitors maxRevenue r =
     el ''tr'' []
       [td [Text (PageRow.pathname r)],
        td_int (PageRow.views r),
        td_int (PageRow.goals r),
        td [Text (money (PageRow.rpv r) cur 2)],
        td [DualBar money (PageRow.visitors r) (PageRow.revenue r) maxVisitors maxRevenue cur]]"

text \<open>The panel's own state is its limit; the one button raises it.\<close>

datatype pages_action = Page_action action | Show_all

definition raise_limit :: "nat \<Rightarrow> nat" where
  "raise_limit l = 100"

definition pages_body :: "money_fn \<Rightarrow> Site option \<Rightarrow> Filters \<Rightarrow> nat \<Rightarrow> PageRow list \<Rightarrow> pages_action vnode" where
  "pages_body money site f limit rs =
     (if length rs = 0 then empty_note ''Pages'' ''No page data for this range / filter.''
      else
        let mv = rowMax rs PageRow.visitors; mr = rowMax rs PageRow.revenue; cur = active_currency site in
        el ''section'' [(''class'', ''statnive-section''), (''data-testid'', ''panel-pages'')]
          ([el ''h2'' (in_class ''statnive-h2'') [Text ''Pages'']] @ captioned f
           @ [map_events Page_action
                (el ''table'' (in_class ''statnive-table'')
                  [el ''thead'' []
                     [el ''tr'' []
                        [SortHeader ''Pathname'' ''pathname'' f, SortHeader ''Views'' ''views'' f, SortHeader ''Goals'' ''goals'' f,
                         SortHeader ''RPV'' ''rpv'' f, DualSortHeader f]],
                   el ''tbody'' [] (map (page_row money cur mv mr) rs)])]
           @ only_if (limit < 100)
               (Elem ''button'' [button_attr, (''class'', ''statnive-chip''), (''style'', ''margin-top:var(--s-2)'')]
                  [(''click'', \<lambda>_. Show_all)] [Text ''Show all (up to 100)''])))"

definition Pages ::
    "money_fn \<Rightarrow> Site option \<Rightarrow> Filters \<Rightarrow> nat \<Rightarrow> string option \<Rightarrow> PageRow list option \<Rightarrow> pages_action vnode" where
  "Pages money site f limit err data = with_data ''Pages'' err data (pages_body money site f limit)"

section \<open>Search days\<close>

text \<open>The member of a row with a name, and how two are compared; an unknown name reads undefined.\<close>

definition seo_member :: "string \<Rightarrow> SEORow \<Rightarrow> jsval" where
  "seo_member key r =
     (if key = ''day'' then Str (SEORow.day r)
      else if key = ''views'' then Num (Fin (of_int (SEORow.views r)))
      else if key = ''visitors'' then Num (Fin (of_int (SEORow.visitors r)))
      else if key = ''goals'' then Num (Fin (of_int (SEORow.goals r)))
      else if key = ''revenue'' then Num (Fin (of_int (SEORow.revenue r)))
      else Undefined)"

definition js_String :: "jsval \<Rightarrow> string" where
  "js_String v = (case v of Undefined \<Rightarrow> ''undefined'' | Null \<Rightarrow> ''null'' | _ \<Rightarrow> string_of v)"

definition compare_members :: "(string \<Rightarrow> string \<Rightarrow> rat) \<Rightarrow> rat \<Rightarrow> jsval \<Rightarrow> jsval \<Rightarrow> rat" where
  "compare_members localeCompare sign av bv =
     (case (av, bv) of
        (Num (Fin x), Num (Fin y)) \<Rightarrow> (x - y) * sign
      | _ \<Rightarrow> localeCompare (js_String av) (js_String bv) * sign)"

definition sortedRows :: "(string \<Rightarrow> string \<Rightarrow> rat) \<Rightarrow> Filters \<Rightarrow> SEORow list \<Rightarrow> SEORow list" where
  "sortedRows localeCompare f rs =
     (if sort f = [] then rs
      else let sign = (if dirOf f = Asc then 1 else -1) in
        sort_by (\<lambda>a b. compare_members localeCompare sign (seo_member (sort f) a) (seo_member (sort f) b) \<le> 0) rs)"

definition seo_option ::
    "(string \<Rightarrow> string) \<Rightarrow> bool \<Rightarrow> EChartsTheme \<Rightarrow> SEORow list option \<Rightarrow> (json \<times> (LineParams list \<Rightarrow> string)) option" where
  "seo_option locale_date reduced theme data =
     (case data of
        None \<Rightarrow> None
      | Some rs \<Rightarrow> if 0 < length rs then Some (applyReducedMotion reduced (visitorLineOption locale_date rs theme)) else None)"

definition seo_row :: "money_fn \<Rightarrow> string \<Rightarrow> SEORow \<Rightarrow> 'a vnode" where
  "seo_row money cur r =
     el ''tr'' []
       [td [Text (take 10 (SEORow.day r))], td_int (SEORow.views r), td_int (SEORow.visitors r), td_int (SEORow.goals r),
        td [Text (money (of_int (SEORow.revenue r)) cur 0)]]"

definition seo_body ::
    "money_fn \<Rightarrow> (string \<Rightarrow> string \<Rightarrow> rat) \<Rightarrow> Importer \<Rightarrow> Site option \<Rightarrow> Filters \<Rightarrow> SEORow list \<Rightarrow> action vnode" where
  "seo_body money localeCompare imp site f rs =
     (if length rs = 0 then empty_note ''SEO'' ''No organic-search data for this range.''
      else
        el ''section'' [(''class'', ''statnive-section''), (''data-testid'', ''panel-seo'')]
          ([el ''h2'' (in_class ''statnive-h2'') [Text ''SEO'']] @ captioned f
           @ [lazy_chart imp 240,
              el ''table'' [(''class'', ''statnive-table''), (''style'', ''margin-top:var(--s-3)'')]
                [el ''thead'' []
                   [el ''tr'' []
                      [SortHeader ''Day'' ''day'' f, SortHeader ''Views'' ''views'' f, SortHeader ''Visitors'' ''visitors'' f,
                       SortHeader ''Goals'' ''goals'' f, SortHeader ''Revenue'' ''revenue'' f]],
                 el ''tbody'' [] (map (seo_row money (active_currency site)) (sortedRows localeCompare f rs))]]))"

definition SEO ::
    "money_fn \<Rightarrow> (string \<Rightarrow> string \<Rightarrow> rat) \<Rightarrow> Importer \<Rightarrow> Site option \<Rightarrow> Filters \<Rightarrow> string option \<Rightarrow> SEORow list option
     \<Rightarrow> action vnode" where
  "SEO money localeCompare imp site f err data = with_data ''SEO'' err data (seo_body money localeCompare imp site f)"

section \<open>Realtime\<close>

definition count_or_dot :: "int option \<Rightarrow> string" where
  "count_or_dot n = (case n of Some k \<Rightarrow> int_text k | None \<Rightarrow> middot)"

definition Realtime :: "Filters \<Rightarrow> string option \<Rightarrow> RealtimeResult option \<Rightarrow> 'a vnode" where
  "Realtime f err data =
     (if truthy err then error_note ''Realtime''
      else
        el ''section'' [(''class'', ''statnive-section''), (''data-testid'', ''panel-realtime'')]
          ([el ''h2'' (in_class ''statnive-h2'') [Text ''Realtime'']] @ captioned f
           @ [el ''div'' (in_class ''statnive-realtime'')
                [el ''div'' (in_class ''statnive-realtime-card'')
                   [el ''div'' (in_class ''statnive-realtime-live'') [LivePulse (Some ''Live''), Text ''LIVE''],
                    el ''div'' (in_class ''statnive-label'') [Text ''Active visitors (current hour)''],
                    el ''div'' [(''class'', ''statnive-realtime-big''), (''data-testid'', ''realtime-active'')]
                      [Text (count_or_dot (map_option RealtimeResult.active_visitors data))]],
                 el ''div'' (in_class ''statnive-realtime-card'')
                   [el ''div'' (in_class ''statnive-label'') [Text ''Pageviews last hour''],
                    el ''div'' (in_class ''statnive-realtime-med'')
                      [Text (count_or_dot (map_option RealtimeResult.pageviews_last_hr data))]]],
              el ''p'' (in_class ''statnive-meta'')
                [Text ''auto-refresh every 10s '', Text middot, Text '' pauses when tab is hidden'']]))"

section \<open>Sources\<close>

text \<open>The referrers by channel, as the source groups them: a map filled row by row.\<close>

definition push_row :: "('r \<Rightarrow> string) \<Rightarrow> (string, 'r list) omap \<Rightarrow> 'r \<Rightarrow> (string, 'r list) omap" where
  "push_row key m r =
     (case map_of m (key r) of
        Some arr \<Rightarrow> omap_set (key r) (arr @ [r]) m
      | None \<Rightarrow> omap_set (key r) [r] m)"

definition channel_groups :: "SourceRow list \<Rightarrow> (string, SourceRow list) omap" where
  "channel_groups rs = foldl (push_row SourceRow.channel) [] rs"

definition channel_rows :: "SourceRow list \<Rightarrow> SourceChannelRow \<Rightarrow> SourceRow list" where
  "channel_rows rs ch = or_default [] (map_of (channel_groups rs) (SourceChannelRow.channel ch))"

type_synonym expanded = "(string, bool) omap"

definition toggle_channel :: "string \<Rightarrow> expanded \<Rightarrow> expanded" where
  "toggle_channel c e = omap_set c (\<not> or_default False (map_of e c)) e"

datatype sources_action = Source_action action | Toggle_channel string

definition source_row :: "money_fn \<Rightarrow> string \<Rightarrow> int \<times> int \<Rightarrow> bool \<Rightarrow> string \<Rightarrow> SourceRow \<Rightarrow> 'a vnode" where
  "source_row money cur mx isOpen detailId r =
     el ''tr'' ([(''class'', ''statnive-channel-detail''), (''id'', detailId)] @ flag ''hidden'' (\<not> isOpen))
       [el ''td'' [(''class'', ''statnive-channel-chevron-col''), hidden] [],
        el ''td'' (in_class ''statnive-referrer-cell'')
          [Text (if SourceRow.referrer_name r \<noteq> [] then SourceRow.referrer_name r else ''(direct)'')],
        td_int (SourceRow.views r),
        td_int (SourceRow.goals r),
        td [Text (money (SourceRow.rpv r) cur 2)],
        td [DualBar money (SourceRow.visitors r) (SourceRow.revenue r) (fst mx) (snd mx) cur]]"

definition channel_head :: "money_fn \<Rightarrow> string \<Rightarrow> int \<times> int \<Rightarrow> bool \<Rightarrow> bool \<Rightarrow> string \<Rightarrow> SourceChannelRow \<Rightarrow> sources_action vnode" where
  "channel_head money cur mx isOpen hasRows detailId ch =
     (let c = SourceChannelRow.channel ch in
      Elem ''tr''
        ([(''class'', ''statnive-channel-row'')]
         @ (if hasRows then [(''aria-expanded'', bool_text isOpen), (''aria-controls'', detailId)] else [(''aria-disabled'', ''true'')])
         @ [(''tabIndex'', if hasRows then ''0'' else ''-1''), (''data-channel'', c)])
        (if hasRows then [(''click'', \<lambda>_. Toggle_channel c)] else [])
        [el ''td'' (in_class ''statnive-channel-chevron-col'')
           [if hasRows then el ''span'' [(''class'', ''statnive-chevron''), hidden] [] else el ''span'' [hidden] [Text middot]],
         td [el ''span'' [(''class'', ''statnive-channel-chip statnive-channel-chip-lg''), (''data-channel'', c)]
               [Text (if c \<noteq> [] then c else middot)]],
         td_int (SourceChannelRow.views ch),
         td_int (SourceChannelRow.goals ch),
         td [Text (money (SourceChannelRow.rpv ch) cur 2)],
         td [DualBar money (SourceChannelRow.visitors ch) (SourceChannelRow.revenue ch) (fst mx) (snd mx) cur]])"

text \<open>The keys that act like a click on the row of a channel.\<close>

definition opens_row :: "string \<Rightarrow> bool" where
  "opens_row key \<longleftrightarrow> key = ''Enter'' \<or> key = '' ''"

definition ChannelGroup ::
    "money_fn \<Rightarrow> string \<Rightarrow> int \<times> int \<Rightarrow> int \<times> int \<Rightarrow> bool \<Rightarrow> string \<Rightarrow> SourceChannelRow \<Rightarrow> SourceRow list
     \<Rightarrow> sources_action vnode list" where
  "ChannelGroup money cur channelMaxes referrerMaxes isOpen detailId ch rs =
     channel_head money cur channelMaxes isOpen (0 < length rs) detailId ch
     # map (source_row money cur referrerMaxes isOpen detailId) rs"

definition SourcesTable ::
    "money_fn \<Rightarrow> string \<Rightarrow> Filters \<Rightarrow> expanded \<Rightarrow> SourceRow list \<Rightarrow> SourceChannelRow list \<Rightarrow> sources_action vnode" where
  "SourcesTable money cur f e rs byChannel =
     (let channelMaxes = (rowMax byChannel SourceChannelRow.visitors, rowMax byChannel SourceChannelRow.revenue);
          referrerMaxes = (rowMax rs SourceRow.visitors, rowMax rs SourceRow.revenue)
      in el ''table'' (in_class ''statnive-table statnive-sources-table'')
        [el ''thead'' []
           [el ''tr'' []
              (el ''th'' [(''scope'', ''col''), (''class'', ''statnive-channel-chevron-col''), hidden] []
               # map (map_events Source_action)
                   [SortHeader ''Channel'' ''channel'' f, SortHeader ''Views'' ''views'' f, SortHeader ''Goals'' ''goals'' f,
                    SortHeader ''RPV'' ''rpv'' f, DualSortHeader f])],
         el ''tbody'' []
           (concat (map_index (\<lambda>ch i.
              ChannelGroup money cur channelMaxes referrerMaxes (or_default False (map_of e (SourceChannelRow.channel ch)))
                (''statnive-channel-detail-'' @ show_nonneg (int i)) ch (channel_rows rs ch)) byChannel))])"

section \<open>Sources by channel\<close>

record PieSummaryRow =
  ps_channel :: string
  ps_value :: int
  ps_pct :: rat
  ps_color :: string

definition summary ::
    "SourceChannelRow list \<Rightarrow> int \<Rightarrow> (SourceChannelRow \<Rightarrow> int) \<Rightarrow> EChartsTheme \<Rightarrow> PieSummaryRow list" where
  "summary byChannel tot pick theme =
     (if tot \<le> 0 then []
      else sort_by (\<lambda>a b. ps_value b - ps_value a \<le> 0)
        (filter (\<lambda>row. 0 < ps_value row)
          (map_index (\<lambda>r i. \<lparr>ps_channel = SourceChannelRow.channel r, ps_value = pick r, ps_pct = percent_of (pick r) tot,
                             ps_color = pieHueForChannel (SourceChannelRow.channel r) i theme\<rparr>) byChannel)))"

definition total_of :: "(SourceChannelRow \<Rightarrow> int) \<Rightarrow> SourceChannelRow list \<Rightarrow> int" where
  "total_of pick byChannel = foldl (\<lambda>t r. t + pick r) 0 byChannel"

definition summary_item :: "(int \<Rightarrow> string) \<Rightarrow> PieSummaryRow \<Rightarrow> 'a vnode" where
  "summary_item formatValue row =
     el ''li'' [(''class'', ''statnive-pie-summary-row''), (''data-channel'', ps_channel row)]
       [el ''span'' [(''class'', ''statnive-pie-summary-swatch''), (''style'', ''background:'' @ ps_color row), hidden] [],
        el ''span'' (in_class ''statnive-pie-summary-name'') [Text (if ps_channel row \<noteq> [] then ps_channel row else middot)],
        el ''span'' [(''class'', ''statnive-pie-summary-bar''), hidden]
          [el ''span'' [(''class'', ''statnive-pie-summary-fill''),
              (''style'', ''width:'' @ show_rat (ps_pct row) @ ''%;background:'' @ ps_color row)] []],
        el ''span'' (in_class ''statnive-pie-summary-pct'')
          [Text (fmtSharePct (ps_pct row)),
           el ''span'' (in_class ''statnive-pie-summary-raw'') [Text '' ('', Text (formatValue (ps_value row)), Text '')'']],
        el ''span'' (in_class ''statnive-sr-only'') [Text (formatValue (ps_value row))]]"

definition PieSummaryList :: "(int \<Rightarrow> string) \<Rightarrow> PieSummaryRow list \<Rightarrow> 'a vnode" where
  "PieSummaryList formatValue rs = el ''ul'' (in_class ''statnive-pie-summary-list'') (map (summary_item formatValue) rs)"

definition PieCard ::
    "Importer \<Rightarrow> string \<Rightarrow> string \<Rightarrow> bool \<Rightarrow> PieSummaryRow list \<Rightarrow> (int \<Rightarrow> string) \<Rightarrow> string \<Rightarrow> 'a vnode" where
  "PieCard imp lab totalDisplay showChart rs formatValue testId =
     el ''article'' [(''class'', ''statnive-pie-card''), (''data-testid'', testId)]
       [el ''div'' (in_class ''statnive-pie-chart-wrap'')
          [if showChart
           then el ''div'' [hidden, (''class'', ''statnive-pie-chart-canvas'')] [lazy_chart imp 240]
           else el ''div'' [(''class'', ''statnive-pie-chart-empty''), hidden] [],
           el ''div'' [(''class'', ''statnive-pie-center''), hidden]
             [el ''span'' (in_class ''statnive-pie-center-label'') [Text lab],
              el ''span'' [(''class'', ''statnive-pie-center-value''), (''data-fit'', [])] [Text totalDisplay]]],
        el ''div'' (in_class ''statnive-pie-summary'')
          [el ''header'' (in_class ''statnive-pie-summary-head'') [el ''span'' [] [Text ''TOP CHANNELS''], el ''span'' [] [Text lab]],
           PieSummaryList formatValue rs]]"

definition channel_line :: "money_fn \<Rightarrow> string \<Rightarrow> SourceChannelRow \<Rightarrow> 'a vnode" where
  "channel_line money cur r =
     el ''tr'' []
       [td [Text (SourceChannelRow.channel r)], td_int (SourceChannelRow.visitors r),
        td [Text (money (of_int (SourceChannelRow.revenue r)) cur 0)], td [Text (money (SourceChannelRow.rpv r) cur 2)]]"

definition SourcesByChannelChart ::
    "money_fn \<Rightarrow> Importer \<Rightarrow> EChartsTheme \<Rightarrow> string \<Rightarrow> SourceChannelRow list \<Rightarrow> 'a vnode" where
  "SourcesByChannelChart money imp theme cur byChannel =
     (let vt = total_of SourceChannelRow.views byChannel; rt = total_of SourceChannelRow.revenue byChannel;
          show_money = (\<lambda>v. money (of_int v) cur 0)
      in if length byChannel = 0
         then el ''p'' [(''class'', ''statnive-empty''), (''data-testid'', ''sources-by-channel-empty'')]
           [Text ''No channel data for this range.'']
         else el ''figure''
           [(''class'', ''statnive-channel-pies''), (''role'', ''group''), (''aria-labelledby'', ''sources-pies-cap''),
            (''data-testid'', ''sources-by-channel-chart'')]
           [el ''figcaption'' [(''id'', ''sources-pies-cap''), (''class'', ''statnive-sr-only'')]
              [Text ''Share of views and revenue by channel. Precise values in the table below.''],
            el ''div'' (in_class ''statnive-pies-grid'')
              [PieCard imp ''VIEWS'' (if 0 < vt then int_text vt else ''No views'') (0 < vt)
                 (summary byChannel vt SourceChannelRow.views theme) int_text ''views-pie'',
               PieCard imp ''REVENUE'' (if 0 < rt then show_money rt else ''No revenue'') (0 < rt)
                 (summary byChannel rt SourceChannelRow.revenue theme) show_money ''revenue-pie''],
            el ''table'' (in_class ''statnive-sr-only'')
              [el ''caption'' [] [Text ''Per-channel visitors, revenue, and RPV''],
               el ''thead'' [] [el ''tr'' [] (map th_plain [''Channel'', ''Visitors'', ''Revenue'', ''RPV''])],
               el ''tbody'' [] (map (channel_line money cur) byChannel)]])"

definition sources_body ::
    "money_fn \<Rightarrow> Importer \<Rightarrow> EChartsTheme \<Rightarrow> Site option \<Rightarrow> Filters \<Rightarrow> expanded \<Rightarrow> SourcesResponse \<Rightarrow> sources_action vnode" where
  "sources_body money imp theme site f e resp =
     (if length (SourcesResponse.rows resp) = 0 \<and> length (SourcesResponse.by_channel resp) = 0
      then empty_note ''Sources'' ''No source data for this range / filter.''
      else let cur = active_currency site in
        el ''section'' [(''class'', ''statnive-section''), (''data-testid'', ''panel-sources'')]
          ([el ''h2'' (in_class ''statnive-h2'') [Text ''Sources'']] @ captioned f
           @ [SourcesByChannelChart money imp theme cur (SourcesResponse.by_channel resp),
              SourcesTable money cur f e (SourcesResponse.rows resp) (SourcesResponse.by_channel resp)]))"

definition Sources ::
    "money_fn \<Rightarrow> Importer \<Rightarrow> EChartsTheme \<Rightarrow> Site option \<Rightarrow> Filters \<Rightarrow> expanded \<Rightarrow> string option \<Rightarrow> SourcesResponse option
     \<Rightarrow> sources_action vnode" where
  "Sources money imp theme site f e err data = with_data ''Sources'' err data (sources_body money imp theme site f e)"

section \<open>What the panels show\<close>

lemma groups_fold:
  "map_of (foldl (push_row key) m rs) c
     = (if filter (\<lambda>r. key r = c) rs = [] then map_of m c
        else Some (or_default [] (map_of m c) @ filter (\<lambda>r. key r = c) rs))"
proof (induction rs arbitrary: m)
  case (Cons r rs)
  show ?case
    unfolding foldl_Cons Cons.IH
    by (auto simp: push_row_def map_of_omap_set or_default_def split: option.split)
qed simp

lemma groups_are_filters:
  "channel_rows rs ch = filter (\<lambda>r. SourceRow.channel r = SourceChannelRow.channel ch) rs"
  using groups_fold [of SourceRow.channel "[]" rs "SourceChannelRow.channel ch"]
  by (simp add: channel_rows_def channel_groups_def or_default_def)

lemma groups_fun:
  "channel_rows rs = (\<lambda>ch. filter (\<lambda>r. SourceRow.channel r = SourceChannelRow.channel ch) rs)"
  by (rule ext) (rule groups_are_filters)

lemma mset_partition:
  "distinct cs \<Longrightarrow>
     mset (concat (map (\<lambda>c. filter (\<lambda>r. f r = c) rs) cs)) = mset (filter (\<lambda>r. f r \<in> set cs) rs)"
proof (induction cs)
  case (Cons c cs)
  have "mset (filter (\<lambda>r. f r \<in> set (c # cs)) rs)
      = mset (filter (\<lambda>r. f r = c) rs) + mset (filter (\<lambda>r. f r \<in> set cs) rs)"
    using Cons.prems by (induction rs) auto
  with Cons show ?case by simp
qed simp

text \<open>
  What a table shows: its elements of a class, the texts of the cells of a row, and the rows that
  are not hidden.
\<close>

definition of_class :: "string \<Rightarrow> 'a vnode \<Rightarrow> 'a vnode list" where
  "of_class c v = filter (\<lambda>e. attr ''class'' e = Some c) (elements v)"

fun cells :: "'a vnode \<Rightarrow> string list" where
  "cells (Text s) = []"
| "cells (Elem t as hs cs) = map text_of cs"

definition shown :: "'a vnode \<Rightarrow> bool" where
  "shown v \<longleftrightarrow> attr ''hidden'' v = None"

abbreviation detail_rows :: "'a vnode \<Rightarrow> 'a vnode list" where
  "detail_rows \<equiv> of_class ''statnive-channel-detail''"

abbreviation head_rows :: "'a vnode \<Rightarrow> 'a vnode list" where
  "head_rows \<equiv> of_class ''statnive-channel-row''"

text \<open>The cells that state a referrer.\<close>

definition source_cells :: "money_fn \<Rightarrow> string \<Rightarrow> SourceRow \<Rightarrow> string list" where
  "source_cells money cur r =
     [[], if SourceRow.referrer_name r = [] then ''(direct)'' else SourceRow.referrer_name r,
      int_text (SourceRow.views r), int_text (SourceRow.goals r), money (SourceRow.rpv r) cur 2,
      int_text (SourceRow.visitors r) @ money (of_int (SourceRow.revenue r)) cur 0]"

definition in_channel :: "SourceRow list \<Rightarrow> SourceChannelRow \<Rightarrow> SourceRow list" where
  "in_channel rs ch = filter (\<lambda>r. SourceRow.channel r = SourceChannelRow.channel ch) rs"

definition opened :: "expanded \<Rightarrow> SourceChannelRow \<Rightarrow> bool" where
  "opened e ch = or_default False (map_of e (SourceChannelRow.channel ch))"

definition toggles_of :: "sources_action list \<Rightarrow> string list" where
  "toggles_of as = concat (map (\<lambda>a. case a of Toggle_channel c \<Rightarrow> [c] | Source_action x \<Rightarrow> []) as)"

lemma of_class_el: "of_class c (el t as cs) = (if map_of as ''class'' = Some c then [el t as cs] else []) @ concat (map (of_class c) cs)"
  by (simp add: of_class_def [abs_def] el_def filter_concat o_def)

lemma of_class_Elem:
  "of_class c (Elem t as hs cs) = (if map_of as ''class'' = Some c then [Elem t as hs cs] else []) @ concat (map (of_class c) cs)"
  by (simp add: of_class_def [abs_def] filter_concat o_def)

lemma of_class_Text [simp]: "of_class c (Text s) = []"
  by (simp add: of_class_def)

lemmas source_trees =
  of_class_el of_class_Elem source_row_def channel_head_def td_def td_int_def DualBar_def bar_row_def in_class_def
  flag_def hidden_def Let_def

lemma source_row_rows:
  "detail_rows (source_row money cur mx b i r) = [source_row money cur mx b i r]"
  "head_rows (source_row money cur mx b i r) = []"
  by (simp_all add: source_trees)

lemma channel_head_rows:
  "detail_rows (channel_head money cur mx b h i ch) = []"
  "head_rows (channel_head money cur mx b h i ch) = [channel_head money cur mx b h i ch]"
  by (simp_all add: source_trees)

lemma source_row_cells: "cells (source_row money cur mx b i r) = source_cells money cur r"
  by (simp add: source_row_def source_cells_def el_def td_def td_int_def DualBar_def bar_row_def)

lemma source_row_shown: "shown (source_row money cur mx b i r) \<longleftrightarrow> b"
  by (simp add: shown_def source_row_def el_def flag_def)

lemma header_rows:
  "of_class c (map_events Source_action (SortHeader l col f)) = []"
  "of_class c (map_events Source_action (DualSortHeader f)) = []"
  if "c \<in> {''statnive-channel-detail'', ''statnive-channel-row''}"
  using that by (auto simp: of_class_Elem SortHeader_def DualSortHeader_def SortGlyph_def Let_def button_attr_def)

lemma ChannelGroup_rows:
  "concat (map detail_rows (ChannelGroup money cur cm rm b i ch rs)) = map (source_row money cur rm b i) rs"
  "concat (map head_rows (ChannelGroup money cur cm rm b i ch rs)) = [channel_head money cur cm b (rs \<noteq> []) i ch]"
  by (simp_all add: ChannelGroup_def channel_head_rows source_row_rows o_def concat_map_singleton)

lemma toggles_of_append [simp]: "toggles_of (xs @ ys) = toggles_of xs @ toggles_of ys"
  by (simp add: toggles_of_def)

lemma toggles_of_simps [simp]:
  "toggles_of [] = []" "toggles_of (Toggle_channel c # as) = c # toggles_of as"
  "toggles_of (Source_action x # as) = toggles_of as"
  by (simp_all add: toggles_of_def)

lemma toggles_of_concat: "toggles_of (concat xss) = concat (map toggles_of xss)"
  by (induction xss) simp_all

lemma clicks_el [simp]: "clicks (el t as cs) = concat (map clicks cs)"
  by (simp add: el_def)

lemma header_toggles:
  "toggles_of (clicks (map_events Source_action (SortHeader l col f))) = []"
  "toggles_of (clicks (map_events Source_action (DualSortHeader f))) = []"
  by (simp_all add: SortHeader_def DualSortHeader_def SortGlyph_def Let_def)

lemma ChannelGroup_toggles:
  "concat (map (\<lambda>v. toggles_of (clicks v)) (ChannelGroup money cur cm rm b i ch rs))
     = (if rs = [] then [] else [SourceChannelRow.channel ch])"
proof -
  have "clicks (source_row money cur mx b i r) = ([] :: sources_action list)" for mx r
    by (simp add: source_row_def td_def td_int_def DualBar_def bar_row_def)
  moreover have "toggles_of (clicks (channel_head money cur cm b h i ch)) = (if h then [SourceChannelRow.channel ch] else [])" for h
    by (simp add: channel_head_def td_def td_int_def DualBar_def bar_row_def Let_def)
  ultimately show ?thesis by (simp add: ChannelGroup_def o_def)
qed

text \<open>The body, group by group.\<close>

lemma concat_map_groups:
  "concat (map g (concat (map (\<lambda>(i, ch). G ch i) (enumerate n xs))))
     = concat (map (\<lambda>(i, ch). concat (map g (G ch i))) (enumerate n xs))"
  by (induction xs arbitrary: n) simp_all


lemma concat_enumerate: "concat (map (\<lambda>(i, ch). h ch) (enumerate n xs)) = concat (map h xs)"
  by (induction xs arbitrary: n) simp_all

definition source_body_row :: "money_fn \<Rightarrow> string \<Rightarrow> expanded \<Rightarrow> SourceRow list \<Rightarrow> nat \<Rightarrow> SourceChannelRow \<Rightarrow> SourceRow \<Rightarrow> sources_action vnode" where
  "source_body_row money cur e rs i ch =
     source_row money cur (rowMax rs SourceRow.visitors, rowMax rs SourceRow.revenue) (opened e ch)
       (''statnive-channel-detail-'' @ show_nonneg (int i))"

lemma table_detail_rows:
  "detail_rows (SourcesTable money cur f e rs byChannel)
     = concat (map (\<lambda>(i, ch). map (source_body_row money cur e rs i ch) (in_channel rs ch)) (enumerate 0 byChannel))"
  by (simp add: SourcesTable_def Let_def of_class_el in_class_def header_rows map_index_def concat_map_groups
      ChannelGroup_rows source_body_row_def opened_def groups_are_filters in_channel_def hidden_def)

lemma table_head_rows:
  "map (attr ''data-channel'') (head_rows (SourcesTable money cur f e rs byChannel))
     = map (\<lambda>ch. Some (SourceChannelRow.channel ch)) byChannel"
proof -
  have "attr ''data-channel'' (channel_head money cur cm b h i ch) = Some (SourceChannelRow.channel ch)" for cm b h i ch
    by (simp add: channel_head_def Let_def)
  then have "map (attr ''data-channel'') (concat (map (\<lambda>(i, ch). [channel_head money cur cm (b ch) (h ch) (d i) ch]) (enumerate n byChannel)))
     = map (\<lambda>ch. Some (SourceChannelRow.channel ch)) byChannel" for cm b h n and d :: "nat \<Rightarrow> string"
    by (induction byChannel arbitrary: n) simp_all
  then show ?thesis
    by (simp add: SourcesTable_def Let_def of_class_el in_class_def header_rows map_index_def concat_map_groups
        ChannelGroup_rows hidden_def)
qed

lemma groups_toggles:
  "toggles_of (concat (map clicks (concat (map_index (\<lambda>ch i.
       ChannelGroup money cur cm rm (b ch) (d i) ch (channel_rows rs ch)) byChannel))))
     = map SourceChannelRow.channel (filter (\<lambda>ch. in_channel rs ch \<noteq> []) byChannel)"
proof -
  have "toggles_of (concat (map clicks (concat (map (\<lambda>(i, ch).
       ChannelGroup money cur cm rm (b ch) (d i) ch (in_channel rs ch)) (enumerate n byChannel)))))
     = map SourceChannelRow.channel (filter (\<lambda>ch. in_channel rs ch \<noteq> []) byChannel)" for n
    by (induction byChannel arbitrary: n) (simp_all add: toggles_of_concat o_def ChannelGroup_toggles)
  then show ?thesis by (simp add: map_index_def groups_are_filters flip: in_channel_def)
qed

lemma table_toggles:
  "toggles_of (clicks (SourcesTable money cur f e rs byChannel))
     = map SourceChannelRow.channel (filter (\<lambda>ch. in_channel rs ch \<noteq> []) byChannel)"
  by (simp add: SourcesTable_def Let_def header_toggles groups_toggles)

lemma body_row_cells: "cells (source_body_row money cur e rs i ch r) = source_cells money cur r"
  by (simp add: source_body_row_def source_row_cells)

lemma body_row_shown: "shown (source_body_row money cur e rs i ch r) \<longleftrightarrow> opened e ch"
  by (simp add: source_body_row_def source_row_shown)

lemma table_cells:
  "map cells (detail_rows (SourcesTable money cur f e rs byChannel))
     = map (source_cells money cur) (concat (map (in_channel rs) byChannel))"
proof -
  have "map cells (concat (map (\<lambda>(i, ch). map (source_body_row money cur e rs i ch) (in_channel rs ch)) (enumerate n byChannel)))
     = map (source_cells money cur) (concat (map (in_channel rs) byChannel))" for n
    by (induction byChannel arbitrary: n) (simp_all add: body_row_cells)
  then show ?thesis by (simp add: table_detail_rows)
qed

lemma table_shown_cells:
  "map cells (filter shown (detail_rows (SourcesTable money cur f e rs byChannel)))
     = map (source_cells money cur) (concat (map (in_channel rs) (filter (opened e) byChannel)))"
proof -
  have "map cells (filter shown (concat (map (\<lambda>(i, ch). map (source_body_row money cur e rs i ch) (in_channel rs ch)) (enumerate n byChannel))))
     = map (source_cells money cur) (concat (map (in_channel rs) (filter (opened e) byChannel)))" for n
    by (induction byChannel arbitrary: n) (simp_all add: body_row_cells body_row_shown filter_map o_def)
  then show ?thesis by (simp add: table_detail_rows)
qed

lemma opened_toggle: "opened (toggle_channel c e) ch \<longleftrightarrow> opened e ch \<noteq> (SourceChannelRow.channel ch = c)"
  by (auto simp: opened_def toggle_channel_def map_of_omap_set or_default_def)

lemma table_opened:
  "SourcesTable money cur f e rs byChannel = SourcesTable money cur f e' rs byChannel" if "\<And>ch. opened e ch = opened e' ch"
  using that by (simp add: SourcesTable_def opened_def)

text \<open>
  C17: the table of sources, on the rendered tree. There is one header row per channel, in the server's order. With
  the channels listed once, there is exactly one detail row for every referrer of a listed channel, and
  none for any other, grouped by channel and in the server's order within each, with its name or ``(direct)'', its
  numbers and its money in the cells. The detail rows that are not hidden are those of the opened channels.
  Exactly the header rows of channels with a referrer answer a click, with a toggle of their channel; a toggle
  shows or hides the rows of that channel and no others, and a second one restores the table.
\<close>

theorem sources_table_rows:
  fixes money cur f e rs byChannel c
  assumes "distinct (map SourceChannelRow.channel byChannel)"
  defines "T \<equiv> \<lambda>o'. SourcesTable money cur f o' rs byChannel"
  shows "map (attr ''data-channel'') (head_rows (T e)) = map (\<lambda>ch. Some (SourceChannelRow.channel ch)) byChannel
     \<and> map cells (detail_rows (T e))
        = map (source_cells money cur)
            (concat (map (\<lambda>ch. filter (\<lambda>r. SourceRow.channel r = SourceChannelRow.channel ch) rs) byChannel))
     \<and> mset (map cells (detail_rows (T e)))
        = mset (map (source_cells money cur) (filter (\<lambda>r. SourceRow.channel r \<in> SourceChannelRow.channel ` set byChannel) rs))
     \<and> map cells (filter shown (detail_rows (T e)))
        = map (source_cells money cur)
            (concat (map (\<lambda>ch. filter (\<lambda>r. SourceRow.channel r = SourceChannelRow.channel ch) rs) (filter (opened e) byChannel)))
     \<and> toggles_of (clicks (T e))
        = filter (\<lambda>d. d \<in> SourceRow.channel ` set rs) (map SourceChannelRow.channel byChannel)
     \<and> map cells (filter shown (detail_rows (T (toggle_channel c e))))
        = map (source_cells money cur)
            (concat (map (\<lambda>ch. filter (\<lambda>r. SourceRow.channel r = SourceChannelRow.channel ch) rs)
              (filter (\<lambda>ch. opened e ch \<noteq> (SourceChannelRow.channel ch = c)) byChannel)))
     \<and> T (toggle_channel c (toggle_channel c e)) = T e"
proof -
  have picked: "in_channel rs = (\<lambda>ch. filter (\<lambda>r. SourceRow.channel r = SourceChannelRow.channel ch) rs)"
    by (rule ext) (simp add: in_channel_def)
  have "concat (map (in_channel rs) byChannel)
      = concat (map (\<lambda>c. filter (\<lambda>r. SourceRow.channel r = c) rs) (map SourceChannelRow.channel byChannel))"
    by (simp add: picked o_def)
  then have listed: "mset (concat (map (in_channel rs) byChannel))
      = mset (filter (\<lambda>r. SourceRow.channel r \<in> SourceChannelRow.channel ` set byChannel) rs)"
    using mset_partition [OF assms(1), of SourceRow.channel rs] by simp
  have rows: "in_channel rs ch \<noteq> [] \<longleftrightarrow> SourceChannelRow.channel ch \<in> SourceRow.channel ` set rs" for ch
    by (force simp: in_channel_def filter_empty_conv)
  have again: "opened (toggle_channel c (toggle_channel c e)) ch = opened e ch" for ch
    by (auto simp: opened_toggle)
  show ?thesis
    unfolding T_def
    by (simp add: table_head_rows table_cells table_shown_cells table_toggles listed opened_toggle [abs_def] rows
        filter_map o_def table_opened [OF again] flip: picked)
qed

definition example_channel :: "string \<Rightarrow> SourceChannelRow" where
  "example_channel c =
     \<lparr>SourceChannelRow.channel = c, views = 3, visitors = 2, goals = 1, revenue = 10, rpv = 5\<rparr>"

definition example_source :: "string \<Rightarrow> string \<Rightarrow> SourceRow" where
  "example_source n c =
     \<lparr>SourceRow.referrer_name = n, channel = c, views = 3, visitors = 2, goals = 1, revenue = 10, rpv = 5\<rparr>"

theorem sources_table_rows_witness:
  "(let rs = [example_source ''x'' ''Email'', example_source [] ''Direct'', example_source ''z'' ''Email'']; 
        T = SourcesTable (\<lambda>x c d. ''5'') ''EUR'' EMPTY_FILTERS [(''Email'', True)] rs
              (map example_channel [''Direct'', ''Email'', ''Social''])
    in map (\<lambda>r. cells r ! 1) (detail_rows T) = [''(direct)'', ''x'', ''z'']
     \<and> map (\<lambda>r. cells r ! 1) (filter shown (detail_rows T)) = [''x'', ''z'']
     \<and> toggles_of (clicks T) = [''Direct'', ''Email''])"
proof -
  have d: "distinct (map SourceChannelRow.channel (map example_channel [''Direct'', ''Email'', ''Social'']))"
    by (simp add: example_channel_def)
  have nth: "map (\<lambda>r. cells r ! 1) xs = map (\<lambda>c. c ! 1) (map cells xs)" for xs :: "sources_action vnode list"
    by simp
  note T = sources_table_rows [OF d, of "\<lambda>x c d. ''5''" "''EUR''" EMPTY_FILTERS "[(''Email'', True)]"
      "[example_source ''x'' ''Email'', example_source [] ''Direct'', example_source ''z'' ''Email'']"]
  show ?thesis
    unfolding Let_def nth T [THEN conjunct2, THEN conjunct1]
      T [THEN conjunct2, THEN conjunct2, THEN conjunct2, THEN conjunct1]
      T [THEN conjunct2, THEN conjunct2, THEN conjunct2, THEN conjunct2, THEN conjunct1]
    by (simp add: example_channel_def example_source_def source_cells_def opened_def or_default_def)
qed

lemma total_sum: "foldl (\<lambda>t r. t + f r) (s::int) rs = s + sum_list (map f rs)"
  by (induction rs arbitrary: s) simp_all

lemma total_nonneg: "list_all (\<lambda>r. 0 \<le> f r) rs \<Longrightarrow> 0 \<le> sum_list (map f rs)" for f :: "'r \<Rightarrow> int"
  by (induction rs) simp_all

lemma pick_le_total:
  "list_all (\<lambda>r. 0 \<le> f r) rs \<Longrightarrow> r \<in> set rs \<Longrightarrow> f r \<le> sum_list (map f rs)" for f :: "'r \<Rightarrow> int"
proof (induction rs)
  case (Cons q rs)
  then show ?case using total_nonneg [of f rs] by auto
qed simp

lemma map_filter_index:
  "map g (filter (\<lambda>(i, x). P x) (enumerate n xs)) = map h (filter P xs)" if "\<And>i x. g (i, x) = h x"
  by (induction xs arbitrary: n) (simp_all add: that)

text \<open>
  the summary beside a donut. With no negative value, its rows are the channels with a positive
  value, each once with the server's number, largest first; every share lies between 0 and 100
  per cent.
\<close>

theorem channel_summary_spec:
  assumes "list_all (\<lambda>r. 0 \<le> pick r) byChannel"
  shows "(let rs = summary byChannel (total_of pick byChannel) pick theme in
       sorted_wrt (\<lambda>a b. ps_value b \<le> ps_value a) rs
       \<and> mset (map (\<lambda>r. (ps_channel r, ps_value r)) rs)
          = mset (map (\<lambda>r. (SourceChannelRow.channel r, pick r)) (filter (\<lambda>r. 0 < pick r) byChannel))
       \<and> list_all (\<lambda>r. 0 \<le> ps_pct r \<and> ps_pct r \<le> 100) rs)"
proof -
  let ?t = "total_of pick byChannel"
  let ?row = "\<lambda>r i. \<lparr>ps_channel = SourceChannelRow.channel r, ps_value = pick r, ps_pct = percent_of (pick r) ?t,
      ps_color = pieHueForChannel (SourceChannelRow.channel r) i theme\<rparr>"
  let ?rows = "filter (\<lambda>row. 0 < ps_value row) (map_index ?row byChannel)"
  have t: "?t = sum_list (map pick byChannel)" by (simp add: total_of_def total_sum)
  have nonneg: "0 \<le> ?t" unfolding t by (rule total_nonneg [OF assms])
  have filt: "map (\<lambda>r. (ps_channel r, ps_value r)) ?rows
      = map (\<lambda>r. (SourceChannelRow.channel r, pick r)) (filter (\<lambda>r. 0 < pick r) byChannel)"
    unfolding map_index_def filter_map map_map o_def
    by (simp add: case_prod_beta map_filter_index [of _ _ "\<lambda>r. 0 < pick r", unfolded case_prod_beta])
  show ?thesis
  proof (cases "?t = 0")
    case True
    then have "filter (\<lambda>r. 0 < pick r) byChannel = []"
      using pick_le_total [OF assms] by (fastforce simp: t filter_empty_conv)
    then show ?thesis using True by (simp add: summary_def)
  next
    case False
    have s: "summary byChannel ?t pick theme = sort_by (\<lambda>a b. ps_value b - ps_value a \<le> 0) ?rows"
      using False nonneg by (simp add: summary_def)
    have "0 \<le> percent_of (pick r) ?t \<and> percent_of (pick r) ?t \<le> 100" if "r \<in> set byChannel" for r
      using percent_of_bounds [of "pick r" ?t] pick_le_total [OF assms that] assms that False nonneg
      by (auto simp: t list_all_iff)
    then have "list_all (\<lambda>r. 0 \<le> ps_pct r \<and> ps_pct r \<le> 100) ?rows"
      by (auto simp: list_all_iff map_index_def in_set_enumerate_eq)
    moreover have "sorted_wrt (\<lambda>a b. ps_value b - ps_value a \<le> 0) (sort_by (\<lambda>a b. ps_value b - ps_value a \<le> 0) ?rows)"
      by (rule sorted_sort_by) auto
    ultimately show ?thesis using filt unfolding Let_def s by (simp add: list_all_iff flip: filt)
  qed
qed

theorem channel_summary_spec_witness:
  "mset (map (\<lambda>r. (ps_channel r, ps_value r))
      (summary [example_channel ''Direct''] (total_of SourceChannelRow.views [example_channel ''Direct''])
        SourceChannelRow.views (readEChartsTheme None))) = {#(''Direct'', 3)#}"
  using channel_summary_spec [of SourceChannelRow.views "[example_channel ''Direct'']" "readEChartsTheme None"]
  by (simp add: Let_def example_channel_def)

definition seo_number :: "string \<Rightarrow> SEORow \<Rightarrow> rat" where
  "seo_number key r = (case seo_member key r of Num (Fin x) \<Rightarrow> x | _ \<Rightarrow> 0)"

lemma seo_numeric:
  "key \<in> {''views'', ''visitors'', ''goals'', ''revenue''} \<Longrightarrow> seo_member key r = Num (Fin (seo_number key r))"
  by (auto simp: seo_number_def seo_member_def)

text \<open>
  the days of the search panel. Sorted by a number, in either direction, the table shows the
  server's days, each once, in that order; without a sort it keeps the server's order. (The chart
  above it always has the server's order.)
\<close>

theorem seo_rows_sorted:
  assumes "sort f \<in> {''views'', ''visitors'', ''goals'', ''revenue''}"
  shows "sorted_wrt (\<lambda>a b. if dirOf f = Asc then seo_number (sort f) a \<le> seo_number (sort f) b
                           else seo_number (sort f) b \<le> seo_number (sort f) a) (sortedRows localeCompare f rs)
    \<and> mset (sortedRows localeCompare f rs) = mset rs
    \<and> sortedRows localeCompare (f\<lparr>sort := []\<rparr>) rs = rs"
proof -
  let ?le = "\<lambda>a b. if dirOf f = Asc then seo_number (sort f) a \<le> seo_number (sort f) b
                   else seo_number (sort f) b \<le> seo_number (sort f) a"
  have "sort f \<noteq> []" using assms by auto
  then have "sortedRows localeCompare f rs = sort_by ?le rs"
    unfolding sortedRows_def Let_def seo_numeric [OF assms]
    by (auto simp: compare_members_def intro!: arg_cong2 [where f = sort_by] ext)
  moreover have "sorted_wrt ?le (sort_by ?le rs)" by (rule sorted_sort_by) (auto split: if_splits)
  ultimately show ?thesis by (simp add: sortedRows_def)
qed

definition example_day :: "int \<Rightarrow> SEORow" where
  "example_day n = \<lparr>SEORow.day = ''2026-01-01'', views = n, visitors = n, goals = 0, revenue = 0\<rparr>"

theorem seo_rows_sorted_witness:
  "mset (sortedRows (\<lambda>_ _. 0) (EMPTY_FILTERS\<lparr>sort := ''views''\<rparr>) [example_day 3, example_day 7])
     = {#example_day 3, example_day 7#}"
  using seo_rows_sorted [of "EMPTY_FILTERS\<lparr>sort := ''views''\<rparr>" "\<lambda>_ _. 0" "[example_day 3, example_day 7]"] by simp

lemma no_clicks:
  "concat (map clicks (captioned f)) = []"
  "clicks (kpi_label t :: action vnode) = []"
  "DeltaPill p vs = Some v \<Longrightarrow> clicks v = []"
proof -
  have part: "clicks (caption_part i p) = []" for i p by (cases p) (auto simp: caption_part_def)
  show "concat (map clicks (captioned f)) = []"
    by (auto simp: captioned_def SegmentCaption_def Let_def part split: option.splits if_splits)
  show "clicks (kpi_label t :: action vnode) = []" by (simp add: kpi_label_def el_def)
  show "DeltaPill p vs = Some v \<Longrightarrow> clicks v = []"
    by (auto simp: DeltaPill_def Let_def split: option.splits)
qed

lemma clicks_card: "clicks (KpiCard i lab v primary p sel) = [Store_action (Toggle i)]"
proof (cases "DeltaPill p None :: action vnode option")
  case None
  then show ?thesis by (simp add: KpiCard_def Let_def clicks_el no_clicks(2))
next
  case (Some v)
  then show ?thesis using no_clicks(3) [OF Some] by (simp add: KpiCard_def Let_def clicks_el no_clicks(2))
qed

text \<open>
  the tiles of the overview. The panel offers exactly the six metrics, each as a toggle of that
  metric, in a fixed order with the pageviews behind the figures about revenue, whatever the server
  answers; a tile is pressed exactly when its metric is drawn; and the conversion is a share
  of 0 to 100 per cent for any counts with no more goals than visitors, 0 without visitors.
\<close>

theorem overview_tiles:
  assumes "0 \<le> OverviewResult.goals d" and "OverviewResult.goals d \<le> OverviewResult.visitors d"
  shows "clicks (overview_body money imp deltas site siteId rg f trend d)
       = map (\<lambda>m. Store_action (Toggle m)) [Visitors, Conversion, Revenue, Rpv, Pageviews, Goals] @ concat (map clicks trend)
     \<and> attr ''aria-pressed'' (KpiCard i lab v primary p (selectedMetrics f)) = Some (bool_text (i \<in> set (selectedMetrics f)))
     \<and> 0 \<le> conversionPct d \<and> conversionPct d \<le> 100"
proof -
  have "0 \<le> conversionPct d \<and> conversionPct d \<le> 100"
    using percent_of_bounds [OF assms] by (simp add: conversionPct_def)
  moreover have "clicks (overview_body money imp deltas site siteId rg f trend d)
       = map (\<lambda>m. Store_action (Toggle m)) [Visitors, Conversion, Revenue, Rpv, Pageviews, Goals] @ concat (map clicks trend)"
    by (simp add: overview_body_def Let_def clicks_el clicks_card no_clicks)
  ultimately show ?thesis by (simp add: KpiCard_def Let_def button_attr_def)
qed

theorem overview_tiles_witness:
  "conversionPct \<lparr>OverviewResult.pageviews = 10, visitors = 4, goals = 1, revenue = 0, rpv = 0\<rparr> \<le> 100"
  using overview_tiles [of "\<lparr>OverviewResult.pageviews = 10, visitors = 4, goals = 1, revenue = 0, rpv = 0\<rparr>"] by simp

end
