(* ===== verification/CampaignView.thy ===== *)
theory CampaignView
  imports Tables
begin

text \<open>
  The campaigns panel: the expandable tree of \<^verbatim>\<open>panels/Campaigns.tsx\<close> with the set of
  expanded keys and its clean-up, and the donut and the ranking above it
  (\<^verbatim>\<open>CampaignCharts.tsx\<close>).
\<close>

section \<open>The tree and the expanded keys\<close>

definition campaign_tree :: "(string \<Rightarrow> string \<Rightarrow> rat) \<Rightarrow> Filters \<Rightarrow> CampaignRow list option \<Rightarrow> forest" where
  "campaign_tree localeCompare f rs =
     (case rs of
        None \<Rightarrow> []
      | Some rs \<Rightarrow>
          let built = buildCampaignTree rs in
          (case map_of CAMPAIGN_SORT_KEYS (sort f) of
             Some key \<Rightarrow> sortCampaignTree localeCompare built key (dirOf f = Asc)
           | None \<Rightarrow> built))"

text \<open>The set of expanded keys, in the order they were added.\<close>

definition toggle_key :: "string \<Rightarrow> string list \<Rightarrow> string list" where
  "toggle_key k e = (if k \<in> set e then filter (\<lambda>x. x \<noteq> k) e else e @ [k])"

definition tree_keys :: "forest \<Rightarrow> string list" where
  "tree_keys ts = map (\<lambda>n. pathKey (data_of n)) (treeNodes ts)"

definition drop_stale :: "CampaignRow list option \<Rightarrow> forest \<Rightarrow> string list \<Rightarrow> string list" where
  "drop_stale rs ts e =
     (if rs = None then e
      else if list_ex (\<lambda>k. k \<notin> set (tree_keys ts)) e then filter (\<lambda>k. k \<in> set (tree_keys ts)) e else e)"

section \<open>Rows\<close>

fun level_name :: "CampaignTreeLevel \<Rightarrow> string" where
  "level_name Campaign = ''campaign''"
| "level_name Source = ''source''"
| "level_name Medium = ''medium''"
| "level_name Content = ''content''"

definition VISITORS_TOOLTIP :: string where
  "VISITORS_TOOLTIP =
     ''Sum across child UTM combos; approximate when the same visitor used multiple combos.''"

record RenderCtx =
  ctx_expanded :: "string list"
  ctx_money :: money_fn
  ctx_maxVisitors :: int
  ctx_maxRevenue :: int
  ctx_currency :: string

datatype campaigns_action = Campaign_action action | Toggle_key string

definition chevron :: "bool \<Rightarrow> NodeData \<Rightarrow> campaigns_action vnode" where
  "chevron isOpen d =
     Elem ''button''
       [button_attr, (''class'', ''statnive-tree-chevron''), (''aria-expanded'', bool_text isOpen),
        (''aria-label'', (if isOpen then ''Collapse'' else ''Expand'') @ '' '' @ node_label d)]
       [(''click'', \<lambda>_. Toggle_key (pathKey d))]
       [Text (if isOpen then [CHR 0xE2, CHR 0x96, CHR 0xBE] else [CHR 0xE2, CHR 0x96, CHR 0xB8])]"

definition term_chips :: "NodeData \<Rightarrow> 'a vnode list" where
  "term_chips d =
     only_if (level d = Content \<and> 0 < length (terms d))
       (el ''span'' [(''class'', ''statnive-tree-terms''), (''title'', ''utm_term values'')]
         (map (\<lambda>t. el ''span'' (in_class ''statnive-tree-term-chip'') [Text t]) (terms d)))"

definition tree_row :: "RenderCtx \<Rightarrow> nat \<Rightarrow> bool \<Rightarrow> bool \<Rightarrow> NodeData \<Rightarrow> campaigns_action vnode" where
  "tree_row ctx depth hasChildren isOpen d =
     el ''tr'' [(''data-level'', level_name (level d)), (''class'', ''statnive-tree-row is-'' @ level_name (level d))]
       [td [el ''span'' [(''class'', ''statnive-tree-indent''), (''style'', ''padding-left:'' @ show_nonneg (int (depth * 18)) @ ''px'')]
             ([if hasChildren then chevron isOpen d else el ''span'' (in_class ''statnive-tree-chevron-spacer'') [],
               el ''span'' (in_class ''statnive-tree-label'') [Text (node_label d)]] @ term_chips d)],
        td_int (views d),
        el ''td'' (if 0 < depth \<or> hasChildren then [(''title'', VISITORS_TOOLTIP)] else []) [Text (int_text (visitors d))],
        td_int (goals d),
        td [Text (ctx_money ctx (rpv d) (ctx_currency ctx) 2)],
        td [DualBar (ctx_money ctx) (visitors d) (revenue d) (ctx_maxVisitors ctx) (ctx_maxRevenue ctx) (ctx_currency ctx)]]"

function renderNode :: "CampaignTreeNode \<Rightarrow> nat \<Rightarrow> RenderCtx \<Rightarrow> campaigns_action vnode list" where
  "renderNode (Node d cs) depth ctx =
     (let hasChildren = (0 < length cs); isOpen = (pathKey d \<in> set (ctx_expanded ctx)) in
      tree_row ctx depth hasChildren isOpen d
      # (if hasChildren \<and> isOpen then concat (map (\<lambda>(k, n). renderNode n (depth + 1) ctx) cs) else []))"
  by pat_completeness auto
termination by (relation "measure (\<lambda>(n, depth, ctx). size n)") (auto simp: size_child)

text \<open>The nodes on the screen with their depths: those all of whose ancestors are expanded.\<close>

function visible :: "(string \<Rightarrow> bool) \<Rightarrow> nat \<Rightarrow> CampaignTreeNode \<Rightarrow> (CampaignTreeNode \<times> nat) list" where
  "visible open' depth (Node d cs) =
     (Node d cs, depth) # (if open' (pathKey d) then concat (map (\<lambda>(k, n). visible open' (depth + 1) n) cs) else [])"
  by pat_completeness auto
termination by (relation "measure (\<lambda>(open', depth, n). size n)") (auto simp: size_child)

definition node_row :: "RenderCtx \<Rightarrow> CampaignTreeNode \<times> nat \<Rightarrow> campaigns_action vnode" where
  "node_row ctx nd =
     (case nd of (n, depth) \<Rightarrow>
       tree_row ctx depth (0 < length (children n)) (pathKey (data_of n) \<in> set (ctx_expanded ctx)) (data_of n))"

section \<open>The charts above\<close>

definition TOP_N :: nat where "TOP_N = 8"

definition ChannelSummary ::
    "CampaignRow list \<Rightarrow> bool \<Rightarrow> EChartsTheme \<Rightarrow> PieSummaryRow list" where
  "ChannelSummary rs showRevenue theme =
     (let totals = by_channel_totals (\<lambda>r. if showRevenue then row_revenue r else row_visitors r) rs;
          entries = filter (\<lambda>(_, v). 0 < v) totals;
          tot = foldl (\<lambda>s (_, v). s + v) 0 entries
      in if tot = 0 then []
         else sort_by (\<lambda>a b. ps_value b - ps_value a \<le> 0)
           (map_index (\<lambda>(ch, v) i. \<lparr>ps_channel = ch, ps_value = v, ps_pct = percent_of v tot, ps_color = pieHueForChannel ch i theme\<rparr>)
             entries))"

definition pad2 :: "nat \<Rightarrow> string" where
  "pad2 n = (let s = show_nonneg (int n) in replicate (2 - length s) (CHR ''0'') @ s)"

definition rank_row :: "money_fn \<Rightarrow> string \<Rightarrow> RankedCampaign \<Rightarrow> 'a vnode" where
  "rank_row money cur r =
     el ''li'' (in_class ''statnive-rank-list-row'')
       [el ''span'' (in_class ''statnive-rank-list-rank'') [Text (pad2 (rank r))],
        el ''span'' [(''class'', ''statnive-rank-list-swatch''), (''style'', ''background:'' @ rank_color r), hidden] [],
        el ''span'' [(''class'', ''statnive-rank-list-label''), (''title'', rank_label r)] [Text (rank_label r)],
        el ''span'' [(''class'', ''statnive-rank-list-bar''), hidden]
          [el ''span'' [(''class'', ''statnive-rank-list-fill''),
             (''style'', ''width:'' @ show_rat (pctOfTop r) @ ''%;background:'' @ rank_color r)] []],
        el ''span'' (in_class ''statnive-rank-list-value'') [Text (money (of_int (rank_value r)) cur 0)]]"

definition rank_line :: "money_fn \<Rightarrow> string \<Rightarrow> RankedCampaign \<Rightarrow> 'a vnode" where
  "rank_line money cur r =
     el ''tr'' []
       [td [Text (show_nonneg (int (rank r)))], td [Text (rank_label r)], td [Text (money (of_int (rank_value r)) cur 0)]]"

definition tree_total :: "(NodeData \<Rightarrow> int) \<Rightarrow> forest \<Rightarrow> int" where
  "tree_total pick ts = foldl (\<lambda>t (k, n). t + pick (data_of n)) 0 ts"

definition rank_section :: "money_fn \<Rightarrow> string \<Rightarrow> RankedCampaign list \<Rightarrow> 'a vnode" where
  "rank_section money cur ranked =
     el ''section'' [(''class'', ''statnive-rank-list''), (''data-testid'', ''campaign-chart-rank'')]
       [el ''header'' (in_class ''statnive-rank-list-head'')
          [el ''p'' (in_class ''statnive-eyebrow'')
             [Text ''TOP '', Text (show_nonneg (int (min (length ranked) TOP_N))), Text '' '', Text middot, Text '' BY REVENUE''],
           el ''h3'' (in_class ''statnive-rank-list-title'') [Text ''Best campaigns''],
           el ''p'' (in_class ''statnive-rank-list-total'')
             [el ''span'' (in_class ''statnive-rank-list-total-label'') [Text ''TOTAL''],
              el ''span'' (in_class ''statnive-rank-list-total-value'')
                [Text (money (of_int (foldl (\<lambda>s r. s + rank_value r) 0 ranked)) cur 0)]]],
        el ''ol'' [(''class'', ''statnive-rank-list-rows''), hidden] (map (rank_row money cur) ranked),
        el ''table'' (in_class ''statnive-sr-only'')
          [el ''caption'' [] [Text ''Top campaigns by revenue''],
           el ''thead'' [] [el ''tr'' [] (map th_plain [''Rank'', ''Campaign'', ''Revenue''])],
           el ''tbody'' [] (map (rank_line money cur) ranked)]]"

definition CampaignCharts ::
    "money_fn \<Rightarrow> Importer \<Rightarrow> EChartsTheme \<Rightarrow> string \<Rightarrow> forest \<Rightarrow> CampaignRow list \<Rightarrow> 'a vnode list" where
  "CampaignCharts money imp theme cur ts rs =
     (let totalRevenue = tree_total revenue ts; totalVisitors = tree_total visitors ts;
          showRevenue = (0 < totalRevenue);
          lab = (if showRevenue then ''REVENUE'' else ''VISITORS'');
          show_value = (\<lambda>v. if showRevenue then money (of_int v) cur 0 else int_text v)
      in only_if (length ts \<noteq> 0)
        (el ''div'' [(''class'', ''statnive-campaign-charts''), (''data-testid'', ''campaign-charts'')]
          [PieCard imp lab (show_value (if showRevenue then totalRevenue else totalVisitors)) True
             (ChannelSummary rs showRevenue theme) show_value ''campaign-chart-pie'',
           rank_section money cur (topCampaignsRanked rs theme TOP_N)]))"

section \<open>The panel\<close>

definition campaigns_body ::
    "money_fn \<Rightarrow> (string \<Rightarrow> string \<Rightarrow> rat) \<Rightarrow> Importer \<Rightarrow> EChartsTheme \<Rightarrow> Site option \<Rightarrow> Filters \<Rightarrow> string list
     \<Rightarrow> CampaignRow list \<Rightarrow> campaigns_action vnode" where
  "campaigns_body money localeCompare imp theme site f e rs =
     (if length rs = 0 then empty_note ''Campaigns'' ''No utm_campaign data for this range / filter.''
      else
        let ts = campaign_tree localeCompare f (Some rs); ns = map data_of (treeNodes ts); cur = active_currency site;
            ctx = \<lparr>ctx_expanded = drop_stale (Some rs) ts e, ctx_money = money, ctx_maxVisitors = rowMax ns visitors,
                   ctx_maxRevenue = rowMax ns revenue, ctx_currency = cur\<rparr>
        in el ''section'' [(''class'', ''statnive-section''), (''data-testid'', ''panel-campaigns'')]
          ([el ''h2'' (in_class ''statnive-h2'') [Text ''Campaigns'']] @ captioned f
           @ CampaignCharts money imp theme cur ts rs
           @ [el ''table'' (in_class ''statnive-table statnive-tree-table'')
                [el ''thead'' []
                   [el ''tr'' []
                      (map (map_events Campaign_action)
                        [SortHeader (join ('' '' @ middot @ '' '') [''Campaign'', ''Source'', ''Medium'', ''Content'']) ''campaign'' f,
                         SortHeader ''Views'' ''views'' f, SortHeader ''Visitors *'' ''visitors'' f,
                         SortHeader ''Goals'' ''goals'' f, SortHeader ''RPV'' ''rpv'' f, DualSortHeader f])],
                 el ''tbody'' [] (concat (map (\<lambda>(k, n). renderNode n 0 ctx) ts))],
              el ''p'' (in_class ''statnive-tree-footnote'')
                [Text ''* Visitors on parent rows are summed across child UTM combos; a visitor who used two combos is counted twice. Leaf (Content) rows are HLL-exact per combo.'']]))"

definition Campaigns ::
    "money_fn \<Rightarrow> (string \<Rightarrow> string \<Rightarrow> rat) \<Rightarrow> Importer \<Rightarrow> EChartsTheme \<Rightarrow> Site option \<Rightarrow> Filters \<Rightarrow> string list
     \<Rightarrow> string option \<Rightarrow> CampaignRow list option \<Rightarrow> campaigns_action vnode" where
  "Campaigns money localeCompare imp theme site f e err data =
     with_data ''Campaigns'' err data (campaigns_body money localeCompare imp theme site f e)"

section \<open>What the panel shows\<close>

lemma concat_map_cong: "(\<And>x. x \<in> set xs \<Longrightarrow> f x = g x) \<Longrightarrow> concat (map f xs) = concat (map g xs)"
  by (induction xs) auto

lemma render_visible:
  "renderNode n depth ctx = map (node_row ctx) (visible (\<lambda>k. k \<in> set (ctx_expanded ctx)) depth n)"
proof (induction n depth ctx rule: renderNode.induct)
  case (1 d cs depth ctx)
  show ?case
  proof (cases "pathKey d \<in> set (ctx_expanded ctx) \<and> cs \<noteq> []")
    case True
    let ?rest = "concat (map (\<lambda>(k, n). visible (\<lambda>k. k \<in> set (ctx_expanded ctx)) (depth + 1) n) cs)"
    have "concat (map (\<lambda>(k, n). renderNode n (depth + 1) ctx) cs)
        = concat (map (\<lambda>(k, n). map (node_row ctx) (visible (\<lambda>k. k \<in> set (ctx_expanded ctx)) (depth + 1) n)) cs)"
      using 1 True by (intro concat_map_cong) auto
    also have "\<dots> = map (node_row ctx) ?rest"
      by (simp only: map_concat map_map Fun.comp_def case_prod_unfold)
    finally have rest: "concat (map (\<lambda>(k, n). renderNode n (depth + 1) ctx) cs) = map (node_row ctx) ?rest" .
    have "renderNode (Node d cs) depth ctx
        = node_row ctx (Node d cs, depth) # concat (map (\<lambda>(k, n). renderNode n (depth + 1) ctx) cs)"
      using True by (simp add: node_row_def)
    then show ?thesis using True unfolding rest by simp
  qed (auto simp: node_row_def)
qed

lemma visible_cong:
  "(\<And>m. m \<in> set (walk n) \<Longrightarrow> p (pathKey (data_of m)) = q (pathKey (data_of m))) \<Longrightarrow> visible p depth n = visible q depth n"
proof (induction p depth n rule: visible.induct)
  case (1 p depth d cs)
  have own: "p (pathKey d) = q (pathKey d)" using "1.prems" [of "Node d cs"] by simp
  show ?case
  proof (cases "p (pathKey d)")
    case True
    have "concat (map (\<lambda>(k, n). visible p (depth + 1) n) cs) = concat (map (\<lambda>(k, n). visible q (depth + 1) n) cs)"
    proof (intro concat_map_cong)
      fix x assume x: "x \<in> set cs"
      obtain k n where kn: "x = (k, n)" by (cases x)
      have "visible p (depth + 1) n = visible q (depth + 1) n"
        using x by (intro "1.IH" [OF True _ kn [symmetric]] "1.prems") (auto simp: kn)
      then show "(case x of (k, n) \<Rightarrow> visible p (depth + 1) n) = (case x of (k, n) \<Rightarrow> visible q (depth + 1) n)"
        by (simp add: kn)
    qed
    then show ?thesis using True own by simp
  qed (simp add: own)
qed

lemma visible_nodes: "fst ` set (visible p depth n) \<subseteq> set (walk n)"
proof (induction p depth n rule: visible.induct)
  case (1 p depth d cs)
  show ?case
  proof (cases "p (pathKey d)")
    case True
    then show ?thesis using 1 by fastforce
  qed simp
qed

lemma visible_all: "map fst (visible (\<lambda>_. True) depth n) = walk n"
proof (induction n arbitrary: depth rule: walk.induct)
  case (1 d cs)
  have "map fst (concat (map (\<lambda>(k, n). visible (\<lambda>_. True) (depth + 1) n) cs)) = concat (map (\<lambda>(k, n). walk n) cs)"
    unfolding map_concat map_map o_def using 1 by (intro concat_map_cong) auto
  then show ?case by simp
qed

definition shown_rows :: "forest \<Rightarrow> RenderCtx \<Rightarrow> campaigns_action vnode list" where
  "shown_rows ts ctx = concat (map (\<lambda>(k, n). renderNode n 0 ctx) ts)"

lemma shown_rows_cong:
  assumes "\<And>m. m \<in> set (treeNodes ts) \<Longrightarrow>
      (pathKey (data_of m) \<in> set (ctx_expanded a)) = (pathKey (data_of m) \<in> set (ctx_expanded b))"
    and "\<And>depth h o' d. tree_row a depth h o' d = tree_row b depth h o' d"
  shows "shown_rows ts a = shown_rows ts b"
  unfolding shown_rows_def
proof (intro concat_map_cong)
  fix x assume x: "x \<in> set ts"
  obtain k n where kn: "x = (k, n)" by (cases x)
  have tree: "m \<in> set (treeNodes ts)" if "m \<in> set (walk n)" for m
    using that x by (force simp: treeNodes_def kn)
  have vis: "visible (\<lambda>k. k \<in> set (ctx_expanded a)) 0 n = visible (\<lambda>k. k \<in> set (ctx_expanded b)) 0 n"
    using assms(1) tree by (intro visible_cong) blast
  have "map (node_row a) (visible (\<lambda>k. k \<in> set (ctx_expanded b)) 0 n)
      = map (node_row b) (visible (\<lambda>k. k \<in> set (ctx_expanded b)) 0 n)"
  proof (intro map_cong refl)
    fix nd assume "nd \<in> set (visible (\<lambda>k. k \<in> set (ctx_expanded b)) 0 n)"
    then have "fst nd \<in> set (treeNodes ts)" using visible_nodes [of "\<lambda>k. k \<in> set (ctx_expanded b)" 0 n] tree by blast
    then show "node_row a nd = node_row b nd" using assms by (cases nd) (simp add: node_row_def)
  qed
  then show "(case x of (k, n) \<Rightarrow> renderNode n 0 a) = (case x of (k, n) \<Rightarrow> renderNode n 0 b)"
    by (simp add: kn render_visible vis)
qed

lemma drop_stale_keeps: "k \<in> set (tree_keys ts) \<Longrightarrow> (k \<in> set (drop_stale rs ts e)) = (k \<in> set e)"
  by (auto simp: drop_stale_def)

text \<open>
  C19: the rows of the campaign tree. The recursive rendering shows exactly the nodes all of whose
  ancestors are expanded, parents before children: with everything expanded every node of the tree, once,
  in tree order, and with nothing expanded the campaigns alone. Dropping the stale keys changes no row on
  the screen and leaves only keys of the tree; a second click on a chevron takes the first one
  back.
\<close>

theorem campaign_rows_shown:
  "shown_rows ts ctx
      = concat (map (\<lambda>(k, n). map (node_row ctx) (visible (\<lambda>k. k \<in> set (ctx_expanded ctx)) 0 n)) ts)
   \<and> concat (map (\<lambda>(k, n). map fst (visible (\<lambda>_. True) 0 n)) ts) = treeNodes ts
   \<and> concat (map (\<lambda>(k, n). map fst (visible (\<lambda>_. False) 0 n)) ts) = map snd ts
   \<and> shown_rows ts (ctx\<lparr>ctx_expanded := drop_stale rs ts (ctx_expanded ctx)\<rparr>) = shown_rows ts ctx
   \<and> set (drop_stale (Some cs) ts e) \<subseteq> set (tree_keys ts)
   \<and> set (toggle_key k (toggle_key k e)) = set e"
proof -
  have "shown_rows ts (ctx\<lparr>ctx_expanded := drop_stale rs ts (ctx_expanded ctx)\<rparr>) = shown_rows ts ctx"
  proof (rule shown_rows_cong)
    fix m assume "m \<in> set (treeNodes ts)"
    then have "pathKey (data_of m) \<in> set (tree_keys ts)" by (simp add: tree_keys_def)
    then show "(pathKey (data_of m) \<in> set (ctx_expanded (ctx\<lparr>ctx_expanded := drop_stale rs ts (ctx_expanded ctx)\<rparr>)))
        = (pathKey (data_of m) \<in> set (ctx_expanded ctx))"
      by (simp add: drop_stale_keeps)
  qed (simp add: tree_row_def)
  moreover have "concat (map (\<lambda>(k, n). map fst (visible (\<lambda>_. False) 0 n)) ts) = map snd ts"
  proof (induction ts)
    case (Cons x ts)
    obtain k d cs where "x = (k, Node d cs)" by (metis CampaignTreeNode.exhaust surj_pair)
    then show ?case using Cons by simp
  qed simp
  moreover have "set (drop_stale (Some cs) ts e) \<subseteq> set (tree_keys ts)"
    by (auto simp: drop_stale_def list_ex_iff)
  moreover have "set (toggle_key k (toggle_key k e)) = set e" by (auto simp: toggle_key_def)
  ultimately show ?thesis by (simp add: shown_rows_def render_visible visible_all treeNodes_def)
qed

lemma sum_mono_pairs: "list_all (\<lambda>(_, v). 0 < v) es \<Longrightarrow> s \<le> foldl (\<lambda>s (_, v). s + v) (s::int) es"
proof (induction es arbitrary: s)
  case (Cons x es)
  then have "s + snd x \<le> foldl (\<lambda>s (_, v). s + v) (s + snd x) es" "0 < snd x" by (auto simp: split_def)
  then show ?case by (simp add: split_def)
qed simp

lemma positive_sum:
  assumes "list_all (\<lambda>(_, v). 0 < v) es"
  shows "foldl (\<lambda>s (_, v). s + v) (s::int) es = s \<longleftrightarrow> es = []"
proof (cases es)
  case (Cons x xs)
  have "s + snd x \<le> foldl (\<lambda>s (_, v). s + v) (s + snd x) xs" using assms Cons by (intro sum_mono_pairs) simp
  moreover have "0 < snd x" using assms Cons by (simp add: split_def)
  ultimately show ?thesis using Cons by (simp add: split_def)
qed simp

text \<open>
  C26: donut and legend of the campaigns. Whatever rows arrive, the legend beside the donut lists exactly
  the slices drawn in it, with the same numbers and the same colours, largest first, and is
  empty exactly when the donut has no slice.
\<close>

theorem campaign_legend_matches:
  "mset (map (\<lambda>r. (ps_channel r, ps_value r, ps_color r)) (ChannelSummary rs showRevenue theme))
     = mset (map (\<lambda>s. (slice_name s, slice_value s, slice_color s))
         (campaign_slices rs theme (\<lambda>r. if showRevenue then row_revenue r else row_visitors r)))
   \<and> sorted_wrt (\<lambda>a b. ps_value b \<le> ps_value a) (ChannelSummary rs showRevenue theme)
   \<and> (ChannelSummary rs showRevenue theme = []
       \<longleftrightarrow> campaign_slices rs theme (\<lambda>r. if showRevenue then row_revenue r else row_visitors r) = [])"
proof -
  let ?pick = "\<lambda>r. if showRevenue then row_revenue r else row_visitors r"
  let ?es = "filter (\<lambda>(_, v). 0 < v) (by_channel_totals ?pick rs)"
  let ?tot = "foldl (\<lambda>s (_, v). s + v) 0 ?es"
  let ?row = "\<lambda>(ch, v) i. \<lparr>ps_channel = ch, ps_value = v, ps_pct = percent_of v ?tot, ps_color = pieHueForChannel ch i theme\<rparr>"
  have empty: "?tot = 0 \<longleftrightarrow> ?es = []" by (rule positive_sum) (auto simp: list_all_iff)
  have s: "ChannelSummary rs showRevenue theme
      = (if ?es = [] then [] else sort_by (\<lambda>a b. ps_value b - ps_value a \<le> 0) (map_index ?row ?es))"
    unfolding ChannelSummary_def Let_def empty by simp
  have same: "map (\<lambda>r. (ps_channel r, ps_value r, ps_color r)) (map_index ?row ?es)
      = map (\<lambda>s. (slice_name s, slice_value s, slice_color s)) (campaign_slices rs theme ?pick)"
    unfolding campaign_slices_def map_index_def map_map o_def
    by (intro map_cong refl) (auto simp: buildPieData_def split: prod.split)
  have "sorted_wrt (\<lambda>a b. ps_value b - ps_value a \<le> 0) (sort_by (\<lambda>a b. ps_value b - ps_value a \<le> 0) (map_index ?row ?es))"
    by (rule sorted_sort_by) auto
  moreover have "campaign_slices rs theme ?pick = [] \<longleftrightarrow> ?es = []"
    by (simp add: campaign_slices_def map_index_def enumerate_eq_zip)
  moreover have "sort_by (\<lambda>a b. ps_value b - ps_value a \<le> 0) (map_index ?row ?es) = [] \<longleftrightarrow> ?es = []"
  proof -
    have "length (sort_by (\<lambda>a b. ps_value b - ps_value a \<le> 0) (map_index ?row ?es)) = length ?es"
      by (simp only: length_sort_by length_map_index)
    then show ?thesis by (simp only: length_0_conv [symmetric])
  qed
  moreover have "mset (map (\<lambda>r. (ps_channel r, ps_value r, ps_color r))
        (sort_by (\<lambda>a b. ps_value b - ps_value a \<le> 0) (map_index ?row ?es)))
      = mset (map (\<lambda>s. (slice_name s, slice_value s, slice_color s)) (campaign_slices rs theme ?pick))"
    unfolding same [symmetric] mset_map mset_sort_by ..
  ultimately show ?thesis
    unfolding s by (cases "?es = []") simp_all
qed

end
