(* ===== verification/Geo.thy ===== *)
theory Geo
  imports Tables CampaignView
begin

text \<open>
  The geography panel (\<^verbatim>\<open>panels/Geo.tsx\<close>): the two rankings, the donut with its
  list, and the countries with their regions and cities. What the panel asks for and when is in
  \<^verbatim>\<open>Fetching\<close> (\<open>Geo_fetch\<close>).
\<close>

section \<open>The donut and its list\<close>

definition GEO_TOP :: nat where "GEO_TOP = 10"

text \<open>The rows of a ranking by value, and the ranked rows with the positions they came with.\<close>

definition descending :: "('r \<Rightarrow> int) \<Rightarrow> 'r list \<Rightarrow> 'r list" where
  "descending by_value rs = sort_by (\<lambda>a b. by_value b - by_value a \<le> 0) rs"

definition pieRows :: "GeoTopRow list \<Rightarrow> int \<Rightarrow> (GeoTopRow \<Rightarrow> int) \<Rightarrow> EChartsTheme \<Rightarrow> PieSummaryRow list" where
  "pieRows ts tot pick theme =
     (if tot \<le> 0 then []
      else take GEO_TOP
        (descending ps_value
          (filter (\<lambda>row. 0 < ps_value row)
            (map_index (\<lambda>r idx. \<lparr>ps_channel = country_name (lookupCountry (GeoTopRow.country_code r)), ps_value = pick r,
                                 ps_pct = percent_of (pick r) tot,
                                 ps_color = pieHueForChannel (GeoTopRow.country_code r) idx theme\<rparr>) ts))))"

definition geo_slice :: "EChartsTheme \<Rightarrow> (GeoTopRow \<Rightarrow> int) \<Rightarrow> GeoTopRow \<times> nat \<Rightarrow> PieData" where
  "geo_slice theme pick = (\<lambda>(r, idx).
     \<lparr>slice_name = country_name (lookupCountry (GeoTopRow.country_code r)), slice_value = pick r,
      slice_color = pieHueForChannel (GeoTopRow.country_code r) idx theme,
      slice_dark = pieHueDarkForChannel (GeoTopRow.country_code r) idx theme\<rparr>)"

definition sliced :: "GeoTopRow list \<Rightarrow> (GeoTopRow \<Rightarrow> int) \<Rightarrow> (GeoTopRow \<times> nat) list" where
  "sliced ts pick = descending (\<lambda>x. pick (fst x)) (filter (\<lambda>x. 0 < pick (fst x)) (map_index (\<lambda>r idx. (r, idx)) ts))"

definition geo_slices :: "GeoTopRow list \<Rightarrow> (GeoTopRow \<Rightarrow> int) \<Rightarrow> EChartsTheme \<Rightarrow> PieData list" where
  "geo_slices ts pick theme =
     (let hd_part = take (GEO_TOP - 1) (sliced ts pick); tl_part = drop (GEO_TOP - 1) (sliced ts pick);
          tailSum = foldl (\<lambda>acc x. acc + pick (fst x)) 0 tl_part
      in map (geo_slice theme pick) hd_part
         @ (if 0 < tailSum
            then [\<lparr>slice_name = ''Other'', slice_value = tailSum, slice_color = ink2 theme, slice_dark = ink theme\<rparr>] else []))"

definition geo_pieOption :: "bool \<Rightarrow> GeoTopRow list \<Rightarrow> (GeoTopRow \<Rightarrow> int) \<Rightarrow> EChartsTheme \<Rightarrow> string \<Rightarrow> json \<times> unit" where
  "geo_pieOption reduced ts pick theme ariaLabel =
     applyReducedMotion reduced
       (JObj
         [(''series'', JArr
            [JObj
               [(''type'', JStr ''pie''), (''radius'', PIE_RADIUS), (''center'', JArr [JStr ''50%'', JStr ''50%'']),
                (''data'', JArr (map slice_json (geo_slices ts pick theme))),
                (''label'', JObj [(''show'', JBool False)]), (''labelLine'', JObj [(''show'', JBool False)]),
                (''emphasis'', JObj
                   [(''scale'', JBool True), (''scaleSize'', JNum 4),
                    (''itemStyle'', JObj [(''borderWidth'', JNum 2), (''borderColor'', JStr (ink theme))])]),
                (''itemStyle'', JObj [(''borderWidth'', JNum 2), (''borderColor'', JStr (paper2 theme))])]]),
          (''legend'', JObj [(''show'', JBool False)]),
          (''aria'', aria ariaLabel)],
        ())"

section \<open>Countries, regions and cities\<close>

definition groupByCountry :: "GeoRow list \<Rightarrow> (string, GeoRow list) omap" where
  "groupByCountry rs = foldl (push_row GeoRow.country_code) [] rs"

definition roll_in :: "GeoRow \<Rightarrow> GeoRow \<Rightarrow> GeoRow" where
  "roll_in acc r =
     acc\<lparr>GeoRow.views := GeoRow.views acc + GeoRow.views r, GeoRow.goals := GeoRow.goals acc + GeoRow.goals r,
         GeoRow.revenue := GeoRow.revenue acc + GeoRow.revenue r, GeoRow.visitors := GeoRow.visitors acc + GeoRow.visitors r\<rparr>"

text \<open>The row of a country; without a first row the source fails, which is \<open>None\<close>.\<close>

fun rolledRow :: "GeoRow list \<Rightarrow> GeoRow option" where
  "rolledRow [] = None"
| "rolledRow (r # rs) =
     (let acc = foldl roll_in
        \<lparr>GeoRow.country_code = GeoRow.country_code r, province = [], city = [], views = 0, visitors = 0, goals = 0, revenue = 0, rpv = 0\<rparr>
        (r # rs)
      in Some (acc\<lparr>GeoRow.rpv := if 0 < GeoRow.visitors acc
                                 then dbl (of_int (GeoRow.revenue acc) / of_int (GeoRow.visitors acc)) else 0\<rparr>))"

fun all_of :: "'a option list \<Rightarrow> 'a list option" where
  "all_of [] = Some []"
| "all_of (x # xs) = (case (x, all_of xs) of (Some y, Some ys) \<Rightarrow> Some (y # ys) | _ \<Rightarrow> None)"

definition richer :: "GeoRow \<Rightarrow> GeoRow \<Rightarrow> int" where
  "richer a b =
     (let d = GeoRow.revenue b - GeoRow.revenue a in if d \<noteq> 0 then d else GeoRow.visitors b - GeoRow.visitors a)"

definition countryAggregates :: "GeoRow list \<Rightarrow> GeoRow list option" where
  "countryAggregates rs =
     map_option (sort_by (\<lambda>a b. richer a b \<le> 0)) (all_of (map (\<lambda>(k, l). rolledRow l) (groupByCountry rs)))"
section \<open>What the answer gives\<close>

definition rank_text :: "nat \<Rightarrow> Country \<Rightarrow> string" where
  "rank_text idx c = pad2 (idx + 1) @ ''  '' @ Format.flag c @ ''  '' @ country_name c"

definition buildSummary :: "GeoTopRow list \<Rightarrow> (GeoTopRow \<Rightarrow> int) \<Rightarrow> int \<Rightarrow> EChartsTheme \<Rightarrow> PieSummaryRow list" where
  "buildSummary ranked pick tot theme =
     map_index (\<lambda>r idx. \<lparr>ps_channel = rank_text idx (lookupCountry (GeoTopRow.country_code r)), ps_value = pick r,
                          ps_pct = (if 0 < tot then percent_of (pick r) tot else 0),
                          ps_color = pieHueForChannel (GeoTopRow.country_code r) idx theme\<rparr>) ranked"

record GeoDerived =
  gd_top :: "GeoTopRow list"
  gd_visitors :: int
  gd_revenue :: int
  visitorsList :: "PieSummaryRow list"
  revenueList :: "PieSummaryRow list"
  grouped :: "(string, GeoRow list) omap"
  aggregates :: "GeoRow list"
  gd_maxVisitors :: int
  gd_maxRevenue :: int

definition sum_of :: "('r \<Rightarrow> int) \<Rightarrow> 'r list \<Rightarrow> int" where
  "sum_of pick rs = foldl (\<lambda>acc r. acc + pick r) 0 rs"

definition headline :: "GeoTopRow list \<Rightarrow> (GeoTopRow \<Rightarrow> int) \<Rightarrow> EChartsTheme \<Rightarrow> PieSummaryRow list" where
  "headline ts pick theme = buildSummary (take GEO_TOP (descending pick ts)) pick (sum_of pick ts) theme"

text \<open>Nothing to derive from an answer without rows; \<open>None\<close> for a failing country row.\<close>

definition nothing_in :: "GeoResponse \<Rightarrow> bool" where
  "nothing_in p \<longleftrightarrow> length (top_rows p) = 0 \<and> length (geo_rows p) = 0"

definition payloadDerived :: "EChartsTheme \<Rightarrow> GeoResponse \<Rightarrow> GeoDerived option" where
  "payloadDerived theme p =
     (let ts = top_rows p in
      map_option (\<lambda>aggs.
        \<lparr>gd_top = ts, gd_visitors = sum_of GeoTopRow.visitors ts, gd_revenue = sum_of GeoTopRow.revenue ts,
         visitorsList = headline ts GeoTopRow.visitors theme, revenueList = headline ts GeoTopRow.revenue theme,
         grouped = groupByCountry (geo_rows p), aggregates = aggs,
         gd_maxVisitors = rowMax aggs GeoRow.visitors, gd_maxRevenue = rowMax aggs GeoRow.revenue\<rparr>)
      (countryAggregates (geo_rows p)))"

datatype geo_metric = By_visitors | By_revenue

fun geo_pick :: "geo_metric \<Rightarrow> GeoTopRow \<Rightarrow> int" where
  "geo_pick By_visitors = GeoTopRow.visitors"
| "geo_pick By_revenue = GeoTopRow.revenue"

fun geo_total :: "geo_metric \<Rightarrow> GeoDerived \<Rightarrow> int" where
  "geo_total By_visitors = gd_visitors"
| "geo_total By_revenue = gd_revenue"

fun activeRows :: "geo_metric \<Rightarrow> GeoDerived \<Rightarrow> PieSummaryRow list" where
  "activeRows By_visitors = visitorsList"
| "activeRows By_revenue = revenueList"

definition pieRowsForList :: "EChartsTheme \<Rightarrow> geo_metric \<Rightarrow> GeoDerived \<Rightarrow> PieSummaryRow list" where
  "pieRowsForList theme m g = pieRows (gd_top g) (geo_total m g) (geo_pick m) theme"

definition pieEChartOption :: "bool \<Rightarrow> EChartsTheme \<Rightarrow> geo_metric \<Rightarrow> GeoDerived \<Rightarrow> json \<times> unit" where
  "pieEChartOption reduced theme m g =
     geo_pieOption reduced (gd_top g) (geo_pick m) theme
       (if m = By_visitors then ''Country share of visitors'' else ''Country share of revenue'')"

section \<open>The panel\<close>

datatype geo_action = Geo_metric geo_metric | Geo_toggle string | Geo_more

record Geo_state =
  geo_metric_of :: geo_metric
  geo_expanded :: "string list"
  geo_limit :: nat

definition new_geo :: Geo_state where
  "new_geo = \<lparr>geo_metric_of = By_visitors, geo_expanded = [], geo_limit = 50\<rparr>"

fun geo_step :: "geo_action \<Rightarrow> Geo_state \<Rightarrow> Geo_state" where
  "geo_step (Geo_metric m) g = g\<lparr>geo_metric_of := m\<rparr>"
| "geo_step (Geo_toggle cc) g = g\<lparr>geo_expanded := toggle_key cc (geo_expanded g)\<rparr>"
| "geo_step Geo_more g = g\<lparr>geo_limit := 200\<rparr>"

text \<open>A failure that says the report is switched off is no error.\<close>

definition geo_disabled :: "string option \<Rightarrow> bool" where
  "geo_disabled e = (case e of Some msg \<Rightarrow> has_substring ''HTTP 501'' msg | None \<Rightarrow> False)"

definition geo_note :: "string \<Rightarrow> 'a vnode list \<Rightarrow> 'a vnode" where
  "geo_note cls cs =
     el ''section'' [(''class'', ''statnive-section''), (''data-testid'', ''panel-geo'')]
       [el ''h2'' (in_class ''statnive-h2'') [Text ''Geo''], el ''p'' (in_class cls) cs]"

definition box_head :: "string \<Rightarrow> string \<Rightarrow> 'a vnode list \<Rightarrow> 'a vnode" where
  "box_head kicker title extra =
     el ''header'' (in_class ''statnive-geo-box-head'')
       (el ''div'' (in_class ''statnive-geo-box-head-titles'')
          [el ''p'' (in_class ''statnive-geo-kicker'') [Text kicker], el ''h3'' (in_class ''statnive-geo-title'') [Text title]]
        # extra)"

definition geo_box :: "string \<Rightarrow> 'a vnode list \<Rightarrow> 'a vnode" where
  "geo_box testId cs = el ''article'' [(''class'', ''statnive-geo-box''), (''data-testid'', testId)] cs"

definition headline_box :: "money_fn \<Rightarrow> string \<Rightarrow> GeoDerived \<Rightarrow> 'a vnode" where
  "headline_box money cur g =
     geo_box ''geo-headline''
       [box_head ''Ranking'' ''Top countries'' [],
        el ''div'' (in_class ''statnive-geo-headline-grid'')
          [el ''div'' [(''class'', ''statnive-geo-headline-column''), (''data-testid'', ''geo-top-visitors'')]
             [el ''p'' (in_class ''statnive-geo-headline-sublabel'') [Text ''By visitors''], PieSummaryList int_text (visitorsList g)],
           el ''div'' [(''class'', ''statnive-geo-headline-column''), (''data-testid'', ''geo-top-revenue'')]
             [el ''p'' (in_class ''statnive-geo-headline-sublabel'') [Text ''By revenue''],
              PieSummaryList (\<lambda>n. money (of_int n) cur 0) (revenueList g)]]]"

definition metric_chip :: "geo_metric \<Rightarrow> geo_metric \<Rightarrow> string \<Rightarrow> string \<Rightarrow> geo_action vnode" where
  "metric_chip active m testId lab =
     Elem ''button''
       [button_attr, (''class'', ''statnive-chip'' @ (if active = m then '' is-active'' else [])),
        (''aria-pressed'', bool_text (active = m)), (''data-testid'', testId)]
       [(''click'', \<lambda>_. Geo_metric m)] [Text lab]"

definition pie_box :: "money_fn \<Rightarrow> Importer \<Rightarrow> EChartsTheme \<Rightarrow> string \<Rightarrow> geo_metric \<Rightarrow> GeoDerived \<Rightarrow> geo_action vnode" where
  "pie_box money imp theme cur m g =
     (let rs = pieRowsForList theme m g; show_value = (\<lambda>n. if m = By_visitors then int_text n else money (of_int n) cur 0) in
      geo_box ''geo-pie''
        [box_head ''Share'' ''Country share''
           [el ''div'' [(''class'', ''statnive-geo-pie-toggle''), (''role'', ''group''), (''aria-label'', ''Pie metric'')]
              [metric_chip m By_visitors ''geo-pie-metric-toggle-visitors'' ''Visitors'',
               metric_chip m By_revenue ''geo-pie-metric-toggle'' ''Revenue'']],
         el ''div'' (in_class ''statnive-geo-pie-grid'') [lazy_chart imp 240, PieSummaryList show_value rs],
         el ''div'' [(''class'', ''statnive-geo-pie-total''), (''data-testid'', ''geo-pie-total'')]
           [el ''span'' (in_class ''statnive-geo-pie-total-label'')
              [Text (if m = By_visitors then ''Total visitors'' else ''Total revenue'')],
            el ''span'' (in_class ''statnive-geo-pie-total-value'') [Text (show_value (geo_total m g))],
            el ''span'' (in_class ''statnive-geo-pie-total-meta'')
              [Text ''across '', Text (show_nonneg (int (length rs))), Text '' '',
               Text (if length rs = 1 then ''country'' else ''countries'')]],
         el ''span'' [(''class'', ''statnive-sr-only''), (''data-testid'', ''geo-share-helper'')]
           [Text (fmtSharePct (case activeRows m g of r # _ \<Rightarrow> ps_pct r | [] \<Rightarrow> 0))]])"

definition geo_numbers :: "money_fn \<Rightarrow> string \<Rightarrow> GeoDerived \<Rightarrow> GeoRow \<Rightarrow> 'a vnode list" where
  "geo_numbers money cur g r =
     [td_int (GeoRow.views r), td_int (GeoRow.goals r), td [Text (money (GeoRow.rpv r) cur 2)],
      td [DualBar money (GeoRow.visitors r) (GeoRow.revenue r) (gd_maxVisitors g) (gd_maxRevenue g) cur]]"

definition or_unknown :: "string \<Rightarrow> string" where
  "or_unknown s = (if s \<noteq> [] then s else ''(unknown)'')"

definition child_row :: "money_fn \<Rightarrow> string \<Rightarrow> GeoDerived \<Rightarrow> GeoRow \<Rightarrow> 'a vnode" where
  "child_row money cur g r =
     el ''tr'' (in_class ''statnive-geo-row-child'')
       (td [el ''span'' (in_class ''statnive-geo-child-label'')
              [Text (or_unknown (province r)), Text ('' '' @ middot), Text '' '', Text (or_unknown (city r))]]
        # geo_numbers money cur g r)"

definition country_row :: "money_fn \<Rightarrow> string \<Rightarrow> GeoDerived \<Rightarrow> bool \<Rightarrow> GeoRow \<Rightarrow> geo_action vnode" where
  "country_row money cur g isOpen r =
     (let cc = GeoRow.country_code r; c = lookupCountry cc in
      el ''tr'' [(''class'', ''statnive-geo-row-country''), (''data-testid'', ''geo-row-'' @ (if cc \<noteq> [] then cc else ''unknown''))]
        (td [Elem ''button'' [button_attr, (''class'', ''statnive-geo-expand''), (''aria-expanded'', bool_text isOpen)]
               [(''click'', \<lambda>_. Geo_toggle cc)]
               [el ''span'' [hidden] [Text (if isOpen then [CHR 0xE2, CHR 0x96, CHR 0xBE] else [CHR 0xE2, CHR 0x96, CHR 0xB8])],
                Text '' '', el ''span'' [hidden] [Text (Format.flag c)], Text '' '', Text (country_name c)]]
         # geo_numbers money cur g r))"

definition country_rows :: "money_fn \<Rightarrow> string \<Rightarrow> GeoDerived \<Rightarrow> string list \<Rightarrow> GeoRow \<Rightarrow> geo_action vnode list" where
  "country_rows money cur g e r =
     (let cc = GeoRow.country_code r; isOpen = (cc \<in> set e) in
      country_row money cur g isOpen r
      # (if isOpen then map (child_row money cur g) (or_default [] (map_of (grouped g) cc)) else []))"

definition geo_body ::
    "money_fn \<Rightarrow> Importer \<Rightarrow> EChartsTheme \<Rightarrow> Site option \<Rightarrow> Filters \<Rightarrow> Geo_state \<Rightarrow> GeoDerived \<Rightarrow> geo_action vnode" where
  "geo_body money imp theme site f s g =
     (let cur = active_currency site in
      el ''section'' [(''class'', ''statnive-section statnive-geo-stack''), (''data-testid'', ''panel-geo'')]
        ([el ''h2'' (in_class ''statnive-h2'') [Text ''Geo'']] @ captioned f
         @ [headline_box money cur g, pie_box money imp theme cur (geo_metric_of s) g,
            geo_box ''geo-drilldown''
              ([box_head ''Drill-down'' ''Country, region, city'' [],
                el ''table'' (in_class ''statnive-table'')
                  [el ''thead'' []
                     [el ''tr'' [] (map (\<lambda>t. el ''th'' [] [Text t]) [''Country'', ''Views'', ''Goals'', ''RPV'', ''Visitors / Revenue''])],
                   el ''tbody'' [] (concat (map (country_rows money cur g (geo_expanded s)) (aggregates g)))]]
               @ only_if (geo_limit s < 200)
                   (Elem ''button'' [button_attr, (''class'', ''statnive-chip statnive-geo-show-more'')]
                      [(''click'', \<lambda>_. Geo_more)] [Text ''Show more (up to 200)'']))]))"

text \<open>What is rendered; \<open>None\<close> when rendering fails.\<close>

definition Geo ::
    "money_fn \<Rightarrow> Importer \<Rightarrow> EChartsTheme \<Rightarrow> Site option \<Rightarrow> Filters \<Rightarrow> Geo_state \<Rightarrow> string option \<Rightarrow> GeoResponse option
     \<Rightarrow> geo_action vnode option" where
  "Geo money imp theme site f s err data =
     (if geo_disabled err then
        Some (geo_note ''statnive-empty''
          [Text ''The Geo report is not enabled on this server yet. Ask your operator to flip '',
           code_el ''dashboard.geo_enabled'',
           Text '' in the config after the historical rollup backfill completes.''])
      else if truthy err then Some (geo_note ''statnive-error'' [Text ''could not load; see logs''])
      else (case data of
          None \<Rightarrow> Some (geo_note ''statnive-loading'' [Text (''loading'' @ ellipsis)])
        | Some p \<Rightarrow>
            if nothing_in p then Some (geo_note ''statnive-empty'' [Text ''No geographic data for this range / filter.''])
            else map_option (geo_body money imp theme site f s) (payloadDerived theme p)))"

section \<open>What the panel shows\<close>

lemma insert_by_map: "insert_by le (f x) (map f xs) = map f (insert_by (\<lambda>a b. le (f a) (f b)) x xs)"
  by (induction xs) simp_all

lemma sort_by_map: "sort_by le (map f xs) = map f (sort_by (\<lambda>a b. le (f a) (f b)) xs)"
  by (induction xs) (simp_all add: insert_by_map)

lemma groups_keys: "set (keys (foldl (push_row key) m rs)) = set (keys m) \<union> key ` set rs"
proof (induction rs arbitrary: m)
  case (Cons r rs)
  then show ?case by (auto simp: push_row_def set_keys_omap_set split: option.splits)
qed simp

lemma groups_distinct: "distinct (keys m) \<Longrightarrow> distinct (keys (foldl (push_row key) m rs))"
proof (induction rs arbitrary: m)
  case (Cons r rs)
  then show ?case by (simp add: push_row_def distinct_omap_set split: option.splits)
qed simp

lemma children_eq:
  "or_default [] (map_of (groupByCountry rs) c) = filter (\<lambda>r. GeoRow.country_code r = c) rs"
  by (simp add: groupByCountry_def groups_fold or_default_def)

lemma country_group:
  assumes "(k, l) \<in> set (groupByCountry rs)"
  shows "l = filter (\<lambda>r. GeoRow.country_code r = k) rs" and "l \<noteq> []"
proof -
  have "distinct (keys (groupByCountry rs))" unfolding groupByCountry_def by (intro groups_distinct) (simp add: keys_def)
  then have m: "map_of (groupByCountry rs) k = Some l" using assms by (simp add: keys_def)
  then show "l = filter (\<lambda>r. GeoRow.country_code r = k) rs" using children_eq [of rs k] by (simp add: or_default_def)
  then show "l \<noteq> []" using m by (auto simp: groupByCountry_def groups_fold split: if_splits)
qed

lemma roll_ins:
  "GeoRow.country_code (foldl roll_in a rs) = GeoRow.country_code a"
  "GeoRow.views (foldl roll_in a rs) = GeoRow.views a + sum_list (map GeoRow.views rs)"
  "GeoRow.goals (foldl roll_in a rs) = GeoRow.goals a + sum_list (map GeoRow.goals rs)"
  "GeoRow.revenue (foldl roll_in a rs) = GeoRow.revenue a + sum_list (map GeoRow.revenue rs)"
  "GeoRow.visitors (foldl roll_in a rs) = GeoRow.visitors a + sum_list (map GeoRow.visitors rs)"
  by (induction rs arbitrary: a) (simp_all add: roll_in_def)

definition rolls_up :: "GeoRow list \<Rightarrow> GeoRow \<Rightarrow> bool" where
  "rolls_up l a \<longleftrightarrow>
     GeoRow.views a = sum_list (map GeoRow.views l) \<and> GeoRow.visitors a = sum_list (map GeoRow.visitors l)
     \<and> GeoRow.goals a = sum_list (map GeoRow.goals l) \<and> GeoRow.revenue a = sum_list (map GeoRow.revenue l)"

lemma rolledRow_sums:
  assumes "l \<noteq> []"
  shows "\<exists>a. rolledRow l = Some a \<and> GeoRow.country_code a = GeoRow.country_code (hd l) \<and> rolls_up l a"
proof (cases l)
  case (Cons r rs)
  then show ?thesis by (simp add: Let_def roll_ins rolls_up_def roll_in_def)
qed (use assms in simp)

lemma sum_of_concat: "sum_list (concat xss) = sum_list (map sum_list xss)" for xss :: "int list list"
  by (induction xss) simp_all

lemma all_of_map: "(\<And>x. x \<in> set xs \<Longrightarrow> f x = Some (g x)) \<Longrightarrow> all_of (map f xs) = Some (map g xs)"
  by (induction xs) simp_all

lemma aggregates_some:
  "\<exists>as. countryAggregates rs = Some (sort_by (\<lambda>a b. richer a b \<le> 0) as)
    \<and> map GeoRow.country_code as = keys (groupByCountry rs)
    \<and> list_all (\<lambda>a. rolls_up (filter (\<lambda>r. GeoRow.country_code r = GeoRow.country_code a) rs) a) as"
proof -
  let ?row = "\<lambda>x. the (rolledRow (snd x))"
  have row: "rolledRow l = Some (?row (k, l)) \<and> GeoRow.country_code (?row (k, l)) = k
      \<and> rolls_up (filter (\<lambda>r. GeoRow.country_code r = k) rs) (?row (k, l))"
    if kl: "(k, l) \<in> set (groupByCountry rs)" for k l
  proof -
    obtain a where "rolledRow l = Some a" "GeoRow.country_code a = GeoRow.country_code (hd l)" "rolls_up l a"
      using rolledRow_sums [OF country_group(2) [OF kl]] by blast
    moreover have "GeoRow.country_code (hd l) = k"
    proof -
      have "hd l \<in> set (filter (\<lambda>r. GeoRow.country_code r = k) rs)"
        using country_group [OF kl] hd_in_set by metis
      then show ?thesis by simp
    qed
    ultimately show ?thesis using country_group(1) [OF kl] by simp
  qed
  have "all_of (map (\<lambda>(k, l). rolledRow l) (groupByCountry rs)) = Some (map ?row (groupByCountry rs))"
    using row by (intro all_of_map) auto
  then have "countryAggregates rs = Some (sort_by (\<lambda>a b. richer a b \<le> 0) (map ?row (groupByCountry rs)))"
    by (simp add: countryAggregates_def)
  moreover have "map GeoRow.country_code (map ?row (groupByCountry rs)) = keys (groupByCountry rs)"
    using row by (auto simp: keys_def)
  moreover have "list_all (\<lambda>a. rolls_up (filter (\<lambda>r. GeoRow.country_code r = GeoRow.country_code a) rs) a)
      (map ?row (groupByCountry rs))"
    using row by (fastforce simp: list_all_iff)
  ultimately show ?thesis by blast
qed

text \<open>
  C18: the table of countries. Rolling up never fails, whatever the server sends. The table has one row
  for each country of the answer, with the sums of its children, richest first and
  by visitors where revenues are equal; expanded everywhere it shows every region and city of the answer
  exactly once, under its own country; and no visitor of the answer is lost or counted in two
  countries.
\<close>

theorem geo_countries:
  "\<exists>as. countryAggregates rs = Some as
     \<and> distinct (map GeoRow.country_code as)
     \<and> set (map GeoRow.country_code as) = set (map GeoRow.country_code rs)
     \<and> list_all (\<lambda>a. rolls_up (or_default [] (map_of (groupByCountry rs) (GeoRow.country_code a))) a) as
     \<and> mset (concat (map (\<lambda>a. or_default [] (map_of (groupByCountry rs) (GeoRow.country_code a))) as)) = mset rs
     \<and> sum_list (map GeoRow.visitors as) = sum_list (map GeoRow.visitors rs)
     \<and> sorted_wrt (\<lambda>a b. GeoRow.revenue b < GeoRow.revenue a
         \<or> GeoRow.revenue b = GeoRow.revenue a \<and> GeoRow.visitors b \<le> GeoRow.visitors a) as"
proof -
  let ?of = "\<lambda>c. filter (\<lambda>r. GeoRow.country_code r = c) rs"
  let ?le = "\<lambda>a b. GeoRow.revenue b < GeoRow.revenue a
         \<or> GeoRow.revenue b = GeoRow.revenue a \<and> GeoRow.visitors b \<le> GeoRow.visitors a"
  obtain bs where bs: "countryAggregates rs = Some (sort_by (\<lambda>a b. richer a b \<le> 0) bs)"
    "map GeoRow.country_code bs = keys (groupByCountry rs)" "list_all (\<lambda>a. rolls_up (?of (GeoRow.country_code a)) a) bs"
    using aggregates_some by blast
  have le: "(\<lambda>a b. richer a b \<le> 0) = ?le" by (intro ext) (auto simp: richer_def Let_def)
  let ?as = "sort_by ?le bs"
  have perm: "mset (map GeoRow.country_code ?as) = mset (keys (groupByCountry rs))" by (simp add: bs(2) [symmetric])
  have keys: "distinct (keys (groupByCountry rs))" "set (keys (groupByCountry rs)) = GeoRow.country_code ` set rs"
    using groups_distinct [of "[]" GeoRow.country_code rs] groups_keys [of GeoRow.country_code "[]" rs]
    by (simp_all add: groupByCountry_def keys_def)
  have codes: "distinct (map GeoRow.country_code ?as)" "set (map GeoRow.country_code ?as) = GeoRow.country_code ` set rs"
    using keys mset_eq_imp_distinct_iff [OF perm] mset_eq_setD [OF perm] by auto
  have rolled: "list_all (\<lambda>a. rolls_up (?of (GeoRow.country_code a)) a) ?as" using bs(3) by (simp add: list_all_iff)
  have children: "mset (concat (map (\<lambda>a. ?of (GeoRow.country_code a)) ?as)) = mset rs"
  proof -
    have "concat (map (\<lambda>a. ?of (GeoRow.country_code a)) ?as) = concat (map ?of (map GeoRow.country_code ?as))"
      by (simp add: Fun.comp_def)
    then show ?thesis
      using mset_partition [OF codes(1), of GeoRow.country_code rs] unfolding codes(2)
      by (simp add: filter_True [of rs "\<lambda>r. GeoRow.country_code r \<in> GeoRow.country_code ` set rs"])
  qed
  have "map GeoRow.visitors ?as = map (\<lambda>a. sum_list (map GeoRow.visitors (?of (GeoRow.country_code a)))) ?as"
    using rolled by (simp add: list_all_iff rolls_up_def)
  then have "sum_list (map GeoRow.visitors ?as)
      = sum_list (map GeoRow.visitors (concat (map (\<lambda>a. ?of (GeoRow.country_code a)) ?as)))"
    by (simp only: map_concat sum_of_concat map_map Fun.comp_def)
  also have "\<dots> = sum_list (map GeoRow.visitors rs)"
    by (simp only: sum_mset_sum_list [symmetric] mset_map children)
  finally have total: "sum_list (map GeoRow.visitors ?as) = sum_list (map GeoRow.visitors rs)" .
  have "sorted_wrt ?le ?as" by (rule sorted_sort_by) auto
  then show ?thesis using bs(1) codes rolled children total unfolding le children_eq by (intro exI [of _ ?as]) simp
qed

lemma geo_rows_sliced:
  assumes "0 < tot"
  shows "pieRows ts tot pick theme
    = map (\<lambda>(r, idx). \<lparr>ps_channel = country_name (lookupCountry (GeoTopRow.country_code r)), ps_value = pick r,
        ps_pct = percent_of (pick r) tot, ps_color = pieHueForChannel (GeoTopRow.country_code r) idx theme\<rparr>)
      (take GEO_TOP (sliced ts pick))"
proof -
  let ?row = "\<lambda>(r, idx). \<lparr>ps_channel = country_name (lookupCountry (GeoTopRow.country_code r)), ps_value = pick r,
        ps_pct = percent_of (pick r) tot, ps_color = pieHueForChannel (GeoTopRow.country_code r) idx theme\<rparr>"
  have "map_index (\<lambda>r idx. ?row (r, idx)) ts = map ?row (map_index (\<lambda>r idx. (r, idx)) ts)"
    by (simp add: map_map_index)
  then have "filter (\<lambda>row. 0 < ps_value row) (map_index (\<lambda>r idx. ?row (r, idx)) ts)
      = map ?row (filter (\<lambda>x. 0 < pick (fst x)) (map_index (\<lambda>r idx. (r, idx)) ts))"
    by (simp add: filter_map Fun.comp_def case_prod_unfold)
  then show ?thesis
    using assms by (simp add: pieRows_def sliced_def descending_def sort_by_map case_prod_unfold take_map)
qed

lemma sliced_sum:
  assumes "list_all (\<lambda>r. 0 \<le> pick r) ts"
  shows "sum_list (map (\<lambda>x. pick (fst x)) (sliced ts pick)) = sum_list (map pick ts)"
proof -
  have pos: "sum_list (map g (filter (\<lambda>x. 0 < g x) xs)) = sum_list (map g xs)" if "list_all (\<lambda>x. 0 \<le> g x) xs"
    for g :: "'x \<Rightarrow> int" and xs
    using that by (induction xs) auto
  have all: "map (\<lambda>x. pick (fst x)) (map_index (\<lambda>r idx. (r, idx)) ts) = map pick ts"
    unfolding map_map_index by (simp add: map_index_const)
  have "list_all (\<lambda>x. 0 \<le> pick (fst x)) (map_index (\<lambda>r idx. (r, idx)) ts)"
    using assms unfolding list_all_iff by (auto simp: map_index_def in_set_enumerate_eq)
  from pos [OF this] show ?thesis by (simp add: sliced_def descending_def all)
qed

lemma sliced_pos: "x \<in> set (sliced ts pick) \<Longrightarrow> 0 < pick (fst x)"
  by (auto simp: sliced_def descending_def)

lemma length_sliced: "length (sliced ts pick) = length (filter (\<lambda>r. 0 < pick r) ts)"
proof -
  have "map fst (filter (\<lambda>x. 0 < pick (fst x)) xs) = filter (\<lambda>r. 0 < pick r) (map fst xs)"
    for xs :: "(GeoTopRow \<times> nat) list"
    by (induction xs) auto
  from this [of "map_index (\<lambda>r idx. (r, idx)) ts"]
  have "map fst (filter (\<lambda>x. 0 < pick (fst x)) (map_index (\<lambda>r idx. (r, idx)) ts)) = filter (\<lambda>r. 0 < pick r) ts"
    unfolding map_map_index by (simp add: map_index_const)
  then show ?thesis
    unfolding sliced_def descending_def length_sort_by by (metis length_map)
qed

lemma geo_slices_eq:
  assumes "tail = sum_list (map (\<lambda>x. pick (fst x)) (drop 9 (sliced ts pick)))"
  shows "geo_slices ts pick theme = map (geo_slice theme pick) (take 9 (sliced ts pick))
    @ (if 0 < tail then [\<lparr>slice_name = ''Other'', slice_value = tail, slice_color = ink2 theme, slice_dark = ink theme\<rparr>] else [])"
  unfolding assms by (simp add: geo_slices_def Let_def GEO_TOP_def total_sum)

lemma geo_slices_sum: "sum_list (map slice_value (geo_slices ts pick theme)) = sum_list (map (\<lambda>x. pick (fst x)) (sliced ts pick))"
proof -
  have "0 \<le> sum_list (map (\<lambda>x. pick (fst x)) (drop 9 (sliced ts pick)))"
    by (rule total_nonneg) (auto simp: list_all_iff dest!: in_set_dropD sliced_pos)
  moreover have "slice_value (geo_slice theme pick x) = pick (fst x)" for x by (cases x) (simp add: geo_slice_def)
  ultimately have "sum_list (map slice_value (geo_slices ts pick theme))
      = sum_list (map (\<lambda>x. pick (fst x)) (take 9 (sliced ts pick))) + sum_list (map (\<lambda>x. pick (fst x)) (drop 9 (sliced ts pick)))"
    by (simp add: geo_slices_eq [OF refl] Fun.comp_def)
  then show ?thesis by (metis append_take_drop_id map_append sum_list_append)
qed

text \<open>With no negative number a total of zero leaves nothing to list.\<close>

lemma geo_rows_eq:
  assumes "list_all (\<lambda>r. 0 \<le> pick r) ts"
  shows "pieRows ts (sum_of pick ts) pick theme
    = map (\<lambda>(r, idx). \<lparr>ps_channel = country_name (lookupCountry (GeoTopRow.country_code r)), ps_value = pick r,
        ps_pct = percent_of (pick r) (sum_of pick ts), ps_color = pieHueForChannel (GeoTopRow.country_code r) idx theme\<rparr>)
      (take 10 (sliced ts pick))"
proof (cases "0 < sum_of pick ts")
  case True
  then show ?thesis using geo_rows_sliced [OF True] by (simp add: GEO_TOP_def)
next
  case False
  have "sliced ts pick = []"
  proof (cases "sliced ts pick")
    case (Cons x xs)
    have "list_all (\<lambda>x. 0 \<le> pick (fst x)) (sliced ts pick)"
      using sliced_pos [of _ ts pick] by (fastforce simp: list_all_iff)
    then have "pick (fst x) \<le> sum_list (map (\<lambda>x. pick (fst x)) (sliced ts pick))" by (rule pick_le_total) (simp add: Cons)
    then show ?thesis
      using sliced_pos [of x ts pick] False sliced_sum [OF assms] by (simp add: Cons sum_of_def total_sum)
  qed simp
  then show ?thesis using False by (simp add: pieRows_def)
qed

lemma geo_first_nine:
  assumes "list_all (\<lambda>r. 0 \<le> pick r) ts"
  shows "map (\<lambda>s. (slice_name s, slice_value s, slice_color s)) (take 9 (take (length (sliced ts pick)) (geo_slices ts pick theme)))
    = map (\<lambda>r. (ps_channel r, ps_value r, ps_color r)) (take 9 (pieRows ts (sum_of pick ts) pick theme))"
proof -
  have "take 9 (take (length (sliced ts pick)) (geo_slices ts pick theme)) = map (geo_slice theme pick) (take 9 (sliced ts pick))"
    by (cases "length (sliced ts pick) \<le> 9") (simp_all add: geo_slices_eq [OF refl])
  then show ?thesis
    by (simp add: geo_rows_eq [OF assms] take_map Fun.comp_def geo_slice_def case_prod_unfold)
qed

text \<open>
  C20: the donut of the countries and the list beside it. The donut has at most ten slices and its values
  add up to the total, the countries after the ninth under one grey slice; its first nine slices are the
  first nine rows of the list, with the same names, numbers and colours, largest first. The list stops
  after the tenth country, so the number of countries written under it is never more than ten.
\<close>

theorem geo_donut:
  assumes "list_all (\<lambda>r. 0 \<le> pick r) ts"
  shows "length (geo_slices ts pick theme) \<le> 10
     \<and> sum_list (map slice_value (geo_slices ts pick theme)) = sum_of pick ts
     \<and> map (\<lambda>s. (slice_name s, slice_value s, slice_color s)) (take 9 (take (length (sliced ts pick)) (geo_slices ts pick theme)))
        = map (\<lambda>r. (ps_channel r, ps_value r, ps_color r)) (take 9 (pieRows ts (sum_of pick ts) pick theme))
     \<and> sorted_wrt (\<lambda>a b. ps_value b \<le> ps_value a) (pieRows ts (sum_of pick ts) pick theme)
     \<and> length (pieRows ts (sum_of pick ts) pick theme) = min 10 (length (filter (\<lambda>r. 0 < pick r) ts))"
proof -
  have "sorted_wrt (\<lambda>a b. pick (fst b) - pick (fst a) \<le> 0) (sliced ts pick)"
    unfolding sliced_def descending_def by (rule sorted_sort_by) auto
  then have "sorted_wrt (\<lambda>a b. pick (fst b) - pick (fst a) \<le> 0) (take 10 (sliced ts pick))" by (rule sorted_wrt_take)
  then have "sorted_wrt (\<lambda>a b. ps_value b \<le> ps_value a) (pieRows ts (sum_of pick ts) pick theme)"
    unfolding geo_rows_eq [OF assms] by (simp add: sorted_wrt_map case_prod_unfold)
  moreover have "sum_list (map slice_value (geo_slices ts pick theme)) = sum_of pick ts"
    using sliced_sum [OF assms] by (simp add: geo_slices_sum sum_of_def total_sum)
  moreover have "length (pieRows ts (sum_of pick ts) pick theme) = min 10 (length (filter (\<lambda>r. 0 < pick r) ts))"
    by (simp add: geo_rows_eq [OF assms] length_sliced)
  moreover have "length (geo_slices ts pick theme) \<le> 10" by (auto simp: geo_slices_eq [OF refl] min_def)
  ultimately show ?thesis using geo_first_nine [OF assms] by blast
qed

definition example_country :: "string \<Rightarrow> int \<Rightarrow> GeoTopRow" where
  "example_country cc n =
     \<lparr>GeoTopRow.country_code = cc, views = n, visitors = n, goals = 0, revenue = 0, rpv = 0\<rparr>"

theorem geo_donut_witness:
  "sum_list (map slice_value (geo_slices [example_country ''IR'' 3, example_country ''DE'' 4] GeoTopRow.visitors (readEChartsTheme None)))
     = 7"
  using geo_donut [of GeoTopRow.visitors "[example_country ''IR'' 3, example_country ''DE'' 4]" "readEChartsTheme None"]
  by (simp add: example_country_def sum_of_def)

lemma no_early_501: "list_all is_digit s \<Longrightarrow> \<not> has_substring (CHR ''H'' # p) s"
proof (induction s)
  case (Cons c s)
  have "\<not> is_digit (CHR ''H'')" by (simp add: is_digit_def)
  then have "CHR ''H'' \<noteq> c" using Cons.prems by auto
  then show ?case using Cons by simp
qed simp

lemma short_prefix: "length a = length b \<Longrightarrow> prefix a b \<longleftrightarrow> a = b"
  by (auto simp: prefix_def)

lemma shows_501:
  assumes "100 \<le> st" and "st < 1000"
  shows "geo_disabled (Some (''apiGet /api/stats/geo: HTTP '' @ show_int st)) \<longleftrightarrow> st = 501"
proof -
  have len: "length (show_nonneg st) = 3"
    using length_show_nonneg [of st 3] length_show_nonneg [of st 2] assms by auto
  have "length (show_nonneg 501) = 3" using length_show_nonneg [of 501 3] length_show_nonneg [of 501 2] by auto
  moreover have "show_nonneg 501 = ''501''" by (simp add: show_nonneg.simps digit_def)
  ultimately have "prefix ''501'' (show_int st) \<longleftrightarrow> st = 501"
    using len assms show_nonneg_inj [of 501 st] by (auto simp: short_prefix show_int_def)
  moreover have "list_all is_digit (show_int st)"
    using show_nonneg_digits [of st] assms by (auto simp: list_all_iff show_int_def)
  ultimately show ?thesis by (simp add: geo_disabled_def no_early_501)
qed

text \<open>
  C35: the states of the panel. Rendering never fails. Of the statuses the server can answer with,
  exactly 501 is shown as a report that is not enabled; every other failure as an error, whatever was
  loaded before.
\<close>

theorem geo_renders:
  assumes "100 \<le> st" and "st < 1000"
  shows "Geo money imp theme site f s err data \<noteq> None
     \<and> Geo money imp theme site f s (Some (''apiGet /api/stats/geo: HTTP '' @ show_int st)) data
        = Some (if st = 501 then geo_note ''statnive-empty''
            [Text ''The Geo report is not enabled on this server yet. Ask your operator to flip '',
             code_el ''dashboard.geo_enabled'',
             Text '' in the config after the historical rollup backfill completes.'']
          else geo_note ''statnive-error'' [Text ''could not load; see logs''])"
proof -
  have "payloadDerived theme p \<noteq> None" for p
    using aggregates_some [of "geo_rows p"] by (auto simp: payloadDerived_def Let_def)
  then have "Geo money imp theme site f s err data \<noteq> None" by (auto simp: Geo_def split: option.splits)
  then show ?thesis using shows_501 [OF assms] by (simp add: Geo_def truthy_def)
qed

theorem geo_renders_witness:
  "Geo (\<lambda>_ _ _. []) \<lparr>imp_signal = True, cancelled = False\<rparr> (readEChartsTheme None) None EMPTY_FILTERS new_geo
       (Some (''apiGet /api/stats/geo: HTTP '' @ show_int 500)) None
     = Some (geo_note ''statnive-error'' [Text ''could not load; see logs''])"
  using geo_renders [of 500 "\<lambda>_ _ _. []" "\<lparr>imp_signal = True, cancelled = False\<rparr>" "readEChartsTheme None" None
      EMPTY_FILTERS new_geo None None] by simp

end
