(* ===== verification/Listbox.thy ===== *)
theory Listbox
  imports Tables Trim
begin

text \<open>
  Lists of suggestions: the highlighted position and its keys, which the combobox of the comparison
  and the property popover share, and the combobox itself (\<^verbatim>\<open>Combobox\<close> in
  \<^verbatim>\<open>panels/Compare.tsx\<close>). \<open>lower\<close> stands for
  \<^verbatim>\<open>toLowerCase\<close>, whose tables of Unicode are not modelled.
\<close>

section \<open>The highlighted position\<close>

definition arrow_down :: "nat \<Rightarrow> nat \<Rightarrow> nat" where
  "arrow_down h n = min (h + 1) (max (n - 1) 0)"

definition arrow_up :: "nat \<Rightarrow> nat" where
  "arrow_up h = max (h - 1) 0"

definition on_list :: "nat \<Rightarrow> 'o list \<Rightarrow> bool" where
  "on_list h xs \<longleftrightarrow> h = 0 \<or> h < length xs"

lemma on_list_keys:
  "on_list h xs \<Longrightarrow> on_list (arrow_down h (length xs)) xs"
  "on_list h xs \<Longrightarrow> on_list (arrow_up h) xs"
  "on_list 0 xs"
  by (auto simp: on_list_def arrow_down_def arrow_up_def)

lemma on_list_length: "length xs = length ys \<Longrightarrow> on_list h xs = on_list h ys"
  by (simp add: on_list_def)

text \<open>\<^verbatim>\<open>xs[i]\<close>, undefined past the end.\<close>

definition js_at :: "'o list \<Rightarrow> nat \<Rightarrow> 'o option" where
  "js_at xs i = (if i < length xs then Some (xs ! i) else None)"

lemma js_at_on_list: "on_list h xs \<Longrightarrow> xs \<noteq> [] \<Longrightarrow> js_at xs h = Some (xs ! h)"
  by (cases xs) (auto simp: js_at_def on_list_def)

section \<open>The combobox\<close>

record ComboOption =
  co_id :: string
  co_primary :: string
  co_secondary :: "string option"

definition combo_matches :: "(string \<Rightarrow> string) \<Rightarrow> string \<Rightarrow> ComboOption \<Rightarrow> bool" where
  "combo_matches lower q o' \<longleftrightarrow>
     has_substring q (lower (co_primary o'))
     \<or> (case co_secondary o' of Some t \<Rightarrow> has_substring q (lower t) | None \<Rightarrow> False)"

definition combo_filtered :: "(string \<Rightarrow> string) \<Rightarrow> string \<Rightarrow> ComboOption list \<Rightarrow> ComboOption list" where
  "combo_filtered lower v opts =
     (let q = lower (js_trim v); pool = (if q = [] then opts else filter (combo_matches lower q) opts) in take 8 pool)"

text \<open>
  Its two signals, the value and the options it was last rendered with, and what its effect listed in
  its last run: the number of suggestions and the value.
\<close>

record Combo =
  combo_value :: string
  combo_options :: "ComboOption list"
  combo_open :: bool
  highlight :: nat
  combo_last :: "(nat \<times> string) option"

definition new_combo :: Combo where
  "new_combo = \<lparr>combo_value = [], combo_options = [], combo_open = False, highlight = 0, combo_last = None\<rparr>"

datatype combo_event =
  Combo_rendered string "ComboOption list" | Combo_flushed | Combo_focus | Combo_blur | Combo_input string | Combo_key string | Combo_press nat

definition listed :: "(string \<Rightarrow> string) \<Rightarrow> Combo \<Rightarrow> ComboOption list" where
  "listed lower c = combo_filtered lower (combo_value c) (combo_options c)"

definition combo_commit :: "ComboOption option \<Rightarrow> Combo \<Rightarrow> Combo \<times> string option" where
  "combo_commit opt c = (c\<lparr>combo_open := False\<rparr>, map_option co_id opt)"

definition combo_onKey :: "(string \<Rightarrow> string) \<Rightarrow> string \<Rightarrow> Combo \<Rightarrow> Combo \<times> string option" where
  "combo_onKey lower key c =
     (if key = ''ArrowDown''
      then (c\<lparr>combo_open := True, highlight := arrow_down (highlight c) (length (listed lower c))\<rparr>, None)
      else if key = ''ArrowUp'' then (c\<lparr>highlight := arrow_up (highlight c)\<rparr>, None)
      else if key = ''Enter'' \<and> combo_open c \<and> js_at (listed lower c) (highlight c) \<noteq> None
      then combo_commit (js_at (listed lower c) (highlight c)) c
      else if key = ''Escape'' then (c\<lparr>combo_open := False\<rparr>, None)
      else (c, None))"

text \<open>
  The effect takes the highlight back to the top when the number of suggestions or the value has changed.
  It runs after the rendering is on the screen (\<open>Combo_flushed\<close>), or before the next rendering at the latest.
\<close>

definition combo_effect :: "(string \<Rightarrow> string) \<Rightarrow> Combo \<Rightarrow> Combo" where
  "combo_effect lower c =
     (let deps = (length (listed lower c), combo_value c) in
      if combo_last c = Some deps then c else c\<lparr>combo_last := Some deps, highlight := 0\<rparr>)"

text \<open>One event, with the value it hands to \<^verbatim>\<open>onChange\<close>.\<close>

fun combo_step :: "(string \<Rightarrow> string) \<Rightarrow> combo_event \<Rightarrow> Combo \<Rightarrow> Combo \<times> string option" where
  "combo_step lower (Combo_rendered v opts) c =
     ((combo_effect lower c)\<lparr>combo_value := v, combo_options := opts\<rparr>, None)"
| "combo_step lower Combo_flushed c = (combo_effect lower c, None)"
| "combo_step lower Combo_focus c = (c\<lparr>combo_open := True\<rparr>, None)"
| "combo_step lower Combo_blur c = (c\<lparr>combo_open := False\<rparr>, None)"
| "combo_step lower (Combo_input v) c = (c\<lparr>combo_open := True\<rparr>, Some v)"
| "combo_step lower (Combo_key k) c = combo_onKey lower k c"
| "combo_step lower (Combo_press i) c = combo_commit (js_at (listed lower c) i) c"

definition showList :: "(string \<Rightarrow> string) \<Rightarrow> Combo \<Rightarrow> bool" where
  "showList lower c \<longleftrightarrow> combo_open c \<and> 0 < length (listed lower c)"

definition combo_li :: "string \<Rightarrow> nat \<Rightarrow> ComboOption \<Rightarrow> nat \<Rightarrow> combo_event vnode" where
  "combo_li listId h opt i =
     Elem ''li''
       [(''id'', listId @ ''-opt-'' @ show_nonneg (int i)), (''role'', ''option''), (''aria-selected'', bool_text (i = h)),
        (''class'', ''seg-combo-row'' @ (if i = h then '' is-active'' else []))]
       [(''mousedown'', \<lambda>_. Combo_press i)]
       (el ''span'' (in_class ''seg-combo-primary'') [Text (co_primary opt)]
        # (if truthy (co_secondary opt) then [el ''span'' (in_class ''seg-combo-secondary'') [Text (or_default [] (co_secondary opt))]]
           else []))"

definition Combobox :: "(string \<Rightarrow> string) \<Rightarrow> string \<Rightarrow> string \<Rightarrow> string \<Rightarrow> string \<Rightarrow> Combo \<Rightarrow> combo_event vnode" where
  "Combobox lower inputId placeholder ariaLabel describedBy c =
     (let listId = inputId @ ''-list''; shown = showList lower c in
      el ''div'' (in_class ''seg-combo'')
        (Elem ''input''
           ([(''id'', inputId), (''type'', ''text''), (''value'', combo_value c), (''placeholder'', placeholder), (''role'', ''combobox''),
             (''aria-autocomplete'', ''list''), (''aria-expanded'', bool_text shown), (''aria-controls'', listId)]
            @ (if shown then [(''aria-activedescendant'', listId @ ''-opt-'' @ show_nonneg (int (highlight c)))] else [])
            @ [(''aria-label'', ariaLabel), (''aria-describedby'', describedBy)])
           [(''focus'', \<lambda>_. Combo_focus), (''blur'', \<lambda>_. Combo_blur), (''input'', Combo_input), (''keydown'', Combo_key)] []
         # only_if shown
             (el ''ul'' [(''id'', listId), (''role'', ''listbox''), (''class'', ''seg-combo-list'')]
               (map_index (combo_li listId (highlight c)) (listed lower c)))))"

section \<open>Keys and the list\<close>

text \<open>Once the effect has run for what is on the screen, the highlight is on the list.\<close>

definition flushed :: "(string \<Rightarrow> string) \<Rightarrow> Combo \<Rightarrow> bool" where
  "flushed lower c \<longleftrightarrow> combo_last c = Some (length (listed lower c), combo_value c)"

definition combo_ok :: "(string \<Rightarrow> string) \<Rightarrow> Combo \<Rightarrow> bool" where
  "combo_ok lower c \<longleftrightarrow> (flushed lower c \<longrightarrow> on_list (highlight c) (listed lower c))"

lemma combo_effect_fields [simp]:
  "combo_value (combo_effect lower c) = combo_value c" "combo_options (combo_effect lower c) = combo_options c"
  "combo_open (combo_effect lower c) = combo_open c" "listed lower (combo_effect lower c) = listed lower c"
  "combo_last (combo_effect lower c) = Some (length (listed lower c), combo_value c)"
  by (simp_all add: combo_effect_def Let_def listed_def)

lemma combo_effect_flushed: "flushed lower (combo_effect lower c)"
  by (simp add: flushed_def)

lemma combo_effect_again: "flushed lower c \<Longrightarrow> combo_effect lower c = c"
  by (simp add: flushed_def combo_effect_def)

lemma combo_effect_on_list: "combo_ok lower c \<Longrightarrow> on_list (highlight (combo_effect lower c)) (listed lower c)"
  by (auto simp: combo_ok_def combo_effect_def flushed_def Let_def on_list_def)

lemma combo_ok_step: "combo_ok lower c \<Longrightarrow> combo_ok lower (fst (combo_step lower e c))"
proof (cases e)
  case (Combo_rendered v opts)
  assume "combo_ok lower c"
  then show ?thesis
    using combo_effect_on_list [of lower c] on_list_length [of "combo_filtered lower v opts" "listed lower c"]
    by (auto simp: combo_ok_def Combo_rendered flushed_def listed_def)
next
  case Combo_flushed
  assume "combo_ok lower c"
  then show ?thesis using combo_effect_on_list [of lower c] by (simp add: combo_ok_def Combo_flushed)
next
  case (Combo_key k)
  assume "combo_ok lower c"
  then show ?thesis
    using on_list_keys(1,2) [of "highlight c" "listed lower c"]
    by (auto simp: Combo_key combo_ok_def combo_onKey_def combo_commit_def listed_def flushed_def)
qed (auto simp: combo_ok_def combo_commit_def listed_def flushed_def)

lemma combo_ok_run: "combo_ok lower c \<Longrightarrow> combo_ok lower (fold (\<lambda>e c. fst (combo_step lower e c)) es c)"
  by (induction es arbitrary: c) (simp_all add: combo_ok_step)

lemma combo_ok_new: "combo_ok lower new_combo"
  by (simp add: combo_ok_def new_combo_def flushed_def)

text \<open>The elements of a tree that are marked as selected.\<close>

definition selected_rows :: "'a vnode \<Rightarrow> 'a vnode list" where
  "selected_rows v = filter (\<lambda>e. attr ''aria-selected'' e = Some ''true'') (elements v)"

lemma one_of_enumerate:
  "concat (map (\<lambda>(i, x). if i = h then [f x i] else []) (enumerate n xs))
     = (if n \<le> h \<and> h < n + length xs then [f (xs ! (h - n)) h] else [])"
proof (induction xs arbitrary: n)
  case (Cons x xs)
  show ?case
  proof (cases "n = h")
    case True
    then show ?thesis using Cons [of "Suc n"] by simp
  next
    case False
    then show ?thesis using Cons [of "Suc n"] by (auto simp: nth_Cons' Suc_diff_le)
  qed
qed simp

lemma selected_li:
  "selected_rows (combo_li listId h opt i) = (if i = h then [combo_li listId h opt i] else [])"
  by (simp add: selected_rows_def combo_li_def el_def in_class_def bool_text_def truthy_def or_default_def
      split: option.split)

lemma selected_el:
  "attr ''aria-selected'' (Elem t as hs cs) = None \<Longrightarrow>
     selected_rows (Elem t as hs cs) = concat (map selected_rows cs)"
  by (simp add: selected_rows_def [abs_def] filter_concat Fun.comp_def)

lemma selected_in_list:
  "concat (map selected_rows (map_index (combo_li listId h) xs)) = (if h < length xs then [combo_li listId h (xs ! h) h] else [])"
proof -
  have "map selected_rows (map_index (combo_li listId h) xs)
      = map (\<lambda>(i, x). if i = h then [combo_li listId h x i] else []) (enumerate 0 xs)"
    by (simp add: map_index_def selected_li case_prod_unfold)
  then show ?thesis using one_of_enumerate [of h "combo_li listId h" 0 xs] by simp
qed

lemma selected_combobox:
  assumes "showList lower c"
  shows "selected_rows (Combobox lower i p l d c)
    = (if highlight c < length (listed lower c)
       then [combo_li (i @ ''-list'') (highlight c) (listed lower c ! highlight c) (highlight c)] else [])"
  using assms selected_in_list [of "i @ ''-list''" "highlight c" "listed lower c"]
  by (simp add: Combobox_def Let_def el_def in_class_def selected_el only_if_def)

lemma combo_enter:
  assumes "showList lower c"
  shows "combo_step lower (Combo_key ''Enter'') c
    = (if highlight c < length (listed lower c)
       then (c\<lparr>combo_open := False\<rparr>, Some (co_id (listed lower c ! highlight c))) else (c, None))"
  using assms by (simp add: showList_def combo_onKey_def combo_commit_def js_at_def)

lemma listed_facts:
  "subseq (listed lower c) (combo_options c)" "length (listed lower c) \<le> 8"
  "list_all (\<lambda>o'. combo_matches lower (lower (js_trim (combo_value c))) o' \<or> lower (js_trim (combo_value c)) = []) (listed lower c)"
proof -
  show "subseq (listed lower c) (combo_options c)"
    unfolding listed_def combo_filtered_def Let_def
    by (intro subseq_order.trans [OF prefix_imp_subseq [OF take_is_prefix]]) simp
  show "length (listed lower c) \<le> 8" by (simp add: listed_def combo_filtered_def Let_def)
  show "list_all (\<lambda>o'. combo_matches lower (lower (js_trim (combo_value c))) o' \<or> lower (js_trim (combo_value c)) = [])
      (listed lower c)"
    by (auto simp: list_all_iff listed_def combo_filtered_def Let_def dest!: in_set_takeD)
qed

text \<open>
  C38: the combobox. Whatever is typed, pressed and rendered, once the effect of the last rendering has run an open
  list has exactly one highlighted suggestion, and Enter hands it over and closes the list. Before that the
  highlight may lie behind the end of a list that has become shorter: then no suggestion is highlighted and
  Enter does nothing; where it lies on the list, that suggestion is highlighted and handed over. The effect
  changes nothing when neither the value nor the number of suggestions has changed. A press hands over
  the option pressed; at most eight suggestions are shown, all of the given options, all matching, in
  their order.
\<close>

theorem combobox_spec:
  "let c = fold (\<lambda>e c. fst (combo_step lower e c)) es new_combo; c' = fst (combo_step lower Combo_flushed c) in
     (showList lower c' \<longrightarrow>
        selected_rows (Combobox lower inputId p l d c')
          = [combo_li (inputId @ ''-list'') (highlight c') (listed lower c' ! highlight c') (highlight c')]
        \<and> combo_step lower (Combo_key ''Enter'') c'
            = (c'\<lparr>combo_open := False\<rparr>, Some (co_id (listed lower c' ! highlight c'))))
     \<and> (showList lower c \<longrightarrow>
        (if highlight c < length (listed lower c)
         then selected_rows (Combobox lower inputId p l d c)
                = [combo_li (inputId @ ''-list'') (highlight c) (listed lower c ! highlight c) (highlight c)]
              \<and> combo_step lower (Combo_key ''Enter'') c
                = (c\<lparr>combo_open := False\<rparr>, Some (co_id (listed lower c ! highlight c)))
         else c' \<noteq> c \<and> selected_rows (Combobox lower inputId p l d c) = [] \<and> combo_step lower (Combo_key ''Enter'') c = (c, None)))
     \<and> (combo_last c = Some (length (listed lower c), combo_value c) \<longrightarrow> c' = c)
     \<and> (i < length (listed lower c) \<longrightarrow>
          combo_step lower (Combo_press i) c = (c\<lparr>combo_open := False\<rparr>, Some (co_id (listed lower c ! i))))
     \<and> length (listed lower c) \<le> 8
     \<and> list_all (\<lambda>o'. combo_matches lower (lower (js_trim (combo_value c))) o' \<or> lower (js_trim (combo_value c)) = [])
         (listed lower c)
     \<and> subseq (listed lower c) (combo_options c)"
proof -
  let ?c = "fold (\<lambda>e c. fst (combo_step lower e c)) es new_combo"
  let ?d = "combo_effect lower ?c"
  have "on_list (highlight ?d) (listed lower ?c)" by (intro combo_effect_on_list combo_ok_run combo_ok_new)
  then have on: "highlight ?d < length (listed lower ?d)" if "showList lower ?d"
    using that by (auto simp: showList_def on_list_def)
  have "showList lower ?d \<longleftrightarrow> showList lower ?c" by (simp add: showList_def)
  with on have stale: "?d \<noteq> ?c" if "showList lower ?c" "\<not> highlight ?c < length (listed lower ?c)" using that by metis
  have same: "?d = ?c" if "combo_last ?c = Some (length (listed lower ?c), combo_value ?c)"
    using that by (intro combo_effect_again) (simp add: flushed_def)
  have press: "combo_step lower (Combo_press i) ?c = (?c\<lparr>combo_open := False\<rparr>, Some (co_id (listed lower ?c ! i)))"
    if "i < length (listed lower ?c)" using that by (simp add: combo_commit_def js_at_def)
  show ?thesis
    unfolding Let_def combo_step.simps(2) fst_conv
    using on stale same press listed_facts [of lower ?c]
    by (simp add: selected_combobox combo_enter del: combo_step.simps combo_effect_fields(4))
qed

theorem combobox_spec_witness:
  "let c = fold (\<lambda>e c. fst (combo_step (\<lambda>s. s) e c))
         [Combo_rendered [] [\<lparr>co_id = ''a'', co_primary = ''a'', co_secondary = None\<rparr>], Combo_focus] new_combo
   in snd (combo_step (\<lambda>s. s) (Combo_key ''Enter'') (fst (combo_step (\<lambda>s. s) Combo_flushed c))) = Some ''a''"
  using combobox_spec [of "\<lambda>s. s" "[Combo_rendered [] [\<lparr>co_id = ''a'', co_primary = ''a'', co_secondary = None\<rparr>], Combo_focus]"
      "[]" "[]" "[]" "[]" 0]
  by (simp add: Let_def showList_def listed_def combo_filtered_def js_trim_Nil new_combo_def combo_effect_def)

text \<open>
  the moment before the effect. With the arrow on the second of two suggestions, a letter that leaves the
  first one only shows a list without a highlighted suggestion, and an Enter that comes before the effect
  hands over nothing.
\<close>

definition stale_combo :: Combo where
  "stale_combo =
     (let opts = map (\<lambda>t. \<lparr>co_id = t, co_primary = t, co_secondary = None\<rparr>) [''1'', ''2''] in
      fold (\<lambda>e c. fst (combo_step (\<lambda>s. s) e c))
        [Combo_rendered [] opts, Combo_flushed, Combo_focus, Combo_key ''ArrowDown'', Combo_rendered ''1'' opts] new_combo)"

theorem combobox_stale:
  "showList (\<lambda>s. s) stale_combo \<and> listed (\<lambda>s. s) stale_combo = [\<lparr>co_id = ''1'', co_primary = ''1'', co_secondary = None\<rparr>]
   \<and> selected_rows (Combobox (\<lambda>s. s) i p l d stale_combo) = []
   \<and> combo_step (\<lambda>s. s) (Combo_key ''Enter'') stale_combo = (stale_combo, None)
   \<and> highlight (fst (combo_step (\<lambda>s. s) Combo_flushed stale_combo)) = 0"
proof -
  have one: "js_trim ''1'' = ''1''" by (rule trim_digits; simp add: is_digit_def)
  have l: "listed (\<lambda>s. s) stale_combo = [\<lparr>co_id = ''1'', co_primary = ''1'', co_secondary = None\<rparr>]"
    and h: "highlight stale_combo = 1" and op: "combo_open stale_combo"
    and last_run: "combo_last stale_combo = Some (2, [])" "combo_value stale_combo = ''1''"
    by (simp_all add: stale_combo_def Let_def listed_def combo_filtered_def combo_matches_def one js_trim_Nil new_combo_def combo_effect_def
        combo_onKey_def arrow_down_def)
  then have "showList (\<lambda>s. s) stale_combo" by (simp add: showList_def)
  then show ?thesis using l h last_run by (simp add: selected_combobox combo_enter combo_effect_def del: combo_step.simps(6))
qed

end
