(* ===== verification/Compare.thy ===== *)
theory Compare
  imports Listbox Fetching
begin

text \<open>
  The comparison of variants (\<^verbatim>\<open>panels/Compare.tsx\<close>): the catalogues of
  properties and goals with the module's two caches, the delayed request, the table, and the panel
  they make up.
\<close>

section \<open>Texts\<close>

definition pct :: "rat \<Rightarrow> nat \<Rightarrow> string" where
  "pct n places = to_fixed places (dbl (n * 100)) @ ''%''"

definition fmtDelta :: "rat \<Rightarrow> string" where
  "fmtDelta pp = (if 0 \<le> pp then ''+'' else []) @ to_fixed 2 (dbl (pp * 100)) @ '' pp''"

definition em_dash :: string where "em_dash = [CHR 0xE2, CHR 0x80, CHR 0x94]"
definition en_dash :: string where "en_dash = [CHR 0xE2, CHR 0x80, CHR 0x93]"
definition alpha_sign :: string where "alpha_sign = [CHR 0xCE, CHR 0xB1]"

section \<open>The table\<close>

definition badge :: "string \<Rightarrow> string \<Rightarrow> string \<Rightarrow> 'a vnode" where
  "badge kind title t = el ''span'' [(''class'', ''seg-badge seg-badge--'' @ kind), (''title'', title)] [Text t]"

definition Badge :: "VariantRow \<Rightarrow> 'a vnode option" where
  "Badge r =
     (case significant r of
        None \<Rightarrow>
          if 0 < VariantRow.visitors r
          then Some (badge ''na'' ''Not enough sample yet (need at least 100 visitors and 25 conversions per variant)'' ''n/a'')
          else None
      | Some True \<Rightarrow> Some (badge ''sig'' ''The gap is unlikely to be chance at this sample size'' ''SIG'')
      | Some False \<Rightarrow> Some (badge ''na'' ''The gap could still be chance at this sample size'' ''n/a''))"

definition num_cell :: "'a vnode list \<Rightarrow> 'a vnode" where
  "num_cell cs = el ''td'' (in_class ''seg-num'') cs"

definition delta_cell :: "VariantRow \<Rightarrow> 'a vnode list" where
  "delta_cell r =
     (case delta_pp r of
        None \<Rightarrow> [el ''span'' [(''class'', ''seg-dash''), (''title'', ''Control row (nothing to compare against)'')] [Text em_dash]]
      | Some pp \<Rightarrow>
          el ''div'' (in_class (if 0 \<le> pp then ''seg-delta-ok'' else ''seg-delta-bad'')) [Text (fmtDelta pp)]
          # (case delta_rel r of
               None \<Rightarrow> []
             | Some x \<Rightarrow> [el ''div'' (in_class ''seg-delta-rel'')
                 [Text (if 0 \<le> dbl (x * 100) then ''+'' else []), Text (to_fixed 1 (dbl (x * 100))), Text ''% rel'']]))"

definition interval_cell :: "VariantRow \<Rightarrow> 'a vnode list" where
  "interval_cell r =
     (case (ci_low r, ci_high r) of
        (Some lo, Some hi) \<Rightarrow> [el ''span'' [] [Text (pct lo 2), Text ('' '' @ en_dash @ '' ''), Text (pct hi 2)]]
      | _ \<Rightarrow> [el ''span'' (in_class ''seg-dash'') [Text em_dash]])"

definition variant_row :: "string \<Rightarrow> VariantRow \<Rightarrow> 'a vnode" where
  "variant_row ctl r =
     (let isControl = (variant_value r = ctl) in
      el ''tr'' (in_class (if isControl then ''seg-row-control'' else ''seg-row-variant''))
        [td (el ''strong'' [] [Text (if variant_value r \<noteq> [] then variant_value r else ''(empty)'')]
             # only_if isControl (el ''div'' (in_class ''seg-control-tag'') [Text ''CONTROL''])),
         num_cell [Text (int_text (VariantRow.visitors r))],
         num_cell [Text (int_text (goal_completions r))],
         num_cell [Text (pct (conversion_rate r) 2)],
         num_cell (delta_cell r),
         num_cell (interval_cell r),
         td (case Badge r of Some v \<Rightarrow> [v] | None \<Rightarrow> [])])"

definition th_titled :: "string \<Rightarrow> string \<Rightarrow> 'a vnode" where
  "th_titled t s = el ''th'' [(''scope'', ''col''), (''title'', t)] [Text s]"

definition CompareTable :: "CompareResult \<Rightarrow> 'a vnode" where
  "CompareTable d =
     (if length (variants d) = 0
      then el ''p'' (in_class ''seg-empty'')
        [Text ''No data for this property yet. Try a longer date range, a different property, or check that visitors are firing the goal.'']
      else el ''table''
        [(''class'', ''seg-compare-table''), (''role'', ''table''),
         (''aria-label'', ''Variants of '' @ CompareResult.dimension d @ '' measured against '' @ CompareResult.goal d)]
        [el ''thead'' []
           [el ''tr'' []
              (map th_plain [''VARIANT'', ''VISITORS'', ''CONVERSIONS'', ''RATE'', ''VS CONTROL'']
               @ [th_titled ''Wilson 95% interval: where the true rate is likely to sit'' ''UNCERTAINTY (95%)'',
                  th_titled (''SIG = unlikely to be chance '' @ middot @ '' n/a = not enough sample'') ''SIGNIFICANCE''])],
         el ''tbody'' [] (map (variant_row (control d)) (variants d))])"

section \<open>The catalogues\<close>

definition API_SCOPES :: "string list" where
  "API_SCOPES = [''hit'', ''session'', ''user'']"

definition prop_option :: "string \<Rightarrow> PropNameRow \<Rightarrow> ComboOption" where
  "prop_option sc r =
     \<lparr>co_id = sc @ '':'' @ prop_name r, co_primary = sc @ '':'' @ prop_name r,
      co_secondary = Some (show_nonneg (int (length (sample_values r))) @ ''v'')\<rparr>"

definition goal_option :: "GoalSummary \<Rightarrow> ComboOption" where
  "goal_option g =
     \<lparr>co_id = goal_pattern g, co_primary = goal_pattern g,
      co_secondary = (if goal_name g \<noteq> [] \<and> goal_name g \<noteq> goal_pattern g then Some (goal_name g) else None)\<rparr>"

text \<open>
  The caches of the module, by site, and the effect of the mounted panel: its last site, the number of
  its run, the answers of the three scopes and whether the goals are on their way. An aborted run leaves
  nothing behind, so only the last one is kept.
\<close>

record Catalogs =
  dimensionCatalog :: "(rat, ComboOption list) omap"
  goalCatalog :: "(rat, ComboOption list) omap"
  dimensionOptions :: "ComboOption list"
  goalOptions :: "ComboOption list"
  cat_site :: "rat option"
  cat_run :: nat
  batches :: "(ComboOption list option) list option"
  goals_coming :: bool

datatype cat_event =
  Cat_mounted rat | Cat_shown rat | Scope_done nat nat "PropNameRow list option" | Goals_done nat "GoalSummary list option"

definition scope_options :: "nat \<Rightarrow> PropNameRow list option \<Rightarrow> ComboOption list" where
  "scope_options i res = (case res of Some rs \<Rightarrow> map (prop_option (API_SCOPES ! i)) rs | None \<Rightarrow> [])"

text \<open>The flat list of the three answers, once all are there.\<close>

definition all_batches :: "ComboOption list option list \<Rightarrow> ComboOption list option" where
  "all_batches bs = (if list_all (\<lambda>b. b \<noteq> None) bs then Some (concat (map (or_default []) bs)) else None)"

fun cat_step :: "cat_event \<Rightarrow> Catalogs \<Rightarrow> Catalogs" where
  "cat_step (Cat_mounted siteID) c =
     c\<lparr>dimensionOptions := or_default [] (map_of (dimensionCatalog c) siteID),
       goalOptions := or_default [] (map_of (goalCatalog c) siteID),
       cat_site := None, batches := None, goals_coming := False\<rparr>"
| "cat_step (Cat_shown siteID) c =
     (if cat_site c = Some siteID then c
      else
        let dims = map_of (dimensionCatalog c) siteID; gls = map_of (goalCatalog c) siteID in
        c\<lparr>dimensionOptions := or_default (dimensionOptions c) dims, goalOptions := or_default (goalOptions c) gls,
          cat_site := Some siteID, cat_run := cat_run c + 1,
          batches := (if dims = None then Some (replicate (length API_SCOPES) None) else None),
          goals_coming := (gls = None)\<rparr>)"
| "cat_step (Scope_done n i res) c =
     (case (cat_site c, batches c) of
        (Some siteID, Some bs) \<Rightarrow>
          if n = cat_run c \<and> js_at bs i = Some None then
            (let bs' = bs[i := Some (scope_options i res)] in
             case all_batches bs' of
               None \<Rightarrow> c\<lparr>batches := Some bs'\<rparr>
             | Some flat \<Rightarrow> c\<lparr>dimensionCatalog := omap_set siteID flat (dimensionCatalog c), dimensionOptions := flat, batches := None\<rparr>)
          else c
      | _ \<Rightarrow> c)"
| "cat_step (Goals_done n res) c =
     (case cat_site c of
        Some siteID \<Rightarrow>
          if n = cat_run c \<and> goals_coming c then
            (case res of
               Some rs \<Rightarrow>
                 let opts = map goal_option rs in
                 c\<lparr>goalCatalog := omap_set siteID opts (goalCatalog c), goalOptions := opts, goals_coming := False\<rparr>
             | None \<Rightarrow> c\<lparr>goals_coming := False\<rparr>)
          else c
      | None \<Rightarrow> c)"

section \<open>The delayed request\<close>

text \<open>
  What the effect lists: the site, the two fields and the filters. Filters are told apart by identity,
  here a number, as two filter objects may hold the same values.
\<close>

record Cmp_inputs =
  cmp_site :: rat
  cmp_filters :: Filters
  cmp_version :: nat

record 'd Cmp =
  cmp_dimension :: string
  cmp_goal :: string
  cmp_in :: Cmp_inputs
  cmp_data :: "'d option"
  cmp_err :: "string option"
  cmp_loading :: bool
  cmp_last :: "(rat \<times> string \<times> string \<times> nat) option"
  cmp_timer :: bool
  cmp_call :: "nat option"
  cmp_asked :: "params list"

datatype cmp_event =
  Cmp_inputs_set Cmp_inputs | Cmp_dimension_set string | Cmp_goal_set string | Cmp_flushed | Cmp_elapsed
  | Cmp_answered nat | Cmp_failed nat string

definition COMPARE_DEBOUNCE_MS :: int where "COMPARE_DEBOUNCE_MS = 250"

definition new_cmp :: "Cmp_inputs \<Rightarrow> 'd Cmp" where
  "new_cmp i = \<lparr>cmp_dimension = ''session:ab_variant'', cmp_goal = ''signup'', cmp_in = i, cmp_data = None, cmp_err = None,
     cmp_loading = False, cmp_last = None, cmp_timer = False, cmp_call = None, cmp_asked = []\<rparr>"

definition cmp_deps :: "'d Cmp \<Rightarrow> rat \<times> string \<times> string \<times> nat" where
  "cmp_deps s = (cmp_site (cmp_in s), cmp_dimension s, cmp_goal s, cmp_version (cmp_in s))"

definition cmp_query :: "'d Cmp \<Rightarrow> params" where
  "cmp_query s =
     apiGet_query (cmp_site (cmp_in s)) (cmp_filters (cmp_in s)) [(''dimension'', cmp_dimension s), (''goal'', cmp_goal s)]"

text \<open>
  The effect of a rendering: with new dependencies it clears the timer, aborts the request and sets a
  new timer. It runs after the rendering is on the screen (\<open>Cmp_flushed\<close>), or before the next
  change is rendered at the latest.
\<close>

definition cmp_effect :: "'d Cmp \<Rightarrow> 'd Cmp" where
  "cmp_effect s =
     (if cmp_last s = Some (cmp_deps s) then s
      else s\<lparr>cmp_last := Some (cmp_deps s), cmp_timer := True, cmp_call := None\<rparr>)"

fun cmp_step :: "(params \<Rightarrow> 'd) \<Rightarrow> cmp_event \<Rightarrow> 'd Cmp \<Rightarrow> 'd Cmp" where
  "cmp_step server (Cmp_inputs_set i) s = (cmp_effect s)\<lparr>cmp_in := i\<rparr>"
| "cmp_step server (Cmp_dimension_set v) s = (cmp_effect s)\<lparr>cmp_dimension := v\<rparr>"
| "cmp_step server (Cmp_goal_set v) s = (cmp_effect s)\<lparr>cmp_goal := v\<rparr>"
| "cmp_step server Cmp_flushed s = cmp_effect s"
| "cmp_step server Cmp_elapsed s =
     (if cmp_timer s
      then s\<lparr>cmp_timer := False, cmp_loading := True, cmp_err := None, cmp_call := Some (length (cmp_asked s)),
             cmp_asked := cmp_asked s @ [cmp_query s]\<rparr>
      else s)"
| "cmp_step server (Cmp_answered n) s =
     (if cmp_call s = Some n
      then s\<lparr>cmp_data := Some (server (cmp_asked s ! n)), cmp_loading := False, cmp_call := None\<rparr> else s)"
| "cmp_step server (Cmp_failed n e) s =
     (if cmp_call s = Some n then s\<lparr>cmp_err := Some e, cmp_loading := False, cmp_call := None\<rparr> else s)"

section \<open>The panel\<close>

text \<open>The two fields, the request and the catalogues; a commit of a field sets its value.\<close>

record ComparePanel =
  pn_dim :: Combo
  pn_goal :: Combo
  pn_cmp :: "CompareResult Cmp"
  pn_cat :: Catalogs

datatype compare_action = Dim_event combo_event | Goal_event combo_event

fun field_event :: "(string \<Rightarrow> string) \<Rightarrow> (params \<Rightarrow> CompareResult) \<Rightarrow> compare_action \<Rightarrow> ComparePanel \<Rightarrow> ComparePanel" where
  "field_event lower server (Dim_event e) p =
     (let (c, call) = combo_step lower e (pn_dim p); p1 = p\<lparr>pn_dim := c\<rparr> in
      case call of Some v \<Rightarrow> p1\<lparr>pn_cmp := cmp_step server (Cmp_dimension_set v) (pn_cmp p)\<rparr> | None \<Rightarrow> p1)"
| "field_event lower server (Goal_event e) p =
     (let (c, call) = combo_step lower e (pn_goal p); p1 = p\<lparr>pn_goal := c\<rparr> in
      case call of Some v \<Rightarrow> p1\<lparr>pn_cmp := cmp_step server (Cmp_goal_set v) (pn_cmp p)\<rparr> | None \<Rightarrow> p1)"

text \<open>Rendering hands the fields their values and options and runs the effect of the catalogues.\<close>

definition render_panel :: "(string \<Rightarrow> string) \<Rightarrow> ComparePanel \<Rightarrow> ComparePanel" where
  "render_panel lower p =
     p\<lparr>pn_dim := fst (combo_step lower (Combo_rendered (cmp_dimension (pn_cmp p)) (dimensionOptions (pn_cat p))) (pn_dim p)),
       pn_goal := fst (combo_step lower (Combo_rendered (cmp_goal (pn_cmp p)) (goalOptions (pn_cat p))) (pn_goal p)),
       pn_cat := cat_step (Cat_shown (cmp_site (cmp_in (pn_cmp p)))) (pn_cat p)\<rparr>"

text \<open>The effects of the two fields run after it.\<close>

definition flush_fields :: "(string \<Rightarrow> string) \<Rightarrow> ComparePanel \<Rightarrow> ComparePanel" where
  "flush_fields lower p =
     p\<lparr>pn_dim := fst (combo_step lower Combo_flushed (pn_dim p)), pn_goal := fst (combo_step lower Combo_flushed (pn_goal p))\<rparr>"

datatype compare_event = On_field compare_action | On_render | On_flush | On_request cmp_event | On_catalog cat_event

fun compare_step ::
    "(string \<Rightarrow> string) \<Rightarrow> (params \<Rightarrow> CompareResult) \<Rightarrow> compare_event \<Rightarrow> ComparePanel \<Rightarrow> ComparePanel" where
  "compare_step lower server (On_field a) p = field_event lower server a p"
| "compare_step lower server On_render p = render_panel lower p"
| "compare_step lower server On_flush p = flush_fields lower p"
| "compare_step lower server (On_request e) p = p\<lparr>pn_cmp := cmp_step server e (pn_cmp p)\<rparr>"
| "compare_step lower server (On_catalog e) p = p\<lparr>pn_cat := cat_step e (pn_cat p)\<rparr>"

definition picker_label :: "string \<Rightarrow> string \<Rightarrow> 'a vnode \<Rightarrow> string \<Rightarrow> 'a vnode list \<Rightarrow> 'a vnode" where
  "picker_label inputId t box hintId hint =
     el ''label'' [(''for'', inputId)]
       [el ''span'' [] [Text t], box, el ''small'' [(''id'', hintId), (''class'', ''seg-input-hint'')] hint]"

definition methodology :: "'a vnode" where
  "methodology =
     el ''details'' (in_class ''seg-methodology-details'')
       [el ''summary'' [] [Text ''How significance is calculated''],
        el ''p'' (in_class ''seg-methodology'')
          [Text (''Pooled-variance two-proportion z-test ('' @ alpha_sign @ '' = 0.05), Wilson 95% interval for the bounds.''),
           strong_el '' SIG'',
           Text '' appears when the conversion-rate gap is unlikely to be chance at the current sample;'',
           strong_el '' n/a'',
           Text '' means you need at least 100 visitors and 25 conversions per variant before a verdict is honest. Does not correct for multiple comparisons or sequential peeking. Treat first-look results as directional.'']]"

definition Compare :: "(string \<Rightarrow> string) \<Rightarrow> Filters \<Rightarrow> ComparePanel \<Rightarrow> compare_action vnode" where
  "Compare lower f p =
     el ''section'' (in_class ''statnive-section seg-compare-panel'')
       ([el ''h2'' (in_class ''statnive-h2'') [Text ''Compare variants''],
         el ''p'' (in_class ''seg-compare-lead'')
           [Text ''Split visitors by a property, then measure how each value converts on a goal. Use it to read A/B tests, plan tiers, or any segment you tag at the tracker.'']]
        @ (case SegmentCaption ''Within'' f of Some v \<Rightarrow> [v] | None \<Rightarrow> [])
        @ [el ''div'' [(''class'', ''seg-compare-pickers''), (''role'', ''group''), (''aria-label'', ''Comparison setup'')]
             [picker_label ''seg-dim-input'' ''Split visitors by''
                (map_events Dim_event (Combobox lower ''seg-dim-input'' ''session:ab_variant'' ''Property to split visitors by'' ''seg-dim-hint'' (pn_dim p)))
                ''seg-dim-hint''
                [Text ''Format: '', code_el ''scope:name'', Text ''. Scope is '', code_el ''hit'', Text '', '', code_el ''session'',
                 Text '', or '', code_el ''user'', Text ''.''],
              picker_label ''seg-goal-input'' ''Measure goal''
                (map_events Goal_event (Combobox lower ''seg-goal-input'' ''signup'' ''Goal event name to measure'' ''seg-goal-hint'' (pn_goal p)))
                ''seg-goal-hint''
                [Text ''The event name passed to '', code_el ''track()'', Text '', e.g. '', code_el ''signup'', Text '' or '',
                 code_el ''purchase'', Text ''.'']]]
        @ only_if (cmp_loading (pn_cmp p)) (el ''p'' (in_class ''seg-loading'') [Text (''Computing variant stats'' @ ellipsis)])
        @ only_if (truthy (cmp_err (pn_cmp p)))
            (el ''p'' (in_class ''statnive-error'')
              [Text ''Could not load this comparison. Check the property scope and goal name, then try again.''])
        @ (case cmp_data (pn_cmp p) of Some d \<Rightarrow> [CompareTable d] | None \<Rightarrow> [])
        @ [methodology])"

section \<open>What the catalogues keep\<close>

definition cat_ok :: "Catalogs \<Rightarrow> bool" where
  "cat_ok c \<longleftrightarrow>
     (case cat_site c of
        None \<Rightarrow> batches c = None \<and> \<not> goals_coming c
      | Some siteID \<Rightarrow>
          (batches c \<noteq> None \<longleftrightarrow> map_of (dimensionCatalog c) siteID = None)
          \<and> (goals_coming c \<longrightarrow> map_of (goalCatalog c) siteID = None)
          \<and> (map_of (dimensionCatalog c) siteID \<noteq> None \<longrightarrow> map_of (dimensionCatalog c) siteID = Some (dimensionOptions c))
          \<and> (map_of (goalCatalog c) siteID \<noteq> None \<longrightarrow> map_of (goalCatalog c) siteID = Some (goalOptions c)))"

lemma cat_ok_step: "cat_ok c \<Longrightarrow> cat_ok (cat_step e c)"
  by (cases e) (auto simp: cat_ok_def Let_def map_of_omap_set or_default_def split: option.splits if_splits)

lemma cat_step_keeps:
  "cat_ok c \<Longrightarrow> map_of (dimensionCatalog c) k = Some v \<Longrightarrow> map_of (dimensionCatalog (cat_step e c)) k = Some v"
  "cat_ok c \<Longrightarrow> map_of (goalCatalog c) k = Some w \<Longrightarrow> map_of (goalCatalog (cat_step e c)) k = Some w"
  by (cases e; auto simp: cat_ok_def Let_def map_of_omap_set split: option.splits if_splits)+

definition no_catalogs :: Catalogs where
  "no_catalogs = \<lparr>dimensionCatalog = [], goalCatalog = [], dimensionOptions = [], goalOptions = [], cat_site = None,
     cat_run = 0, batches = None, goals_coming = False\<rparr>"

lemma cat_ok_run: "cat_ok c \<Longrightarrow> cat_ok (fold cat_step es c)"
  by (induction es arbitrary: c) (simp_all add: cat_ok_step)

lemma cat_ok_start: "cat_ok (fold cat_step es no_catalogs)"
  by (rule cat_ok_run) (simp add: cat_ok_def no_catalogs_def)

lemma cat_keeps_run:
  "cat_ok c \<Longrightarrow> map_of (dimensionCatalog c) k = Some v \<Longrightarrow> map_of (dimensionCatalog (fold cat_step es c)) k = Some v"
  "cat_ok c \<Longrightarrow> map_of (goalCatalog c) k = Some w \<Longrightarrow> map_of (goalCatalog (fold cat_step es c)) k = Some w"
  by (induction es arbitrary: c) (simp_all add: cat_ok_step cat_step_keeps)

text \<open>The three answers of a run, all of them failures.\<close>

definition all_fail :: "nat \<Rightarrow> cat_event list" where
  "all_fail n = map (\<lambda>i. Scope_done n i None) [0, 1, 2]"

lemma failures_cached:
  assumes "cat_site c = Some k" and "batches c = Some [None, None, None]"
  shows "map_of (dimensionCatalog (fold cat_step (all_fail (cat_run c)) c)) k = Some []"
  using assms by (simp add: all_fail_def js_at_def all_batches_def scope_options_def or_default_def map_of_omap_set)

text \<open>
  C36: the catalogues. Whatever panels are mounted, sites switched and answers late, the options shown
  for a site whose catalogue is cached are that catalogue, a cached catalogue is never
  replaced, and while a site has none the properties are being asked for. So a catalogue that could not be
  loaded is not asked for again: three failed answers are cached as an empty list, for good.
\<close>

theorem catalogs_kept:
  "let c = fold cat_step es no_catalogs in
     (cat_site c = Some k \<longrightarrow>
        (map_of (dimensionCatalog c) k = None \<longleftrightarrow> batches c \<noteq> None)
        \<and> (map_of (dimensionCatalog c) k \<noteq> None \<longrightarrow> map_of (dimensionCatalog c) k = Some (dimensionOptions c))
        \<and> (map_of (goalCatalog c) k \<noteq> None \<longrightarrow> map_of (goalCatalog c) k = Some (goalOptions c)))
     \<and> (map_of (dimensionCatalog c) k = Some v \<longrightarrow> map_of (dimensionCatalog (fold cat_step later c)) k = Some v)
     \<and> (map_of (goalCatalog c) k = Some w \<longrightarrow> map_of (goalCatalog (fold cat_step later c)) k = Some w)
     \<and> (cat_site c = Some k \<and> batches c = Some [None, None, None] \<longrightarrow>
          map_of (dimensionCatalog (fold cat_step (all_fail (cat_run c) @ later) c)) k = Some [])"
proof -
  let ?c = "fold cat_step es no_catalogs"
  have ok: "cat_ok ?c" by (rule cat_ok_start)
  have "map_of (dimensionCatalog (fold cat_step (all_fail (cat_run ?c) @ later) ?c)) k = Some []"
    if "cat_site ?c = Some k" and "batches ?c = Some [None, None, None]"
    unfolding fold_append o_apply using that
    by (intro cat_keeps_run(1) cat_ok_run ok failures_cached)
  then show ?thesis
    using ok cat_keeps_run [OF ok] by (auto simp: Let_def cat_ok_def split: option.splits)
qed

theorem catalogs_kept_witness:
  "map_of (dimensionCatalog (fold cat_step ([Cat_mounted 1, Cat_shown 1] @ all_fail 1 @ [Cat_shown 2, Cat_shown 1]) no_catalogs)) 1
     = Some []"
proof -
  let ?c = "fold cat_step [Cat_mounted 1, Cat_shown 1] no_catalogs"
  have "cat_site ?c = Some 1 \<and> batches ?c = Some [None, None, None] \<and> cat_run ?c = 1"
    by (simp add: no_catalogs_def Let_def API_SCOPES_def numeral_eq_Suc)
  then show ?thesis
    using catalogs_kept [of "[Cat_mounted 1, Cat_shown 1]" 1 "[]" "[Cat_shown 2, Cat_shown 1]" "[]"]
    by (simp only: Let_def fold_append o_apply)
qed

section \<open>When the comparison is up to date\<close>

fun input_of :: "(nat \<Rightarrow> Filters) \<Rightarrow> cmp_event \<Rightarrow> bool" where
  "input_of versions (Cmp_inputs_set i) = (cmp_filters i = versions (cmp_version i))"
| "input_of versions _ = True"

definition settled_cmp :: "'d Cmp \<Rightarrow> bool" where
  "settled_cmp s \<longleftrightarrow> cmp_last s = Some (cmp_deps s) \<and> \<not> cmp_timer s \<and> cmp_call s = None"

definition cmp_ok :: "(nat \<Rightarrow> Filters) \<Rightarrow> (params \<Rightarrow> 'd) \<Rightarrow> 'd Cmp \<Rightarrow> bool" where
  "cmp_ok versions server s \<longleftrightarrow>
     cmp_filters (cmp_in s) = versions (cmp_version (cmp_in s))
     \<and> (cmp_loading s \<longrightarrow> cmp_timer s \<or> cmp_call s \<noteq> None)
     \<and> (cmp_timer s \<longrightarrow> cmp_call s = None)
     \<and> (cmp_last s = Some (cmp_deps s) \<and> \<not> cmp_timer s \<longrightarrow>
         (case cmp_call s of
            Some n \<Rightarrow> n < length (cmp_asked s) \<and> cmp_asked s ! n = cmp_query s
          | None \<Rightarrow> cmp_err s \<noteq> None \<or> cmp_data s = Some (server (cmp_query s))))"

lemma cmp_ok_effect: "cmp_ok vs server s \<Longrightarrow> cmp_ok vs server (cmp_effect s)"
  by (auto simp: cmp_ok_def cmp_effect_def cmp_deps_def)

lemma cmp_ok_set:
  assumes "cmp_ok vs server s" and "cmp_filters i = vs (cmp_version i)"
  shows "cmp_ok vs server ((cmp_effect s)\<lparr>cmp_in := i\<rparr>)"
    and "cmp_ok vs server ((cmp_effect s)\<lparr>cmp_dimension := v\<rparr>)"
    and "cmp_ok vs server ((cmp_effect s)\<lparr>cmp_goal := v\<rparr>)"
  using assms
  by (auto simp: cmp_ok_def cmp_effect_def cmp_deps_def cmp_query_def split: option.splits)

lemma cmp_ok_step:
  assumes "cmp_ok vs server s" and "input_of vs e"
  shows "cmp_ok vs server (cmp_step server e s)"
proof (cases e)
  case (Cmp_inputs_set i)
  then show ?thesis using cmp_ok_set(1) [OF assms(1), of i] assms(2) by simp
next
  case (Cmp_dimension_set v)
  then show ?thesis using cmp_ok_set(2) [OF assms(1), of "cmp_in s" v] assms(1) by (simp add: cmp_ok_def)
next
  case (Cmp_goal_set v)
  then show ?thesis using cmp_ok_set(3) [OF assms(1), of "cmp_in s" v] assms(1) by (simp add: cmp_ok_def)
next
  case Cmp_flushed
  then show ?thesis using cmp_ok_effect [OF assms(1)] by simp
next
  case Cmp_elapsed
  then show ?thesis using assms(1) by (auto simp: cmp_ok_def cmp_query_def cmp_deps_def)
qed (use assms(1) in \<open>auto simp: cmp_ok_def cmp_query_def cmp_deps_def\<close>)

lemma cmp_ok_run:
  "cmp_ok vs server s \<Longrightarrow> list_all (input_of vs) es \<Longrightarrow> cmp_ok vs server (fold (cmp_step server) es s)"
  by (induction es arbitrary: s) (simp_all add: cmp_ok_step)

definition new_panel :: "Cmp_inputs \<Rightarrow> Catalogs \<Rightarrow> ComparePanel" where
  "new_panel i c = \<lparr>pn_dim = new_combo, pn_goal = new_combo, pn_cmp = new_cmp i, pn_cat = c\<rparr>"

fun event_ok :: "(nat \<Rightarrow> Filters) \<Rightarrow> compare_event \<Rightarrow> bool" where
  "event_ok vs (On_request e) = input_of vs e"
| "event_ok vs _ = True"

lemma field_cmp:
  "cmp_ok vs server (pn_cmp p) \<Longrightarrow> cmp_ok vs server (pn_cmp (field_event lower server a p))"
  using cmp_ok_step [of vs server "pn_cmp p" "Cmp_dimension_set v" for v] cmp_ok_step [of vs server "pn_cmp p" "Cmp_goal_set v" for v]
  by (cases a) (auto simp: Let_def simp del: cmp_step.simps split: prod.split option.split)

lemma panel_cmp_run:
  "cmp_ok vs server (pn_cmp p) \<Longrightarrow> list_all (event_ok vs) es \<Longrightarrow>
     cmp_ok vs server (pn_cmp (fold (compare_step lower server) es p))"
proof (induction es arbitrary: p)
  case (Cons e es)
  have "cmp_ok vs server (pn_cmp (compare_step lower server e p))"
    using Cons.prems by (cases e) (simp_all add: field_cmp cmp_ok_step render_panel_def flush_fields_def)
  then show ?case using Cons by simp
qed simp

text \<open>
  C24: the comparison shown. However the fields are typed in and committed, the site and the filters
  changed, and answers late, aborted or failed: when nothing is on its way, the loading line is gone
  and the table answers exactly what the fields, the site and the filters now say, or
  the error is shown. After a change, the pause and the answer lead there, whatever happened before.
\<close>

theorem comparison_up_to_date:
  assumes "list_all (event_ok versions) es" and "cmp_filters i = versions (cmp_version i)"
  shows "let s = pn_cmp (fold (compare_step lower server) es (new_panel i c)) in
     (settled_cmp s \<longrightarrow> \<not> cmp_loading s \<and> (cmp_err s \<noteq> None \<or> cmp_data s = Some (server (cmp_query s))))
     \<and> (cmp_last s \<noteq> Some (cmp_deps s) \<longrightarrow>
         (let t = fold (cmp_step server) [Cmp_flushed, Cmp_elapsed, Cmp_answered (length (cmp_asked s))] s in
          settled_cmp t \<and> \<not> cmp_loading t \<and> cmp_err t = None \<and> cmp_data t = Some (server (cmp_query s))))"
proof -
  let ?s = "pn_cmp (fold (compare_step lower server) es (new_panel i c))"
  have "cmp_ok versions server (pn_cmp (new_panel i c))"
    using assms(2) by (simp add: cmp_ok_def new_panel_def new_cmp_def)
  from panel_cmp_run [OF this assms(1)] have "cmp_ok versions server ?s" .
  then have "settled_cmp ?s \<longrightarrow> \<not> cmp_loading ?s \<and> (cmp_err ?s \<noteq> None \<or> cmp_data ?s = Some (server (cmp_query ?s)))"
    by (auto simp: cmp_ok_def settled_cmp_def)
  then show ?thesis
    by (simp add: Let_def settled_cmp_def cmp_effect_def cmp_deps_def cmp_query_def)
qed

definition example_cmp_inputs :: Cmp_inputs where
  "example_cmp_inputs = \<lparr>cmp_site = 1, cmp_filters = EMPTY_FILTERS, cmp_version = 0\<rparr>"

theorem comparison_up_to_date_witness:
  "(let s = pn_cmp (new_panel example_cmp_inputs no_catalogs);
        t = fold (cmp_step (\<lambda>_. \<lparr>CompareResult.dimension = [], goal = [], control = [], variants = []\<rparr>))
              [Cmp_flushed, Cmp_elapsed, Cmp_answered 0] s
    in settled_cmp t \<and> cmp_err t = None)"
  using comparison_up_to_date [of "\<lambda>_. EMPTY_FILTERS" "[]" example_cmp_inputs "\<lambda>s. s"
      "\<lambda>_. \<lparr>CompareResult.dimension = [], goal = [], control = [], variants = []\<rparr>" no_catalogs]
  by (simp add: Let_def example_cmp_inputs_def new_panel_def new_cmp_def del: cmp_step.simps)

end
