(* ===== verification/PropFilter.thy ===== *)
theory PropFilter
  imports Listbox
begin

text \<open>
  The popover that adds a property filter (\<^verbatim>\<open>components/PropFilterAdd.tsx\<close>): the
  catalogue of the chosen scope with the module's cache, the two suggestion lists, the keys, and the
  filter that is finally set. The current site is part of the state, since the effect reads it.
\<close>

section \<open>State\<close>

fun api_scope :: "scope \<Rightarrow> string" where
  "api_scope HitProps = ''hit''"
| "api_scope SessionProps = ''session''"
| "api_scope UserProps = ''user''"

fun scope_label :: "scope \<Rightarrow> string" where
  "scope_label HitProps = ''HIT''"
| "scope_label SessionProps = ''SES''"
| "scope_label UserProps = ''USR''"

fun scope_help :: "scope \<Rightarrow> string" where
  "scope_help HitProps = ''Applies to this single event.''"
| "scope_help SessionProps = ''Applies to every event in this session.''"
| "scope_help UserProps = ''Applies to every event from this visitor.''"

definition cacheKey :: "rat \<Rightarrow> string \<Rightarrow> string" where
  "cacheKey siteID sc = show_rat siteID @ '':'' @ sc"

datatype pf_field = Name_field | Value_field

text \<open>
  The signals of the component, the dependencies its two effects ran with last, the request on its
  way with its site and scope, and the cache of the module.
\<close>

record Popover =
  pf_open :: bool
  pf_scope :: scope
  pf_name :: string
  pf_value :: string
  pf_props :: "PropNameRow list"
  pf_focused :: "pf_field option"
  pf_highlight :: nat
  pf_fetch_last :: "(bool \<times> scope) option"
  pf_mark_last :: "(pf_field option \<times> string \<times> string) option"
  pf_coming :: "(rat \<times> scope) option"
  propsCache :: "(string, PropNameRow list) omap"
  pf_site :: rat

definition new_popover :: "rat \<Rightarrow> Popover" where
  "new_popover siteID = \<lparr>pf_open = False, pf_scope = HitProps, pf_name = [], pf_value = [], pf_props = [], pf_focused = None,
     pf_highlight = 0, pf_fetch_last = None, pf_mark_last = None, pf_coming = None, propsCache = [], pf_site = siteID\<rparr>"

section \<open>Suggestions\<close>

definition nameSuggestions :: "(string \<Rightarrow> string) \<Rightarrow> Popover \<Rightarrow> PropNameRow list" where
  "nameSuggestions lower s =
     (let q = lower (js_trim (pf_name s));
          rs = (if q = [] then pf_props s else filter (\<lambda>r. has_substring q (lower (prop_name r))) (pf_props s))
      in take 6 rs)"

text \<open>
  The order of \<^verbatim>\<open>sort()\<close>, by UTF-16 code units: on UTF-8 bytes that of the bytes,
  but for the lead bytes of U+E000 to U+FFFF, which follow those of the surrogate pairs.
\<close>

definition unit_rank :: "char \<Rightarrow> nat" where
  "unit_rank c = (let n = of_char c in if n = 238 \<or> n = 239 then n + 8 else n)"

fun units_le :: "string \<Rightarrow> string \<Rightarrow> bool" where
  "units_le [] t = True"
| "units_le (x # s) [] = False"
| "units_le (x # s) (y # t) = (unit_rank x < unit_rank y \<or> x = y \<and> units_le s t)"

text \<open>The elements of a set in the order they were added.\<close>

definition js_set :: "string list \<Rightarrow> string list" where
  "js_set xs = rev (remdups (rev xs))"

definition value_pool :: "string \<Rightarrow> PropNameRow list \<Rightarrow> string list" where
  "value_pool typed rs =
     (case find (\<lambda>r. prop_name r = typed) rs of
        Some exact \<Rightarrow> sample_values exact
      | None \<Rightarrow> sort_by units_le (js_set (concat (map sample_values rs))))"

definition valueSuggestions :: "(string \<Rightarrow> string) \<Rightarrow> Popover \<Rightarrow> string list" where
  "valueSuggestions lower s =
     (let q = lower (js_trim (pf_value s)); pool = value_pool (js_trim (pf_name s)) (pf_props s);
          filtered = (if q = [] then pool else filter (\<lambda>v. has_substring q (lower v)) pool)
      in take 6 filtered)"

text \<open>The texts of the active list: of a name the name, of a value the value itself.\<close>

definition activeSuggestions :: "(string \<Rightarrow> string) \<Rightarrow> Popover \<Rightarrow> string list" where
  "activeSuggestions lower s =
     (if pf_focused s = Some Value_field then valueSuggestions lower s else map prop_name (nameSuggestions lower s))"

definition canSubmit :: "Popover \<Rightarrow> bool" where
  "canSubmit s \<longleftrightarrow> js_trim (pf_name s) \<noteq> [] \<and> js_trim (pf_value s) \<noteq> []"

section \<open>Effects and handlers\<close>

definition fetch_effect :: "Popover \<Rightarrow> Popover" where
  "fetch_effect s =
     (if pf_fetch_last s = Some (pf_open s, pf_scope s) then s
      else
        let s1 = s\<lparr>pf_fetch_last := Some (pf_open s, pf_scope s), pf_coming := None\<rparr> in
        if \<not> pf_open s then s1
        else (case map_of (propsCache s) (cacheKey (pf_site s) (api_scope (pf_scope s))) of
                Some cached \<Rightarrow> s1\<lparr>pf_props := cached\<rparr>
              | None \<Rightarrow> s1\<lparr>pf_coming := Some (pf_site s, pf_scope s)\<rparr>))"

text \<open>The name field takes the focus when the popover opens; the highlight returns to the top.\<close>

definition was_open :: "Popover \<Rightarrow> bool" where
  "was_open s = (case pf_fetch_last s of Some (o', _) \<Rightarrow> o' | None \<Rightarrow> False)"

definition autofocus_effect :: "bool \<Rightarrow> Popover \<Rightarrow> Popover" where
  "autofocus_effect was s = (if pf_open s \<and> \<not> was then s\<lparr>pf_focused := Some Name_field\<rparr> else s)"

definition mark_effect :: "Popover \<Rightarrow> Popover" where
  "mark_effect s =
     (if pf_mark_last s = Some (pf_focused s, pf_name s, pf_value s) then s
      else s\<lparr>pf_highlight := 0, pf_mark_last := Some (pf_focused s, pf_name s, pf_value s)\<rparr>)"

definition pf_effects :: "Popover \<Rightarrow> Popover" where
  "pf_effects s = mark_effect (autofocus_effect (was_open s) (fetch_effect s))"

type_synonym set_call = "(scope \<times> string \<times> string) option"

text \<open>
  \<^verbatim>\<open>submit\<close> decides by what was rendered (\<open>can\<close>) and sends what the fields hold.
\<close>

definition submit :: "bool \<Rightarrow> Popover \<Rightarrow> Popover \<times> set_call" where
  "submit can s =
     (if \<not> can then (s, None)
      else (s\<lparr>pf_name := [], pf_value := [], pf_open := False\<rparr>, Some (pf_scope s, js_trim (pf_name s), js_trim (pf_value s))))"

definition focus_value :: "Popover \<Rightarrow> Popover" where
  "focus_value s = s\<lparr>pf_focused := Some Value_field\<rparr>"

definition onListKey :: "(string \<Rightarrow> string) \<Rightarrow> string \<Rightarrow> pf_field \<Rightarrow> Popover \<Rightarrow> Popover \<times> set_call" where
  "onListKey lower key fld s =
     (let n = length (activeSuggestions lower s); pick = js_at (activeSuggestions lower s) (pf_highlight s) in
      if key = ''ArrowDown'' then (s\<lparr>pf_highlight := arrow_down (pf_highlight s) n\<rparr>, None)
      else if key = ''ArrowUp'' then (s\<lparr>pf_highlight := arrow_up (pf_highlight s)\<rparr>, None)
      else if key = ''Enter'' then
        (case fld of
           Name_field \<Rightarrow>
             (case pick of
                Some x \<Rightarrow> (focus_value (s\<lparr>pf_name := x\<rparr>), None)
              | None \<Rightarrow> (if js_trim (pf_name s) \<noteq> [] then focus_value s else s, None))
         | Value_field \<Rightarrow>
             submit (canSubmit s) (case pick of Some x \<Rightarrow> s\<lparr>pf_value := x\<rparr> | None \<Rightarrow> s))
      else (s, None))"

definition window_key :: "string \<Rightarrow> bool \<Rightarrow> Popover \<Rightarrow> Popover" where
  "window_key key editable s =
     (if key = ''Escape'' then (if pf_open s then s\<lparr>pf_open := False\<rparr> else s)
      else if key = ''/'' \<and> \<not> pf_open s then (if editable then s else s\<lparr>pf_open := True\<rparr>)
      else s)"

datatype popover_event =
  Pf_toggle | Pf_choose scope | Pf_focus pf_field | Pf_input pf_field string | Pf_key string pf_field
  | Pf_window_key string bool | Pf_press_name nat | Pf_press_value nat | Pf_submit
  | Pf_flushed | Pf_answered | Pf_failed | Pf_site_set rat

text \<open>
  A handler works on what was rendered, so the effects of the last rendering have run before it. The
  server's answer is the catalogue of the site and the scope that were asked for.
\<close>

fun pf_handler :: "(string \<Rightarrow> string) \<Rightarrow> popover_event \<Rightarrow> Popover \<Rightarrow> Popover \<times> set_call" where
  "pf_handler lower Pf_toggle s = (s\<lparr>pf_open := \<not> pf_open s\<rparr>, None)"
| "pf_handler lower (Pf_choose sc) s = (s\<lparr>pf_scope := sc\<rparr>, None)"
| "pf_handler lower (Pf_focus fld) s = (s\<lparr>pf_focused := Some fld\<rparr>, None)"
| "pf_handler lower (Pf_input Name_field v) s = (s\<lparr>pf_name := v\<rparr>, None)"
| "pf_handler lower (Pf_input Value_field v) s = (s\<lparr>pf_value := v\<rparr>, None)"
| "pf_handler lower (Pf_key key fld) s = onListKey lower key fld s"
| "pf_handler lower (Pf_window_key key editable) s = (window_key key editable s, None)"
| "pf_handler lower (Pf_press_name i) s =
     (case js_at (nameSuggestions lower s) i of
        Some r \<Rightarrow> (focus_value (s\<lparr>pf_name := prop_name r\<rparr>), None)
      | None \<Rightarrow> (s, None))"
| "pf_handler lower (Pf_press_value i) s =
     (case js_at (valueSuggestions lower s) i of
        Some v \<Rightarrow> submit (canSubmit s) (s\<lparr>pf_value := v\<rparr>)
      | None \<Rightarrow> (s, None))"
| "pf_handler lower Pf_submit s = submit (canSubmit s) s"
| "pf_handler lower _ s = (s, None)"

definition pf_answer :: "(rat \<Rightarrow> string \<Rightarrow> PropNameRow list) \<Rightarrow> Popover \<Rightarrow> Popover" where
  "pf_answer server s =
     (case pf_coming s of
        Some (siteID, sc) \<Rightarrow>
          let rs = server siteID (api_scope sc) in
          s\<lparr>propsCache := omap_set (cacheKey siteID (api_scope sc)) rs (propsCache s), pf_props := rs, pf_coming := None\<rparr>
      | None \<Rightarrow> s)"

fun pf_step ::
    "(string \<Rightarrow> string) \<Rightarrow> (rat \<Rightarrow> string \<Rightarrow> PropNameRow list) \<Rightarrow> popover_event \<Rightarrow> Popover \<Rightarrow> Popover \<times> set_call" where
  "pf_step lower server Pf_answered s = (pf_answer server s, None)"
| "pf_step lower server Pf_failed s = (if pf_coming s \<noteq> None then s\<lparr>pf_props := [], pf_coming := None\<rparr> else s, None)"
| "pf_step lower server (Pf_site_set v) s = (s\<lparr>pf_site := v\<rparr>, None)"
| "pf_step lower server e s = pf_handler lower e (pf_effects s)"

text \<open>The popover and the page: a filter that is set is written to the store.\<close>

definition popover_store ::
    "(string \<Rightarrow> string) \<Rightarrow> (rat \<Rightarrow> string \<Rightarrow> PropNameRow list) \<Rightarrow> popover_event \<Rightarrow> Popover \<times> Store \<Rightarrow> Popover \<times> Store" where
  "popover_store lower server e ps =
     (case pf_step lower server e (fst ps) of
        (p, Some (sc, n, v)) \<Rightarrow> (p, setPropFilter sc n v (snd ps))
      | (p, None) \<Rightarrow> (p, snd ps))"

section \<open>Rendering\<close>

definition scope_radio :: "Popover \<Rightarrow> scope \<Rightarrow> popover_event vnode" where
  "scope_radio s sc =
     Elem ''button''
       [button_attr, (''role'', ''radio''), (''aria-pressed'', bool_text (pf_scope s = sc)),
        (''aria-checked'', bool_text (pf_scope s = sc)), (''title'', scope_help sc)]
       [(''click'', \<lambda>_. Pf_choose sc)] [Text (scope_label sc)]"

definition pf_option :: "string \<Rightarrow> nat \<Rightarrow> (nat \<Rightarrow> popover_event) \<Rightarrow> popover_event vnode list \<Rightarrow> nat \<Rightarrow> popover_event vnode" where
  "pf_option prefix' h ev cs i =
     Elem ''li''
       [(''id'', prefix' @ show_nonneg (int i)), (''role'', ''option''), (''aria-selected'', bool_text (i = h)),
        (''class'', ''seg-add-list-row'' @ (if i = h then '' is-active'' else []))]
       [(''mousedown'', \<lambda>_. ev i)] cs"

definition pf_input :: "pf_field \<Rightarrow> string \<Rightarrow> string \<Rightarrow> string \<Rightarrow> string \<Rightarrow> string \<Rightarrow> bool \<Rightarrow> nat \<Rightarrow> popover_event vnode" where
  "pf_input fld placeholder v listId optId lab expanded h =
     Elem ''input''
       ([(''type'', ''text''), (''placeholder'', placeholder), (''value'', v), (''role'', ''combobox''),
         (''aria-autocomplete'', ''list''), (''aria-expanded'', bool_text expanded), (''aria-controls'', listId)]
        @ (if expanded then [(''aria-activedescendant'', optId @ show_nonneg (int h))] else [])
        @ [(''aria-label'', lab)])
       [(''focus'', \<lambda>_. Pf_focus fld), (''input'', Pf_input fld), (''keydown'', \<lambda>k. Pf_key k fld)] []"

definition pf_list :: "string \<Rightarrow> popover_event vnode list \<Rightarrow> popover_event vnode" where
  "pf_list listId rs = el ''ul'' [(''id'', listId), (''role'', ''listbox''), (''class'', ''seg-add-list'')] rs"

definition list_name :: "string \<Rightarrow> 'a vnode" where
  "list_name t = el ''span'' (in_class ''seg-add-list-name'') [Text t]"

definition name_part :: "(string \<Rightarrow> string) \<Rightarrow> Popover \<Rightarrow> popover_event vnode" where
  "name_part lower s =
     (let rs = nameSuggestions lower s; shown = (pf_focused s = Some Name_field \<and> 0 < length rs) in
      el ''div'' (in_class ''seg-add-field'')
        (pf_input Name_field ''Property name'' (pf_name s) ''seg-add-name-list'' ''seg-add-name-opt-'' ''Property name'' shown (pf_highlight s)
         # only_if shown
             (pf_list ''seg-add-name-list''
               (map_index (\<lambda>r i. pf_option ''seg-add-name-opt-'' (pf_highlight s) Pf_press_name
                   [list_name (prop_name r),
                    el ''span'' (in_class ''seg-add-list-count'') [Text (show_nonneg (int (length (sample_values r)))), Text ''v'']] i) rs))))"

definition value_part :: "(string \<Rightarrow> string) \<Rightarrow> Popover \<Rightarrow> popover_event vnode" where
  "value_part lower s =
     (let vs = valueSuggestions lower s; shown = (pf_focused s = Some Value_field \<and> 0 < length vs) in
      el ''div'' (in_class ''seg-add-field'')
        (pf_input Value_field ''Value'' (pf_value s) ''seg-add-value-list'' ''seg-add-value-opt-'' ''Property value'' shown (pf_highlight s)
         # only_if shown
             (pf_list ''seg-add-value-list''
               (map_index (\<lambda>v i. pf_option ''seg-add-value-opt-'' (pf_highlight s) Pf_press_value [list_name v] i) vs))))"

definition PropFilterAdd :: "(string \<Rightarrow> string) \<Rightarrow> Popover \<Rightarrow> popover_event vnode" where
  "PropFilterAdd lower s =
     el ''span'' (in_class ''seg-add-wrap'')
       (Elem ''button''
          [button_attr, (''class'', ''seg-add-btn''), (''aria-haspopup'', ''dialog''), (''aria-expanded'', bool_text (pf_open s)),
           (''title'', ''Add a property filter (press /)'')]
          [(''click'', \<lambda>_. Pf_toggle)] [Text ''+ Property'']
        # only_if (pf_open s)
            (el ''div'' [(''class'', ''seg-add-popover''), (''role'', ''dialog''), (''aria-modal'', ''false''), (''aria-label'', ''Add property filter'')]
              [el ''div'' [(''class'', ''seg-add-scope''), (''role'', ''radiogroup''), (''aria-label'', ''Scope'')] (map (scope_radio s) SCOPES),
               el ''p'' (in_class ''seg-add-scope-help'') [Text (scope_help (pf_scope s))],
               name_part lower s, value_part lower s,
               Elem ''button'' ([button_attr, (''class'', ''seg-add-submit'')] @ flag ''disabled'' (\<not> canSubmit s))
                 [(''click'', \<lambda>_. Pf_submit)] [Text ''Apply filter''],
               el ''p'' (in_class ''seg-add-kbd-hint'') [Text ''Press '', el ''kbd'' [] [Text ''/''], Text '' from anywhere to open this.'']]))"

section \<open>What the cache holds\<close>

lemma key_digits: "small_id v \<Longrightarrow> CHR '':'' \<notin> set (show_rat v)"
proof -
  assume "small_id v"
  then have "show_rat v = show_nonneg \<lfloor>v\<rfloor>" and "0 \<le> \<lfloor>v\<rfloor>" by (simp_all add: small_id_def show_rat_def show_int_def)
  moreover have "\<not> is_digit (CHR '':'')" by (simp add: is_digit_def)
  ultimately show ?thesis using show_nonneg_digits [of "\<lfloor>v\<rfloor>" "CHR '':''"] by auto
qed

lemma show_id_inj: "small_id v \<Longrightarrow> small_id w \<Longrightarrow> show_rat v = show_rat w \<Longrightarrow> v = w"
proof -
  assume v: "small_id v" and w: "small_id w" and eq: "show_rat v = show_rat w"
  have "show_rat x = show_nonneg \<lfloor>x\<rfloor>" if "small_id x" for x using that by (simp add: small_id_def show_rat_def show_int_def)
  then have "show_nonneg \<lfloor>v\<rfloor> = show_nonneg \<lfloor>w\<rfloor>" using v w eq by simp
  then have "\<lfloor>v\<rfloor> = \<lfloor>w\<rfloor>" using show_nonneg_inj [of "\<lfloor>v\<rfloor>" "\<lfloor>w\<rfloor>"] v w by (simp add: small_id_def)
  then show "v = w" using v w by (metis small_id_def)
qed

lemma cacheKey_inj:
  assumes "small_id v" and "small_id w" and "cacheKey v (api_scope a) = cacheKey w (api_scope b)"
  shows "v = w \<and> a = b"
proof -
  have "split_first (CHR '':'') (cacheKey v (api_scope a)) = Some (show_rat v, api_scope a)"
    "split_first (CHR '':'') (cacheKey w (api_scope b)) = Some (show_rat w, api_scope b)"
    using key_digits assms(1,2) by (simp_all add: cacheKey_def split_first_append)
  then have "show_rat v = show_rat w" and "api_scope a = api_scope b" using assms(3) by simp_all
  then show ?thesis using show_id_inj [OF assms(1,2)] by (cases a; cases b) simp_all
qed

text \<open>
  Every cached list is the answer for its key; the request on its way is for the scope chosen when the
  effect ran, and so is the list shown when nothing is on its way. With \<open>fixed\<close> the site has
  never changed.
\<close>

definition listed_for :: "bool \<Rightarrow> rat \<Rightarrow> rat \<Rightarrow> bool" where
  "listed_for fixed site v \<longleftrightarrow> small_id v \<and> (fixed \<longrightarrow> v = site)"

definition cache_good :: "(rat \<Rightarrow> string \<Rightarrow> PropNameRow list) \<Rightarrow> (string, PropNameRow list) omap \<Rightarrow> bool" where
  "cache_good server m \<longleftrightarrow>
     (\<forall>k rs. map_of m k = Some rs \<longrightarrow>
        (\<exists>v sc. small_id v \<and> k = cacheKey v (api_scope sc) \<and> rs = server v (api_scope sc)))"

definition catalogue_ok ::
    "bool \<Rightarrow> (rat \<Rightarrow> string \<Rightarrow> PropNameRow list) \<Rightarrow> rat \<Rightarrow> (rat \<times> scope) option \<Rightarrow> (bool \<times> scope) option
     \<Rightarrow> PropNameRow list \<Rightarrow> bool" where
  "catalogue_ok fixed server site coming last' rs \<longleftrightarrow>
     small_id site
     \<and> (case coming of
          Some (v, sc) \<Rightarrow> listed_for fixed site v \<and> last' = Some (True, sc)
        | None \<Rightarrow>
            (case last' of
               Some (True, sc) \<Rightarrow> rs = [] \<or> (\<exists>v. listed_for fixed site v \<and> rs = server v (api_scope sc))
             | _ \<Rightarrow> True))"

definition pf_ok :: "bool \<Rightarrow> (rat \<Rightarrow> string \<Rightarrow> PropNameRow list) \<Rightarrow> Popover \<Rightarrow> bool" where
  "pf_ok fixed server s \<longleftrightarrow>
     cache_good server (propsCache s) \<and> catalogue_ok fixed server (pf_site s) (pf_coming s) (pf_fetch_last s) (pf_props s)"

lemma cache_good_hit:
  assumes "cache_good server m" and "small_id v" and "map_of m (cacheKey v (api_scope sc)) = Some rs"
  shows "rs = server v (api_scope sc)"
proof -
  obtain w b where "small_id w" "cacheKey v (api_scope sc) = cacheKey w (api_scope b)" "rs = server w (api_scope b)"
    using assms unfolding cache_good_def by blast
  then show ?thesis using cacheKey_inj [OF assms(2)] by blast
qed

lemma pf_ok_fetch: "pf_ok fixed server s \<Longrightarrow> pf_ok fixed server (fetch_effect s)"
  using cache_good_hit [of server "propsCache s" "pf_site s" "pf_scope s"]
  by (auto simp: pf_ok_def catalogue_ok_def fetch_effect_def Let_def listed_for_def split: option.split)

definition same_catalogue :: "Popover \<Rightarrow> Popover \<Rightarrow> bool" where
  "same_catalogue s t \<longleftrightarrow>
     pf_site t = pf_site s \<and> propsCache t = propsCache s \<and> pf_coming t = pf_coming s
     \<and> pf_fetch_last t = pf_fetch_last s \<and> pf_props t = pf_props s"

lemma pf_ok_same: "same_catalogue s t \<Longrightarrow> pf_ok fixed server s \<Longrightarrow> pf_ok fixed server t"
  by (simp add: same_catalogue_def pf_ok_def)

lemma effects_same: "same_catalogue (fetch_effect s) (pf_effects s)"
  by (simp add: pf_effects_def same_catalogue_def mark_effect_def autofocus_effect_def)

lemma handler_same: "same_catalogue s (fst (pf_handler lower e s))"
proof (cases e)
  case (Pf_input fld v)
  then show ?thesis by (cases fld) (simp_all add: same_catalogue_def)
next
  case (Pf_key key fld)
  then show ?thesis
    by (cases fld) (auto simp: same_catalogue_def onListKey_def Let_def submit_def focus_value_def split: option.splits)
qed (auto simp: same_catalogue_def submit_def focus_value_def window_key_def split: option.splits)

lemma cache_good_set:
  "cache_good server m \<Longrightarrow> small_id v \<Longrightarrow>
     cache_good server (omap_set (cacheKey v (api_scope sc)) (server v (api_scope sc)) m)"
  by (auto simp: cache_good_def map_of_omap_set)

lemma pf_ok_answer: "pf_ok fixed server s \<Longrightarrow> pf_ok fixed server (pf_answer server s)"
  by (auto simp: pf_ok_def catalogue_ok_def pf_answer_def Let_def cache_good_set listed_for_def split: option.splits)

fun site_ok :: "bool \<Rightarrow> popover_event \<Rightarrow> bool" where
  "site_ok fixed (Pf_site_set v) = (small_id v \<and> \<not> fixed)"
| "site_ok fixed _ = True"

lemma pf_ok_step:
  assumes "pf_ok fixed server s" and "site_ok fixed e"
  shows "pf_ok fixed server (fst (pf_step lower server e s))"
proof -
  have other: "pf_ok fixed server (fst (pf_handler lower e (pf_effects s)))"
    using assms(1) by (intro pf_ok_same [OF handler_same] pf_ok_same [OF effects_same] pf_ok_fetch)
  show ?thesis
  proof (cases e)
    case Pf_answered
    then show ?thesis using pf_ok_answer [OF assms(1)] by simp
  next
    case Pf_failed
    then show ?thesis using assms(1) by (auto simp: pf_ok_def catalogue_ok_def split: option.splits prod.splits bool.splits)
  next
    case (Pf_site_set v)
    then show ?thesis using assms by (auto simp: pf_ok_def catalogue_ok_def listed_for_def split: option.splits prod.splits bool.splits)
  qed (use other in simp_all)
qed

lemma pf_ok_run:
  "pf_ok fixed server s \<Longrightarrow> list_all (site_ok fixed) es \<Longrightarrow>
     pf_ok fixed server (fold (\<lambda>e s. fst (pf_step lower server e s)) es s)"
  by (induction es arbitrary: s) (simp_all add: pf_ok_step)

lemma pf_ok_listed:
  "pf_ok fixed server s \<Longrightarrow> pf_fetch_last s = Some (True, sc) \<and> pf_coming s = None \<longrightarrow>
     pf_props s = [] \<or> (\<exists>w. listed_for fixed (pf_site s) w \<and> pf_props s = server w (api_scope sc))"
  by (auto simp: pf_ok_def catalogue_ok_def)

lemma pf_ok_cached:
  "pf_ok fixed server s \<Longrightarrow> small_id v \<Longrightarrow>
     map_of (propsCache s) (cacheKey v (api_scope sc)) = None
     \<or> map_of (propsCache s) (cacheKey v (api_scope sc)) = Some (server v (api_scope sc))"
  using cache_good_hit [of server "propsCache s" v sc]
  by (cases "map_of (propsCache s) (cacheKey v (api_scope sc))") (simp_all add: pf_ok_def)

lemma site_loads_nothing:
  assumes "pf_fetch_last s = Some (pf_open s, pf_scope s)"
  shows "(let t = fst (pf_step lower server Pf_flushed (fst (pf_step lower server (Pf_site_set v) s)))
          in pf_props t = pf_props s \<and> pf_coming t = pf_coming s)"
  using assms by (simp add: Let_def pf_effects_def fetch_effect_def autofocus_effect_def mark_effect_def)

text \<open>
  C37: the catalogues of the popover. Whatever is opened, switched, typed and answered late, a cached list
  is the server's answer for the site and the scope of its key, and an open popover with nothing on its
  way lists the properties of the scope chosen, or none after a failure; of the current site, as
  long as the site does not change. Changing the site while the popover is open, however, loads nothing: the
  old site's properties stay.
\<close>

theorem popover_catalogue:
  assumes "small_id siteID" and "list_all (site_ok fixed) es" and "small_id v"
  shows "let s = fold (\<lambda>e s. fst (pf_step lower server e s)) es (new_popover siteID) in
     (map_of (propsCache s) (cacheKey v (api_scope sc)) = None
       \<or> map_of (propsCache s) (cacheKey v (api_scope sc)) = Some (server v (api_scope sc)))
     \<and> (pf_fetch_last s = Some (True, sc) \<and> pf_coming s = None \<longrightarrow>
         pf_props s = [] \<or> (\<exists>w. listed_for fixed (pf_site s) w \<and> pf_props s = server w (api_scope sc)))
     \<and> (pf_fetch_last s = Some (pf_open s, pf_scope s) \<longrightarrow>
         (let t = fst (pf_step lower server Pf_flushed (fst (pf_step lower server (Pf_site_set v) s)))
          in pf_props t = pf_props s \<and> pf_coming t = pf_coming s))"
proof -
  let ?s = "fold (\<lambda>e s. fst (pf_step lower server e s)) es (new_popover siteID)"
  have "pf_ok fixed server (new_popover siteID)"
    using assms(1) by (simp add: pf_ok_def new_popover_def cache_good_def catalogue_ok_def)
  then have ok: "pf_ok fixed server ?s" by (rule pf_ok_run) (rule assms(2))
  show ?thesis
    using pf_ok_cached [OF ok assms(3), of sc] pf_ok_listed [OF ok, of sc] site_loads_nothing [of ?s lower server v]
    unfolding Let_def by blast
qed

definition example_catalogue :: "rat \<Rightarrow> string \<Rightarrow> PropNameRow list" where
  "example_catalogue v sc =
     (if v = 1 \<and> sc = ''hit'' then [\<lparr>prop_name = ''plan'', sample_values = [''pro'', ''free''], last_seen = []\<rparr>] else [])"

theorem popover_catalogue_witness:
  "let s = fold (\<lambda>e s. fst (pf_step (\<lambda>s. s) example_catalogue e s)) [Pf_toggle, Pf_flushed, Pf_answered] (new_popover 1)
   in pf_props (fst (pf_step (\<lambda>s. s) example_catalogue Pf_flushed (fst (pf_step (\<lambda>s. s) example_catalogue (Pf_site_set 2) s))))
      = example_catalogue 1 ''hit''"
proof -
  let ?s = "fold (\<lambda>e s. fst (pf_step (\<lambda>s. s) example_catalogue e s)) [Pf_toggle, Pf_flushed, Pf_answered] (new_popover 1)"
  have last: "pf_fetch_last ?s = Some (pf_open ?s, pf_scope ?s)" and props: "pf_props ?s = example_catalogue 1 ''hit''"
    by (simp_all add: new_popover_def pf_effects_def fetch_effect_def autofocus_effect_def mark_effect_def was_open_def
        pf_answer_def Let_def)
  have "small_id 1" "small_id 2" "list_all (site_ok True) [Pf_toggle, Pf_flushed, Pf_answered]" by (simp_all add: small_id_def)
  note facts = popover_catalogue [OF this(1,3,2), of "\<lambda>s. s" example_catalogue HitProps, unfolded Let_def]
  have "pf_props (fst (pf_step (\<lambda>s. s) example_catalogue Pf_flushed (fst (pf_step (\<lambda>s. s) example_catalogue (Pf_site_set 2) ?s))))
      = pf_props ?s"
    using facts last by blast
  then show ?thesis unfolding Let_def by (rule trans) (rule props)
qed

section \<open>What the keys and the buttons set\<close>

lemma steps_rendered:
  assumes "pf_effects s = s"
  shows "pf_step lower server (Pf_key k fld) s = onListKey lower k fld s"
    and "pf_step lower server (Pf_press_value i) s = pf_handler lower (Pf_press_value i) s"
    and "pf_step lower server Pf_submit s = submit (canSubmit s) s"
  using assms by simp_all

text \<open>
  C29: what the popover sets. With the cursor in the value field and a name typed, the button sets the
  name and the value as typed. Enter sets the highlighted suggestion when there is one and the typed value
  only when there is none: a new value that is part of a known one cannot be entered with it. And
  while the value field is blank, neither Enter nor a press on a suggestion sets a filter: both only
  fill the field.
\<close>

theorem popover_sets:
  assumes "pf_effects s = s" and "pf_focused s = Some Value_field" and "js_trim (pf_name s) \<noteq> []"
  shows "let vs = valueSuggestions lower s; pick = js_at vs (pf_highlight s); typed = js_trim (pf_value s);
             enter = pf_step lower server (Pf_key ''Enter'' Value_field) s; press = pf_step lower server (Pf_press_value i) s
     in (typed \<noteq> [] \<longrightarrow>
           snd (pf_step lower server Pf_submit s) = Some (pf_scope s, js_trim (pf_name s), typed)
           \<and> snd enter = Some (pf_scope s, js_trim (pf_name s), (case pick of Some x \<Rightarrow> js_trim x | None \<Rightarrow> typed))
           \<and> \<not> pf_open (fst enter) \<and> pf_name (fst enter) = [] \<and> pf_value (fst enter) = [])
        \<and> (typed = [] \<longrightarrow>
           snd (pf_step lower server Pf_submit s) = None \<and> snd enter = None \<and> snd press = None
           \<and> fst enter = (case pick of Some x \<Rightarrow> s\<lparr>pf_value := x\<rparr> | None \<Rightarrow> s)
           \<and> fst press = (case js_at vs i of Some x \<Rightarrow> s\<lparr>pf_value := x\<rparr> | None \<Rightarrow> s))"
proof -
  have act: "activeSuggestions lower s = valueSuggestions lower s" using assms(2) by (simp add: activeSuggestions_def)
  have can: "canSubmit s \<longleftrightarrow> js_trim (pf_value s) \<noteq> []" using assms(3) by (simp add: canSubmit_def)
  show ?thesis
    unfolding steps_rendered [OF assms(1)] Let_def
    by (simp add: onListKey_def submit_def act can Let_def split: option.split)
qed

definition example_popover :: Popover where
  "example_popover = (new_popover 1)\<lparr>pf_open := True, pf_name := ''1'', pf_focused := Some Value_field,
     pf_fetch_last := Some (True, HitProps), pf_mark_last := Some (Some Value_field, ''1'', []),
     pf_props := [\<lparr>prop_name = ''1'', sample_values = [''2''], last_seen = []\<rparr>]\<rparr>"

theorem popover_sets_witness:
  "snd (pf_step (\<lambda>s. s) example_catalogue (Pf_key ''Enter'' Value_field) example_popover) = None
   \<and> pf_value (fst (pf_step (\<lambda>s. s) example_catalogue (Pf_key ''Enter'' Value_field) example_popover)) = ''2''"
proof -
  have one: "js_trim ''1'' = ''1''" by (rule trim_digits) (simp_all add: is_digit_def)
  have fx: "pf_effects example_popover = example_popover"
    by (simp add: example_popover_def new_popover_def pf_effects_def fetch_effect_def autofocus_effect_def mark_effect_def was_open_def)
  have fields: "pf_focused example_popover = Some Value_field" "pf_name example_popover = ''1''" "pf_value example_popover = []"
    "pf_highlight example_popover = 0"
    by (simp_all add: example_popover_def new_popover_def)
  have vs: "valueSuggestions (\<lambda>s. s) example_popover = [''2'']"
    by (simp add: valueSuggestions_def value_pool_def fields one js_trim_Nil Let_def) (simp add: example_popover_def)
  have "js_trim (pf_name example_popover) \<noteq> []" by (simp add: fields one)
  from popover_sets [OF fx fields(1) this, of "\<lambda>s. s" example_catalogue 0] show ?thesis
    by (simp add: Let_def vs fields js_trim_Nil js_at_def)
qed

end
