(* ===== verification/Connect.thy ===== *)
theory Connect
  imports Admin_Panel Dates
begin

text \<open>
  Connecting an assistant (\<^verbatim>\<open>panels/ConnectAssistant.tsx\<close>): the connection and the
  table of tokens, loaded together; the token just created, shown once; its command; and the form that
  creates one. The state extends the table that the tabs of the administration share, so the
  contract of their forms holds here too.
\<close>

section \<open>State\<close>

record MCPToken =
  token_id :: string
  tk_name :: string
  tk_sites :: "rat list"
  tk_role :: string
  tk_created :: int
  tk_expires :: int
  tk_last_used :: int
  tk_secret :: "string option"

record MCPConnection =
  cn_enabled :: bool
  cn_transport :: string
  cn_url :: string
  cn_role :: string
  cn_sites :: "rat list"
  cn_template :: string

text \<open>\<open>hides\<close>: the revocations on their way whose click saw their own token revealed.\<close>

record Connect = "MCPToken Table" +
  conn :: "MCPConnection option"
  notEnabled :: bool
  revealed :: "MCPToken option"
  hides :: "nat list"
  mf_name :: string
  mf_role :: string
  mf_sites :: "rat list"
  mf_ttl :: string

definition new_connect :: Connect where
  "new_connect =
     \<lparr>tab_rows = None, tab_err = [], tab_site = None, tab_calls = [], next_call = 0, form_busy = False,
      conn = None, notEnabled = False, revealed = None, hides = [],
      mf_name = [], mf_role = ''api'', mf_sites = [], mf_ttl = []\<rparr>"

definition available :: "Connect \<Rightarrow> rat list" where
  "available t = (case conn t of Some c \<Rightarrow> cn_sites c | None \<Rightarrow> [])"

definition has_token :: "Connect \<Rightarrow> string option" where
  "has_token t = (case revealed t of Some k \<Rightarrow> (if truthy (tk_secret k) then tk_secret k else None) | None \<Rightarrow> None)"

section \<open>Texts\<close>

definition fmtDate :: "int \<Rightarrow> string" where
  "fmtDate unix = (if unix = 0 then ''never'' else iso_day (unix * 1000 div 86400000))"

text \<open>
  \<^verbatim>\<open>s.replace(p, r)\<close> with a string \<open>p\<close>: the first occurrence, where \<open>r\<close>
  may refer to the match and to what stands before and after it with a dollar sign.
\<close>

fun expand :: "string \<Rightarrow> string \<Rightarrow> string \<Rightarrow> string \<Rightarrow> string" where
  "expand before m after' (c # d # r) =
     (if c = CHR ''$'' \<and> d = CHR ''$'' then c # expand before m after' r
      else if c = CHR ''$'' \<and> d = CHR ''&'' then m @ expand before m after' r
      else if c = CHR ''$'' \<and> d = CHR 0x60 then before @ expand before m after' r
      else if c = CHR ''$'' \<and> d = CHR 0x27 then after' @ expand before m after' r
      else c # expand before m after' (d # r))"
| "expand before m after' r = r"

fun replace_from :: "string \<Rightarrow> string \<Rightarrow> string \<Rightarrow> string \<Rightarrow> string" where
  "replace_from before p r [] = (if p = [] then expand before p [] r else [])"
| "replace_from before p r (c # s) =
     (if prefix p (c # s) then expand before p (drop (length p) (c # s)) r @ drop (length p) (c # s)
      else c # replace_from (before @ [c]) p r s)"

definition js_replace :: "string \<Rightarrow> string \<Rightarrow> string \<Rightarrow> string" where
  "js_replace p r s = replace_from [] p r s"

definition command :: "Connect \<Rightarrow> string" where
  "command t =
     (case (has_token t, conn t) of
        (Some k, Some c) \<Rightarrow> js_replace ''<TOKEN>'' k (cn_template c)
      | (_, Some c) \<Rightarrow> cn_template c
      | (_, None) \<Rightarrow> [])"

section \<open>The form\<close>

definition nameValid :: "Connect \<Rightarrow> bool" where
  "nameValid t \<longleftrightarrow> 0 < js_length (js_trim (mf_name t)) \<and> js_length (js_trim (mf_name t)) \<le> 80"

definition sitesValid :: "Connect \<Rightarrow> bool" where
  "sitesValid t \<longleftrightarrow> 0 < length (mf_sites t)"

definition ttl_days :: "string \<Rightarrow> rat option" where
  "ttl_days s = (if js_trim s = [] then None else (case number_of_string s of Fin x \<Rightarrow> Some x | _ \<Rightarrow> None))"

definition site_ids :: "Connect \<Rightarrow> rat list option" where
  "site_ids t = (if length (mf_sites t) = length (available t) then None else Some (mf_sites t))"

text \<open>The body; members that are undefined are left out.\<close>

definition opt_member :: "string \<Rightarrow> json option \<Rightarrow> (string \<times> json) list" where
  "opt_member k v = (case v of Some j \<Rightarrow> [(k, j)] | None \<Rightarrow> [])"

definition mint_body :: "Connect \<Rightarrow> json" where
  "mint_body t =
     JObj ([(''name'', JStr (js_trim (mf_name t)))]
       @ opt_member ''site_ids'' (map_option (\<lambda>vs. JArr (map JNum vs)) (site_ids t))
       @ [(''role'', JStr (mf_role t))]
       @ opt_member ''ttl_days'' (map_option JNum (ttl_days (mf_ttl t))))"

text \<open>A set of sites, in the order they were added.\<close>

definition toggle_site :: "rat \<Rightarrow> rat list \<Rightarrow> rat list" where
  "toggle_site v vs = (if v \<in> set vs then filter (\<lambda>w. w \<noteq> v) vs else vs @ [v])"

section \<open>Handlers\<close>

datatype connect_event =
    Connect_mounted
  | Refreshed nat "(MCPConnection \<times> MCPToken list) outcome"
  | Token_revoked nat "unit outcome"
  | Token_minted nat "MCPToken outcome"
  | Revoke_token string
  | Dismiss_token
  | Type_token_name string
  | Pick_token_role string
  | Tick_site rat
  | Type_ttl string
  | Submit_token
  | Copied_text string

text \<open>\<^verbatim>\<open>refresh\<close> sends both requests; the first failure settles the pair.\<close>

definition refresh_connect :: "string \<Rightarrow> Connect \<Rightarrow> Connect \<times> HttpRequest list" where
  "refresh_connect token t = (issue (Listing 0 Nobody) t, [send token getMCPConnection, send token listMCPTokens])"

text \<open>A new connection also selects all its sites in the form, when it has any.\<close>

definition refreshed :: "(MCPConnection \<times> MCPToken list) outcome \<Rightarrow> Connect \<Rightarrow> Connect" where
  "refreshed r t =
     (case r of
        Returned (c, ks) \<Rightarrow>
          t\<lparr>conn := Some c, tab_rows := Some ks,
            mf_sites := if 0 < length (cn_sites c) then rev (remdups (rev (cn_sites c))) else mf_sites t\<rparr>
      | Failed (Http h) \<Rightarrow>
          if status h = 404 then t\<lparr>notEnabled := True\<rparr>
          else t\<lparr>tab_err := errorMessage (Http h) ''Couldn't load your AI-assistant connection.''\<rparr>
      | Failed e \<Rightarrow> t\<lparr>tab_err := errorMessage e ''Couldn't load your AI-assistant connection.''\<rparr>)"

definition token_revoked :: "string \<Rightarrow> nat \<Rightarrow> unit outcome \<Rightarrow> Connect \<Rightarrow> Connect \<times> HttpRequest list" where
  "token_revoked token i r t =
     (case r of
        Returned _ \<Rightarrow> refresh_connect token (if i \<in> set (hides t) then t\<lparr>revealed := None\<rparr> else t)
      | Failed e \<Rightarrow> (t\<lparr>tab_err := errorMessage e ''Couldn't revoke that token.''\<rparr>, []))"

definition token_minted :: "string \<Rightarrow> MCPToken outcome \<Rightarrow> Connect \<Rightarrow> Connect \<times> HttpRequest list" where
  "token_minted token r t =
     (case r of
        Returned k \<Rightarrow> refresh_connect token (t\<lparr>mf_name := [], mf_ttl := [], revealed := Some k, form_busy := False\<rparr>)
      | Failed e \<Rightarrow> (t\<lparr>tab_err := errorMessage e ''Couldn't create the token.'', form_busy := False\<rparr>, []))"

definition submit_token :: "string \<Rightarrow> Connect \<Rightarrow> Connect \<times> HttpRequest list" where
  "submit_token token t =
     (if form_busy t \<or> \<not> nameValid t \<or> \<not> sitesValid t then (t, [])
      else (issue (Creating 0) (t\<lparr>form_busy := True\<rparr>), [send token (createMCPToken (mint_body t))]))"

text \<open>
  The handlers are there while what carries them is rendered: the rows, the box, the form, and the
  boxes of the sites when there are several.
\<close>

fun connect_step :: "string \<Rightarrow> connect_event \<Rightarrow> Connect \<Rightarrow> Connect \<times> HttpRequest list" where
  "connect_step token Connect_mounted t = refresh_connect token t"
| "connect_step token (Refreshed i r) t =
     (case map_of (tab_calls t) i of
        Some (Listing s Nobody) \<Rightarrow> (refreshed r (settled i t), [])
      | _ \<Rightarrow> (t, []))"
| "connect_step token (Token_revoked i r) t =
     (case map_of (tab_calls t) i of
        Some (Row_delete s x) \<Rightarrow> token_revoked token i r (settled i t)
      | _ \<Rightarrow> (t, []))"
| "connect_step token (Token_minted i r) t =
     (case map_of (tab_calls t) i of
        Some (Creating s) \<Rightarrow> token_minted token r (settled i t)
      | _ \<Rightarrow> (t, []))"
| "connect_step token (Revoke_token x) t =
     (if notEnabled t \<or> x \<notin> token_id ` set (or_default [] (tab_rows t)) then (t, [])
      else (issue (Row_delete 0 x)
              (t\<lparr>hides := (if map_option token_id (revealed t) = Some x then next_call t # hides t else hides t)\<rparr>),
            [send token (revokeMCPToken x)]))"
| "connect_step token Dismiss_token t = (t\<lparr>revealed := None\<rparr>, [])"
| "connect_step token (Type_token_name v) t = (t\<lparr>mf_name := v\<rparr>, [])"
| "connect_step token (Pick_token_role v) t = (t\<lparr>mf_role := v\<rparr>, [])"
| "connect_step token (Tick_site v) t =
     (if 1 < length (available t) \<and> v \<in> set (available t) then (t\<lparr>mf_sites := toggle_site v (mf_sites t)\<rparr>, []) else (t, []))"
| "connect_step token (Type_ttl v) t = (t\<lparr>mf_ttl := v\<rparr>, [])"
| "connect_step token Submit_token t = (if notEnabled t then (t, []) else submit_token token t)"
| "connect_step token (Copied_text v) t = (t, [])"

section \<open>Rendering\<close>

definition connect_intro :: "'a vnode" where
  "connect_intro =
     el ''header'' (in_class ''statnive-connect-intro'')
       [el ''h2'' [] [Text ''Connect your AI assistant''],
        el ''p'' []
          [Text ''Create a personal access token, then paste the command into Claude (or any MCP-compatible assistant) to ask questions about your analytics in plain language. Tokens are '',
           strong_el ''read-only'', Text '' and scoped to the sites you can already see.'']]"

definition copy_box :: "string \<Rightarrow> string \<Rightarrow> string \<Rightarrow> CopyState \<Rightarrow> connect_event vnode" where
  "copy_box lab testId v cs =
     el ''label'' (in_class ''statnive-token-reveal-field'')
       [Text lab,
        el ''div'' (in_class ''statnive-token-reveal-row'')
          [el ''code'' [(''data-testid'', testId)] [Text v], map_events (\<lambda>_. Copied_text v) (CopyButton ''Copy'' ''Copied!'' cs)]]"

definition RevealBox :: "MCPToken \<Rightarrow> string \<Rightarrow> CopyState \<Rightarrow> CopyState \<Rightarrow> connect_event vnode" where
  "RevealBox k cmd c1 c2 =
     el ''div'' [(''class'', ''statnive-token-reveal''), (''role'', ''alert''), (''data-testid'', ''token-reveal'')]
       [el ''h3'' [] [Text [CHR 0xE2, CHR 0x9C, CHR 0x93], Text '' Token created: copy it now''],
        el ''p'' []
          [Text ''This is the '', strong_el ''only time'',
           Text '' the token is shown. Copy it now; if you lose it, revoke it and create a new one.''],
        copy_box ''Token'' ''revealed-token'' (or_default [] (tk_secret k)) c1,
        copy_box ''Add to your assistant'' ''revealed-command'' cmd c2,
        Elem ''button'' [button_attr, (''class'', ''statnive-token-reveal-dismiss'')] [(''click'', \<lambda>_. Dismiss_token)]
          [Text ''I'', Text [CHR 0x27], Text ''ve copied it'']]"

definition TOKEN_ROLES :: "string list" where "TOKEN_ROLES = [''api'', ''viewer'']"

definition site_check :: "rat list \<Rightarrow> rat \<Rightarrow> connect_event vnode" where
  "site_check sel v =
     el ''label'' (in_class ''statnive-connect-site-check'')
       [Elem ''input'' ([(''type'', ''checkbox'')] @ flag ''checked'' (v \<in> set sel)) [(''change'', \<lambda>_. Tick_site v)] [],
        Text ''site '', Text (show_rat v)]"

definition site_fields :: "Connect \<Rightarrow> connect_event vnode list" where
  "site_fields t =
     only_if (1 < length (available t))
       (el ''fieldset'' (in_class ''statnive-connect-sites'')
         ([el ''legend'' [] [Text ''Sites'']] @ map (site_check (mf_sites t)) (available t)
          @ only_if (\<not> sitesValid t) (alert_helper ''Select at least one site.'')))"

definition MintForm :: "Connect \<Rightarrow> connect_event vnode" where
  "MintForm t =
     Elem ''form'' [(''class'', ''statnive-admin-new''), (''noValidate'', [])] [(''submit'', \<lambda>_. Submit_token)]
       ([el ''h3'' [] [Text ''New token''],
         el ''label'' []
           [Text ''Name'',
            Elem ''input''
              [(''type'', ''text''), (''required'', []), (''value'', mf_name t), (''maxLength'', ''80''),
               (''placeholder'', ''e.g. My laptop (Claude)'')] [(''input'', Type_token_name)] [],
            helper [Text ''A label so you can recognise this token later (max 80 characters).'']]]
        @ site_fields t
        @ [el ''label'' []
             [Text ''Access'',
              Elem ''select'' [(''value'', mf_role t)] [(''change'', Pick_token_role)] (map (\<lambda>r. option_el r [Text r]) TOKEN_ROLES),
              helper [Text ''Both are read-only for the assistant. '', Text ''api'', Text '' is the usual choice.'']],
           el ''label'' []
             [Text ''Expires in (days)'',
              Elem ''input'' [(''type'', ''number''), (''min'', ''1''), (''max'', ''365''), (''value'', mf_ttl t), (''placeholder'', ''90'')]
                [(''input'', Type_ttl)] [],
              helper [Text ''Leave blank for the default (90 days).'']],
           el ''button'' ([(''type'', ''submit'')] @ flag ''disabled'' (form_busy t \<or> \<not> nameValid t \<or> \<not> sitesValid t))
             [Text (if form_busy t then ''Creating'' @ ellipsis else ''Create token'')]])"

definition token_row :: "MCPToken \<Rightarrow> connect_event vnode" where
  "token_row k =
     el ''tr'' []
       [el ''td'' [] [Text (tk_name k)],
        el ''td'' [] (map (\<lambda>v. el ''span'' (in_class ''statnive-site-chip'') [Text (show_rat v)]) (tk_sites k)),
        el ''td'' [] [Text (tk_role k)],
        el ''td'' [] [Text (fmtDate (tk_created k))],
        el ''td'' [] [Text (fmtDate (tk_expires k))],
        el ''td'' [] [Text (fmtDate (tk_last_used k))],
        el ''td'' []
          [Elem ''button'' [button_attr, (''class'', ''is-destructive'')] [(''click'', \<lambda>_. Revoke_token (token_id k))] [Text ''Revoke'']]]"

definition tokens_table :: "MCPToken list option \<Rightarrow> connect_event vnode" where
  "tokens_table ks =
     (case ks of
        None \<Rightarrow> el ''p'' [] [Text (''Loading'' @ ellipsis)]
      | Some ks \<Rightarrow>
          if length ks = 0 then el ''p'' [] [Text ''No tokens yet. Create one above to connect an assistant.'']
          else el ''table'' [(''class'', ''statnive-admin-table''), (''data-testid'', ''mcp-tokens-table'')]
            [el ''thead'' []
               [el ''tr'' [] (map (\<lambda>h. el ''th'' [] [Text h]) [''Name'', ''Sites'', ''Role'', ''Created'', ''Expires'', ''Last used''] @ [el ''th'' [] []])],
             el ''tbody'' [] (map token_row ks)])"

definition ConnectAssistant :: "CopyState \<Rightarrow> CopyState \<Rightarrow> Connect \<Rightarrow> connect_event vnode" where
  "ConnectAssistant c1 c2 t =
     el ''section'' [(''class'', ''statnive-connect''), (''data-testid'', ''connect-assistant'')]
       (if notEnabled t
        then [connect_intro,
          el ''p'' [(''class'', ''statnive-admin-alert''), (''role'', ''status''), (''data-testid'', ''connect-not-enabled'')]
            [Text ''Connecting an AI assistant isn'', Text [CHR 0x27],
             Text ''t enabled on this server yet. Ask your operator to turn on '', code_el ''mcp.tokens.enabled'', Text '' to use this feature.'']]
        else
          [connect_intro]
          @ only_if (tab_err t \<noteq> []) (error_alert (tab_err t))
          @ (case conn t of
               Some c \<Rightarrow> only_if (\<not> cn_enabled c)
                 (el ''p'' [(''class'', ''statnive-admin-alert''), (''role'', ''status'')]
                   [Text ''The MCP HTTP endpoint isn'', Text [CHR 0x27],
                    Text ''t enabled on this server yet. You can still create a token, but ask your operator to enable it before connecting.''])
             | None \<Rightarrow> [])
          @ (case (revealed t, has_token t) of (Some k, Some _) \<Rightarrow> [RevealBox k (command t) c1 c2] | _ \<Rightarrow> [])
          @ [MintForm t, el ''h3'' [] [Text ''Your tokens''], tokens_table (tab_rows t)])"

section \<open>The contract of the form\<close>

definition creates_token :: "HttpRequest \<Rightarrow> bool" where
  "creates_token r \<longleftrightarrow> rq_method r = ''POST''"

lemmas connect_defs =
  refresh_connect_def token_revoked_def token_minted_def submit_token_def

lemma connect_requests [simp]:
  "\<not> creates_token (send token getMCPConnection)"
  "\<not> creates_token (send token listMCPTokens)"
  "\<not> creates_token (send token (revokeMCPToken i))"
  "creates_token (send token (createMCPToken b))"
  by (simp_all add: creates_token_def send_def api_request_def getMCPConnection_def listMCPTokens_def revokeMCPToken_def
      createMCPToken_def Let_def)

lemma refreshed_fields [simp]:
  "tab_calls (refreshed r t) = tab_calls t" "next_call (refreshed r t) = next_call t" "form_busy (refreshed r t) = form_busy t"
  by (auto simp: refreshed_def split: outcome.split prod.split thrown.split)

lemma connect_keeps_ok:
  assumes ok: "table_ok t" shows "table_ok (fst (connect_step token e t))"
proof (cases e)
  case (Refreshed i r)
  then show ?thesis
    using ok by (auto intro: row_answer_ok [OF ok] split: option.split call.split waiter.split)
next
  case (Token_revoked i r)
  then show ?thesis
    using ok by (auto simp: token_revoked_def refresh_connect_def
        intro!: table_ok_issue intro: row_answer_ok [OF ok] split: option.split call.split outcome.split)
next
  case (Token_minted i r)
  have "table_ok (u\<lparr>form_busy := False\<rparr>)"
    if "map_of (tab_calls t) i = Some (Creating s)" "tab_calls u = tab_calls (settled i t)" "next_call u = next_call t"
      "form_busy u = form_busy t" for s u
    by (rule created_ok(2) [OF ok that])
  from this [of _ "(settled i t)\<lparr>mf_name := [], mf_ttl := [], revealed := k\<rparr>" for k]
    this [of _ "(settled i t)\<lparr>tab_err := x\<rparr>" for x]
  show ?thesis
    using ok by (auto simp: Token_minted token_minted_def refresh_connect_def
        intro!: table_ok_issue split: option.split call.split outcome.split)
next
  case (Revoke_token x)
  have "table_ok (t\<lparr>hides := h\<rparr>)" for h by (rule table_ok_same [OF ok]) simp_all
  then show ?thesis using ok by (auto simp: Revoke_token intro!: table_ok_issue)
next
  case Submit_token
  then show ?thesis using ok by (auto simp: submit_token_def intro: table_ok_submit)
qed (use ok in \<open>auto simp: refresh_connect_def intro: table_ok_same table_ok_issue\<close>)

lemma connect_create_once:
  assumes "table_ok t"
  shows "length (filter creates_token (snd (connect_step token e t)))
    = (if form_busy (fst (connect_step token e t)) \<and> \<not> form_busy t then 1 else 0)"
proof (cases e)
  case (Refreshed i r)
  then show ?thesis by (simp split: option.split call.split waiter.split)
next
  case (Token_revoked i r)
  then show ?thesis by (simp add: token_revoked_def refresh_connect_def split: option.split call.split outcome.split)
next
  case (Token_minted i r)
  then show ?thesis by (simp add: token_minted_def refresh_connect_def split: option.split call.split outcome.split)
next
  case (Revoke_token x)
  then show ?thesis by simp
next
  case Submit_token
  have both: "(if b then x else if c then x else y) = (if b \<or> c then x else y)" for b c and x y :: "Connect \<times> HttpRequest list"
    by simp
  show ?thesis
  proof (cases "notEnabled t \<or> form_busy t \<or> \<not> nameValid t \<or> \<not> sitesValid t")
    case True
    then have "connect_step token e t = (t, [])" unfolding Submit_token connect_step.simps submit_token_def both by (simp only: True if_True)
    then show ?thesis by simp
  next
    case False
    then have "connect_step token e t
        = (issue (Creating 0) (t\<lparr>form_busy := True\<rparr>), [send token (createMCPToken (mint_body t))])"
      unfolding Submit_token connect_step.simps submit_token_def both by (simp only: False if_False)
    then show ?thesis using False by simp
  qed
qed (simp_all add: refresh_connect_def)

interpretation connect: admin_tab "connect_step token" creates_token for token
  by unfold_locales (rule connect_keeps_ok, assumption, rule connect_create_once)

section \<open>The secret\<close>

text \<open>The tokens minted since the box was last dismissed.\<close>

fun still_shown :: "connect_event \<Rightarrow> MCPToken list \<Rightarrow> MCPToken list" where
  "still_shown (Token_minted i (Returned k)) ks = k # ks"
| "still_shown Dismiss_token ks = []"
| "still_shown _ ks = ks"

definition shows_one_of :: "MCPToken list \<Rightarrow> Connect \<Rightarrow> bool" where
  "shows_one_of ks t \<longleftrightarrow> (case revealed t of Some k \<Rightarrow> k \<in> set ks | None \<Rightarrow> True)"

lemma revealed_fields [simp]:
  "revealed (refreshed r t) = revealed t" "revealed (issue c t) = revealed t" "revealed (settled i t) = revealed t"
  "hides (settled i t) = hides t"
  by (auto simp: refreshed_def issue_def settled_def split: outcome.split prod.split thrown.split)

lemma shows_one_step: "shows_one_of ks t \<Longrightarrow> shows_one_of (still_shown e ks) (fst (connect_step token e t))"
proof (cases e)
  case (Token_minted i r)
  then show "shows_one_of ks t \<Longrightarrow> shows_one_of (still_shown e ks) (fst (connect_step token e t))"
    by (cases r) (auto simp: shows_one_of_def token_minted_def refresh_connect_def split: option.splits call.split)
next
  case Submit_token
  then show "shows_one_of ks t \<Longrightarrow> shows_one_of (still_shown e ks) (fst (connect_step token e t))"
    unfolding Submit_token connect_step.simps submit_token_def by (simp add: shows_one_of_def split: if_split)
qed (auto simp: shows_one_of_def token_revoked_def refresh_connect_def split: option.splits call.split waiter.split outcome.split)

lemma shows_one_run:
  "shows_one_of ks t \<Longrightarrow> shows_one_of (fold still_shown es ks) (fst (tab_run (connect_step token) es t))"
proof (induction es arbitrary: ks t)
  case (Cons e es)
  from Cons.IH [OF shows_one_step [OF Cons.prems]] show ?case by (simp add: split_def)
qed simp

text \<open>
  C11: the secret and the form. In every run, the token in the box is one the server returned to a
  creation since the box was last dismissed; no listing ever brings one back, and dismissing empties the
  box. Creations are sent one at a time and the form is busy exactly while one is on its way. But
  the answer to a revocation whose click saw its own token in the box empties the box, also when
  another token has been created and shown in the meantime.
\<close>

theorem token_shown_once:
  "let t = fst (tab_run (connect_step token) es new_connect) in
     (case revealed t of Some k \<Rightarrow> k \<in> set (fold still_shown es []) | None \<Rightarrow> True)
     \<and> revealed (fst (connect_step token (Refreshed i r) t)) = revealed t
     \<and> revealed (fst (connect_step token Dismiss_token t)) = None
     \<and> form_contract (connect_step token) creates_token es new_connect
     \<and> (map_of (tab_calls t) i = Some (Row_delete 0 x) \<and> i \<in> set (hides t) \<longrightarrow>
          revealed (fst (connect_step token (Token_revoked i (Returned ())) t)) = None)"
proof -
  let ?t = "fst (tab_run (connect_step token) es new_connect)"
  have "shows_one_of [] new_connect" by (simp add: shows_one_of_def new_connect_def)
  from shows_one_run [OF this] have "shows_one_of (fold still_shown es []) ?t" .
  moreover have "table_ok new_connect" and "\<not> form_busy new_connect"
    by (simp_all add: table_ok_def form_calls_def new_connect_def keys_def)
  moreover from this have "form_contract (connect_step token) creates_token es new_connect"
    using connect.run_creates [of new_connect token es] connect.run_ok [of new_connect token es]
    by (simp add: form_contract_def split_def table_ok_def)
  ultimately show ?thesis
    by (simp add: Let_def shows_one_of_def token_revoked_def refresh_connect_def split: option.split call.split waiter.split)
qed

section \<open>The sites of a token\<close>

fun answer_ok :: "connect_event \<Rightarrow> bool" where
  "answer_ok (Refreshed i (Returned (c, ks))) = distinct (cn_sites c)"
| "answer_ok _ = True"

definition sites_ok :: "Connect \<Rightarrow> bool" where
  "sites_ok t \<longleftrightarrow>
     distinct (mf_sites t)
     \<and> (case conn t of
          None \<Rightarrow> mf_sites t = []
        | Some c \<Rightarrow> distinct (cn_sites c) \<and> (cn_sites c \<noteq> [] \<longrightarrow> set (mf_sites t) \<subseteq> set (cn_sites c)))"

lemma sites_ok_same: "sites_ok t \<Longrightarrow> mf_sites u = mf_sites t \<Longrightarrow> conn u = conn t \<Longrightarrow> sites_ok u"
  by (simp add: sites_ok_def split: option.splits)

lemma form_fields [simp]:
  "mf_sites (issue c t) = mf_sites t" "mf_sites (settled i t) = mf_sites t" "conn (issue c t) = conn t" "conn (settled i t) = conn t"
  by (simp_all add: issue_def settled_def)

lemma sites_ok_step:
  assumes "sites_ok t" and "answer_ok e"
  shows "sites_ok (fst (connect_step token e t))"
proof (cases e)
  case (Refreshed i r)
  have "sites_ok (refreshed r (settled i t))"
  proof (cases r)
    case (Returned a)
    then show ?thesis using assms by (cases a) (auto simp: Refreshed sites_ok_def refreshed_def split: option.splits)
  next
    case (Failed x)
    then show ?thesis by (intro sites_ok_same [OF assms(1)]) (simp_all add: refreshed_def split: thrown.split)
  qed
  then show ?thesis using assms(1) by (simp add: Refreshed split: option.split call.split waiter.split)
next
  case (Tick_site v)
  then show ?thesis using assms(1) by (auto simp: sites_ok_def toggle_site_def available_def split: option.splits)
next
  case Submit_token
  show ?thesis
    by (rule sites_ok_same [OF assms(1)]; unfold Submit_token connect_step.simps submit_token_def) (simp_all split: if_split)
qed (rule sites_ok_same [OF assms(1)];
     auto simp: token_revoked_def token_minted_def refresh_connect_def split: option.split call.split outcome.split)+

lemma sites_ok_run:
  "sites_ok t \<Longrightarrow> list_all answer_ok es \<Longrightarrow> sites_ok (fst (tab_run (connect_step token) es t))"
proof (induction es arbitrary: t)
  case (Cons e es)
  then have "sites_ok (fst (connect_step token e t))" by (simp add: sites_ok_step)
  with Cons show ?case by (simp add: split_def)
qed simp

lemma same_size_set:
  assumes "distinct xs" and "distinct ys" and "set xs \<subseteq> set ys" and "length xs = length ys"
  shows "set xs = set ys"
  using assms by (intro card_subset_eq) (simp_all add: distinct_card)

lemma sites_granted:
  assumes "sites_ok t" and "sitesValid t"
  shows "set (or_default (available t) (site_ids t)) = set (mf_sites t)"
proof (cases "length (mf_sites t) = length (available t)")
  case True
  then have "available t \<noteq> []" using assms(2) by (auto simp: sitesValid_def)
  then obtain c where c: "conn t = Some c" "cn_sites c \<noteq> []" by (auto simp: available_def split: option.splits)
  then have "set (mf_sites t) = set (cn_sites c)"
    using assms(1) True by (intro same_size_set) (simp_all add: sites_ok_def available_def)
  then show ?thesis using True c by (simp add: site_ids_def or_default_def available_def)
qed (simp add: site_ids_def or_default_def)

text \<open>
  C12: what a token is asked for. In every run with connections that list no site twice, a creation that is
  sent asks, in the body or by leaving the member out, for exactly the sites ticked in the form, of
  which there is at least one. But every new connection ticks all its sites again, and one is loaded after
  each creation and each revocation: a narrower choice does not last.
\<close>

theorem minted_sites:
  assumes "list_all answer_ok es"
  shows "let t = fst (tab_run (connect_step token) es new_connect) in
     (snd (connect_step token Submit_token t) \<noteq> [] \<longrightarrow>
        snd (connect_step token Submit_token t) = [send token (createMCPToken (mint_body t))]
        \<and> mf_sites t \<noteq> []
        \<and> set (or_default (available t) (site_ids t)) = set (mf_sites t))
     \<and> (distinct (cn_sites c) \<and> cn_sites c \<noteq> [] \<longrightarrow> mf_sites (refreshed (Returned (c, ks)) t) = cn_sites c)"
proof -
  let ?t = "fst (tab_run (connect_step token) es new_connect)"
  have "sites_ok new_connect" by (simp add: sites_ok_def new_connect_def)
  from sites_ok_run [OF this assms] have ok: "sites_ok ?t" .
  have again: "mf_sites (refreshed (Returned (c, ks)) ?t) = cn_sites c" if "distinct (cn_sites c)" "cn_sites c \<noteq> []"
    using that by (simp add: refreshed_def distinct_remdups_id)
  have "snd (connect_step token Submit_token ?t) = [send token (createMCPToken (mint_body ?t))] \<and> sitesValid ?t"
    if "snd (connect_step token Submit_token ?t) \<noteq> []"
    using that unfolding connect_step.simps submit_token_def by (auto split: if_splits)
  then show ?thesis using sites_granted [OF ok] again by (auto simp: Let_def sitesValid_def)
qed

definition example_connection :: MCPConnection where
  "example_connection = \<lparr>cn_enabled = True, cn_transport = [], cn_url = [], cn_role = [], cn_sites = [1, 2], cn_template = []\<rparr>"

theorem minted_sites_witness:
  "mf_sites (refreshed (Returned (example_connection, []))
      (fst (tab_run (connect_step ''t'') [Connect_mounted, Refreshed 0 (Returned (example_connection, [])), Tick_site 1] new_connect)))
     = [1, 2]"
  using minted_sites [of "[Connect_mounted, Refreshed 0 (Returned (example_connection, [])), Tick_site 1]" "''t''" example_connection "[]"]
  by (simp only: Let_def) (simp add: example_connection_def)

definition example_token :: "string \<Rightarrow> MCPToken" where
  "example_token x = \<lparr>token_id = x, tk_name = x, tk_sites = [1], tk_role = ''api'', tk_created = 1, tk_expires = 0,
     tk_last_used = 0, tk_secret = Some x\<rparr>"

text \<open>Two tokens: the first is revoked while its box is open, dismissed, and the second created.\<close>

definition two_tokens :: "connect_event list" where
  "two_tokens =
     [Connect_mounted, Refreshed 0 (Returned (example_connection, [])), Type_token_name ''1'', Submit_token,
      Token_minted 1 (Returned (example_token ''a'')), Refreshed 2 (Returned (example_connection, [example_token ''a''])),
      Revoke_token ''a'', Dismiss_token, Type_token_name ''1'', Submit_token, Token_minted 4 (Returned (example_token ''b''))]"

lemma one_name: "js_length (js_trim ''1'') = 1"
proof -
  have "js_trim ''1'' = ''1''" by (rule trim_digits) (simp_all add: is_digit_def)
  then show ?thesis by (simp add: js_length_def units_of_byte_def Let_def)
qed

lemma submit_sends:
  assumes "\<not> notEnabled t" and "\<not> form_busy t" and "mf_name t = ''1''" and "mf_sites t = [1, 2]"
  shows "connect_step token Submit_token t
    = (issue (Creating 0) (t\<lparr>form_busy := True\<rparr>), [send token (createMCPToken (mint_body t))])"
  unfolding connect_step.simps submit_token_def nameValid_def sitesValid_def assms(3,4) one_name by (simp add: assms(1,2))

lemma two_tokens_state:
  "let t = fst (tab_run (connect_step ''t'') two_tokens new_connect) in
     revealed t = Some (example_token ''b'') \<and> map_of (tab_calls t) 3 = Some (Row_delete 0 ''a'') \<and> 3 \<in> set (hides t)"
  unfolding two_tokens_def
  by (simp add: new_connect_def refresh_connect_def refreshed_def issue_def settled_def submit_sends token_minted_def
      example_connection_def or_default_def example_token_def del: connect_step.simps(11))

theorem token_shown_once_witness:
  "let t = fst (tab_run (connect_step ''t'') two_tokens new_connect) in
     revealed t = Some (example_token ''b'')
     \<and> revealed (fst (connect_step ''t'' (Token_revoked 3 (Returned ())) t)) = None"
  using token_shown_once [of "''t''" two_tokens 3 "Returned (example_connection, [])" "''a''"] two_tokens_state
  unfolding Let_def by blast

end
