(* ===== verification/Page.thy ===== *)
theory Page
  imports PropFilter Compare
begin

text \<open>
  The controls and the panels together: what a property filter set in the popover changes in the
  requests the panels send, in the address, and in the values the effects of the panels list.
\<close>

text \<open>The values a panel reads while it renders, from the store, the site signal and its own state.\<close>

definition page_inputs :: "rat \<Rightarrow> nat \<Rightarrow> int \<Rightarrow> Store \<Rightarrow> Inputs" where
  "page_inputs site limit beat s =
     \<lparr>in_site = site, in_range = rangeSignal s, in_filters = filtersSignal s, in_limit = limit, in_tick = beat\<rparr>"

text \<open>
  The reads of the panels: with the range (overview, trend, search, sources, campaigns), with the
  range and a limit (pages, places), of the realtime counters and the lists of goals and of sites, of the
  comparison with its two fields, and of the property names of a scope.
\<close>

definition comparing :: "string \<Rightarrow> string \<Rightarrow> Inputs \<Rightarrow> unit Cmp" where
  "comparing dm ev i =
     (new_cmp \<lparr>cmp_site = in_site i, cmp_filters = in_filters i, cmp_version = 0\<rparr>)\<lparr>cmp_dimension := dm, cmp_goal := ev\<rparr>"

definition names_query :: "scope \<Rightarrow> Inputs \<Rightarrow> params" where
  "names_query asked i = apiGet_query (in_site i) (in_filters i) [(''scope'', api_scope asked)]"

definition queries_of :: "string \<Rightarrow> string \<Rightarrow> scope \<Rightarrow> Inputs \<Rightarrow> params list" where
  "queries_of dm ev asked i =
     [range_query i, limit_query i, Realtime_query i, cmp_query (comparing dm ev i), names_query asked i]"

definition sent_under :: "scope \<Rightarrow> params \<Rightarrow> string set" where
  "sent_under sc q = set (params_get_all (PROP_PARAM_NAMES sc) q)"

text \<open>Every entry of a property scope goes out, and nothing else under its parameter.\<close>

lemma scope_parameters:
  assumes "resting s"
  shows "set (params_get_all (PROP_PARAM_NAMES sc) (filtersToQuery (filtersSignal s)))
    = (\<lambda>(n, v). prop_param n v) ` Map.graph (map_of (get_scope sc (filtersSignal s)))"
proof -
  let ?g = "get_scope sc (filtersSignal s)"
  have d: "distinct (map fst ?g)" and names: "list_all plain_name (map fst ?g)"
    using resting_names [OF assms, of sc] by (simp_all add: keys_def)
  have "filter (\<lambda>(n, _). n \<noteq> []) ?g = ?g"
    using names by (auto simp: filter_id_conv list_all_iff plain_name_def)
  moreover have "Map.graph (map_of ?g) = set ?g" using d by (simp add: graph_map_of_if_distinct_dom)
  ultimately show ?thesis
    by (simp add: params_get_all_filtersToQuery resting_facts(3) [OF assms])
qed

lemma sent_apiGet:
  assumes "resting s" and "distinct (keys x)" and "map_of x (PROP_PARAM_NAMES sc) = None"
  shows "sent_under sc (apiGet_query site (filtersSignal s) x)
    = (\<lambda>(n, v). prop_param n v) ` Map.graph (map_of (get_scope sc (filtersSignal s)))"
proof -
  have "PROP_PARAM_NAMES sc \<noteq> ''site''" by (cases sc) simp_all
  then show ?thesis using assms by (simp add: sent_under_def get_all_apiGet scope_parameters)
qed

lemma sent_resting:
  assumes "resting s"
  shows "map (sent_under sc) (queries_of dm ev asked (page_inputs site limit beat s))
    = replicate 5 ((\<lambda>(n, v). prop_param n v) ` Map.graph (map_of (get_scope sc (filtersSignal s))))"
proof -
  have "map_of (from_to i) (PROP_PARAM_NAMES sc) = None" "map_of (with_limit i) (PROP_PARAM_NAMES sc) = None"
    "map_of [(''dimension'', dm), (''goal'', ev)] (PROP_PARAM_NAMES sc) = None"
    "map_of [(''scope'', api_scope asked)] (PROP_PARAM_NAMES sc) = None" for i
    by (cases sc; simp add: from_to_def with_limit_def)+
  moreover have "distinct (keys (from_to i))" "distinct (keys (with_limit i))"
    "distinct (keys [(''dimension'', dm), (''goal'', ev)])" "distinct (keys [(''scope'', api_scope asked)])"
    "distinct (keys ([] :: props))" for i
    by (simp_all add: from_to_def with_limit_def keys_def)
  ultimately show ?thesis
    by (simp add: queries_of_def range_query_def limit_query_def Realtime_query_def cmp_query_def comparing_def
        new_cmp_def names_query_def page_inputs_def sent_apiGet [OF assms] eval_nat_numeral)
qed

lemma all_sent: "map f qs = replicate k x \<Longrightarrow> P x \<Longrightarrow> list_all (\<lambda>q. P (f q)) qs"
proof -
  assume eq: "map f qs = replicate k x" and x: "P x"
  have "y = x" if "y \<in> set (map f qs)" for y using that eq by (metis in_set_replicate)
  with x show ?thesis by (auto simp: list_all_iff)
qed

text \<open>What setting one property leaves alone, for the effects of the panels.\<close>

lemma scope_update_keeps:
  assumes "resting s" and "distinct (keys m)" and "list_all plain_name (keys m)"
  shows "rangeSignal (updateFilters [Scope sc m] s) = rangeSignal s"
proof -
  let ?m = "set_scope sc m (filtersSignal s)"
  have wf: "wf_filters ?m" using wf_set_scope resting_facts(3) [OF assms(1)] assms(2) by blast
  have days: "from_day ?m = from_day (filtersSignal s)" "to_day ?m = to_day (filtersSignal s)" by (cases sc; simp)+
  show ?thesis
    using updateFilters_facts(4) [OF assms(1), of "[Scope sc m]", unfolded merge_scope, OF wf] resting_facts(4) [OF assms(1)]
    by (auto simp: date_range_def days)
qed

lemma listed_keys:
  assumes "\<And>k. get_key k (filtersSignal t) = get_key k (filtersSignal s)" and "rangeSignal t = rangeSignal s"
    and "d \<in> {Overview_deps, TrendChart_deps, Pages_deps, SEO_deps, Sources_deps, Campaigns_deps, Geo_deps,
      Realtime_deps}"
  shows "d (page_inputs site limit beat t) = d (page_inputs site limit beat s)"
  using assms(1) [of Device] assms(1) [of Channel] assms(1) [of Country] assms(1) [of Path] assms(1) [of Sort]
    assms(1) [of Dir] assms(2,3)
  by (auto simp: page_inputs_def Overview_deps_def TrendChart_deps_def Pages_deps_def SEO_deps_def Sources_deps_def
      Campaigns_deps_def Geo_deps_def Realtime_deps_def range_deps_def)

section \<open>What keeps a property filter\<close>

text \<open>
  The steps of the page that write no entry of the given name in the given scope: filters that are
  not properties, dates, metrics, other properties, and a change of panel that keeps the parameters.
\<close>

fun other_event :: "scope \<Rightarrow> string \<Rightarrow> Store \<Rightarrow> store_event \<Rightarrow> bool" where
  "other_event sc n s (Nav e) =
     (case e of Navigate p (Some ps) \<Rightarrow> ps = hash_params s | _ \<Rightarrow> False)"
| "other_event sc n s (Update nxt) = list_all (\<lambda>a. case a of Key k v \<Rightarrow> True | Scope sc' m \<Rightarrow> False) nxt"
| "other_event sc n s (SetProp sc' n' v) = (plain_name n' \<and> (sc', n') \<noteq> (sc, n))"
| "other_event sc n s (RemoveProp sc' n') = ((sc', n') \<noteq> (sc, n))"
| "other_event sc n s Clear = False"
| "other_event sc n s e = True"

inductive later :: "scope \<Rightarrow> string \<Rightarrow> Store \<Rightarrow> Store \<Rightarrow> bool" for sc n where
  later_now: "later sc n s s"
| later_step: "later sc n s t \<Longrightarrow> other_event sc n t e \<Longrightarrow> later sc n s (store_step e t)"

lemma merge_keys:
  assumes "list_all (\<lambda>a. case a of Key k v \<Rightarrow> True | Scope sc' m \<Rightarrow> False) nxt"
  shows "get_scope sc (merge nxt f) = get_scope sc f"
  using assms
proof (induction nxt arbitrary: f)
  case (Cons a nxt)
  then show ?case by (cases a) (simp_all add: merge_def get_scope_set_key)
qed (simp add: merge_def)

lemma updated_keys:
  assumes "resting s" and "list_all (\<lambda>a. case a of Key k v \<Rightarrow> True | Scope sc' m \<Rightarrow> False) nxt"
  shows "map_of (get_scope sc (filtersSignal (updateFilters nxt s))) = map_of (get_scope sc (filtersSignal s))"
proof -
  let ?m = "merge nxt (filtersSignal s)"
  have wf: "wf_filters ?m"
    using resting_facts(3) [OF assms(1)] by (simp add: wf_filters_def all_scopes merge_keys [OF assms(2)])
  note F = updateFilters_facts [OF assms(1) wf]
  have "map_of (get_scope sc (filtersSignal (updateFilters nxt s))) = map_of (get_scope sc (queryToFilters (filtersToQuery ?m)))"
    using filters_equal_scope(1) [OF F(2) resting_facts(3) [OF F(5)]] queryToFilters_normal by simp
  then show ?thesis
    using read_back_plain [OF wf, of sc] resting_names [OF assms(1), of sc] by (simp add: merge_keys [OF assms(2)])
qed

lemma other_event_keeps:
  assumes "resting s" and "other_event sc n s e"
  shows "map_of (get_scope sc (filtersSignal (store_step e s))) n = map_of (get_scope sc (filtersSignal s)) n"
proof (cases e)
  case (Nav v)
  then obtain p where v: "v = Navigate p (Some (hash_params s))" using assms(2) by (auto split: nav_event.splits option.splits)
  let ?s = "s\<lparr>browser := nav_step v (browser s)\<rparr>"
  have "hash_params ?s = hash_params s" by (simp add: v navigate_def Let_def)
  then have "filters_effect ?s = ?s" using resting_facts(1) [OF assms(1)] by (simp add: filters_quiet)
  then show ?thesis by (simp add: Nav settle_def)
next
  case (Update nxt)
  with assms show ?thesis by (simp add: updated_keys)
next
  case (SetRange fr to)
  then show ?thesis
    using assms(1) settle_range_write [OF assms(1), of "(fr, to)"] updated_keys [of "settle (s\<lparr>rangeSignal := (fr, to)\<rparr>)" "[Key From fr, Key To to]"]
    by (simp add: setRange_def)
next
  case (SetProp sc' n' v)
  let ?g = "get_scope sc' (filtersSignal s)"
  have "plain_name n'" "n' \<noteq> []" using assms(2) SetProp by (auto simp: plain_name_def)
  moreover have "distinct (keys (obj_define n' v ?g))" "list_all plain_name (keys (obj_define n' v ?g))"
    using resting_names [OF assms(1), of sc'] \<open>plain_name n'\<close> by (auto simp: distinct_obj_define list_all_iff set_keys_obj_define)
  note updated_scope(1) [OF assms(1) this]
  ultimately show ?thesis using assms(2) SetProp by (auto simp: setPropFilter_def map_of_obj_define)
next
  case (RemoveProp sc' n')
  let ?g = "get_scope sc' (filtersSignal s)"
  have "distinct (keys (omap_delete n' ?g))" "list_all plain_name (keys (omap_delete n' ?g))"
    using resting_names [OF assms(1), of sc'] by (auto simp: distinct_omap_delete list_all_iff) (auto simp: keys_def omap_delete_def)
  note updated_scope(1) [OF assms(1) this]
  then show ?thesis using assms(2) RemoveProp by (auto simp: removePropFilter_def map_of_omap_delete)
next
  case (Toggle m)
  with assms show ?thesis by (simp add: toggleMetric_def updated_keys split: option.split)
next
  case Clear
  with assms show ?thesis by simp
qed

lemma other_event_wf: "other_event sc n s e \<Longrightarrow> wf_event e"
proof (cases e)
  case (Update nxt)
  moreover have "(case a of Key k v \<Rightarrow> True | Scope sc' m \<Rightarrow> False) \<Longrightarrow> wf_assignment a" for a by (cases a) simp_all
  ultimately show "other_event sc n s e \<Longrightarrow> wf_event e" by (auto simp: list_all_iff)
qed simp_all

lemma later_keeps:
  "later sc n s t \<Longrightarrow> reachable s \<Longrightarrow>
     reachable t \<and> map_of (get_scope sc (filtersSignal t)) n = map_of (get_scope sc (filtersSignal s)) n"
proof (induction rule: later.induct)
  case (later_step s t e)
  then have t: "reachable t" by simp
  then have "resting t" using reachable_ok by (simp add: store_ok_def)
  with later_step t show ?case using reach_step [OF t other_event_wf] other_event_keeps by metis
qed simp

text \<open>
  C23: from the popover to the server. In every reachable state of the page, when a name without a colon
  (and other than \<^verbatim>\<open>__proto__\<close>) and a value are typed into the popover and added, every read of every panel
  sends under the parameter of the chosen scope the entry \<open>name:value\<close> and the entries of the other names, and
  under the other scopes what was sent before. A fresh tab at the page's new address sends the same
  entries, and so does, for the new entry, every read after any later changes of dates, metrics, other filters
  and properties, and panels. But the values listed by the effects of the panels have not changed, those of
  the comparison apart, so no other panel that is open sends anything because of it.
\<close>

theorem popover_to_server:
  assumes "reachable s" and "canSubmit (pf_effects p)" and "plain_name (js_trim (pf_name (pf_effects p)))"
  shows "let d = pf_effects p; sc = pf_scope d; n = js_trim (pf_name d); v = js_trim (pf_value d);
             s' = snd (popover_store lower server Pf_submit (p, s));
             old = map_of (get_scope sc (filtersSignal s)); i = page_inputs site limit beat s; i' = page_inputs site limit beat s'
    in list_all (\<lambda>q. sent_under sc q = (\<lambda>(n, v). prop_param n v) ` Map.graph (old(n \<mapsto> v))) (queries_of dm ev asked i')
      \<and> (\<forall>other. other \<noteq> sc \<longrightarrow>
          map (sent_under other) (queries_of dm ev asked i') = map (sent_under other) (queries_of dm ev asked i))
      \<and> (\<forall>any. map (sent_under any) (queries_of dm ev asked
            (page_inputs site limit beat (boot now (location_hash (browser s')))))
          = map (sent_under any) (queries_of dm ev asked i'))
      \<and> (\<forall>t. later sc n s' t \<longrightarrow>
          list_all (\<lambda>q. prop_param n v \<in> sent_under sc q) (queries_of dm ev asked (page_inputs site' limit' beat' t)))
      \<and> Overview_deps i' = Overview_deps i \<and> TrendChart_deps i' = TrendChart_deps i \<and> Pages_deps i' = Pages_deps i
      \<and> SEO_deps i' = SEO_deps i \<and> Sources_deps i' = Sources_deps i \<and> Campaigns_deps i' = Campaigns_deps i
      \<and> Geo_deps i' = Geo_deps i \<and> Realtime_deps i' = Realtime_deps i"
proof -
  let ?d = "pf_effects p"
  let ?sc = "pf_scope ?d" and ?n = "js_trim (pf_name ?d)" and ?v = "js_trim (pf_value ?d)"
  let ?g = "get_scope ?sc (filtersSignal s)"
  let ?m = "obj_define ?n ?v ?g"
  let ?t = "updateFilters [Scope ?sc ?m] s"
  have ok: "resting s" using reachable_ok [OF assms(1)] by (simp add: store_ok_def)
  have n: "?n \<noteq> []" using assms(3) by (simp add: plain_name_def)
  have t: "snd (popover_store lower server Pf_submit (p, s)) = ?t"
    using assms(2) n by (simp add: popover_store_def submit_def setPropFilter_def)
  have m: "distinct (keys ?m)" "list_all plain_name (keys ?m)"
    using resting_names [OF ok, of ?sc] assms(3) by (auto simp: distinct_obj_define list_all_iff set_keys_obj_define)
  note U = updated_scope [OF ok m]
  have r: "reachable ?t" using reach_step [OF assms(1), of "SetProp ?sc ?n ?v"] n by (simp add: setPropFilter_def)
  then have tab: "filtersEqual (filtersSignal (boot now (location_hash (browser ?t)))) (filtersSignal ?t)"
    by (intro reopened_filters reachable_ok)
  have wf: "wf_filters (filtersSignal (boot now (location_hash (browser ?t))))" "wf_filters (filtersSignal ?t)"
    using resting_facts(3) boot_resting U(3) by blast+
  have same: "map_of (get_scope any (filtersSignal (boot now (location_hash (browser ?t))))) = map_of (get_scope any (filtersSignal ?t))"
    for any by (rule filters_equal_scope(1) [OF tab wf])
  have r': "resting ?t" by (rule U(3))
  have now: "list_all (\<lambda>q. sent_under ?sc q = (\<lambda>(n, v). prop_param n v) ` Map.graph ((map_of ?g)(?n \<mapsto> ?v)))
      (queries_of dm ev asked (page_inputs site limit beat ?t))"
    using sent_resting [OF r', of ?sc dm ev asked site limit beat] by (intro all_sent [where P = "\<lambda>x. x = _"]) (auto simp: U(1) map_of_obj_define)
  have after: "list_all (\<lambda>q. prop_param ?n ?v \<in> sent_under ?sc q) (queries_of dm ev asked (page_inputs site' limit' beat' u))"
    if "later ?sc ?n ?t u" for u
  proof -
    have "reachable u" and "map_of (get_scope ?sc (filtersSignal u)) ?n = Some ?v"
      using later_keeps [OF that r] by (simp_all add: U(1) map_of_obj_define)
    then have "prop_param ?n ?v \<in> (\<lambda>(n, v). prop_param n v) ` Map.graph (map_of (get_scope ?sc (filtersSignal u)))"
      by (force simp: Map.graph_def)
    moreover have "resting u" using reachable_ok [OF \<open>reachable u\<close>] by (simp add: store_ok_def)
    ultimately show ?thesis
      using sent_resting [OF \<open>resting u\<close>, of ?sc dm ev asked site' limit' beat']
      by (intro all_sent [where P = "\<lambda>x. _ \<in> x"]) auto
  qed
  have others: "map (sent_under other) (queries_of dm ev asked (page_inputs site limit beat ?t))
      = map (sent_under other) (queries_of dm ev asked (page_inputs site limit beat s))" if "other \<noteq> ?sc" for other
    using that by (simp add: sent_resting ok r' U(1))
  have fresh_tab: "map (sent_under any) (queries_of dm ev asked (page_inputs site limit beat (boot now (location_hash (browser ?t)))))
      = map (sent_under any) (queries_of dm ev asked (page_inputs site limit beat ?t))" for any
    by (simp add: sent_resting boot_resting r' same)
  show ?thesis
    unfolding Let_def t
    by (intro conjI allI impI now after others fresh_tab; (assumption | simp add: listed_keys [OF U(2) scope_update_keeps [OF ok m]])?)
qed

definition typed_popover :: Popover where
  "typed_popover = example_popover\<lparr>pf_value := ''2'', pf_mark_last := Some (Some Value_field, ''1'', ''2'')\<rparr>"

theorem popover_to_server_witness:
  "list_all (\<lambda>q. sent_under HitProps q = {''1:2''})
     (queries_of ''hit:x'' ''signup'' UserProps
       (page_inputs 7 10 0 (snd (popover_store (\<lambda>s. s) example_catalogue Pf_submit (typed_popover, boot 0 [])))))"
proof -
  have one: "js_trim ''1'' = ''1''" and two: "js_trim ''2'' = ''2''" by (rule trim_digits; simp add: is_digit_def)+
  have fx: "pf_effects typed_popover = typed_popover"
    by (simp add: typed_popover_def example_popover_def new_popover_def pf_effects_def fetch_effect_def autofocus_effect_def
        mark_effect_def was_open_def)
  have fields: "pf_name typed_popover = ''1''" "pf_value typed_popover = ''2''" "pf_scope typed_popover = HitProps"
    by (simp_all add: typed_popover_def example_popover_def new_popover_def)
  have empty: "get_scope HitProps (filtersSignal (boot 0 [])) = []"
    by (simp add: boot_def boot_hash_def boot_filters_def parseHash_def parse_params_def read_back_scope Let_def
        decode_scope_def params_get_all_def del: get_scope.simps)
  have "canSubmit (pf_effects typed_popover)" and "plain_name (js_trim (pf_name (pf_effects typed_popover)))"
    by (simp_all add: fx fields canSubmit_def one two plain_name_def)
  note sent = popover_to_server [OF reach_boot this, of "\<lambda>s. s" example_catalogue 0 "[]" 7 10 0, unfolded Let_def, THEN conjunct1]
  show ?thesis
    using sent [of "''hit:x''" "''signup''" UserProps]
    by (simp add: fx fields one two empty prop_param_def graph_map_upd del: get_scope.simps)
qed

end
