(* ===== verification/Spec2Isabelle.thy ===== *)
theory Spec2Isabelle
  imports Format Field Signals Session AdminApi Tracker CampaignTree Chart View Widgets Controls Login Fetching Admin_Panel Geo Compare PropFilter Connect Page
begin

text \<open>
  statnive.live: a self-hosted analytics service. This development models its client code, which is
  everything it has in JavaScript and TypeScript: the dashboard \<^verbatim>\<open>web/src\<close>, a single-page
  application on Preact signals, and the tracker \<^verbatim>\<open>tracker/src/tracker.js\<close> that customers embed.
  Source paths are relative to the root of the repository.

  \<^bold>\<open>The program and how its parts interact\<close>

  The tracker runs on a customer's page and sends events. The dashboard reads reports over them. Its
  shared state is a handful of signals at module level: the parsed location hash
  (\<^verbatim>\<open>state/hash.ts\<close>), the filters (\<^verbatim>\<open>state/filters.ts\<close>), the date range
  (\<^verbatim>\<open>state/range.ts\<close>), the active site (\<^verbatim>\<open>state/site.ts\<close>) and the authentication
  (\<^verbatim>\<open>state/auth.ts\<close>). Effects keep hash, filters and range equal to each other, whoever writes.
  \<^verbatim>\<open>App.tsx\<close> shows the sign-in page or the frame by the authentication state; the tab in the hash
  chooses a panel. A panel asks the server through \<^verbatim>\<open>api/client.ts\<close>, whose query is the active
  site, the explicit parameters of the panel and the filters; the controls (tabs, filter
  panel, property popover, date picker, site switcher, sortable headers) write the signals. The
  administration and the connecting of assistants go through \<^verbatim>\<open>api/admin.ts\<close> and
  \<^verbatim>\<open>api/mcp.ts\<close>.

  \<^bold>\<open>How the model is made\<close>

  Code that changes shared state is a function on a record of that state. Code that waits
  (\<open>await\<close>, a timer, an effect) is cut at the waiting: each piece is a step, a request carries the number
  that tells its answer apart, and a run is a list of events in any order, so late and lost answers and
  interleavings are covered by the theorems over all runs. Errors are values: \<open>None\<close> or \<open>Inl\<close>
  where the code throws or rejects. A component is a function to a rendered tree (View.\<open>vnode\<close>)
  whose handlers return actions, and the handler of each action is a step. Strings are the bytes of
  their UTF-8 text, as \<open>string\<close> has 8-bit characters; sizes the code counts in UTF-16 units are
  counted so. Numbers are rationals with the rounding to binary64 written where an operation can
  round; counters are integers, exact below 2 ^ 53 (Js_Number.\<open>dbl_of_int\<close>). Objects with insertion
  order and \<open>Map\<close>s are association lists.

  \<^bold>\<open>Theories\<close>

  \<^item> \<^emph>\<open>The platform.\<close> Prelude: insertion-ordered objects, the stable sort, the collections
  \<open>obj_simps\<close>, \<open>text_simps\<close>, \<open>num_simps\<close>. Js_Text: UTF-8 strings, trimming, percent
  encoding, \<^verbatim>\<open>URLSearchParams\<close>; Trim: what trimming does. Js_Number: numbers and their texts.
  Json: values, \<^verbatim>\<open>JSON.stringify\<close> and \<^verbatim>\<open>JSON.parse\<close>, with the round trip. Dates: the Gregorian
  calendar behind \<^verbatim>\<open>Date\<close>.

  \<^item> \<^emph>\<open>Helpers.\<close> Format: \<^verbatim>\<open>lib/fmt.ts\<close>, \<^verbatim>\<open>lib/rows.ts\<close>, \<^verbatim>\<open>lib/tz.ts\<close>, \<^verbatim>\<open>lib/countries.ts\<close>. Field:
  \<^verbatim>\<open>lib/field.ts\<close> by regular expressions and their languages, \<^verbatim>\<open>lib/errorMessage.ts\<close> and
  \<^verbatim>\<open>HttpError\<close>. Rows: the row types of \<^verbatim>\<open>api/generated.ts\<close>.

  \<^item> \<^emph>\<open>Shared state.\<close> Hash: \<^verbatim>\<open>state/hash.ts\<close> over a browser history as a zipper (Hash.\<open>Browser\<close>).
  Filters: the pure part of \<^verbatim>\<open>state/filters.ts\<close>. Range: \<^verbatim>\<open>state/range.ts\<close>. Signals: the record
  Signals.\<open>Store\<close> of hash, filters and range with the two effects and every writer; Signals.\<open>reachable\<close> is
  what any sequence of writers and browser events reaches. Session: \<^verbatim>\<open>state/site.ts\<close>,
  \<^verbatim>\<open>state/auth.ts\<close>, \<^verbatim>\<open>App.tsx\<close>, \<^verbatim>\<open>main.tsx\<close>, \<^verbatim>\<open>api/client.ts\<close>, \<^verbatim>\<open>state/realtime.ts\<close>.
  AdminApi: \<^verbatim>\<open>api/admin.ts\<close>, \<^verbatim>\<open>api/mcp.ts\<close>.

  \<^item> \<^emph>\<open>The tracker.\<close> Tracker: \<^verbatim>\<open>tracker/src/tracker.js\<close>, its closure and the page it runs in as two
  records, the listeners it leaves behind as events.

  \<^item> \<^emph>\<open>Reports.\<close> CampaignTree: \<^verbatim>\<open>lib/campaignTree.ts\<close>. Chart: \<^verbatim>\<open>state/tokens.ts\<close> and \<^verbatim>\<open>lib/chart.ts\<close>.
  Fetching: the effect of every panel, the values it lists and the query it sends. Tables:
  \<^verbatim>\<open>panels/Overview.tsx\<close>, \<^verbatim>\<open>TrendChart.tsx\<close>, \<^verbatim>\<open>Pages.tsx\<close>, \<^verbatim>\<open>SEO.tsx\<close>, \<^verbatim>\<open>Sources.tsx\<close>,
  \<^verbatim>\<open>SourcesByChannelChart.tsx\<close>, \<^verbatim>\<open>PieSummaryList.tsx\<close>, \<^verbatim>\<open>Realtime.tsx\<close>, \<^verbatim>\<open>DualBar.tsx\<close>,
  and the life of a chart (\<^verbatim>\<open>components/Chart.tsx\<close>). CampaignView:
  \<^verbatim>\<open>panels/Campaigns.tsx\<close>, \<^verbatim>\<open>CampaignCharts.tsx\<close>. Geo: \<^verbatim>\<open>panels/Geo.tsx\<close>. Listbox and
  Compare: \<^verbatim>\<open>panels/Compare.tsx\<close>.

  \<^item> \<^emph>\<open>Components.\<close> View: rendered trees and the stateless components of \<^verbatim>\<open>components/\<close>. Widgets:
  \<^verbatim>\<open>lib/lazy.ts\<close>, \<^verbatim>\<open>LazyChart.tsx\<close>, \<^verbatim>\<open>LazyCally.tsx\<close>, \<^verbatim>\<open>LazyPanel.tsx\<close>. Controls:
  \<^verbatim>\<open>SiteSwitcher.tsx\<close>, \<^verbatim>\<open>DatePicker.tsx\<close>. PropFilter: \<^verbatim>\<open>PropFilterAdd.tsx\<close>. Html: shorthands
  for larger trees. Login: \<^verbatim>\<open>pages/Login.tsx\<close>.

  \<^item> \<^emph>\<open>Administration.\<close> Admin_Table: the table, the numbered calls and the form the tabs share. Users_Tab,
  Goals_Tab, Sites_Tab: \<^verbatim>\<open>panels/admin/UsersTab.tsx\<close>, \<^verbatim>\<open>GoalsTab.tsx\<close>, \<^verbatim>\<open>SitesTab.tsx\<close> with
  \<^verbatim>\<open>TrackerInstallCard.tsx\<close>. SiteConfig: \<^verbatim>\<open>SiteConfigureModal.tsx\<close>. Admin_Panel:
  \<^verbatim>\<open>panels/Admin.tsx\<close>. Connect: \<^verbatim>\<open>panels/ConnectAssistant.tsx\<close>.

  \<^bold>\<open>What the lemmas show\<close>

  The synchronisation: the locale \<open>two_effects\<close> (Signals) states when two effects settle in one state
  whatever the order of their runs, in at most three runs that change something; \<open>store\<close> interprets
  it on the two effects of the code. \<open>Net\<close> adds the identity of the values, since a write of an equal but
  fresh object notifies too: the guards in the two effects bound the reruns by six. On the locale rest the specifications of \<open>updateFilters\<close>,
  \<open>setRange\<close>, the property filters, and the invariant of all reachable stores that the address of the page
  reproduces panel, filters and range in a fresh tab. Hash and Filters give the two round trips this needs.

  The requests: the locale \<open>refetch\<close> (Fetching) states what a list of effect inputs must cover for
  a settled panel to show the answer to its present question; it is interpreted for seven
  requests of the panels, with the part of the query each covers as its parameter, since no panel lists
  the property filters. Compare and PropFilter have module caches and delays of their own, and their
  invariants say what a cached list is the answer to and when nothing is left to wait for.

  Forms that wait: the locale \<open>admin_tab\<close> (Admin_Table) states that creations are sent one at a time
  and that a form rests when everything is answered; \<open>users\<close>, \<open>goals\<close>, \<open>sites\<close> and
  \<open>connect\<close> interpret it. SiteConfig gives the patch against a reference (writing every field of the
  draft), and the gate before it is sent.

  Smaller contracts: \<open>persisted\<close> (Session) for the persisted site id, \<open>memo_table\<close> (Format) for
  both formatter caches, \<open>tally\<close> (CampaignTree) for the four counters summed over the tree.

  Data and its display: the tree has a node exactly for the path prefixes of rows with the sums over the
  rows below; grouping, rolling up and expanding show each row exactly once; slices, legends and
  summaries agree with each other and with the totals.

  The tracker: which messages each event sends, what they carry, and that without consent no property is
  stored or sent. Validators: the languages they accept. The clients: query, headers, body and
  outcome of each status.

  The page as a whole: Page follows a property filter from the popover through the store to the query of
  every read, to the address and to what the effects of the panels list.

  \<^bold>\<open>Fuel and bounds\<close>

  Trimming takes the length of the text as fuel, and \<open>strip_fuel_stuck\<close> (Trim) shows nothing is left
  to strip then. The JSON parser takes the length of its input, which the round trip shows to be
  enough for every printed text. The shortest decimal of an integer tries up to 17 digits, which
  determine a binary64 number. Runs are finite lists of any length; no run is cut. Everything else
  is total by structural recursion or a proved measure.

  \<^bold>\<open>Parameters\<close>

  Not under the sources, and so arguments of the definitions: the answers of the server; the ICU tables
  behind \<^verbatim>\<open>Intl.NumberFormat\<close>, \<^verbatim>\<open>Intl.DateTimeFormat\<close> and \<^verbatim>\<open>localeCompare\<close>; \<^verbatim>\<open>toLowerCase\<close>; computed styles; what an engine
  reads in a date that does not exist; what a URL parser makes of an address that names a host;
  what ECharts, the calendar element and the \<open>Importer\<close> of a lazy module deliver.

  \<^bold>\<open>Not modelled\<close>

  The server and its command line tools (\<^verbatim>\<open>cmd/\<close>, \<^verbatim>\<open>internal/\<close>) are Go; the shape of their answers enters
  through the rows and the JSON values. The rest of \<^verbatim>\<open>api/generated.ts\<close> is declarations
  without operations, and \<^verbatim>\<open>api/types.ts\<close> only renames some of them. The bundles in
  \<^verbatim>\<open>docs/api\<close> and \<^verbatim>\<open>internal/tracker/dist\<close> are vendored or built. Tests and their
  fixtures, the load scripts, build configuration, style sheets, deployment files and documents carry no
  behaviour of the program. Inside the modelled files left out are: moving the
  keyboard focus (but for the focus trap of the dialog, which is the index it moves to), drawing
  on a canvas, mounting into the document, console output, and the exponent range of binary64.
\<close>

end
